(* ===== verification/Prelude.thy ===== *)
theory Prelude
  imports Main "HOL-Library.AList" "HOL-Library.Multiset" "HOL-Library.Char_ord"
    "HOL-Library.List_Lexorder" "HOL-Library.Product_Lexorder" "HOL-Library.Word"
begin

text \<open>
  Shared vocabulary of the development: the result type of fallible Go functions, Go maps as
  association lists, \<open>sort.Slice\<close>, and the interfaces (locales) the components are connected
  through.

  A Go function returning \<open>(T, error)\<close> is a value of the sum type \<open>'e + 'a\<close>: \<open>Inl\<close> is the
  non-nil error, \<open>Inr\<close> the result. A Go map is an association list: \<open>map_of\<close> is the lookup,
  \<open>AList.update\<close> the assignment, and the order of the list stands for the (unspecified)
  iteration order of \<open>range\<close>; every listing operation is proved not to depend on it.
\<close>

named_theorems model_defs \<open>definitions unfolded by the functional-behaviour proofs\<close>
named_theorems frame_simps \<open>what an operation leaves unchanged\<close>

type_synonym ('k, 'v) gomap = "('k \<times> 'v) list"

abbreviation keys :: "('k, 'v) gomap \<Rightarrow> 'k list" where
  "keys m \<equiv> map fst m"

abbreviation vals :: "('k, 'v) gomap \<Rightarrow> 'v list" where
  "vals m \<equiv> map snd m"

text \<open>One entry per key: what every Go map satisfies by construction.\<close>

definition wf_map :: "('k, 'v) gomap \<Rightarrow> bool" where
  "wf_map m \<longleftrightarrow> distinct (keys m)"

lemma wf_map_Nil [simp, intro]: "wf_map []"
  by (simp add: wf_map_def)

lemma wf_map_update [simp, intro]: "wf_map m \<Longrightarrow> wf_map (AList.update k v m)"
  by (simp add: wf_map_def distinct_update)

lemma map_of_update [simp]: "map_of (AList.update k v m) = (map_of m)(k \<mapsto> v)"
  by (rule update_conv')

lemma wf_map_in_set: "wf_map m \<Longrightarrow> (k, v) \<in> set m \<longleftrightarrow> map_of m k = Some v"
  by (simp add: wf_map_def)

lemma wf_map_vals: "wf_map m \<Longrightarrow> set (vals m) = ran (map_of m)"
  by (auto simp: ran_def wf_map_in_set [symmetric] image_iff) force+

lemma wf_map_entries_perm:
  assumes "wf_map m" and "wf_map m'" and "map_of m = map_of m'"
  shows "mset m = mset m'"
proof -
  have "distinct m" "distinct m'"
    using assms by (auto simp: wf_map_def distinct_map)
  moreover have "set m = set m'"
    using assms by (auto simp: wf_map_in_set)
  ultimately show ?thesis by (simp add: set_eq_iff_mset_eq_distinct)
qed

lemma map_of_fresh_update: "k \<notin> set (keys m) \<Longrightarrow> AList.update k v m = m @ [(k, v)]"
  by (induction m) auto

section \<open>Early returns\<close>

text \<open>\<open>if err != nil { return err }\<close>: the rest of the function runs on the result only.\<close>

definition and_then :: "'e + 'a \<Rightarrow> ('a \<Rightarrow> 'e + 'b) \<Rightarrow> 'e + 'b" where
  "and_then m f = (case m of Inl e \<Rightarrow> Inl e | Inr x \<Rightarrow> f x)"

lemma and_then_simps [simp]:
  "and_then (Inl e) f = Inl e" "and_then (Inr x) f = f x"
  by (simp_all add: and_then_def)

lemma and_then_Inr: "and_then m f = Inr y \<longleftrightarrow> (\<exists>x. m = Inr x \<and> f x = Inr y)"
  by (cases m) simp_all

lemma and_then_Inl: "and_then m f = Inl e \<longleftrightarrow> m = Inl e \<or> (\<exists>x. m = Inr x \<and> f x = Inl e)"
  by (cases m) simp_all

lemma and_then_cong [fundef_cong]:
  "m = m' \<Longrightarrow> (\<And>x. m' = Inr x \<Longrightarrow> f x = g x) \<Longrightarrow> and_then m f = and_then m' g"
  by (cases m') simp_all

section \<open>Counting the entries of a map\<close>

definition count_vals :: "('v \<Rightarrow> bool) \<Rightarrow> ('k, 'v) gomap \<Rightarrow> nat" where
  "count_vals P m = length (filter P (vals m))"

lemma count_vals_Nil [simp]: "count_vals P [] = 0"
  by (simp add: count_vals_def)

lemma count_vals_Cons [simp]:
  "count_vals P ((k, v) # m) = (if P v then 1 else 0) + count_vals P m"
  by (simp add: count_vals_def)

text \<open>The effect of one assignment on a count: the replaced entry leaves, the new one enters.\<close>

lemma count_vals_update:
  "wf_map m \<Longrightarrow>
   count_vals P (AList.update k v m) + (case map_of m k of Some u \<Rightarrow> if P u then 1 else 0 | None \<Rightarrow> 0) =
   count_vals P m + (if P v then 1 else 0)"
proof (induction m)
  case Nil
  then show ?case by simp
next
  case (Cons e m)
  obtain j u where e: "e = (j, u)" by (cases e)
  from Cons.prems e have "wf_map m" by (simp add: wf_map_def)
  note IH = Cons.IH [OF this]
  show ?case
  proof (cases "j = k")
    case True
    then show ?thesis using e by simp
  next
    case False
    with e IH show ?thesis by (simp split: if_splits)
  qed
qed

section \<open>sort.Slice\<close>

text \<open>
  Go's \<open>sort.Slice\<close> permutes the slice into an order compatible with \<open>less\<close>; it is not
  stable. Every comparator of the program orders by a key that is injective on the slice, so
  the sorted slice is unique; insertion sort computes it.
\<close>

fun insert_by :: "('a \<Rightarrow> 'a \<Rightarrow> bool) \<Rightarrow> 'a \<Rightarrow> 'a list \<Rightarrow> 'a list" where
  "insert_by lt x [] = [x]"
| "insert_by lt x (y # ys) = (if lt y x then y # insert_by lt x ys else x # y # ys)"

fun sort_slice :: "('a \<Rightarrow> 'a \<Rightarrow> bool) \<Rightarrow> 'a list \<Rightarrow> 'a list" where
  "sort_slice lt [] = []"
| "sort_slice lt (x # xs) = insert_by lt x (sort_slice lt xs)"

lemma mset_insert_by [simp]: "mset (insert_by lt x ys) = add_mset x (mset ys)"
  by (induction ys) auto

lemma mset_sort_slice [simp]: "mset (sort_slice lt xs) = mset xs"
  by (induction xs) auto

lemma set_sort_slice [simp]: "set (sort_slice lt xs) = set xs"
  by (metis mset_sort_slice set_mset_mset)

lemma length_sort_slice [simp]: "length (sort_slice lt xs) = length xs"
  by (metis mset_sort_slice size_mset)

lemma distinct_sort_slice [simp]: "distinct (sort_slice lt xs) = distinct xs"
  by (metis mset_sort_slice mset_eq_imp_distinct_iff)

text \<open>
  The interface between a comparator and its clients: \<open>less\<close> is the strict order of a key.
  From it follow sortedness and independence of the order the elements came in.
\<close>

locale slice_order =
  fixes lt :: "'a \<Rightarrow> 'a \<Rightarrow> bool" and sort_key_of :: "'a \<Rightarrow> 'k::linorder"
  assumes less_iff: "lt x y \<longleftrightarrow> sort_key_of x < sort_key_of y"
begin

lemma insert_by_insort: "insert_by lt x ys = insort_key sort_key_of x ys"
  by (induction ys) (auto simp: less_iff)

lemma sort_slice_sort_key: "sort_slice lt xs = sort_key sort_key_of xs"
  by (induction xs) (simp_all add: insert_by_insort)

lemma sorted_slice: "sorted (map sort_key_of (sort_slice lt xs))"
  by (simp add: sort_slice_sort_key)

lemma sorted_wrt_slice: "sorted_wrt (\<lambda>x y. \<not> lt y x) (sort_slice lt xs)"
  using sorted_slice [of xs] by (simp add: sorted_map less_iff not_less)

lemma sort_slice_perm:
  assumes "mset xs = mset ys" and "inj_on sort_key_of (set xs)"
  shows "sort_slice lt xs = sort_slice lt ys"
proof -
  have "sort_key sort_key_of ys = sort_key sort_key_of xs"
  proof (rule properties_for_sort_key)
    show "mset (sort_key sort_key_of xs) = mset ys" using assms(1) by simp
    show "sorted (map sort_key_of (sort_key sort_key_of xs))" by simp
    fix k assume "k \<in> set (sort_key sort_key_of xs)"
    have "inj_on sort_key_of (set ys)" using assms by (metis set_mset_mset)
    then have *: "\<And>zs. mset zs = mset ys \<Longrightarrow>
        filter (\<lambda>x. sort_key_of k = sort_key_of x) zs = filter (\<lambda>x. x = k) zs"
    proof -
      fix zs assume zs: "mset zs = mset ys"
      have "set zs = set ys" "k \<in> set ys"
        using zs assms(1) \<open>k \<in> set (sort_key sort_key_of xs)\<close> by (auto dest: mset_eq_setD)
      with \<open>inj_on sort_key_of (set ys)\<close>
      show "filter (\<lambda>x. sort_key_of k = sort_key_of x) zs = filter (\<lambda>x. x = k) zs"
        by (intro filter_cong) (auto dest: inj_onD)
    qed
    have "filter (\<lambda>x. x = k) zs = replicate (count (mset zs) k) k" for zs
      by (induction zs) auto
    then show "filter (\<lambda>x. sort_key_of k = sort_key_of x) (sort_key sort_key_of xs) =
        filter (\<lambda>x. sort_key_of k = sort_key_of x) ys"
      using assms(1) by (simp add: *)
  qed
  then show ?thesis by (simp add: sort_slice_sort_key)
qed

lemma sort_slice_id: "sorted (map sort_key_of xs) \<Longrightarrow> sort_slice lt xs = xs"
  by (simp add: sort_slice_sort_key sort_key_id_if_sorted)

end

section \<open>Keyed stores\<close>

text \<open>
  The contract shared by the repositories and the idempotency store: a write to one key is
  read back there and nowhere else. Its clients are the services and the HTTP handlers.
\<close>

locale keyed_store =
  fixes lookup :: "'s \<Rightarrow> 'k \<Rightarrow> 'v option" and store :: "'s \<Rightarrow> 'k \<Rightarrow> 'v \<Rightarrow> 's"
  assumes lookup_store: "lookup (store s k v) j = (if j = k then Some v else lookup s j)"
begin

lemma lookup_store_same: "lookup (store s k v) k = Some v"
  by (simp add: lookup_store)

lemma lookup_store_other: "j \<noteq> k \<Longrightarrow> lookup (store s k v) j = lookup s j"
  by (simp add: lookup_store)

lemma last_write_wins: "lookup (store (store s k v) k w) = lookup (store s k w)"
  by (rule ext) (simp add: lookup_store)

lemma writes_commute:
  "j \<noteq> k \<Longrightarrow> lookup (store (store s j v) k w) = lookup (store (store s k w) j v)"
  by (rule ext) (simp add: lookup_store)

lemma store_preserves_all:
  "(\<And>j u. lookup s j = Some u \<Longrightarrow> P j u) \<Longrightarrow> P k v \<Longrightarrow>
   lookup (store s k v) j = Some u \<Longrightarrow> P j u"
  by (simp add: lookup_store split: if_splits)

end

end
