(* ===== verification/GoText.thy ===== *)
theory GoText
  imports Prelude
begin

text \<open>
  Go strings and the part of the packages \<open>strings\<close>, \<open>unicode/utf8\<close> and \<open>fmt\<close> the program
  uses. A Go string is a sequence of bytes, so it is a \<open>string\<close> whose characters are bytes;
  comparison of strings is bytewise (the lexicographic order of \<open>List_Lexorder\<close>). Runes are
  decoded as \<open>utf8.DecodeRuneInString\<close> does, invalid bytes giving U+FFFD with width one.

  Unicode's white space is a short list and is written out. Unicode's case tables beyond ASCII
  (\<open>unicode.ToLower\<close>, \<open>unicode.SimpleFold\<close>) and the RFC 5322 parser \<open>net/mail.ParseAddress\<close>
  are data and code outside the repository: the fields of \<open>go_env\<close>, arguments of the model.
  At the end, \<open>NormalizeHumanName\<close> of internal/domain/normalize.go.
\<close>

type_synonym gostring = string

record go_env =
  env_to_lower :: "nat \<Rightarrow> nat"                    \<comment> \<open>\<open>unicode.ToLower\<close>, used from U+0080 on\<close>
  env_same_fold :: "nat \<Rightarrow> nat \<Rightarrow> bool"            \<comment> \<open>same \<open>unicode.SimpleFold\<close> orbit, smaller rune first\<close>
  env_parse_address :: "gostring \<Rightarrow> gostring + gostring"  \<comment> \<open>\<open>mail.ParseAddress\<close>: error text or \<open>Address\<close>\<close>

section \<open>Runes\<close>

definition byte_of :: "char \<Rightarrow> nat" where
  "byte_of c = of_char c"

definition rune_error :: nat where
  "rune_error = 0xFFFD"

definition is_cont :: "nat \<Rightarrow> bool" where
  "is_cont b \<longleftrightarrow> 0x80 \<le> b \<and> b \<le> 0xBF"

text \<open>The table \<open>first\<close> of unicode/utf8: size of the sequence and range of its second byte.\<close>

definition lead_info :: "nat \<Rightarrow> (nat \<times> nat \<times> nat) option" where
  "lead_info b =
     (if 0xC2 \<le> b \<and> b \<le> 0xDF then Some (2, 0x80, 0xBF)
      else if b = 0xE0 then Some (3, 0xA0, 0xBF)
      else if b = 0xED then Some (3, 0x80, 0x9F)
      else if 0xE1 \<le> b \<and> b \<le> 0xEF then Some (3, 0x80, 0xBF)
      else if b = 0xF0 then Some (4, 0x90, 0xBF)
      else if 0xF1 \<le> b \<and> b \<le> 0xF3 then Some (4, 0x80, 0xBF)
      else if b = 0xF4 then Some (4, 0x80, 0x8F)
      else None)"

text \<open>\<open>utf8.DecodeRuneInString\<close>: the first rune and its width; \<open>(RuneError, 0)\<close> if empty.\<close>

definition decode_bytes :: "nat list \<Rightarrow> nat \<times> nat" where
  "decode_bytes bs =
     (case bs of [] \<Rightarrow> (rune_error, 0)
      | b0 # r0 \<Rightarrow>
        if b0 < 0x80 then (b0, 1)
        else (case lead_info b0 of None \<Rightarrow> (rune_error, 1)
          | Some (sz, lo, hi) \<Rightarrow>
            (case r0 of [] \<Rightarrow> (rune_error, 1)
             | b1 # r1 \<Rightarrow>
               if b1 < lo \<or> hi < b1 then (rune_error, 1)
               else if sz = 2 then ((b0 mod 0x20) * 0x40 + b1 mod 0x40, 2)
               else (case r1 of [] \<Rightarrow> (rune_error, 1)
                 | b2 # r2 \<Rightarrow>
                   if \<not> is_cont b2 then (rune_error, 1)
                   else if sz = 3 then
                     ((b0 mod 0x10) * 0x1000 + (b1 mod 0x40) * 0x40 + b2 mod 0x40, 3)
                   else (case r2 of [] \<Rightarrow> (rune_error, 1)
                     | b3 # _ \<Rightarrow>
                       if \<not> is_cont b3 then (rune_error, 1)
                       else ((b0 mod 0x8) * 0x40000 + (b1 mod 0x40) * 0x1000
                              + (b2 mod 0x40) * 0x40 + b3 mod 0x40, 4))))))"

definition decode_rune :: "gostring \<Rightarrow> nat \<times> nat" where
  "decode_rune s = decode_bytes (map byte_of (take 4 s))"

lemma decode_bytes_width:
  "bs \<noteq> [] \<Longrightarrow> 1 \<le> snd (decode_bytes bs) \<and> snd (decode_bytes bs) \<le> length bs"
  by (auto simp: decode_bytes_def lead_info_def split: list.splits)

lemma decode_rune_width:
  assumes "s \<noteq> []"
  shows "1 \<le> snd (decode_rune s)" and "snd (decode_rune s) \<le> length s"
  using decode_bytes_width [of "map byte_of (take 4 s)"] assms by (auto simp: decode_rune_def)

text \<open>\<open>for _, r := range s\<close> and \<open>[]rune(s)\<close>: the runes in order.\<close>

function runes :: "gostring \<Rightarrow> nat list" where
  "runes s = (if s = [] then []
     else let (r, w) = decode_rune s in r # runes (drop w s))"
  by pat_completeness auto
termination
proof (relation "measure length")
  fix s :: gostring and x r w
  assume "s \<noteq> []" "x = decode_rune s" "(r, w) = x"
  then show "(drop w s, s) \<in> measure length"
    using decode_rune_width [of s] by (metis diff_less in_measure length_drop length_greater_0_conv
        less_le_trans snd_conv zero_less_one)
qed simp

declare runes.simps [simp del]

definition rune_count :: "gostring \<Rightarrow> nat" where
  "rune_count s = length (runes s)"

text \<open>\<open>utf8.EncodeRune\<close> (surrogates and values beyond U+10FFFF encode U+FFFD).\<close>

definition encode_rune :: "nat \<Rightarrow> gostring" where
  "encode_rune r0 =
     (let r = (if r0 > 0x10FFFF \<or> (0xD800 \<le> r0 \<and> r0 \<le> 0xDFFF) then rune_error else r0) in
      map char_of
       (if r < 0x80 then [r]
        else if r < 0x800 then [0xC0 + r div 0x40, 0x80 + r mod 0x40]
        else if r < 0x10000 then
          [0xE0 + r div 0x1000, 0x80 + (r div 0x40) mod 0x40, 0x80 + r mod 0x40]
        else [0xF0 + r div 0x40000, 0x80 + (r div 0x1000) mod 0x40,
              0x80 + (r div 0x40) mod 0x40, 0x80 + r mod 0x40]))"

section \<open>White space: TrimSpace and Fields\<close>

text \<open>\<open>unicode.IsSpace\<close>.\<close>

definition is_space :: "nat \<Rightarrow> bool" where
  "is_space r \<longleftrightarrow> (9 \<le> r \<and> r \<le> 13) \<or> r = 0x20 \<or> r = 0x85 \<or> r = 0xA0 \<or> r = 0x1680
     \<or> (0x2000 \<le> r \<and> r \<le> 0x200A) \<or> r = 0x2028 \<or> r = 0x2029 \<or> r = 0x202F \<or> r = 0x205F
     \<or> r = 0x3000"

function trim_left :: "gostring \<Rightarrow> gostring" where
  "trim_left s = (if s = [] then []
     else let (r, w) = decode_rune s in if is_space r then trim_left (drop w s) else s)"
  by pat_completeness auto
termination
proof (relation "measure length")
  fix s :: gostring and x r w
  assume "s \<noteq> []" "x = decode_rune s" "(r, w) = x"
  then show "(drop w s, s) \<in> measure length"
    using decode_rune_width [of s] by (metis diff_less in_measure length_drop length_greater_0_conv
        less_le_trans snd_conv zero_less_one)
qed simp

declare trim_left.simps [simp del]

text \<open>\<open>utf8.DecodeLastRuneInString\<close>: a multi-byte rune ends the string when a suffix of two to
  four bytes decodes as exactly one rune; otherwise the last byte stands alone.\<close>

definition decode_last_rune :: "gostring \<Rightarrow> nat \<times> nat" where
  "decode_last_rune s =
     (if s = [] then (rune_error, 0)
      else if byte_of (last s) < 0x80 then (byte_of (last s), 1)
      else case find (\<lambda>w. w \<le> length s \<and> snd (decode_rune (drop (length s - w) s)) = w) [2, 3, 4] of
             None \<Rightarrow> (rune_error, 1)
           | Some w \<Rightarrow> decode_rune (drop (length s - w) s))"

lemma decode_last_rune_width:
  assumes "s \<noteq> []"
  shows "1 \<le> snd (decode_last_rune s)" and "snd (decode_last_rune s) \<le> length s"
  using assms by (auto simp: decode_last_rune_def Suc_le_eq)

function trim_right :: "gostring \<Rightarrow> gostring" where
  "trim_right s = (if s = [] then []
     else let (r, w) = decode_last_rune s
          in if is_space r then trim_right (take (length s - w) s) else s)"
  by pat_completeness auto
termination
proof (relation "measure length")
  fix s :: gostring and x r w
  assume "s \<noteq> []" "x = decode_last_rune s" "(r, w) = x"
  then have "1 \<le> w" "0 < length s" using decode_last_rune_width [of s] by (metis snd_conv, simp)
  then show "(take (length s - w) s, s) \<in> measure length"
    by (cases s) auto
qed simp

declare trim_right.simps [simp del]

definition trim_space :: "gostring \<Rightarrow> gostring" where
  "trim_space s = trim_right (trim_left s)"

text \<open>\<open>strings.Fields\<close>: \<open>cur\<close> is the field being read, reversed.\<close>

function fields_from :: "gostring \<Rightarrow> gostring \<Rightarrow> gostring list" where
  "fields_from cur s = (if s = [] then (if cur = [] then [] else [rev cur])
     else let (r, w) = decode_rune s
          in if is_space r then (if cur = [] then [] else [rev cur]) @ fields_from [] (drop w s)
             else fields_from (rev (take w s) @ cur) (drop w s))"
  by pat_completeness auto
termination
proof (relation "measure (length \<circ> snd)")
  fix cur s :: gostring and x r w
  assume "s \<noteq> []" "x = decode_rune s" "(r, w) = x"
  then have "1 \<le> w" "0 < length s" using decode_rune_width [of s] by (metis snd_conv, simp)
  then show "(([], drop w s), cur, s) \<in> measure (length \<circ> snd)"
    and "((rev (take w s) @ cur, drop w s), cur, s) \<in> measure (length \<circ> snd)"
    by simp_all
qed simp

declare fields_from.simps [simp del]

definition str_fields :: "gostring \<Rightarrow> gostring list" where
  "str_fields s = fields_from [] s"

section \<open>Case, search and rendering\<close>

text \<open>\<open>strings.ToLower\<close>: bytewise on ASCII strings, otherwise \<open>strings.Map(unicode.ToLower, s)\<close>.\<close>

definition lower_ascii :: "nat \<Rightarrow> nat" where
  "lower_ascii b = (if 0x41 \<le> b \<and> b \<le> 0x5A then b + 0x20 else b)"

definition to_lower :: "go_env \<Rightarrow> gostring \<Rightarrow> gostring" where
  "to_lower env s =
     (if list_all (\<lambda>c. byte_of c < 0x80) s then map (\<lambda>c. char_of (lower_ascii (byte_of c))) s
      else concat (map (\<lambda>r. encode_rune (if r < 0x80 then lower_ascii r else env_to_lower env r))
                       (runes s)))"

text \<open>\<open>strings.EqualFold\<close>: rune by rune; the smaller rune is compared first, as in the source.\<close>

definition rune_fold :: "go_env \<Rightarrow> nat \<Rightarrow> nat \<Rightarrow> bool" where
  "rune_fold env a b \<longleftrightarrow> a = b \<or>
     (let sr = min a b; tr = max a b in
      if tr < 0x80 then 0x41 \<le> sr \<and> sr \<le> 0x5A \<and> tr = sr + 0x20 else env_same_fold env sr tr)"

definition equal_fold :: "go_env \<Rightarrow> gostring \<Rightarrow> gostring \<Rightarrow> bool" where
  "equal_fold env s t \<longleftrightarrow> list_all2 (rune_fold env) (runes s) (runes t)"

lemma rune_fold_sym: "rune_fold env a b = rune_fold env b a"
  by (auto simp: rune_fold_def min.commute max.commute)

lemma equal_fold_refl [simp]: "equal_fold env s s"
  by (simp add: equal_fold_def list_all2_refl rune_fold_def)

lemma equal_fold_sym: "equal_fold env s t = equal_fold env t s"
  unfolding equal_fold_def list_all2_conv_all_nth by (metis rune_fold_sym)

fun has_prefix :: "gostring \<Rightarrow> gostring \<Rightarrow> bool" where
  "has_prefix s [] = True"
| "has_prefix [] (p # ps) = False"
| "has_prefix (c # s) (p # ps) = (c = p \<and> has_prefix s ps)"

lemma has_prefix_iff: "has_prefix s p \<longleftrightarrow> (\<exists>r. s = p @ r)"
  by (induction s p rule: has_prefix.induct) auto

fun contains_str :: "gostring \<Rightarrow> gostring \<Rightarrow> bool" where
  "contains_str [] t = has_prefix [] t"
| "contains_str (c # s) t = (has_prefix (c # s) t \<or> contains_str s t)"

lemma contains_str_iff: "contains_str s t \<longleftrightarrow> (\<exists>a b. s = a @ t @ b)"
proof (induction s)
  case Nil
  then show ?case by (auto simp: has_prefix_iff)
next
  case (Cons c s)
  have "(\<exists>a b. c # s = a @ t @ b) \<longleftrightarrow> (\<exists>b. c # s = t @ b) \<or> (\<exists>a b. s = a @ t @ b)"
    by (metis append_Cons append_Nil append_eq_Cons_conv)
  with Cons show ?case by (simp add: has_prefix_iff)
qed

fun join :: "gostring \<Rightarrow> gostring list \<Rightarrow> gostring" where
  "join sep [] = []"
| "join sep [x] = x"
| "join sep (x # y # xs) = x @ sep @ join sep (y # xs)"

text \<open>Decimal rendering (\<open>%d\<close>), padded to a width with zeros (\<open>%04d\<close> as the time package pads).\<close>

fun digits_of :: "nat \<Rightarrow> gostring" where
  "digits_of n = (if n < 10 then [char_of (48 + n)] else digits_of (n div 10) @ [char_of (48 + n mod 10)])"

declare digits_of.simps [simp del]

definition show_int :: "int \<Rightarrow> gostring" where
  "show_int i = (if i < 0 then ''-'' @ digits_of (nat (- i)) else digits_of (nat i))"

definition pad_digits :: "nat \<Rightarrow> nat \<Rightarrow> gostring" where
  "pad_digits w n = replicate (w - length (digits_of n)) (CHR ''0'') @ digits_of n"

section \<open>NormalizeHumanName\<close>

definition NormalizeHumanName :: "gostring \<Rightarrow> gostring" where
  "NormalizeHumanName s = join '' '' (str_fields s)"

text \<open>
  The rest of the theory shows that normalisation is idempotent for every byte string, valid
  UTF-8 or not. The decoder looks ahead, but never past a byte that is not a continuation byte,
  and the byte after a field is never one.
\<close>

definition boundary :: "gostring \<Rightarrow> bool" where
  "boundary x \<longleftrightarrow> x = [] \<or> \<not> is_cont (byte_of (hd x))"

lemma lead_info_range:
  "lead_info b = Some (sz, lo, hi) \<Longrightarrow> 0x80 \<le> lo \<and> hi \<le> 0xBF"
  by (auto simp: lead_info_def split: if_splits)

lemma list_upto_4:
  obtains "bs = []" | b0 where "bs = [b0]" | b0 b1 where "bs = [b0, b1]"
  | b0 b1 b2 where "bs = [b0, b1, b2]" | b0 b1 b2 b3 r where "bs = b0 # b1 # b2 # b3 # r"
  by (metis neq_Nil_conv)

lemma decode_bytes_take: "decode_bytes (take 4 bs) = decode_bytes bs"
  by (rule list_upto_4 [of bs]) (simp_all add: decode_bytes_def split: option.split)

lemma decode_rune_bytes: "decode_rune s = decode_bytes (map byte_of s)"
  by (simp add: decode_rune_def decode_bytes_take flip: take_map)

lemma decode_bytes_append:
  assumes "bs \<noteq> []" and "ys = [] \<or> \<not> is_cont (hd ys)"
  shows "decode_bytes (bs @ ys) = decode_bytes bs"
proof (cases ys)
  case (Cons y r)
  then have y: "\<not> is_cont y" using assms by simp
  show ?thesis
  proof (rule list_upto_4 [of bs])
    fix b0 assume "bs = [b0]"
    with Cons y show ?thesis
      by (auto simp: decode_bytes_def is_cont_def split: option.split dest: lead_info_range)
  next
    fix b0 b1 assume "bs = [b0, b1]"
    with Cons y show ?thesis by (simp add: decode_bytes_def split: option.split)
  next
    fix b0 b1 b2 assume "bs = [b0, b1, b2]"
    with Cons y show ?thesis by (simp add: decode_bytes_def split: option.split)
  next
    fix b0 b1 b2 b3 r' assume "bs = b0 # b1 # b2 # b3 # r'"
    then show ?thesis by (simp add: decode_bytes_def split: option.split)
  qed (use assms in simp)
qed simp

lemma decode_rune_append:
  "f \<noteq> [] \<Longrightarrow> boundary x \<Longrightarrow> decode_rune (f @ x) = decode_rune f"
  by (auto simp: decode_rune_bytes boundary_def hd_map intro!: decode_bytes_append)

lemma lead_info_cont: "is_cont b \<Longrightarrow> lead_info b = None"
  by (simp add: is_cont_def lead_info_def)

lemma space_boundary: "is_space (fst (decode_rune s)) \<Longrightarrow> boundary s"
  by (cases s) (auto simp: decode_rune_bytes boundary_def decode_bytes_def lead_info_cont
      is_space_def rune_error_def is_cont_def split: if_splits)

text \<open>Length of the longest prefix without white space, and words: strings that are all prefix.\<close>

function word_end :: "gostring \<Rightarrow> nat" where
  "word_end s = (if s = [] then 0
     else let (r, w) = decode_rune s in if is_space r then 0 else w + word_end (drop w s))"
  by pat_completeness auto
termination
proof (relation "measure length")
  fix s :: gostring and x r w
  assume "s \<noteq> []" "x = decode_rune s" "(r, w) = x"
  then have "1 \<le> w" "0 < length s" using decode_rune_width [of s] by (metis snd_conv, simp)
  then show "(drop w s, s) \<in> measure length" by simp
qed simp

declare word_end.simps [simp del]

definition is_word :: "gostring \<Rightarrow> bool" where
  "is_word s \<longleftrightarrow> s \<noteq> [] \<and> word_end s = length s"

lemma word_end_Nil [simp]: "word_end [] = 0"
  by (simp add: word_end.simps)

lemma word_end_space: "is_space (fst (decode_rune s)) \<Longrightarrow> word_end s = 0"
  by (subst word_end.simps) (auto simp: case_prod_unfold Let_def)

lemma word_end_step:
  "s \<noteq> [] \<Longrightarrow> \<not> is_space (fst (decode_rune s)) \<Longrightarrow>
   word_end s = snd (decode_rune s) + word_end (drop (snd (decode_rune s)) s)"
  by (subst word_end.simps) (auto simp: case_prod_unfold Let_def)

lemma word_end_le: "word_end s \<le> length s"
proof (induction s rule: length_induct)
  case (1 s)
  show ?case
  proof (cases "s = [] \<or> is_space (fst (decode_rune s))")
    case True
    then show ?thesis by (auto simp: word_end_space)
  next
    case False
    let ?w = "snd (decode_rune s)"
    have w: "1 \<le> ?w" "?w \<le> length s" using False decode_rune_width by auto
    then have "word_end (drop ?w s) \<le> length (drop ?w s)"
      using 1 False by (metis diff_less length_drop length_greater_0_conv less_le_trans zero_less_one)
    with False w show ?thesis by (simp add: word_end_step)
  qed
qed

lemma word_end_boundary: "boundary (drop (word_end s) s)"
proof (induction s rule: length_induct)
  case (1 s)
  show ?case
  proof (cases "s = [] \<or> is_space (fst (decode_rune s))")
    case True
    then show ?thesis by (auto simp: word_end_space space_boundary) (simp add: boundary_def)
  next
    case False
    let ?w = "snd (decode_rune s)"
    have "length (drop ?w s) < length s" using False decode_rune_width [of s] by auto
    with 1 have "boundary (drop (word_end (drop ?w s)) (drop ?w s))" by blast
    with False show ?thesis by (simp add: word_end_step add.commute)
  qed
qed

lemma word_end_append:
  assumes "boundary x" and "x = [] \<or> is_space (fst (decode_rune x))"
  shows "word_end f = length f \<Longrightarrow> word_end (f @ x) = length f"
proof (induction f rule: length_induct)
  case (1 f)
  show ?case
  proof (cases "f = []")
    case True
    with assms show ?thesis by (auto simp: word_end_space)
  next
    case False
    let ?w = "snd (decode_rune f)"
    have w: "1 \<le> ?w" "?w \<le> length f" using False decode_rune_width by auto
    have ns: "\<not> is_space (fst (decode_rune f))"
      using 1 False by (metis length_0_conv word_end_space)
    have "word_end (drop ?w f) = length (drop ?w f)"
      using "1.prems" word_end_step [OF False ns] w by simp
    then have "word_end (drop ?w f @ x) = length (drop ?w f)"
      using "1.IH" w False by simp
    then show ?thesis
      using False ns w by (simp add: word_end_step decode_rune_append [OF False assms(1)])
  qed
qed

lemma word_end_take: "word_end (take (word_end s) s) = word_end s"
proof (induction s rule: length_induct)
  case (1 s)
  show ?case
  proof (cases "s = [] \<or> is_space (fst (decode_rune s))")
    case True
    then show ?thesis by (auto simp: word_end_space)
  next
    case False
    let ?w = "snd (decode_rune s)" and ?n = "word_end s"
    have w: "1 \<le> ?w" "?w \<le> length s" using False decode_rune_width by auto
    have n: "?n = ?w + word_end (drop ?w s)" using False by (simp add: word_end_step)
    have ne: "take ?n s \<noteq> []" using n w False by auto
    have dec: "decode_rune (take ?n s) = decode_rune s"
      using decode_rune_append [OF ne word_end_boundary [of s]] by simp
    have "word_end (take (word_end (drop ?w s)) (drop ?w s)) = word_end (drop ?w s)"
      using 1 w False by simp
    moreover have "drop ?w (take ?n s) = take (word_end (drop ?w s)) (drop ?w s)"
      by (subst n) (simp add: drop_take)
    moreover have "word_end (take ?n s) = ?w + word_end (drop ?w (take ?n s))"
      using word_end_step [OF ne] False by (simp only: dec) simp
    ultimately show ?thesis by (simp only: n)
  qed
qed

lemma fields_from_word:
  "fields_from cur s = fields_from (rev (take (word_end s) s) @ cur) (drop (word_end s) s)"
proof (induction s arbitrary: cur rule: length_induct)
  case (1 s)
  show ?case
  proof (cases "s = [] \<or> is_space (fst (decode_rune s))")
    case True
    then show ?thesis by (auto simp: word_end_space)
  next
    case False
    let ?w = "snd (decode_rune s)"
    let ?s = "drop ?w s" and ?m = "word_end (drop ?w s)"
    have "length ?s < length s" using False decode_rune_width [of s] by auto
    then have IH: "fields_from c ?s = fields_from (rev (take ?m ?s) @ c) (drop ?m ?s)" for c
      using 1 by blast
    have "fields_from cur s = fields_from (rev (take ?w s) @ cur) ?s"
      using False by (subst fields_from.simps) (simp add: case_prod_unfold Let_def)
    also have "\<dots> = fields_from (rev (take (?w + ?m) s) @ cur) (drop (?w + ?m) s)"
      by (subst IH) (simp add: take_add add.commute)
    also have "?w + ?m = word_end s" using False by (simp add: word_end_step)
    finally show ?thesis .
  qed
qed

lemma fields_from_space:
  "s \<noteq> [] \<Longrightarrow> is_space (fst (decode_rune s)) \<Longrightarrow>
   fields_from cur s = (if cur = [] then [] else [rev cur]) @ fields_from [] (drop (snd (decode_rune s)) s)"
  by (subst fields_from.simps) (simp add: case_prod_unfold Let_def)

lemma fields_from_Nil [simp]: "fields_from cur [] = (if cur = [] then [] else [rev cur])"
  by (subst fields_from.simps) simp

lemma word_end_stops: "drop (word_end s) s = [] \<or> is_space (fst (decode_rune (drop (word_end s) s)))"
proof (induction s rule: length_induct)
  case (1 s)
  show ?case
  proof (cases "s = [] \<or> is_space (fst (decode_rune s))")
    case True
    then show ?thesis by (auto simp: word_end_space)
  next
    case False
    let ?w = "snd (decode_rune s)"
    let ?s = "drop ?w s"
    have "length ?s < length s" using False decode_rune_width [of s] by auto
    with 1 have "drop (word_end ?s) ?s = [] \<or> is_space (fst (decode_rune (drop (word_end ?s) ?s)))"
      by blast
    moreover have "drop (word_end s) s = drop (word_end ?s) ?s"
      using False by (simp add: word_end_step add.commute)
    ultimately show ?thesis by (simp only:)
  qed
qed

lemma is_word_take: "s \<noteq> [] \<Longrightarrow> \<not> is_space (fst (decode_rune s)) \<Longrightarrow> is_word (take (word_end s) s)"
proof -
  assume ne: "s \<noteq> []" and ns: "\<not> is_space (fst (decode_rune s))"
  have "0 < word_end s" using word_end_step [OF ne ns] decode_rune_width [OF ne] by simp
  moreover have "length (take (word_end s) s) = word_end s" using word_end_le [of s] by simp
  ultimately show ?thesis by (auto simp: is_word_def word_end_take)
qed

text \<open>Every field is a word.\<close>

lemma fields_words: "list_all is_word (str_fields s)"
  unfolding str_fields_def
proof (induction s rule: length_induct)
  case (1 s)
  show ?case
  proof (cases "s = []")
    case True
    then show ?thesis by simp
  next
    case ne: False
    show ?thesis
    proof (cases "is_space (fst (decode_rune s))")
      case True
      then show ?thesis using 1 ne decode_rune_width [OF ne] by (simp add: fields_from_space)
    next
      case False
      let ?f = "take (word_end s) s" and ?x = "drop (word_end s) s"
      have w: "is_word ?f" by (rule is_word_take [OF ne False])
      have eq: "fields_from [] s = fields_from (rev ?f) ?x" by (subst fields_from_word) simp
      have len: "length ?x < length s" using w ne by (auto simp: is_word_def)
      show ?thesis
      proof (cases "?x = []")
        case True
        then have "fields_from (rev ?f) ?x = [?f]" using w by (simp add: is_word_def)
        then show ?thesis using w eq by simp
      next
        case False
        then have sp: "is_space (fst (decode_rune ?x))" using word_end_stops by blast
        let ?y = "drop (snd (decode_rune ?x)) ?x"
        have "list_all is_word (fields_from [] ?y)" using 1 len by simp
        moreover have "fields_from (rev ?f) ?x = ?f # fields_from [] ?y"
          using w by (simp add: fields_from_space [OF False sp] is_word_def)
        ultimately show ?thesis using w eq by simp
      qed
    qed
  qed
qed

lemma decode_rune_blank: "decode_rune (CHR '' '' # s) = (0x20, 1)"
  by (simp add: decode_rune_bytes decode_bytes_def byte_of_def)

lemma boundary_blank [simp]: "boundary []" "boundary (CHR '' '' # s)"
  by (simp_all add: boundary_def byte_of_def is_cont_def)

lemma is_space_blank [simp]: "is_space 0x20"
  by (simp add: is_space_def)

lemma word_end_word: "is_word f \<Longrightarrow> word_end (f @ CHR '' '' # s) = length f"
  by (rule word_end_append) (simp_all add: decode_rune_blank is_word_def)

text \<open>Splitting undoes joining: words joined by single blanks are recovered by \<open>Fields\<close>.\<close>

lemma fields_join: "list_all is_word ws \<Longrightarrow> str_fields (join '' '' ws) = ws"
  unfolding str_fields_def
proof (induction "'' ''" ws rule: join.induct)
  case 1
  then show ?case by simp
next
  case (2 x)
  then have "word_end x = length x" "x \<noteq> []" by (simp_all add: is_word_def)
  then show ?case by (subst join.simps, subst fields_from_word) simp
next
  case (3 x y xs)
  let ?r = "join '' '' (y # xs)"
  have x: "is_word x" and IH: "fields_from [] ?r = y # xs" using 3 by simp_all
  have "fields_from [] (x @ CHR '' '' # ?r) = fields_from (rev x) (CHR '' '' # ?r)"
    by (subst fields_from_word) (simp add: word_end_word [OF x])
  also have "\<dots> = x # fields_from [] ?r"
    using x by (subst fields_from_space) (simp_all add: decode_rune_blank is_word_def)
  finally show ?case by (simp add: IH)
qed

lemma fields_normalize: "str_fields (NormalizeHumanName s) = str_fields s"
  by (simp add: NormalizeHumanName_def fields_join fields_words)

lemma normalize_idem [simp]: "NormalizeHumanName (NormalizeHumanName s) = NormalizeHumanName s"
  by (metis NormalizeHumanName_def fields_normalize)

lemma join_eq_Nil: "[] \<notin> set ws \<Longrightarrow> join '' '' ws = [] \<longleftrightarrow> ws = []"
  by (induction "'' ''" ws rule: join.induct) auto

lemma normalize_empty_iff: "NormalizeHumanName s = [] \<longleftrightarrow> str_fields s = []"
  using fields_words [of s]
  by (auto simp: NormalizeHumanName_def join_eq_Nil list_all_iff is_word_def)

end
