(* ===== verification/GoTime.thy ===== *)
theory GoTime
  imports GoText
begin

text \<open>
  The part of package \<open>time\<close> the program uses. An instant is the number of nanoseconds since
  January 1 of year 1, UTC, the origin of \<open>time.Time\<close>: the zero time is 0, \<open>Before\<close>,
  \<open>After\<close> and \<open>Equal\<close> are the order of the integers and \<open>UTC()\<close> does not change the instant.
  A duration is an \<open>int64\<close> count of nanoseconds. The second counter of \<open>time.Time\<close> is an
  \<open>int64\<close>: \<open>time.Unix\<close> wraps around it, \<open>Add\<close> and \<open>Sub\<close> saturate.
\<close>

type_synonym gotime = int
type_synonym duration = int

definition wrap64 :: "int \<Rightarrow> int" where
  "wrap64 x = sint (word_of_int x :: 64 word)"

definition max_int64 :: int where
  "max_int64 = 2 ^ 63 - 1"

definition second :: duration where
  "second = 1000000000"

definition day :: duration where
  "day = 86400 * second"

text \<open>Seconds between year 1 and 1970 (\<open>unixToInternal\<close>).\<close>

definition unix_to_internal :: int where
  "unix_to_internal = 62135596800"

definition time_unix :: "int \<Rightarrow> gotime" where
  "time_unix sec = wrap64 (sec + unix_to_internal) * second"

definition time_add :: "gotime \<Rightarrow> duration \<Rightarrow> gotime" where
  "time_add t d =
     (let tot = t + d; s = tot div second; ns = tot mod second in
      if - (max_int64 + 1) \<le> s \<and> s \<le> max_int64 then tot
      else if d > 0 then max_int64 * second + ns
      else - max_int64 * second + ns)"

definition time_sub :: "gotime \<Rightarrow> gotime \<Rightarrow> duration" where
  "time_sub t u = max (- (max_int64 + 1)) (min max_int64 (t - u))"

lemma wrap64_range: "- (max_int64 + 1) \<le> wrap64 x \<and> wrap64 x \<le> max_int64"
  using sint_ge [of "word_of_int x :: 64 word"] sint_lt [of "word_of_int x :: 64 word"]
  by (simp add: wrap64_def max_int64_def)

lemma wrap64_id: "- (max_int64 + 1) \<le> x \<Longrightarrow> x \<le> max_int64 \<Longrightarrow> wrap64 x = x"
  by (simp add: wrap64_def max_int64_def int_word_sint)

lemma time_unix_exact:
  "- (max_int64 + 1) \<le> s \<Longrightarrow> s \<le> max_int64 - unix_to_internal \<Longrightarrow>
   time_unix s = (s + unix_to_internal) * second"
  by (simp add: time_unix_def wrap64_id unix_to_internal_def)

section \<open>Calendar dates\<close>

definition is_leap :: "int \<Rightarrow> bool" where
  "is_leap y \<longleftrightarrow> y mod 4 = 0 \<and> (y mod 100 \<noteq> 0 \<or> y mod 400 = 0)"

definition month_days :: "int \<Rightarrow> int list" where
  "month_days y = [31, if is_leap y then 29 else 28, 31, 30, 31, 30, 31, 31, 30, 31, 30, 31]"

fun month_of :: "int list \<Rightarrow> int \<Rightarrow> int \<Rightarrow> int \<times> int" where
  "month_of [] m d = (m, d + 1)"
| "month_of (n # ns) m d = (if d < n then (m, d + 1) else month_of ns (m + 1) (d - n))"

text \<open>Year, month and day of an instant, from the day number in cycles of 400, 100, 4 and 1 years.\<close>

definition civil :: "gotime \<Rightarrow> int \<times> int \<times> int" where
  "civil t =
     (let d = t div day;
          n400 = d div 146097; d = d mod 146097;
          n100 = min 3 (d div 36524); d = d - 36524 * n100;
          n4 = d div 1461; d = d mod 1461;
          n1 = min 3 (d div 365); d = d - 365 * n1;
          y = 400 * n400 + 100 * n100 + 4 * n4 + n1 + 1;
          (m, dd) = month_of (month_days y) 1 d
      in (y, m, dd))"

text \<open>\<open>Format("2006-01-02")\<close>.\<close>

definition format_date :: "gotime \<Rightarrow> gostring" where
  "format_date t =
     (let (y, m, d) = civil t in
      (if y < 0 then ''-'' else []) @ pad_digits 4 (nat \<bar>y\<bar>) @ ''-'' @ pad_digits 2 (nat m)
        @ ''-'' @ pad_digits 2 (nat d))"

lemma format_date_example: "format_date (time_unix 1709164800) = ''2024-02-29''"
  by code_simp

end
