(* ===== verification/Domain.thy ===== *)
theory Domain
  imports GoTime
begin

text \<open>
  The data of the program: package \<open>domain\<close> (internal/domain), the persistence shapes of the
  ports (internal/ports/out), the tri-state \<open>Optional\<close> and the application errors
  (internal/app). Pointers to scalars are \<open>option\<close>s; the string enumerations of the source,
  which can hold any string at run time, are datatypes with a constructor for the other
  strings; a \<open>float64\<close> is only ever copied and is its 64-bit pattern.
\<close>

type_synonym SubjectID = gostring
type_synonym MemberID = gostring
type_synonym TripID = gostring
type_synonym float64 = "64 word"

section \<open>Enumerations\<close>

datatype trip_status = Draft | Published | Canceled | OtherStatus gostring
datatype draft_visibility = Private | Public | OtherVisibility gostring
datatype artifact_type = Gpx | Schedule | Document | OtherArtifact | UnknownArtifact gostring
datatype rsvp_response = Yes | No | Unset | OtherResponse gostring

section \<open>Members\<close>

record vehicle_profile =
  vp_make :: "gostring option"
  vp_model :: "gostring option"
  vp_tire_size :: "gostring option"
  vp_lift_lockers :: "gostring option"
  vp_fuel_range :: "gostring option"
  vp_recovery_gear :: "gostring option"
  vp_ham_radio_call_sign :: "gostring option"
  vp_notes :: "gostring option"

text \<open>\<open>domain.Member\<close> and the persistence record \<open>memberrepo.Member\<close> have the same fields.\<close>

record member =
  m_id :: MemberID
  m_subject :: SubjectID
  m_display_name :: gostring
  m_email :: gostring
  m_group_alias_email :: "gostring option"
  m_vehicle_profile :: "vehicle_profile option"
  m_is_active :: bool
  m_created_at :: gotime
  m_updated_at :: gotime

record member_row =
  mr_id :: MemberID
  mr_subject :: SubjectID
  mr_display_name :: gostring
  mr_email :: gostring
  mr_group_alias_email :: "gostring option"
  mr_vehicle_profile :: "vehicle_profile option"
  mr_is_active :: bool
  mr_created_at :: gotime
  mr_updated_at :: gotime

record member_summary =
  ms_id :: MemberID
  ms_display_name :: gostring
  ms_email :: gostring
  ms_group_alias_email :: "gostring option"

section \<open>Trips\<close>

record location =
  loc_label :: gostring
  loc_address :: "gostring option"
  loc_latitude :: "float64 option"
  loc_longitude :: "float64 option"

record trip_artifact =
  art_id :: gostring
  art_type :: artifact_type
  art_title :: gostring
  art_url :: gostring

text \<open>\<open>triprepo.Trip\<close>, the persistence record.\<close>

record trip =
  t_id :: TripID
  t_status :: trip_status
  t_name :: "gostring option"
  t_description :: "gostring option"
  t_creator :: MemberID
  t_organizers :: "MemberID list"
  t_draft_visibility :: draft_visibility
  t_start_date :: "gotime option"
  t_end_date :: "gotime option"
  t_capacity_rigs :: "int option"
  t_attending_rigs :: "int option"
  t_difficulty_text :: "gostring option"
  t_meeting_location :: "location option"
  t_comms_requirements_text :: "gostring option"
  t_recommended_requirements_text :: "gostring option"
  t_artifacts :: "trip_artifact list"
  t_created_at :: gotime
  t_updated_at :: gotime

text \<open>\<open>rsvprepo.RSVP\<close>; its \<open>Status\<close> ranges over the strings of \<open>domain.RSVPResponse\<close>.\<close>

record rsvp =
  rs_trip :: TripID
  rs_member :: MemberID
  rs_status :: rsvp_response
  rs_updated_at :: gotime

record trip_summary =
  ts_id :: TripID
  ts_name :: "gostring option"
  ts_start_date :: "gotime option"
  ts_end_date :: "gotime option"
  ts_status :: trip_status
  ts_draft_visibility :: "draft_visibility option"
  ts_capacity_rigs :: "int option"
  ts_attending_rigs :: "int option"

record trip_rsvp_summary =
  sum_capacity_rigs :: "int option"
  sum_attending_rigs :: int
  sum_attending_members :: "member_summary list"
  sum_not_attending_members :: "member_summary list"

record my_rsvp =
  my_trip :: TripID
  my_member :: MemberID
  my_response :: rsvp_response
  my_updated_at :: gotime

text \<open>\<open>TripDetails\<close> embeds \<open>TripSummary\<close>.\<close>

record trip_details = trip_summary +
  td_description :: "gostring option"
  td_difficulty_text :: "gostring option"
  td_meeting_location :: "location option"
  td_comms_requirements_text :: "gostring option"
  td_recommended_requirements_text :: "gostring option"
  td_organizers :: "member_summary list"
  td_artifacts :: "trip_artifact list"
  td_rsvp_summary :: "trip_rsvp_summary option"
  td_my_rsvp :: "my_rsvp option"
  td_rsvp_actions_enabled :: bool

section \<open>Optional\<close>

text \<open>
  \<open>Optional[T]\<close> has unexported fields and three constructors; \<open>Value()\<close> is called only where
  \<open>IsSpecified()\<close> and not \<open>IsNull()\<close> hold, so the patches are cases over the constructors.
\<close>

datatype 'a optional = Unspecified | Null | Specified 'a

fun is_specified :: "'a optional \<Rightarrow> bool" where
  "is_specified Unspecified = False"
| "is_specified Null = True"
| "is_specified (Specified v) = True"

fun is_null :: "'a optional \<Rightarrow> bool" where
  "is_null Null = True"
| "is_null _ = False"

text \<open>Applying a tri-state field to a nullable field: \<open>applyNullableString\<close>, \<open>applyField\<close>.\<close>

fun apply_nullable :: "'a option \<Rightarrow> 'a optional \<Rightarrow> 'a option" where
  "apply_nullable dst Unspecified = dst"
| "apply_nullable dst Null = None"
| "apply_nullable dst (Specified v) = Some v"

lemma apply_nullable_idem [simp]: "apply_nullable (apply_nullable d p) p = apply_nullable d p"
  by (cases p) simp_all

section \<open>Errors\<close>

datatype detail = DString gostring | DInt int | DStrings "gostring list"

text \<open>\<open>members.Error\<close> and \<open>trips.Error\<close>: HTTP status, code, message, optional details.\<close>

record app_error =
  ae_status :: nat
  ae_code :: gostring
  ae_message :: gostring
  ae_details :: "(gostring \<times> detail) list option"

definition app_err :: "nat \<Rightarrow> gostring \<Rightarrow> gostring \<Rightarrow> app_error" where
  "app_err st code msg = \<lparr>ae_status = st, ae_code = code, ae_message = msg, ae_details = None\<rparr>"

definition app_err_details ::
    "nat \<Rightarrow> gostring \<Rightarrow> gostring \<Rightarrow> (gostring \<times> detail) list \<Rightarrow> app_error" where
  "app_err_details st code msg ds =
     \<lparr>ae_status = st, ae_code = code, ae_message = msg, ae_details = Some ds\<rparr>"

lemma app_err_status [simp]:
  "ae_status (app_err st code msg) = st" "ae_status (app_err_details st code msg ds) = st"
  by (simp_all add: app_err_def app_err_details_def)

text \<open>
  A Go \<open>error\<close> of the application: the two \<open>*Error\<close> types, which \<open>errors.As\<close> tells apart,
  the sentinel errors of the ports, and any other error by its text.
\<close>

datatype goerror =
    MembersError app_error
  | TripsError app_error
  | MemberNotFound
  | MemberSubjectAlreadyBound
  | MemberAlreadyExists
  | TripNotFound
  | TripAlreadyExists
  | RsvpNotFound
  | OtherError gostring

text \<open>The method \<open>Error()\<close> of the two error types.\<close>

definition trips_error_text :: "app_error \<Rightarrow> gostring" where
  "trips_error_text e = (if ae_message e \<noteq> [] then ae_message e else ae_code e)"

definition members_error_text :: "app_error \<Rightarrow> gostring" where
  "members_error_text e =
     (if ae_code e = []
      then ''app error (status='' @ show_int (int (ae_status e)) @ ''): '' @ ae_message e
      else ae_code e @ '': '' @ ae_message e)"

fun error_text :: "goerror \<Rightarrow> gostring" where
  "error_text (MembersError e) = members_error_text e"
| "error_text (TripsError e) = trips_error_text e"
| "error_text MemberNotFound = ''member not found''"
| "error_text MemberSubjectAlreadyBound = ''member subject already bound''"
| "error_text MemberAlreadyExists = ''member already exists''"
| "error_text TripNotFound = ''trip not found''"
| "error_text TripAlreadyExists = ''trip already exists''"
| "error_text RsvpNotFound = ''rsvp not found''"
| "error_text (OtherError s) = s"

end
