(* ===== verification/MemberRepo.thy ===== *)
theory MemberRepo
  imports Domain
begin

text \<open>
  The in-memory member repository (internal/adapters/memory/memberrepo/repo.go) behind the port
  internal/ports/out/memberrepo: two Go maps, members by ID and member IDs by subject. The
  mutex makes every method atomic, so a method is a function of the state; a write returns the
  new state or an error, and no error path writes.

  The locale \<open>member_repository\<close> is the port: what the member and trip services rely on. It is
  interpreted on the in-memory repository.
\<close>

record member_repo =
  mb_by_id :: "(MemberID, member_row) gomap"
  mb_id_by_sub :: "(SubjectID, MemberID) gomap"

definition new_member_repo :: member_repo where
  "new_member_repo = \<lparr>mb_by_id = [], mb_id_by_sub = []\<rparr>"

section \<open>Deep copies\<close>

text \<open>The copies made at the repository's boundary; on immutable values they are identities,
  which is why the model needs no store of pointers.\<close>

fun cloneStringPtr :: "gostring option \<Rightarrow> gostring option" where
  "cloneStringPtr None = None"
| "cloneStringPtr (Some v) = Some v"

fun cloneVehicleProfile :: "vehicle_profile option \<Rightarrow> vehicle_profile option" where
  "cloneVehicleProfile None = None"
| "cloneVehicleProfile (Some vp) = Some
     (vp\<lparr>vp_make := cloneStringPtr (vp_make vp), vp_model := cloneStringPtr (vp_model vp),
         vp_tire_size := cloneStringPtr (vp_tire_size vp),
         vp_lift_lockers := cloneStringPtr (vp_lift_lockers vp),
         vp_fuel_range := cloneStringPtr (vp_fuel_range vp),
         vp_recovery_gear := cloneStringPtr (vp_recovery_gear vp),
         vp_ham_radio_call_sign := cloneStringPtr (vp_ham_radio_call_sign vp),
         vp_notes := cloneStringPtr (vp_notes vp)\<rparr>)"

definition cloneMember :: "member_row \<Rightarrow> member_row" where
  "cloneMember m = m\<lparr>mr_group_alias_email := cloneStringPtr (mr_group_alias_email m),
                     mr_vehicle_profile := cloneVehicleProfile (mr_vehicle_profile m)\<rparr>"

lemma cloneStringPtr_id [simp]: "cloneStringPtr p = p"
  by (cases p) simp_all

lemma cloneVehicleProfile_id [simp]: "cloneVehicleProfile p = p"
  by (cases p) simp_all

lemma cloneMember_id [simp]: "cloneMember m = m"
  by (simp add: cloneMember_def)

section \<open>Operations\<close>

definition member_create :: "member_repo \<Rightarrow> member_row \<Rightarrow> goerror + member_repo" where
  "member_create r m =
     (if mr_id m = '''' then Inl MemberAlreadyExists
      else if map_of (mb_by_id r) (mr_id m) \<noteq> None then Inl MemberAlreadyExists
      else if (case map_of (mb_id_by_sub r) (mr_subject m) of
                 Some existing \<Rightarrow> existing \<noteq> '''' | None \<Rightarrow> False)
      then Inl MemberSubjectAlreadyBound
      else Inr (r\<lparr>mb_by_id := AList.update (mr_id m) (cloneMember m) (mb_by_id r),
                  mb_id_by_sub := AList.update (mr_subject m) (mr_id m) (mb_id_by_sub r)\<rparr>))"

definition member_update :: "member_repo \<Rightarrow> member_row \<Rightarrow> goerror + member_repo" where
  "member_update r m =
     (case map_of (mb_by_id r) (mr_id m) of
        None \<Rightarrow> Inl MemberNotFound
      | Some existing \<Rightarrow>
          if mr_subject existing \<noteq> mr_subject m then Inl MemberSubjectAlreadyBound
          else Inr (r\<lparr>mb_by_id := AList.update (mr_id m) (cloneMember m) (mb_by_id r)\<rparr>))"

definition member_get_by_id :: "member_repo \<Rightarrow> MemberID \<Rightarrow> goerror + member_row" where
  "member_get_by_id r i =
     (case map_of (mb_by_id r) i of None \<Rightarrow> Inl MemberNotFound | Some m \<Rightarrow> Inr (cloneMember m))"

definition member_get_by_subject :: "member_repo \<Rightarrow> SubjectID \<Rightarrow> goerror + member_row" where
  "member_get_by_subject r s =
     (case map_of (mb_id_by_sub r) s of
        None \<Rightarrow> Inl MemberNotFound
      | Some i \<Rightarrow>
          (case map_of (mb_by_id r) i of
             None \<Rightarrow> Inl MemberNotFound
           | Some m \<Rightarrow> Inr (cloneMember m)))"

definition less_member_row :: "go_env \<Rightarrow> member_row \<Rightarrow> member_row \<Rightarrow> bool" where
  "less_member_row env a b =
     (let di = to_lower env (mr_display_name a); dj = to_lower env (mr_display_name b) in
      if di = dj then mr_id a < mr_id b else di < dj)"

definition member_list :: "go_env \<Rightarrow> member_repo \<Rightarrow> bool \<Rightarrow> member_row list" where
  "member_list env r include_inactive =
     sort_slice (less_member_row env)
       (map cloneMember
         (filter (\<lambda>m. \<not> (\<not> include_inactive \<and> \<not> mr_is_active m)) (vals (mb_by_id r))))"

definition tokenize :: "go_env \<Rightarrow> gostring \<Rightarrow> gostring list" where
  "tokenize env s =
     (let s = to_lower env (trim_space s) in if s = '''' then [] else str_fields s)"

fun matches_all_tokens :: "gostring \<Rightarrow> gostring list \<Rightarrow> bool" where
  "matches_all_tokens hay [] = True"
| "matches_all_tokens hay (t # ts) = (if \<not> contains_str hay t then False else matches_all_tokens hay ts)"

definition matchesAllTokens :: "go_env \<Rightarrow> gostring \<Rightarrow> gostring list \<Rightarrow> bool" where
  "matchesAllTokens env display_name tokens = matches_all_tokens (to_lower env display_name) tokens"

definition member_search :: "go_env \<Rightarrow> member_repo \<Rightarrow> gostring \<Rightarrow> int \<Rightarrow> member_row list" where
  "member_search env r query limit =
     (let qtokens = tokenize env query in
      if qtokens = [] then []
      else
        let out = sort_slice (less_member_row env)
                    (map cloneMember
                      (filter (\<lambda>m. mr_is_active m \<and> matchesAllTokens env (mr_display_name m) qtokens)
                        (vals (mb_by_id r))))
        in if limit > 0 \<and> int (length out) > limit then take (nat limit) out else out)"

section \<open>Invariant\<close>

definition wf_member_repo :: "member_repo \<Rightarrow> bool" where
  "wf_member_repo r \<longleftrightarrow>
     wf_map (mb_by_id r) \<and> wf_map (mb_id_by_sub r) \<and>
     (\<forall>i m. map_of (mb_by_id r) i = Some m \<longrightarrow>
        mr_id m = i \<and> i \<noteq> '''' \<and> map_of (mb_id_by_sub r) (mr_subject m) = Some i) \<and>
     (\<forall>s i. map_of (mb_id_by_sub r) s = Some i \<longrightarrow>
        (\<exists>m. map_of (mb_by_id r) i = Some m \<and> mr_subject m = s))"

lemma wf_member_repoD:
  assumes "wf_member_repo r"
  shows "wf_map (mb_by_id r)" and "wf_map (mb_id_by_sub r)"
    and "map_of (mb_by_id r) i = Some m \<Longrightarrow>
         mr_id m = i \<and> i \<noteq> '''' \<and> map_of (mb_id_by_sub r) (mr_subject m) = Some i"
    and "map_of (mb_id_by_sub r) s = Some i \<Longrightarrow>
         \<exists>m. map_of (mb_by_id r) i = Some m \<and> mr_subject m = s"
  using assms unfolding wf_member_repo_def by blast+

lemma wf_new_member_repo [simp]: "wf_member_repo new_member_repo"
  by (simp add: wf_member_repo_def new_member_repo_def)

lemma wf_member_repoI:
  assumes "wf_map (mb_by_id r)" and "wf_map (mb_id_by_sub r)"
    and "\<And>i m. map_of (mb_by_id r) i = Some m \<Longrightarrow>
         mr_id m = i \<and> i \<noteq> '''' \<and> map_of (mb_id_by_sub r) (mr_subject m) = Some i"
    and "\<And>s i. map_of (mb_id_by_sub r) s = Some i \<Longrightarrow>
         \<exists>m. map_of (mb_by_id r) i = Some m \<and> mr_subject m = s"
  shows "wf_member_repo r"
  using assms unfolding wf_member_repo_def by blast

text \<open>A successful write, inverted.\<close>

lemma member_createE:
  assumes "wf_member_repo r" and "member_create r m = Inr r'"
  shows "mr_id m \<noteq> ''''" and "map_of (mb_by_id r) (mr_id m) = None"
    and "map_of (mb_id_by_sub r) (mr_subject m) = None"
    and "r' = r\<lparr>mb_by_id := AList.update (mr_id m) m (mb_by_id r),
                mb_id_by_sub := AList.update (mr_subject m) (mr_id m) (mb_id_by_sub r)\<rparr>"
proof -
  show id: "mr_id m \<noteq> ''''" and "map_of (mb_by_id r) (mr_id m) = None"
    and "r' = r\<lparr>mb_by_id := AList.update (mr_id m) m (mb_by_id r),
                mb_id_by_sub := AList.update (mr_subject m) (mr_id m) (mb_id_by_sub r)\<rparr>"
    using assms(2) by (auto simp: member_create_def split: if_splits)
  have "existing = ''''" if "map_of (mb_id_by_sub r) (mr_subject m) = Some existing" for existing
    using assms(2) that by (auto simp: member_create_def split: if_splits)
  then show "map_of (mb_id_by_sub r) (mr_subject m) = None"
    using wf_member_repoD(3,4) [OF assms(1)] by (metis option.exhaust)
qed

lemma member_updateE:
  assumes "member_update r m = Inr r'"
  obtains old where "map_of (mb_by_id r) (mr_id m) = Some old" and "mr_subject old = mr_subject m"
    and "r' = r\<lparr>mb_by_id := AList.update (mr_id m) m (mb_by_id r)\<rparr>"
  using assms by (auto simp: member_update_def split: option.splits if_splits)

lemma member_create_wf:
  assumes wf: "wf_member_repo r" and c: "member_create r m = Inr r'"
  shows "wf_member_repo r'"
proof (rule wf_member_repoI)
  note r' = member_createE [OF wf c] and wfD = wf_member_repoD [OF wf]
  show "wf_map (mb_by_id r')" "wf_map (mb_id_by_sub r')" using r' wfD(1,2) by simp_all
  show "mr_id x = i \<and> i \<noteq> '''' \<and> map_of (mb_id_by_sub r') (mr_subject x) = Some i"
    if "map_of (mb_by_id r') i = Some x" for i x
    using that r' wfD(3) [of i x] by (auto split: if_splits)
  show "\<exists>x. map_of (mb_by_id r') i = Some x \<and> mr_subject x = s"
    if "map_of (mb_id_by_sub r') s = Some i" for s i
    using that r' wfD(4) [of s i] by (auto split: if_splits)
qed

lemma member_update_wf:
  assumes wf: "wf_member_repo r" and u: "member_update r m = Inr r'"
  shows "wf_member_repo r'"
proof -
  from u obtain old where old: "map_of (mb_by_id r) (mr_id m) = Some old"
    and sub: "mr_subject old = mr_subject m"
    and r': "r' = r\<lparr>mb_by_id := AList.update (mr_id m) m (mb_by_id r)\<rparr>" by (rule member_updateE)
  note wfD = wf_member_repoD [OF wf]
  show ?thesis
  proof (rule wf_member_repoI)
    show "wf_map (mb_by_id r')" "wf_map (mb_id_by_sub r')" using r' wfD(1,2) by simp_all
    show "mr_id x = i \<and> i \<noteq> '''' \<and> map_of (mb_id_by_sub r') (mr_subject x) = Some i"
      if "map_of (mb_by_id r') i = Some x" for i x
    proof (cases "i = mr_id m")
      case True
      with that r' have "x = m" by simp
      then show ?thesis using True r' sub wfD(3) [OF old] by simp
    next
      case False
      then show ?thesis using that r' wfD(3) [of i x] by simp
    qed
    show "\<exists>x. map_of (mb_by_id r') i = Some x \<and> mr_subject x = s"
      if "map_of (mb_id_by_sub r') s = Some i" for s i
    proof (cases "i = mr_id m")
      case True
      then show ?thesis using that r' old sub wfD(4) [of s i] by auto
    next
      case False
      then show ?thesis using that r' wfD(4) [of s i] by simp
    qed
  qed
qed

lemma get_by_id_Inr [simp]: "member_get_by_id r i = Inr m \<longleftrightarrow> map_of (mb_by_id r) i = Some m"
  by (simp add: member_get_by_id_def split: option.split)

lemma get_by_id_Inl: "member_get_by_id r i = Inl e \<longleftrightarrow> map_of (mb_by_id r) i = None \<and> e = MemberNotFound"
  by (auto simp: member_get_by_id_def split: option.split)

lemma get_by_subject_Inr:
  "member_get_by_subject r s = Inr m \<longleftrightarrow>
   (\<exists>i. map_of (mb_id_by_sub r) s = Some i \<and> map_of (mb_by_id r) i = Some m)"
  by (simp add: member_get_by_subject_def split: option.split)

lemma get_by_subject_Inl:
  "wf_member_repo r \<Longrightarrow>
   member_get_by_subject r s = Inl e \<longleftrightarrow> map_of (mb_id_by_sub r) s = None \<and> e = MemberNotFound"
  by (auto simp: member_get_by_subject_def split: option.splits dest: wf_member_repoD(4))

section \<open>The port\<close>

locale member_repository =
  fixes invar :: "'r \<Rightarrow> bool"
    and create update :: "'r \<Rightarrow> member_row \<Rightarrow> goerror + 'r"
    and by_id :: "'r \<Rightarrow> MemberID \<Rightarrow> goerror + member_row"
    and by_subject :: "'r \<Rightarrow> SubjectID \<Rightarrow> goerror + member_row"
  assumes create_invar: "invar r \<Longrightarrow> create r m = Inr r' \<Longrightarrow> invar r'"
    and create_fresh: "invar r \<Longrightarrow> create r m = Inr r' \<Longrightarrow>
      by_id r (mr_id m) = Inl MemberNotFound \<and> by_subject r (mr_subject m) = Inl MemberNotFound"
    and create_by_id: "invar r \<Longrightarrow> create r m = Inr r' \<Longrightarrow>
      by_id r' i = (if i = mr_id m then Inr m else by_id r i)"
    and update_invar: "invar r \<Longrightarrow> update r m = Inr r' \<Longrightarrow> invar r'"
    and update_known: "invar r \<Longrightarrow> update r m = Inr r' \<Longrightarrow>
      \<exists>old. by_id r (mr_id m) = Inr old \<and> mr_subject old = mr_subject m"
    and update_by_id: "invar r \<Longrightarrow> update r m = Inr r' \<Longrightarrow>
      by_id r' i = (if i = mr_id m then Inr m else by_id r i)"
    and by_subject_iff: "invar r \<Longrightarrow>
      by_subject r s = Inr m \<longleftrightarrow> by_id r (mr_id m) = Inr m \<and> mr_subject m = s"
begin

lemma create_by_subject:
  "invar r \<Longrightarrow> create r m = Inr r' \<Longrightarrow> by_subject r' (mr_subject m) = Inr m"
  using by_subject_iff create_by_id create_invar by metis

lemma update_by_subject:
  "invar r \<Longrightarrow> update r m = Inr r' \<Longrightarrow> by_subject r' (mr_subject m) = Inr m"
  using by_subject_iff update_by_id update_invar by metis

text \<open>No operation removes a member or rebinds a subject.\<close>

lemma create_keeps: "invar r \<Longrightarrow> create r m = Inr r' \<Longrightarrow> by_id r i = Inr x \<Longrightarrow> by_id r' i = Inr x"
  using create_by_id create_fresh by (metis Inl_Inr_False)

lemma update_keeps:
  "invar r \<Longrightarrow> update r m = Inr r' \<Longrightarrow> by_id r i = Inr x \<Longrightarrow>
   \<exists>y. by_id r' i = Inr y \<and> mr_subject y = mr_subject x"
  using update_by_id update_known by (metis Inr_inject)

lemma subject_unique:
  "invar r \<Longrightarrow> by_subject r s = Inr m \<Longrightarrow> by_id r i = Inr m' \<Longrightarrow> mr_id m' = i \<Longrightarrow>
   mr_subject m' = s \<Longrightarrow> m' = m"
  using by_subject_iff by (metis Inr_inject)

end

interpretation mrepo: member_repository wf_member_repo member_create member_update
  member_get_by_id member_get_by_subject
proof unfold_locales
  fix r s m
  assume wf: "wf_member_repo r"
  show "member_get_by_subject r s = Inr m \<longleftrightarrow>
      member_get_by_id r (mr_id m) = Inr m \<and> mr_subject m = s"
  proof
    assume "member_get_by_subject r s = Inr m"
    then obtain i where i: "map_of (mb_id_by_sub r) s = Some i" "map_of (mb_by_id r) i = Some m"
      by (auto simp: get_by_subject_Inr)
    then show "member_get_by_id r (mr_id m) = Inr m \<and> mr_subject m = s"
      using wf_member_repoD(4) [OF wf i(1)] wf_member_repoD(3) [OF wf i(2)] by auto
  next
    assume "member_get_by_id r (mr_id m) = Inr m \<and> mr_subject m = s"
    then have m: "map_of (mb_by_id r) (mr_id m) = Some m" "mr_subject m = s" by simp_all
    with wf_member_repoD(3) [OF wf m(1)] show "member_get_by_subject r s = Inr m"
      by (auto simp: get_by_subject_Inr)
  qed
next
  fix r m r' i
  assume wf: "wf_member_repo r" and c: "member_create r m = Inr r'"
  note facts = member_createE [OF wf c]
  show "member_get_by_id r (mr_id m) = Inl MemberNotFound \<and>
      member_get_by_subject r (mr_subject m) = Inl MemberNotFound"
    using facts by (simp add: get_by_id_Inl get_by_subject_Inl [OF wf])
  show "member_get_by_id r' i = (if i = mr_id m then Inr m else member_get_by_id r i)"
    using facts by (simp add: member_get_by_id_def)
next
  fix r m r'
  assume "member_update r m = Inr r'"
  then show "\<exists>old. member_get_by_id r (mr_id m) = Inr old \<and> mr_subject old = mr_subject m"
    by (auto elim: member_updateE)
next
  fix r m r' i
  assume "member_update r m = Inr r'"
  then show "member_get_by_id r' i = (if i = mr_id m then Inr m else member_get_by_id r i)"
    by (auto elim!: member_updateE simp: member_get_by_id_def)
qed (rule member_create_wf member_update_wf; assumption)+

section \<open>Listing and searching\<close>

definition member_row_key :: "go_env \<Rightarrow> member_row \<Rightarrow> gostring \<times> MemberID" where
  "member_row_key env m = (to_lower env (mr_display_name m), mr_id m)"

interpretation mrow_order: slice_order "less_member_row env" "member_row_key env" for env
  by unfold_locales (auto simp: less_member_row_def member_row_key_def Let_def less_prod_def')

lemma wf_vals_iff:
  assumes "wf_member_repo r"
  shows "m \<in> set (vals (mb_by_id r)) \<longleftrightarrow> map_of (mb_by_id r) (mr_id m) = Some m"
proof -
  have "m \<in> set (vals (mb_by_id r)) \<longleftrightarrow> (\<exists>i. map_of (mb_by_id r) i = Some m)"
    using wf_map_vals [OF wf_member_repoD(1) [OF assms]] by (simp add: ran_def)
  then show ?thesis using wf_member_repoD(3) [OF assms] by auto
qed

lemma wf_vals_ids: "wf_member_repo r \<Longrightarrow> inj_on mr_id (set (vals (mb_by_id r)))"
  by (rule inj_onI) (metis option.inject wf_vals_iff)

text \<open>Sorting a selection of the members does not depend on the iteration order of the map.\<close>

lemma sort_vals_order_independent:
  assumes "wf_member_repo r" and "wf_member_repo r'"
    and "map_of (mb_by_id r) = map_of (mb_by_id r')"
  shows "sort_slice (less_member_row env) (filter P (vals (mb_by_id r))) =
         sort_slice (less_member_row env) (filter P (vals (mb_by_id r')))"
proof (rule mrow_order.sort_slice_perm)
  have "mset (mb_by_id r) = mset (mb_by_id r')"
    using assms by (intro wf_map_entries_perm) (auto dest: wf_member_repoD)
  then have "mset (vals (mb_by_id r)) = mset (vals (mb_by_id r'))"
    by (metis mset_map)
  then show "mset (filter P (vals (mb_by_id r))) = mset (filter P (vals (mb_by_id r')))"
    by (metis mset_filter)
  show "inj_on (member_row_key env) (set (filter P (vals (mb_by_id r))))"
    using wf_vals_ids [OF assms(1)] by (auto simp: inj_on_def member_row_key_def)
qed

lemma map_cloneMember [simp]: "map cloneMember ms = ms"
  by (simp add: map_idI)

lemma member_list_order_independent:
  "wf_member_repo r \<Longrightarrow> wf_member_repo r' \<Longrightarrow> map_of (mb_by_id r) = map_of (mb_by_id r') \<Longrightarrow>
   member_list env r inactive = member_list env r' inactive"
  using sort_vals_order_independent [of r r' env] by (simp add: member_list_def comp_def)

lemma member_search_order_independent:
  "wf_member_repo r \<Longrightarrow> wf_member_repo r' \<Longrightarrow> map_of (mb_by_id r) = map_of (mb_by_id r') \<Longrightarrow>
   member_search env r q limit = member_search env r' q limit"
  using sort_vals_order_independent [of r r' env] by (simp add: member_search_def Let_def)

lemma member_list_set:
  "wf_member_repo r \<Longrightarrow>
   m \<in> set (member_list env r inactive) \<longleftrightarrow>
   map_of (mb_by_id r) (mr_id m) = Some m \<and> (inactive \<or> mr_is_active m)"
  by (auto simp: member_list_def wf_vals_iff [symmetric])

lemma member_list_sorted: "sorted (map (member_row_key env) (member_list env r inactive))"
  by (simp add: member_list_def mrow_order.sorted_slice)

lemma matches_all_tokens_iff: "matches_all_tokens hay ts \<longleftrightarrow> (\<forall>t \<in> set ts. contains_str hay t)"
  by (induction ts) auto

lemma member_search_props:
  assumes "wf_member_repo r" and "m \<in> set (member_search env r q limit)"
  shows "map_of (mb_by_id r) (mr_id m) = Some m" and "mr_is_active m"
    and "matchesAllTokens env (mr_display_name m) (tokenize env q)"
proof -
  have "m \<in> set (vals (mb_by_id r)) \<and> mr_is_active m \<and>
        matchesAllTokens env (mr_display_name m) (tokenize env q)"
    using assms(2) by (auto simp: member_search_def Let_def split: if_splits dest: in_set_takeD)
  with assms(1) show "map_of (mb_by_id r) (mr_id m) = Some m" and "mr_is_active m"
    and "matchesAllTokens env (mr_display_name m) (tokenize env q)"
    unfolding wf_vals_iff [OF assms(1), symmetric] by blast+
qed

lemma member_search_limit: "0 < limit \<Longrightarrow> int (length (member_search env r q limit)) \<le> limit"
  by (auto simp: member_search_def Let_def)

lemma member_search_sorted: "sorted (map (member_row_key env) (member_search env r q limit))"
  using mrow_order.sorted_slice
  by (auto simp: member_search_def Let_def take_map [symmetric] intro: sorted_wrt_take)

text \<open>When the result is shorter than the limit, nobody who matches is left out.\<close>

lemma member_search_complete:
  assumes "wf_member_repo r" and "map_of (mb_by_id r) i = Some m" and "mr_is_active m"
    and "matchesAllTokens env (mr_display_name m) (tokenize env q)" and "tokenize env q \<noteq> []"
    and "int (length (member_search env r q limit)) < limit"
  shows "m \<in> set (member_search env r q limit)"
proof -
  have "m \<in> set (vals (mb_by_id r))"
    using assms(1,2) by (metis wf_member_repoD(3) wf_vals_iff)
  with assms(3-6) show ?thesis
    by (auto simp: member_search_def Let_def split: if_splits)
qed

end
