(* ===== verification/TripRepo.thy ===== *)
theory TripRepo
  imports MemberRepo
begin

text \<open>
  The in-memory trip repository (internal/adapters/memory/triprepo/repo.go) behind the port
  internal/ports/out/triprepo: one Go map from trip IDs to trips, with the listing order of
  \<open>sortTrips\<close> and the draft visibility rule of \<open>ListDraftsVisibleTo\<close>.
\<close>

record trip_repo =
  tr_by_id :: "(TripID, trip) gomap"

definition new_trip_repo :: trip_repo where
  "new_trip_repo = \<lparr>tr_by_id = []\<rparr>"

section \<open>Deep copies\<close>

fun cloneIntPtr :: "int option \<Rightarrow> int option" where
  "cloneIntPtr None = None"
| "cloneIntPtr (Some v) = Some v"

fun cloneTimePtr :: "gotime option \<Rightarrow> gotime option" where
  "cloneTimePtr None = None"
| "cloneTimePtr (Some v) = Some v"

fun cloneFloatPtr :: "float64 option \<Rightarrow> float64 option" where
  "cloneFloatPtr None = None"
| "cloneFloatPtr (Some v) = Some v"

fun cloneLocation :: "location option \<Rightarrow> location option" where
  "cloneLocation None = None"
| "cloneLocation (Some l) = Some
     (l\<lparr>loc_address := cloneStringPtr (loc_address l),
        loc_latitude := cloneFloatPtr (loc_latitude l),
        loc_longitude := cloneFloatPtr (loc_longitude l)\<rparr>)"

definition cloneTrip :: "trip \<Rightarrow> trip" where
  "cloneTrip t = t\<lparr>
     t_organizers := t_organizers t @ [],
     t_name := cloneStringPtr (t_name t),
     t_description := cloneStringPtr (t_description t),
     t_end_date := cloneTimePtr (t_end_date t),
     t_capacity_rigs := cloneIntPtr (t_capacity_rigs t),
     t_attending_rigs := cloneIntPtr (t_attending_rigs t),
     t_difficulty_text := cloneStringPtr (t_difficulty_text t),
     t_comms_requirements_text := cloneStringPtr (t_comms_requirements_text t),
     t_recommended_requirements_text := cloneStringPtr (t_recommended_requirements_text t),
     t_meeting_location := cloneLocation (t_meeting_location t),
     t_artifacts := t_artifacts t @ [],
     t_start_date := cloneTimePtr (t_start_date t)\<rparr>"

lemma cloneIntPtr_id [simp]: "cloneIntPtr i = i"
  by (cases i) simp_all

lemma cloneTimePtr_id [simp]: "cloneTimePtr d = d"
  by (cases d) simp_all

lemma cloneFloatPtr_id [simp]: "cloneFloatPtr f = f"
  by (cases f) simp_all

lemma cloneLocation_id [simp]: "cloneLocation l = l"
  by (cases l) simp_all

lemma cloneTrip_id [simp]: "cloneTrip t = t"
  by (simp add: cloneTrip_def)

section \<open>Operations\<close>

definition trip_create :: "trip_repo \<Rightarrow> trip \<Rightarrow> goerror + trip_repo" where
  "trip_create r t =
     (if t_id t = '''' then Inl TripAlreadyExists
      else if map_of (tr_by_id r) (t_id t) \<noteq> None then Inl TripAlreadyExists
      else Inr (r\<lparr>tr_by_id := AList.update (t_id t) (cloneTrip t) (tr_by_id r)\<rparr>))"

definition trip_save :: "trip_repo \<Rightarrow> trip \<Rightarrow> goerror + trip_repo" where
  "trip_save r t =
     (if t_id t = '''' then Inl TripNotFound
      else Inr (r\<lparr>tr_by_id := AList.update (t_id t) (cloneTrip t) (tr_by_id r)\<rparr>))"

definition trip_get :: "trip_repo \<Rightarrow> TripID \<Rightarrow> goerror + trip" where
  "trip_get r i =
     (case map_of (tr_by_id r) i of None \<Rightarrow> Inl TripNotFound | Some t \<Rightarrow> Inr (cloneTrip t))"

definition less_trip :: "trip \<Rightarrow> trip \<Rightarrow> bool" where
  "less_trip a b =
     (case (t_start_date a, t_start_date b) of
        (Some ad, Some bd) \<Rightarrow>
          if ad \<noteq> bd then ad < bd
          else if t_created_at a \<noteq> t_created_at b then t_created_at a < t_created_at b
          else t_id a < t_id b
      | (Some _, None) \<Rightarrow> True
      | (None, Some _) \<Rightarrow> False
      | (None, None) \<Rightarrow>
          if t_created_at a \<noteq> t_created_at b then t_created_at a < t_created_at b
          else t_id a < t_id b)"

fun is_in_slice :: "MemberID list \<Rightarrow> MemberID \<Rightarrow> bool" where
  "is_in_slice [] caller = False"
| "is_in_slice (i # is) caller = (if i = caller then True else is_in_slice is caller)"

fun isDraftVisibleTo :: "trip \<Rightarrow> MemberID \<Rightarrow> bool" where
  "isDraftVisibleTo t caller =
     (case t_draft_visibility t of
        Public \<Rightarrow> is_in_slice (t_organizers t) caller
      | Private \<Rightarrow> t_creator t = caller
      | OtherVisibility _ \<Rightarrow> False)"

definition trip_list_published_and_canceled :: "trip_repo \<Rightarrow> trip list" where
  "trip_list_published_and_canceled r =
     sort_slice less_trip
       (map cloneTrip
         (filter (\<lambda>t. t_status t = Published \<or> t_status t = Canceled) (vals (tr_by_id r))))"

definition trip_list_drafts_visible_to :: "trip_repo \<Rightarrow> MemberID \<Rightarrow> trip list" where
  "trip_list_drafts_visible_to r caller =
     sort_slice less_trip
       (map cloneTrip
         (filter (\<lambda>t. t_status t = Draft \<and> isDraftVisibleTo t caller) (vals (tr_by_id r))))"

section \<open>Invariant and the port's laws\<close>

definition wf_trip_repo :: "trip_repo \<Rightarrow> bool" where
  "wf_trip_repo r \<longleftrightarrow>
     wf_map (tr_by_id r) \<and> (\<forall>i t. map_of (tr_by_id r) i = Some t \<longrightarrow> t_id t = i \<and> i \<noteq> '''')"

lemma wf_trip_repoD:
  assumes "wf_trip_repo r"
  shows "wf_map (tr_by_id r)" and "map_of (tr_by_id r) i = Some t \<Longrightarrow> t_id t = i \<and> i \<noteq> ''''"
  using assms unfolding wf_trip_repo_def by blast+

lemma wf_new_trip_repo [simp]: "wf_trip_repo new_trip_repo"
  by (simp add: wf_trip_repo_def new_trip_repo_def)

definition trip_lookup :: "trip_repo \<Rightarrow> TripID \<Rightarrow> trip option" where
  "trip_lookup r i = map_of (tr_by_id r) i"

definition trip_put :: "trip_repo \<Rightarrow> TripID \<Rightarrow> trip \<Rightarrow> trip_repo" where
  "trip_put r i t = r\<lparr>tr_by_id := AList.update i t (tr_by_id r)\<rparr>"

interpretation trepo: keyed_store trip_lookup trip_put
  by unfold_locales (simp add: trip_lookup_def trip_put_def)

lemma trip_get_Inr [simp]: "trip_get r i = Inr t \<longleftrightarrow> trip_lookup r i = Some t"
  by (simp add: trip_get_def trip_lookup_def split: option.split)

lemma trip_get_Inl [simp]: "trip_get r i = Inl e \<longleftrightarrow> trip_lookup r i = None \<and> e = TripNotFound"
  by (auto simp: trip_get_def trip_lookup_def split: option.split)

lemma trip_get_cases: "trip_get r i = (case trip_lookup r i of None \<Rightarrow> Inl TripNotFound | Some t \<Rightarrow> Inr t)"
  by (simp add: trip_get_def trip_lookup_def split: option.split)
lemma trip_save_put: "trip_save r t = (if t_id t = '''' then Inl TripNotFound else Inr (trip_put r (t_id t) t))"
  by (simp add: trip_save_def trip_put_def)

lemma trip_create_put:
  "trip_create r t = Inr r' \<longleftrightarrow> t_id t \<noteq> '''' \<and> trip_lookup r (t_id t) = None \<and> r' = trip_put r (t_id t) t"
  by (auto simp: trip_create_def trip_put_def trip_lookup_def)

lemma trip_put_wf: "wf_trip_repo r \<Longrightarrow> t_id t = i \<Longrightarrow> i \<noteq> '''' \<Longrightarrow> wf_trip_repo (trip_put r i t)"
  by (auto simp: wf_trip_repo_def trip_put_def)

lemma trip_lookup_id: "wf_trip_repo r \<Longrightarrow> trip_lookup r i = Some t \<Longrightarrow> t_id t = i \<and> i \<noteq> ''''"
  by (simp add: trip_lookup_def wf_trip_repoD(2))

section \<open>Listing\<close>

definition trip_key :: "trip \<Rightarrow> (nat \<times> int) \<times> int \<times> TripID" where
  "trip_key t = ((case t_start_date t of Some d \<Rightarrow> (0, d) | None \<Rightarrow> (1, 0)), t_created_at t, t_id t)"

interpretation trip_order: slice_order less_trip trip_key
  by unfold_locales (auto simp: less_trip_def trip_key_def less_prod_def' split: option.splits)

lemma is_in_slice_iff [simp]: "is_in_slice is c \<longleftrightarrow> c \<in> set is"
  by (induction "is") auto

lemma wf_trip_vals_iff:
  assumes "wf_trip_repo r"
  shows "t \<in> set (vals (tr_by_id r)) \<longleftrightarrow> trip_lookup r (t_id t) = Some t"
proof -
  have "t \<in> set (vals (tr_by_id r)) \<longleftrightarrow> (\<exists>i. map_of (tr_by_id r) i = Some t)"
    using wf_map_vals [OF wf_trip_repoD(1) [OF assms]] by (simp add: ran_def)
  then show ?thesis using wf_trip_repoD(2) [OF assms] by (auto simp: trip_lookup_def)
qed

lemma map_cloneTrip [simp]: "map cloneTrip ts = ts"
  by (simp add: map_idI)

lemma list_published_set:
  assumes "wf_trip_repo r"
  shows "t \<in> set (trip_list_published_and_canceled r) \<longleftrightarrow>
    trip_lookup r (t_id t) = Some t \<and> (t_status t = Published \<or> t_status t = Canceled)"
  unfolding wf_trip_vals_iff [OF assms, symmetric]
  by (auto simp: trip_list_published_and_canceled_def)

lemma list_drafts_set:
  assumes "wf_trip_repo r"
  shows "t \<in> set (trip_list_drafts_visible_to r c) \<longleftrightarrow>
    trip_lookup r (t_id t) = Some t \<and> t_status t = Draft \<and> isDraftVisibleTo t c"
  unfolding wf_trip_vals_iff [OF assms, symmetric]
  by (auto simp: trip_list_drafts_visible_to_def)

lemma list_published_sorted: "sorted (map trip_key (trip_list_published_and_canceled r))"
  by (simp add: trip_list_published_and_canceled_def trip_order.sorted_slice)

lemma list_drafts_sorted: "sorted (map trip_key (trip_list_drafts_visible_to r c))"
  by (simp add: trip_list_drafts_visible_to_def trip_order.sorted_slice)

lemma sort_trips_order_independent:
  assumes "wf_trip_repo r" and "wf_trip_repo r'" and "trip_lookup r = trip_lookup r'"
  shows "sort_slice less_trip (filter P (vals (tr_by_id r))) =
         sort_slice less_trip (filter P (vals (tr_by_id r')))"
proof (rule trip_order.sort_slice_perm)
  have "map_of (tr_by_id r) = map_of (tr_by_id r')"
    using assms(3) by (simp add: trip_lookup_def [abs_def])
  then have "mset (tr_by_id r) = mset (tr_by_id r')"
    using assms(1,2) by (intro wf_map_entries_perm) (auto dest: wf_trip_repoD)
  then have "mset (vals (tr_by_id r)) = mset (vals (tr_by_id r'))"
    by (metis mset_map)
  then show "mset (filter P (vals (tr_by_id r))) = mset (filter P (vals (tr_by_id r')))"
    by (metis mset_filter)
  show "inj_on trip_key (set (filter P (vals (tr_by_id r))))"
  proof (rule inj_onI)
    fix t u assume "t \<in> set (filter P (vals (tr_by_id r)))" "u \<in> set (filter P (vals (tr_by_id r)))"
      and "trip_key t = trip_key u"
    then have t: "trip_lookup r (t_id t) = Some t" and u: "trip_lookup r (t_id u) = Some u"
      and "trip_key t = trip_key u"
      unfolding set_filter mem_Collect_eq wf_trip_vals_iff [OF assms(1)] by blast+
    then have "t_id t = t_id u" unfolding trip_key_def prod.inject by blast
    with t u show "t = u" by (metis option.inject)
  qed
qed

lemma lists_order_independent:
  assumes "wf_trip_repo r" and "wf_trip_repo r'" and "trip_lookup r = trip_lookup r'"
  shows "trip_list_published_and_canceled r = trip_list_published_and_canceled r'"
    and "trip_list_drafts_visible_to r c = trip_list_drafts_visible_to r' c"
  using sort_trips_order_independent [OF assms]
  by (simp_all add: trip_list_published_and_canceled_def trip_list_drafts_visible_to_def)

end
