(* ===== verification/TripsCore.thy ===== *)
theory TripsCore
  imports TripRepo
begin

text \<open>
  The pure part of the trip service (internal/app/trips/service.go): who may see and who may
  change a trip, the projections to the domain read model, the patches of an update, what a
  trip needs before it can be published, and the announcement text.
\<close>

record location_patch =
  lp_label :: "gostring optional"
  lp_address :: "gostring optional"
  lp_latitude :: "float64 optional"
  lp_longitude :: "float64 optional"
  lp_clear_coordinates :: bool

record update_trip_input =
  ut_name :: "gostring optional"
  ut_description :: "gostring optional"
  ut_start_date :: "gotime optional"
  ut_end_date :: "gotime optional"
  ut_capacity_rigs :: "int optional"
  ut_difficulty_text :: "gostring optional"
  ut_meeting_location :: "location_patch option optional"  \<comment> \<open>\<open>Optional[*LocationPatch]\<close>\<close>
  ut_comms_requirements_text :: "gostring optional"
  ut_recommended_requirements_text :: "gostring optional"
  ut_artifact_ids :: "gostring list optional"

record trip_created =
  tc_id :: TripID
  tc_status :: trip_status
  tc_draft_visibility :: draft_visibility

section \<open>Errors\<close>

definition trip_not_found :: goerror where
  "trip_not_found = TripsError (app_err 404 ''TRIP_NOT_FOUND'' ''trip not found'')"

definition trips_conflict :: "gostring \<Rightarrow> gostring \<Rightarrow> goerror" where
  "trips_conflict code msg = TripsError (app_err 409 code msg)"

definition trips_invalid :: "gostring \<Rightarrow> gostring \<Rightarrow> gostring \<Rightarrow> goerror" where
  "trips_invalid msg field problem =
     TripsError (app_err_details 422 ''VALIDATION_ERROR'' msg [(field, DString problem)])"

section \<open>Visibility and authorisation\<close>

definition isOrganizer :: "trip \<Rightarrow> MemberID \<Rightarrow> bool" where
  "isOrganizer t caller = is_in_slice (t_organizers t) caller"

definition isTripVisibleToCaller :: "trip \<Rightarrow> MemberID \<Rightarrow> bool" where
  "isTripVisibleToCaller t caller =
     (case t_status t of
        Published \<Rightarrow> True
      | Canceled \<Rightarrow> True
      | Draft \<Rightarrow>
          (case t_draft_visibility t of
             Public \<Rightarrow> is_in_slice (t_organizers t) caller
           | Private \<Rightarrow> t_creator t = caller
           | OtherVisibility _ \<Rightarrow> False)
      | OtherStatus _ \<Rightarrow> False)"

definition isDraftVisibleToCaller :: "trip \<Rightarrow> MemberID \<Rightarrow> bool" where
  "isDraftVisibleToCaller t caller =
     (if t_status t \<noteq> Draft then False
      else case t_draft_visibility t of
             Public \<Rightarrow> isOrganizer t caller
           | Private \<Rightarrow> t_creator t = caller
           | OtherVisibility _ \<Rightarrow> False)"

lemma isOrganizer_iff [simp]: "isOrganizer t c \<longleftrightarrow> c \<in> set (t_organizers t)"
  by (simp add: isOrganizer_def)

section \<open>Projections\<close>

definition toDomainSummary :: "trip \<Rightarrow> trip_summary" where
  "toDomainSummary t =
     \<lparr>ts_id = t_id t, ts_name = cloneStringPtr (t_name t),
      ts_start_date = cloneTimePtr (t_start_date t), ts_end_date = cloneTimePtr (t_end_date t),
      ts_status = t_status t,
      ts_draft_visibility = (if t_status t = Draft then Some (t_draft_visibility t) else None),
      ts_capacity_rigs = cloneIntPtr (t_capacity_rigs t),
      ts_attending_rigs =
        (if t_status t = Published then cloneIntPtr (t_attending_rigs t) else None)\<rparr>"

definition toDomainDetails :: "trip \<Rightarrow> trip_details" where
  "toDomainDetails t =
     trip_summary.extend (toDomainSummary t)
       (trip_details.fields (cloneStringPtr (t_description t)) (cloneStringPtr (t_difficulty_text t))
          (cloneLocation (t_meeting_location t)) (cloneStringPtr (t_comms_requirements_text t))
          (cloneStringPtr (t_recommended_requirements_text t)) [] [] None None False)"

section \<open>Patches of an update\<close>

definition empty_location :: location where
  "empty_location = \<lparr>loc_label = '''', loc_address = None, loc_latitude = None, loc_longitude = None\<rparr>"

definition applyLocationPatch :: "location option \<Rightarrow> location_patch option \<Rightarrow> location option" where
  "applyLocationPatch existing patch =
     (let out = (case existing of None \<Rightarrow> empty_location | Some l \<Rightarrow> l) in
      case patch of
        None \<Rightarrow> Some out
      | Some p \<Rightarrow>
          let out = (case lp_label p of Specified v \<Rightarrow> out\<lparr>loc_label := v\<rparr> | _ \<Rightarrow> out);
              out = out\<lparr>loc_address := apply_nullable (loc_address out) (lp_address p)\<rparr>;
              out = (if lp_clear_coordinates p
                     then out\<lparr>loc_latitude := None, loc_longitude := None\<rparr> else out);
              out = out\<lparr>loc_latitude := apply_nullable (loc_latitude out) (lp_latitude p)\<rparr>;
              out = out\<lparr>loc_longitude := apply_nullable (loc_longitude out) (lp_longitude p)\<rparr>
          in Some out)"

text \<open>The map \<open>byID\<close>: of two artifacts with one ID the later wins.\<close>

fun artifacts_by_id :: "trip_artifact list \<Rightarrow> (gostring, trip_artifact) gomap \<Rightarrow> (gostring, trip_artifact) gomap" where
  "artifacts_by_id [] m = m"
| "artifacts_by_id (a # as) m = artifacts_by_id as (AList.update (art_id a) a m)"

fun pick_artifacts :: "(gostring, trip_artifact) gomap \<Rightarrow> gostring list \<Rightarrow> goerror + trip_artifact list" where
  "pick_artifacts by_id [] = Inr []"
| "pick_artifacts by_id (i # is) =
     (case map_of by_id i of
        None \<Rightarrow> Inl (trips_invalid ''invalid artifactIds'' ''artifactIds'' (''unknown artifactId: '' @ i))
      | Some a \<Rightarrow> and_then (pick_artifacts by_id is) (\<lambda>out. Inr (a # out)))"

definition reorderArtifactsByID :: "trip_artifact list \<Rightarrow> gostring list \<Rightarrow> goerror + trip_artifact list" where
  "reorderArtifactsByID existing is = pick_artifacts (artifacts_by_id existing []) is"

section \<open>Publishing\<close>

definition hasText :: "gostring option \<Rightarrow> bool" where
  "hasText p = (case p of None \<Rightarrow> False | Some s \<Rightarrow> trim_space s \<noteq> '''')"

definition requiredPublishFieldsMissing :: "trip \<Rightarrow> gostring list" where
  "requiredPublishFieldsMissing t =
     (if \<not> hasText (t_name t) then [''name''] else []) @
     (if \<not> hasText (t_description t) then [''description''] else []) @
     (if t_start_date t = None then [''startDate''] else []) @
     (if t_end_date t = None then [''endDate''] else []) @
     (if (case t_capacity_rigs t of None \<Rightarrow> True | Some c \<Rightarrow> c < 1) then [''capacityRigs''] else []) @
     (if \<not> hasText (t_difficulty_text t) then [''difficultyText''] else []) @
     (if (case t_meeting_location t of None \<Rightarrow> True | Some l \<Rightarrow> trim_space (loc_label l) = '''')
      then [''meetingLocation''] else []) @
     (if \<not> hasText (t_comms_requirements_text t) then [''commsRequirementsText''] else []) @
     (if \<not> hasText (t_recommended_requirements_text t) then [''recommendedRequirementsText''] else []) @
     (if t_organizers t = [] then [''organizers''] else [])"

definition nl :: gostring where
  "nl = [char_of (10 :: nat)]"

text \<open>The closing line, with the typographic apostrophe U+2019 in UTF-8.\<close>

definition closing_line :: gostring where
  "closing_line = ''RSVP in the app once you'' @ map char_of [0xE2, 0x80, 0x99 :: nat] @ ''re ready.''"

definition announcementCopyFromTrip :: "trip_details \<Rightarrow> gostring" where
  "announcementCopyFromTrip t =
     (let name = (case ts_name t of
                    Some n \<Rightarrow> if trim_space n \<noteq> '''' then trim_space n else ''(untitled)''
                  | None \<Rightarrow> ''(untitled)'');
          date_line =
            (case (ts_start_date t, ts_end_date t) of
               (Some sd, Some ed) \<Rightarrow> ''Dates: '' @ format_date sd @ '' to '' @ format_date ed
             | (Some sd, None) \<Rightarrow> ''Start: '' @ format_date sd
             | (None, _) \<Rightarrow> ''Dates: TBD'');
          cap_line = (case ts_capacity_rigs t of
                        Some c \<Rightarrow> ''Capacity: '' @ show_int c @ '' rigs'' | None \<Rightarrow> '''');
          loc_line =
            (case td_meeting_location t of
               None \<Rightarrow> ''''
             | Some l \<Rightarrow>
                 if trim_space (loc_label l) \<noteq> '''' then
                   (let line = ''Meet: '' @ trim_space (loc_label l) in
                    case loc_address l of
                      Some a \<Rightarrow> if trim_space a \<noteq> '''' then line @ '' ('' @ trim_space a @ '')'' else line
                    | None \<Rightarrow> line)
                 else '''');
          desc = (case td_description t of
                    Some d \<Rightarrow> if trim_space d \<noteq> '''' then trim_space d else ''''
                  | None \<Rightarrow> '''');
          lines = [''Trip: '' @ name, date_line];
          lines = (if cap_line \<noteq> '''' then lines @ [cap_line] else lines);
          lines = (if loc_line \<noteq> '''' then lines @ [loc_line] else lines);
          lines = (if desc \<noteq> '''' then lines @ ['''', desc] else lines);
          lines = lines @ ['''', closing_line]
      in join nl lines)"

section \<open>Lemmas\<close>

lemma draft_visible_iff: "isDraftVisibleToCaller t c \<longleftrightarrow> t_status t = Draft \<and> isTripVisibleToCaller t c"
  by (auto simp: isDraftVisibleToCaller_def isTripVisibleToCaller_def split: draft_visibility.split)

lemma visible_published [simp]:
  "t_status t = Published \<Longrightarrow> isTripVisibleToCaller t c"
  "t_status t = Canceled \<Longrightarrow> isTripVisibleToCaller t c"
  by (simp_all add: isTripVisibleToCaller_def)

text \<open>The rule of the service and the rule of the repository's listing are the same rule.\<close>

lemma draft_listed_iff_visible:
  "t_status t = Draft \<Longrightarrow> isDraftVisibleTo t c \<longleftrightarrow> isTripVisibleToCaller t c"
  by (simp add: isTripVisibleToCaller_def split: draft_visibility.split)

lemma summary_fields [simp]:
  "ts_id (toDomainDetails t) = t_id t" "ts_status (toDomainDetails t) = t_status t"
  "ts_name (toDomainDetails t) = t_name t" "ts_start_date (toDomainDetails t) = t_start_date t"
  "ts_end_date (toDomainDetails t) = t_end_date t"
  "ts_capacity_rigs (toDomainDetails t) = t_capacity_rigs t"
  "td_description (toDomainDetails t) = t_description t"
  "td_meeting_location (toDomainDetails t) = t_meeting_location t"
  "td_difficulty_text (toDomainDetails t) = t_difficulty_text t"
  "td_comms_requirements_text (toDomainDetails t) = t_comms_requirements_text t"
  "td_recommended_requirements_text (toDomainDetails t) = t_recommended_requirements_text t"
  by (simp_all add: toDomainDetails_def toDomainSummary_def trip_summary.defs trip_details.defs)

text \<open>The publishing checklist, as a condition on the trip.\<close>

definition ready_to_publish :: "trip \<Rightarrow> bool" where
  "ready_to_publish t \<longleftrightarrow>
     hasText (t_name t) \<and> hasText (t_description t) \<and> t_start_date t \<noteq> None \<and> t_end_date t \<noteq> None \<and>
     (\<exists>c. t_capacity_rigs t = Some c \<and> 1 \<le> c) \<and> hasText (t_difficulty_text t) \<and>
     (\<exists>l. t_meeting_location t = Some l \<and> trim_space (loc_label l) \<noteq> '''') \<and>
     hasText (t_comms_requirements_text t) \<and> hasText (t_recommended_requirements_text t) \<and>
     t_organizers t \<noteq> []"

lemma missing_Nil_iff: "requiredPublishFieldsMissing t = [] \<longleftrightarrow> ready_to_publish t"
  by (auto simp: requiredPublishFieldsMissing_def ready_to_publish_def not_less split: option.splits)



lemma artifacts_by_id_map:
  "map_of (artifacts_by_id as m) i =
     (if i \<in> art_id ` set as then Some (last (filter (\<lambda>a. art_id a = i) as)) else map_of m i)"
proof (induction as arbitrary: m)
  case Nil
  then show ?case by simp
next
  case (Cons a as)
  have "filter (\<lambda>b. art_id b = i) as \<noteq> [] \<longleftrightarrow> i \<in> art_id ` set as"
    by (auto simp: filter_empty_conv)
  then show ?case using Cons by auto
qed

lemma artifacts_lookup:
  "map_of (artifacts_by_id as []) i = Some a \<Longrightarrow> a \<in> set as \<and> art_id a = i"
proof -
  assume a: "map_of (artifacts_by_id as []) i = Some a"
  then have "a = last (filter (\<lambda>a. art_id a = i) as)" and "filter (\<lambda>a. art_id a = i) as \<noteq> []"
    by (auto simp: artifacts_by_id_map filter_empty_conv split: if_splits)
  then have "a \<in> set (filter (\<lambda>a. art_id a = i) as)" using last_in_set by metis
  then show ?thesis by simp
qed

lemma pick_artifacts_Inr:
  "pick_artifacts m is = Inr out \<longleftrightarrow> map (map_of m) is = map Some out"
proof (induction "is" arbitrary: out)
  case Nil
  then show ?case by auto
next
  case (Cons i "is")
  then show ?case
    by (cases out) (auto simp: and_then_Inr split: option.split)
qed

text \<open>A reordering lists exactly the requested IDs, each an artifact the trip already had.\<close>

lemma reorder_success:
  assumes "reorderArtifactsByID as is = Inr out"
  shows "map art_id out = is" and "set out \<subseteq> set as"
proof -
  have m: "map (map_of (artifacts_by_id as [])) is = map Some out"
    using assms by (simp add: reorderArtifactsByID_def pick_artifacts_Inr)
  then have len: "length is = length out" by (metis length_map)
  have each: "map_of (artifacts_by_id as []) (is ! k) = Some (out ! k)" if "k < length out" for k
    using m that len by (metis nth_map)
  show "map art_id out = is"
  proof (rule nth_equalityI)
    show "length (map art_id out) = length is" by (simp add: len)
    fix k assume "k < length (map art_id out)"
    then show "map art_id out ! k = is ! k" using artifacts_lookup [OF each [of k]] by simp
  qed
  show "set out \<subseteq> set as"
    using each artifacts_lookup by (auto simp: set_conv_nth) blast
qed

lemma reorder_total:
  "(\<exists>out. reorderArtifactsByID as is = Inr out) \<longleftrightarrow> set is \<subseteq> art_id ` set as"
proof -
  have "(\<exists>out. pick_artifacts m is = Inr out) \<longleftrightarrow> (\<forall>i \<in> set is. map_of m i \<noteq> None)" for m
    by (induction "is") (auto simp: and_then_Inr split: option.splits)
  then show ?thesis by (auto simp: reorderArtifactsByID_def artifacts_by_id_map)
qed

text \<open>When the IDs of the trip's artifacts and the requested IDs are distinct and the same, the
  artifacts are permuted: none is lost, changed or repeated.\<close>

lemma reorder_permutes:
  assumes "reorderArtifactsByID as is = Inr out" and "distinct is" and "distinct (map art_id as)"
    and "set is = art_id ` set as"
  shows "mset out = mset as"
proof -
  note r = reorder_success [OF assms(1)]
  have "distinct out" using r(1) assms(2) by (metis distinct_map)
  moreover have "distinct as" using assms(3) by (simp add: distinct_map)
  moreover have "set as \<subseteq> set out"
  proof
    fix a assume a: "a \<in> set as"
    then have "art_id a \<in> set (map art_id out)" using r(1) assms(4) by simp
    then obtain b where "b \<in> set out" "art_id b = art_id a" by auto
    moreover have "b \<in> set as" using r(2) calculation(1) by blast
    ultimately show "a \<in> set out" using assms(3) a by (metis distinct_map inj_on_eq_iff)
  qed
  ultimately show ?thesis using r(2) by (simp add: set_eq_iff_mset_eq_distinct [symmetric] subset_antisym)
qed

lemma apply_location_idem:
  "applyLocationPatch (applyLocationPatch l p) p = applyLocationPatch l p"
  by (cases p) (auto simp: applyLocationPatch_def Let_def split: option.splits optional.splits)

end
