(* ===== verification/RsvpRepo.thy ===== *)
theory RsvpRepo
  imports Domain
begin

text \<open>
  The in-memory RSVP repository (internal/adapters/memory/rsvprepo/repo.go): one Go map from
  (trip, member) to the RSVP record, last write wins.
\<close>

type_synonym rsvp_key = "TripID \<times> MemberID"

record rsvp_repo =
  rv_m :: "(rsvp_key, rsvp) gomap"

definition new_rsvp_repo :: rsvp_repo where
  "new_rsvp_repo = \<lparr>rv_m = []\<rparr>"

definition rsvp_get :: "rsvp_repo \<Rightarrow> TripID \<Rightarrow> MemberID \<Rightarrow> goerror + rsvp" where
  "rsvp_get r t m = (case map_of (rv_m r) (t, m) of None \<Rightarrow> Inl RsvpNotFound | Some v \<Rightarrow> Inr v)"

definition rsvp_upsert :: "rsvp_repo \<Rightarrow> rsvp \<Rightarrow> rsvp_repo" where
  "rsvp_upsert r rec = r\<lparr>rv_m := AList.update (rs_trip rec, rs_member rec) rec (rv_m r)\<rparr>"

definition less_rsvp :: "rsvp \<Rightarrow> rsvp \<Rightarrow> bool" where
  "less_rsvp a b =
     (if rs_member a = rs_member b then rs_updated_at a < rs_updated_at b
      else rs_member a < rs_member b)"

definition rsvp_list_by_trip :: "rsvp_repo \<Rightarrow> TripID \<Rightarrow> rsvp list" where
  "rsvp_list_by_trip r t =
     sort_slice less_rsvp (map snd (filter (\<lambda>(k, v). fst k = t) (rv_m r)))"

fun count_yes_loop :: "TripID \<Rightarrow> (rsvp_key, rsvp) gomap \<Rightarrow> int \<Rightarrow> int" where
  "count_yes_loop t [] n = n"
| "count_yes_loop t ((k, v) # m) n =
     (if fst k \<noteq> t then count_yes_loop t m n
      else if rs_status v = Yes then count_yes_loop t m (n + 1)
      else count_yes_loop t m n)"

definition rsvp_count_yes_by_trip :: "rsvp_repo \<Rightarrow> TripID \<Rightarrow> int" where
  "rsvp_count_yes_by_trip r t = count_yes_loop t (rv_m r) 0"

section \<open>Invariant and laws\<close>

definition wf_rsvp_repo :: "rsvp_repo \<Rightarrow> bool" where
  "wf_rsvp_repo r \<longleftrightarrow>
     wf_map (rv_m r) \<and> (\<forall>(k, v) \<in> set (rv_m r). k = (rs_trip v, rs_member v))"

lemma wf_rsvp_repoD:
  assumes "wf_rsvp_repo r"
  shows "wf_map (rv_m r)"
    and "map_of (rv_m r) (t, m) = Some v \<Longrightarrow> rs_trip v = t \<and> rs_member v = m"
    and "(k, v) \<in> set (rv_m r) \<Longrightarrow> k = (rs_trip v, rs_member v)"
    and "map_of (rv_m r) k = Some v \<Longrightarrow> k = (rs_trip v, rs_member v)"
  using assms by (auto simp: wf_rsvp_repo_def dest!: map_of_SomeD)

lemma wf_new_rsvp_repo [simp]: "wf_rsvp_repo new_rsvp_repo"
  by (simp add: wf_rsvp_repo_def new_rsvp_repo_def)

lemma rsvp_upsert_wf [simp]: "wf_rsvp_repo r \<Longrightarrow> wf_rsvp_repo (rsvp_upsert r v)"
proof -
  assume wf: "wf_rsvp_repo r"
  let ?m = "AList.update (rs_trip v, rs_member v) v (rv_m r)"
  have "wf_map ?m" using wf_rsvp_repoD(1) [OF wf] by simp
  moreover have "k = (rs_trip u, rs_member u)" if "(k, u) \<in> set ?m" for k u
  proof -
    have "map_of ?m k = Some u" using that \<open>wf_map ?m\<close> by (simp only: wf_map_in_set)
    then show ?thesis
      using wf_rsvp_repoD(4) [OF wf, of k u] by (simp split: if_splits)
  qed
  ultimately show ?thesis by (auto simp: wf_rsvp_repo_def rsvp_upsert_def)
qed

definition rsvp_lookup :: "rsvp_repo \<Rightarrow> rsvp_key \<Rightarrow> rsvp option" where
  "rsvp_lookup r k = map_of (rv_m r) k"

definition rsvp_put :: "rsvp_repo \<Rightarrow> rsvp_key \<Rightarrow> rsvp \<Rightarrow> rsvp_repo" where
  "rsvp_put r k v = r\<lparr>rv_m := AList.update k v (rv_m r)\<rparr>"

interpretation rrepo: keyed_store rsvp_lookup rsvp_put
  by unfold_locales (simp add: rsvp_lookup_def rsvp_put_def)

lemma rsvp_upsert_put: "rsvp_upsert r v = rsvp_put r (rs_trip v, rs_member v) v"
  by (simp add: rsvp_upsert_def rsvp_put_def)

lemma rsvp_get_cases:
  "rsvp_get r t m = (case rsvp_lookup r (t, m) of None \<Rightarrow> Inl RsvpNotFound | Some v \<Rightarrow> Inr v)"
  by (simp add: rsvp_get_def rsvp_lookup_def)

lemma rsvp_lookup_key: "wf_rsvp_repo r \<Longrightarrow> rsvp_lookup r (t, m) = Some v \<Longrightarrow> rs_trip v = t \<and> rs_member v = m"
  by (simp add: rsvp_lookup_def wf_rsvp_repoD(2))

section \<open>The YES count\<close>

definition yes_on :: "TripID \<Rightarrow> rsvp \<Rightarrow> bool" where
  "yes_on t v \<longleftrightarrow> rs_trip v = t \<and> rs_status v = Yes"

lemma count_yes_loop_eq:
  "(\<forall>(k, v) \<in> set m. k = (rs_trip v, rs_member v)) \<Longrightarrow>
   count_yes_loop t m n = n + int (count_vals (yes_on t) m)"
  by (induction t m n rule: count_yes_loop.induct) (auto simp: yes_on_def)

lemma count_yes_eq: "wf_rsvp_repo r \<Longrightarrow> rsvp_count_yes_by_trip r t = int (count_vals (yes_on t) (rv_m r))"
  unfolding rsvp_count_yes_by_trip_def by (subst count_yes_loop_eq) (auto simp: wf_rsvp_repo_def)

lemma count_yes_nonneg: "wf_rsvp_repo r \<Longrightarrow> 0 \<le> rsvp_count_yes_by_trip r t"
  by (simp add: count_yes_eq)

text \<open>The count after one write.\<close>

lemma count_yes_upsert:
  assumes "wf_rsvp_repo r"
  shows "rsvp_count_yes_by_trip (rsvp_upsert r v) t =
     rsvp_count_yes_by_trip r t
       + (if yes_on t v then 1 else 0)
       - (case rsvp_lookup r (rs_trip v, rs_member v) of
            Some u \<Rightarrow> if yes_on t u then 1 else 0 | None \<Rightarrow> 0)"
  using count_vals_update [OF wf_rsvp_repoD(1) [OF assms], of "yes_on t" "(rs_trip v, rs_member v)" v]
  by (simp add: count_yes_eq [OF rsvp_upsert_wf [OF assms]] count_yes_eq [OF assms])
     (auto simp: rsvp_upsert_def rsvp_lookup_def split: option.splits if_splits)

text \<open>Somebody who said yes is counted.\<close>

lemma count_yes_pos:
  assumes "wf_rsvp_repo r" and "rsvp_lookup r (t, m) = Some v" and "rs_status v = Yes"
  shows "1 \<le> rsvp_count_yes_by_trip r t"
proof -
  have "(( t, m), v) \<in> set (rv_m r)" using assms(2) by (simp add: rsvp_lookup_def map_of_SomeD)
  moreover have "yes_on t v" using assms rsvp_lookup_key by (auto simp: yes_on_def)
  ultimately have "v \<in> set (filter (yes_on t) (vals (rv_m r)))" by force
  then have "0 < count_vals (yes_on t) (rv_m r)"
    unfolding count_vals_def by (metis length_pos_if_in_set)
  then show ?thesis by (simp add: count_yes_eq [OF assms(1)])
qed

section \<open>Listing\<close>

definition rsvp_sort_key :: "rsvp \<Rightarrow> MemberID \<times> gotime" where
  "rsvp_sort_key v = (rs_member v, rs_updated_at v)"

interpretation rsvp_order: slice_order less_rsvp rsvp_sort_key
  by unfold_locales (auto simp: less_rsvp_def rsvp_sort_key_def less_prod_def')

lemma list_by_trip_filter:
  assumes "wf_rsvp_repo r"
  shows "map snd (filter (\<lambda>(k, v). fst k = t) (rv_m r)) = filter (\<lambda>v. rs_trip v = t) (vals (rv_m r))"
proof -
  have "(\<forall>(k, v) \<in> set m. k = (rs_trip v, rs_member v)) \<Longrightarrow>
    map snd (filter (\<lambda>(k, v). fst k = t) m) = filter (\<lambda>v. rs_trip v = t) (vals m)"
    for m :: "(rsvp_key, rsvp) gomap"
    by (induction m) auto
  then show ?thesis using assms unfolding wf_rsvp_repo_def by blast
qed

lemma list_by_trip_set:
  assumes "wf_rsvp_repo r"
  shows "v \<in> set (rsvp_list_by_trip r t) \<longleftrightarrow> rs_trip v = t \<and> rsvp_lookup r (t, rs_member v) = Some v"
proof -
  have "v \<in> set (vals (rv_m r)) \<longleftrightarrow> (\<exists>k. map_of (rv_m r) k = Some v)"
    using wf_map_vals [OF wf_rsvp_repoD(1) [OF assms]] by (simp add: ran_def)
  moreover note wf_rsvp_repoD(4) [OF assms]
  ultimately show ?thesis
    unfolding rsvp_list_by_trip_def list_by_trip_filter [OF assms] set_sort_slice set_filter
    by (auto simp: rsvp_lookup_def simp del: set_map)
qed

lemma list_by_trip_members_distinct:
  assumes "wf_rsvp_repo r"
  shows "distinct (map rs_member (rsvp_list_by_trip r t))"
proof -
  let ?fs = "filter (\<lambda>(k, v). fst k = t) (rv_m r)"
  have "distinct (map fst ?fs)"
    using wf_rsvp_repoD(1) [OF assms] by (simp add: wf_map_def distinct_map_filter)
  moreover have "inj_on (\<lambda>k. snd k) (set (map fst ?fs))" by (auto simp: inj_on_def)
  ultimately have "distinct (map snd (map fst ?fs))" by (simp only: distinct_map)
  moreover have "map snd (map fst ?fs) = map rs_member (map snd ?fs)"
    unfolding map_map by (rule map_cong [OF refl]) (auto dest!: wf_rsvp_repoD(3) [OF assms])
  ultimately have "distinct (map rs_member (map snd ?fs))" by (simp only:)
  then have "distinct (map snd ?fs)" "inj_on rs_member (set (map snd ?fs))"
    by (simp_all only: distinct_map)
  then show ?thesis unfolding rsvp_list_by_trip_def by (simp add: distinct_map)
qed

lemma count_yes_list:
  assumes "wf_rsvp_repo r"
  shows "rsvp_count_yes_by_trip r t = int (length (filter (\<lambda>v. rs_status v = Yes) (rsvp_list_by_trip r t)))"
proof -
  have "mset (rsvp_list_by_trip r t) = mset (filter (\<lambda>v. rs_trip v = t) (vals (rv_m r)))"
    by (simp only: rsvp_list_by_trip_def list_by_trip_filter [OF assms] mset_sort_slice)
  then have "mset (filter (\<lambda>v. rs_status v = Yes) (rsvp_list_by_trip r t)) =
      mset (filter (yes_on t) (vals (rv_m r)))"
    by (simp add: mset_filter filter_filter_mset yes_on_def conj_commute)
  then have "length (filter (\<lambda>v. rs_status v = Yes) (rsvp_list_by_trip r t)) =
      length (filter (yes_on t) (vals (rv_m r)))"
    by (metis size_mset)
  then show ?thesis by (simp add: count_yes_eq [OF assms] count_vals_def)
qed

end
