(* ===== verification/TripsSvc.thy ===== *)
theory TripsSvc
  imports TripsCore RsvpRepo
begin

text \<open>
  The trip service (internal/app/trips/service.go) over the in-memory repositories, whose three
  states make up the \<open>world\<close>. A query is a function of the world; a method that writes returns
  its result together with the world it leaves, since some methods can fail after their write
  (the details of a saved trip are computed from the repositories again). The readings of
  \<open>time.Now().UTC()\<close> and the generated trip ID are arguments, one per call site.
\<close>

record world =
  w_members :: member_repo
  w_trips :: trip_repo
  w_rsvps :: rsvp_repo

type_synonym 'a outcome = "(goerror + 'a) \<times> world"

definition new_world :: world where
  "new_world = \<lparr>w_members = new_member_repo, w_trips = new_trip_repo, w_rsvps = new_rsvp_repo\<rparr>"

section \<open>Shared steps\<close>

text \<open>\<open>s.trips.GetByID\<close> with the error mapping every method repeats.\<close>

definition load_trip :: "world \<Rightarrow> TripID \<Rightarrow> goerror + trip" where
  "load_trip w tid =
     (case trip_get (w_trips w) tid of
        Inl e \<Rightarrow> if e = TripNotFound then Inl trip_not_found else Inl e
      | Inr t \<Rightarrow> Inr t)"

definition load_visible_trip :: "world \<Rightarrow> MemberID \<Rightarrow> TripID \<Rightarrow> goerror + trip" where
  "load_visible_trip w caller tid =
     and_then (load_trip w tid) (\<lambda>t.
       if \<not> isTripVisibleToCaller t caller then Inl trip_not_found else Inr t)"

text \<open>The two authorisation checks of the organizer-only methods.\<close>

definition load_organized_trip :: "world \<Rightarrow> MemberID \<Rightarrow> TripID \<Rightarrow> goerror + trip" where
  "load_organized_trip w caller tid =
     and_then (load_visible_trip w caller tid) (\<lambda>t.
       if \<not> isOrganizer t caller then Inl trip_not_found else Inr t)"

definition member_summary_of :: "member_row \<Rightarrow> member_summary" where
  "member_summary_of m = \<lparr>ms_id = mr_id m, ms_display_name = mr_display_name m, ms_email = mr_email m,
     ms_group_alias_email = cloneStringPtr (mr_group_alias_email m)\<rparr>"

fun load_summaries :: "member_repo \<Rightarrow> MemberID list \<Rightarrow> goerror + member_summary list" where
  "load_summaries r [] = Inr []"
| "load_summaries r (i # is) =
     and_then (member_get_by_id r i) (\<lambda>m.
     and_then (load_summaries r is) (\<lambda>out. Inr (member_summary_of m # out)))"

definition loadOrganizerSummaries :: "world \<Rightarrow> MemberID list \<Rightarrow> goerror + member_summary list" where
  "loadOrganizerSummaries w is = load_summaries (w_members w) is"

definition less_member_summary :: "go_env \<Rightarrow> member_summary \<Rightarrow> member_summary \<Rightarrow> bool" where
  "less_member_summary env a b =
     (let di = to_lower env (ms_display_name a); dj = to_lower env (ms_display_name b) in
      if di = dj then ms_id a < ms_id b else di < dj)"

definition loadMemberSummariesSorted ::
    "go_env \<Rightarrow> world \<Rightarrow> MemberID list \<Rightarrow> goerror + member_summary list" where
  "loadMemberSummariesSorted env w is =
     (if is = [] then Inr []
      else and_then (load_summaries (w_members w) is)
             (\<lambda>out. Inr (sort_slice (less_member_summary env) out)))"

definition rsvp_ids :: "rsvp_response \<Rightarrow> rsvp list \<Rightarrow> MemberID list" where
  "rsvp_ids st recs = map rs_member (filter (\<lambda>r. rs_status r = st) recs)"

definition tripRSVPSummaryForTrip :: "go_env \<Rightarrow> world \<Rightarrow> trip \<Rightarrow> goerror + trip_rsvp_summary" where
  "tripRSVPSummaryForTrip env w t =
     (let recs = rsvp_list_by_trip (w_rsvps w) (t_id t) in
      and_then (loadMemberSummariesSorted env w (rsvp_ids Yes recs)) (\<lambda>yes.
      and_then (loadMemberSummariesSorted env w (rsvp_ids No recs)) (\<lambda>no.
        Inr \<lparr>sum_capacity_rigs = cloneIntPtr (t_capacity_rigs t),
             sum_attending_rigs = int (length yes),
             sum_attending_members = yes, sum_not_attending_members = no\<rparr>)))"

definition my_rsvp_of :: "TripID \<Rightarrow> MemberID \<Rightarrow> rsvp \<Rightarrow> my_rsvp" where
  "my_rsvp_of tid caller rec = \<lparr>my_trip = tid, my_member = caller, my_response = rs_status rec,
     my_updated_at = rs_updated_at rec\<rparr>"

definition myRSVPForTrip :: "world \<Rightarrow> trip \<Rightarrow> MemberID \<Rightarrow> goerror + my_rsvp" where
  "myRSVPForTrip w t caller =
     and_then (rsvp_get (w_rsvps w) (t_id t) caller) (\<lambda>rec. Inr (my_rsvp_of (t_id t) caller rec))"

text \<open>Details without a caller: what every mutating method returns.\<close>

definition tripDetailsForTrip :: "go_env \<Rightarrow> world \<Rightarrow> trip \<Rightarrow> goerror + trip_details" where
  "tripDetailsForTrip env w t =
     and_then (loadOrganizerSummaries w (t_organizers t)) (\<lambda>orgs.
       let d = (toDomainDetails t)\<lparr>td_organizers := orgs, td_artifacts := t_artifacts t,
                 td_rsvp_actions_enabled := (t_status t = Published)\<rparr> in
       if t_status t = Published \<or> t_status t = Canceled then
         and_then (tripRSVPSummaryForTrip env w t) (\<lambda>sum.
           Inr (d\<lparr>td_rsvp_summary := Some sum, td_my_rsvp := None\<rparr>))
       else Inr (d\<lparr>td_rsvp_summary := None, td_my_rsvp := None\<rparr>))"

text \<open>Saving and then reading the details back: the write survives an error of the reading.\<close>

definition save_and_details :: "go_env \<Rightarrow> world \<Rightarrow> trip \<Rightarrow> trip_details outcome" where
  "save_and_details env w t =
     (case trip_save (w_trips w) t of
        Inl e \<Rightarrow> (Inl e, w)
      | Inr ts \<Rightarrow> let w' = w\<lparr>w_trips := ts\<rparr> in (tripDetailsForTrip env w' t, w'))"

text \<open>Checks that fail before any write.\<close>

definition guarded :: "world \<Rightarrow> goerror + 'b \<Rightarrow> ('b \<Rightarrow> 'a outcome) \<Rightarrow> 'a outcome" where
  "guarded w m f = (case m of Inl e \<Rightarrow> (Inl e, w) | Inr x \<Rightarrow> f x)"

lemma guarded_simps [simp]: "guarded w (Inl e) f = (Inl e, w)" "guarded w (Inr x) f = f x"
  by (simp_all add: guarded_def)

section \<open>Queries\<close>

definition ListVisibleTripsForMember :: "world \<Rightarrow> trip_summary list" where
  "ListVisibleTripsForMember w = map toDomainSummary (trip_list_published_and_canceled (w_trips w))"

definition ListMyDraftTrips :: "world \<Rightarrow> MemberID \<Rightarrow> trip_summary list" where
  "ListMyDraftTrips w caller = map toDomainSummary (trip_list_drafts_visible_to (w_trips w) caller)"

definition GetTripDetails :: "go_env \<Rightarrow> world \<Rightarrow> MemberID \<Rightarrow> TripID \<Rightarrow> goerror + trip_details" where
  "GetTripDetails env w caller tid =
     and_then (load_visible_trip w caller tid) (\<lambda>t.
     and_then (loadOrganizerSummaries w (t_organizers t)) (\<lambda>orgs.
       let d = (toDomainDetails t)\<lparr>td_organizers := orgs, td_artifacts := t_artifacts t,
                 td_rsvp_actions_enabled := (t_status t = Published)\<rparr> in
       if t_status t = Published \<or> t_status t = Canceled then
         and_then (tripRSVPSummaryForTrip env w t) (\<lambda>sum.
           let d = d\<lparr>td_rsvp_summary := Some sum\<rparr> in
           case myRSVPForTrip w t caller of
             Inr my \<Rightarrow> Inr (d\<lparr>td_my_rsvp := Some my\<rparr>)
           | Inl e \<Rightarrow> if e = RsvpNotFound then Inr (d\<lparr>td_my_rsvp := None\<rparr>) else Inl e)
       else Inr (d\<lparr>td_rsvp_summary := None, td_my_rsvp := None\<rparr>)))"

definition GetMyRSVPForTrip :: "world \<Rightarrow> MemberID \<Rightarrow> TripID \<Rightarrow> goerror + my_rsvp" where
  "GetMyRSVPForTrip w caller tid =
     and_then (load_visible_trip w caller tid) (\<lambda>t.
       if t_status t = Draft
       then Inl (trips_conflict ''RSVP_NOT_AVAILABLE'' ''rsvp is not available for draft trips'')
       else case rsvp_get (w_rsvps w) tid caller of
              Inl e \<Rightarrow> if e = RsvpNotFound
                        then Inl (TripsError (app_err 404 ''RSVP_NOT_FOUND'' ''rsvp not found'')) else Inl e
            | Inr rec \<Rightarrow> Inr (my_rsvp_of tid caller rec))"

definition GetTripRSVPSummary :: "go_env \<Rightarrow> world \<Rightarrow> MemberID \<Rightarrow> TripID \<Rightarrow> goerror + trip_rsvp_summary" where
  "GetTripRSVPSummary env w caller tid =
     and_then (load_visible_trip w caller tid) (\<lambda>t.
       if t_status t = Draft
       then Inl (trips_conflict ''RSVP_NOT_AVAILABLE'' ''rsvp summary is not available for draft trips'')
       else tripRSVPSummaryForTrip env w t)"

end
