(* ===== verification/TripsCmd.thy ===== *)
theory TripsCmd
  imports TripsSvc
begin

text \<open>
  The methods of the trip service that write (internal/app/trips/service.go): \<open>SetMyRSVP\<close>,
  \<open>CreateTripDraft\<close>, \<open>UpdateTrip\<close>, \<open>SetTripDraftVisibility\<close>, \<open>AddTripOrganizer\<close>,
  \<open>RemoveTripOrganizer\<close>, \<open>CancelTrip\<close> and \<open>PublishTrip\<close>. Each is decided by a pure function
  of the loaded trip (the checks and the new trip, in the order of the source) and then saves.
\<close>

section \<open>SetMyRSVP\<close>

text \<open>
  What is checked on the loaded trip before the RSVP records are read; the result is the
  trip's capacity.
\<close>

definition rsvp_checks :: "trip \<Rightarrow> MemberID \<Rightarrow> rsvp_response \<Rightarrow> goerror + int" where
  "rsvp_checks t caller response =
     (if \<not> isTripVisibleToCaller t caller then Inl trip_not_found
      else if t_status t \<noteq> Published
        then Inl (trips_conflict ''TRIP_NOT_PUBLISHED'' ''rsvp is only allowed for published trips'')
      else case t_capacity_rigs t of
          None \<Rightarrow> Inl (trips_conflict ''TRIP_MISSING_CAPACITY''
                    ''published trip must have capacity to accept rsvps'')
        | Some cap \<Rightarrow>
            if cap < 1 then Inl (trips_conflict ''TRIP_MISSING_CAPACITY''
                    ''published trip must have capacity to accept rsvps'')
            else (case response of
                OtherResponse _ \<Rightarrow>
                  Inl (trips_invalid ''invalid response'' ''response'' ''must be YES, NO, or UNSET'')
              | _ \<Rightarrow> Inr cap))"

text \<open>How the answer changes the attendance: the previous answer, if any, and the new one.\<close>

definition rsvp_delta :: "rsvp option \<Rightarrow> rsvp_response \<Rightarrow> int" where
  "rsvp_delta existing target =
     (case existing of
        Some ex \<Rightarrow> if rs_status ex = Yes then (if target \<noteq> Yes then -1 else 0)
                   else if target = Yes then 1 else 0
      | None \<Rightarrow> if target = Yes then 1 else 0)"

definition new_attendance :: "int \<Rightarrow> rsvp option \<Rightarrow> rsvp_response \<Rightarrow> int" where
  "new_attendance cur existing target =
     (let n = cur + rsvp_delta existing target in if n < 0 then 0 else n)"

text \<open>
  The whole method. \<open>now1\<close> is the clock reading stored on the trip and \<open>now2\<close> the one stored
  on the RSVP. The trip is saved before the RSVP is.
\<close>

definition SetMyRSVP ::
    "world \<Rightarrow> MemberID \<Rightarrow> TripID \<Rightarrow> rsvp_response \<Rightarrow> gotime \<Rightarrow> gotime \<Rightarrow> my_rsvp outcome" where
  "SetMyRSVP w caller tid response now1 now2 =
     guarded w (load_trip w tid) (\<lambda>t.
     guarded w (rsvp_checks t caller response) (\<lambda>cap.
     guarded w (case rsvp_get (w_rsvps w) tid caller of
                  Inr ex \<Rightarrow> Inr (Some ex)
                | Inl e \<Rightarrow> if e = RsvpNotFound then Inr None else Inl e) (\<lambda>existing.
       if (case existing of Some ex \<Rightarrow> rs_status ex = response | None \<Rightarrow> False)
       then (Inr (my_rsvp_of tid caller (the existing)), w)
       else
         let new_att = new_attendance (rsvp_count_yes_by_trip (w_rsvps w) tid) existing response in
         if response = Yes \<and> cap < new_att
         then (Inl (trips_conflict ''TRIP_AT_CAPACITY'' ''trip is at capacity''), w)
         else
           guarded w (trip_save (w_trips w) (t\<lparr>t_attending_rigs := Some new_att, t_updated_at := now1\<rparr>))
             (\<lambda>ts.
               let rec = \<lparr>rs_trip = tid, rs_member = caller, rs_status = response, rs_updated_at = now2\<rparr> in
               (Inr (my_rsvp_of tid caller rec),
                w\<lparr>w_trips := ts, w_rsvps := rsvp_upsert (w_rsvps w) rec\<rparr>)))))"

section \<open>CreateTripDraft\<close>

definition new_draft :: "TripID \<Rightarrow> gostring \<Rightarrow> MemberID \<Rightarrow> gotime \<Rightarrow> trip" where
  "new_draft tid name caller now =
     \<lparr>t_id = tid, t_status = Draft, t_name = Some name, t_description = None, t_creator = caller,
      t_organizers = [caller], t_draft_visibility = Private, t_start_date = None, t_end_date = None,
      t_capacity_rigs = None, t_attending_rigs = None, t_difficulty_text = None,
      t_meeting_location = None, t_comms_requirements_text = None,
      t_recommended_requirements_text = None, t_artifacts = [], t_created_at = now,
      t_updated_at = now\<rparr>"

definition CreateTripDraft ::
    "world \<Rightarrow> MemberID \<Rightarrow> gostring \<Rightarrow> gotime \<Rightarrow> TripID \<Rightarrow> trip_created outcome" where
  "CreateTripDraft w caller name_in now new_id =
     guarded w (case member_get_by_id (w_members w) caller of
                  Inl e \<Rightarrow> if e = MemberNotFound
                            then Inl (trips_invalid ''invalid caller'' ''memberId'' ''caller does not exist'')
                            else Inl e
                | Inr _ \<Rightarrow> Inr ()) (\<lambda>_.
       let name = NormalizeHumanName name_in in
       if name = '''' then (Inl (trips_invalid ''invalid name'' ''name'' ''must be non-empty''), w)
       else case trip_create (w_trips w) (new_draft new_id name caller now) of
              Inl e \<Rightarrow> (if e = TripAlreadyExists
                        then Inl (trips_conflict ''TRIP_ID_CONFLICT'' ''trip id conflict'') else Inl e, w)
            | Inr ts \<Rightarrow> (Inr \<lparr>tc_id = new_id, tc_status = Draft, tc_draft_visibility = Private\<rparr>,
                         w\<lparr>w_trips := ts\<rparr>))"

section \<open>UpdateTrip\<close>

definition authorize_update :: "trip \<Rightarrow> MemberID \<Rightarrow> goerror + unit" where
  "authorize_update t caller =
     (case t_status t of
        Draft \<Rightarrow>
          if \<not> isDraftVisibleToCaller t caller then Inl trip_not_found
          else if t_draft_visibility t = Private \<and> t_creator t \<noteq> caller then Inl trip_not_found
          else if t_draft_visibility t = Public \<and> \<not> isOrganizer t caller then Inl trip_not_found
          else Inr ()
      | Published \<Rightarrow> if \<not> isOrganizer t caller then Inl trip_not_found else Inr ()
      | Canceled \<Rightarrow> Inl (trips_conflict ''TRIP_CANCELED'' ''trip is canceled and cannot be modified'')
      | OtherStatus _ \<Rightarrow> Inl (trips_conflict ''TRIP_INVALID_STATUS'' ''invalid trip status''))"

definition update_trip_name :: "gostring optional \<Rightarrow> trip \<Rightarrow> goerror + trip" where
  "update_trip_name p t =
     (case p of
        Unspecified \<Rightarrow> Inr t
      | Null \<Rightarrow> Inl (trips_invalid ''invalid name'' ''name'' ''cannot be null'')
      | Specified v \<Rightarrow>
          let n = NormalizeHumanName v in
          if n = '''' then Inl (trips_invalid ''invalid name'' ''name'' ''must be non-empty'')
          else Inr (t\<lparr>t_name := Some n\<rparr>))"

definition update_trip_texts :: "update_trip_input \<Rightarrow> trip \<Rightarrow> trip" where
  "update_trip_texts inp t =
     t\<lparr>t_description := apply_nullable (t_description t) (ut_description inp),
       t_difficulty_text := apply_nullable (t_difficulty_text t) (ut_difficulty_text inp),
       t_comms_requirements_text :=
         apply_nullable (t_comms_requirements_text t) (ut_comms_requirements_text inp),
       t_recommended_requirements_text :=
         apply_nullable (t_recommended_requirements_text t) (ut_recommended_requirements_text inp),
       t_start_date := apply_nullable (t_start_date t) (ut_start_date inp),
       t_end_date := apply_nullable (t_end_date t) (ut_end_date inp)\<rparr>"

definition update_trip_capacity :: "int optional \<Rightarrow> trip \<Rightarrow> goerror + trip" where
  "update_trip_capacity p t =
     (case p of
        Unspecified \<Rightarrow> Inr t
      | Null \<Rightarrow> Inr (t\<lparr>t_capacity_rigs := None\<rparr>)
      | Specified v \<Rightarrow>
          if v < 1 then Inl (trips_invalid ''invalid capacityRigs'' ''capacityRigs'' ''must be >= 1'')
          else
            let cur_att = (case t_attending_rigs t of None \<Rightarrow> 0 | Some n \<Rightarrow> n) in
            if t_status t = Published \<and> v < cur_att
            then Inl (TripsError (app_err_details 409 ''CAPACITY_BELOW_ATTENDANCE''
                   ''capacity cannot be reduced below current attendance''
                   [(''attendingRigs'', DInt cur_att)]))
            else Inr (t\<lparr>t_capacity_rigs := Some v\<rparr>))"

definition update_trip_location :: "location_patch option optional \<Rightarrow> trip \<Rightarrow> trip" where
  "update_trip_location p t =
     (case p of
        Unspecified \<Rightarrow> t
      | Null \<Rightarrow> t\<lparr>t_meeting_location := None\<rparr>
      | Specified patch \<Rightarrow>
          t\<lparr>t_meeting_location := applyLocationPatch (t_meeting_location t) patch\<rparr>)"

definition update_trip_artifacts :: "gostring list optional \<Rightarrow> trip \<Rightarrow> goerror + trip" where
  "update_trip_artifacts p t =
     (case p of
        Unspecified \<Rightarrow> Inr t
      | Null \<Rightarrow> Inr (t\<lparr>t_artifacts := []\<rparr>)
      | Specified is \<Rightarrow>
          and_then (reorderArtifactsByID (t_artifacts t) is) (\<lambda>as. Inr (t\<lparr>t_artifacts := as\<rparr>)))"

definition check_date_range :: "trip \<Rightarrow> goerror + trip" where
  "check_date_range t =
     (case (t_start_date t, t_end_date t) of
        (Some s, Some e) \<Rightarrow>
          if e < s then Inl (trips_invalid ''invalid date range'' ''endDate'' ''must be on or after startDate'')
          else Inr t
      | _ \<Rightarrow> Inr t)"

definition patched_trip :: "update_trip_input \<Rightarrow> trip \<Rightarrow> goerror + trip" where
  "patched_trip inp t =
     and_then (update_trip_name (ut_name inp) t) (\<lambda>t.
     and_then (update_trip_capacity (ut_capacity_rigs inp) (update_trip_texts inp t)) (\<lambda>t.
     and_then (update_trip_artifacts (ut_artifact_ids inp)
                 (update_trip_location (ut_meeting_location inp) t)) (\<lambda>t.
       check_date_range t)))"

definition UpdateTrip ::
    "go_env \<Rightarrow> world \<Rightarrow> MemberID \<Rightarrow> TripID \<Rightarrow> update_trip_input \<Rightarrow> gotime \<Rightarrow> trip_details outcome" where
  "UpdateTrip env w caller tid inp now =
     guarded w (load_trip w tid) (\<lambda>t.
     guarded w (authorize_update t caller) (\<lambda>_.
     guarded w (patched_trip inp t) (\<lambda>t'.
       save_and_details env w (t'\<lparr>t_updated_at := now\<rparr>))))"

section \<open>SetTripDraftVisibility\<close>

definition with_visibility :: "trip \<Rightarrow> MemberID \<Rightarrow> draft_visibility \<Rightarrow> goerror + trip" where
  "with_visibility t caller dv =
     (if t_status t \<noteq> Draft then Inl (trips_conflict ''TRIP_NOT_DRAFT'' ''trip is not a draft'')
      else if t_creator t \<noteq> caller then Inl trip_not_found
      else case dv of
             Private \<Rightarrow> Inr (t\<lparr>t_draft_visibility := Private\<rparr>)
           | Public \<Rightarrow> Inr (t\<lparr>t_draft_visibility := Public\<rparr>)
           | OtherVisibility _ \<Rightarrow> Inl (trips_invalid ''invalid draftVisibility'' ''draftVisibility''
                                      ''must be PRIVATE or PUBLIC''))"

definition SetTripDraftVisibility ::
    "go_env \<Rightarrow> world \<Rightarrow> MemberID \<Rightarrow> TripID \<Rightarrow> draft_visibility \<Rightarrow> gotime \<Rightarrow> trip_details outcome" where
  "SetTripDraftVisibility env w caller tid dv now =
     guarded w (load_visible_trip w caller tid) (\<lambda>t.
     guarded w (with_visibility t caller dv) (\<lambda>t'.
       save_and_details env w (t'\<lparr>t_updated_at := now\<rparr>)))"

section \<open>Organizers\<close>

definition AddTripOrganizer ::
    "go_env \<Rightarrow> world \<Rightarrow> MemberID \<Rightarrow> TripID \<Rightarrow> MemberID \<Rightarrow> gotime \<Rightarrow> trip_details outcome" where
  "AddTripOrganizer env w caller tid target now =
     guarded w (load_organized_trip w caller tid) (\<lambda>t.
     guarded w (case member_get_by_id (w_members w) target of
                  Inl e \<Rightarrow> if e = MemberNotFound
                            then Inl (trips_invalid ''invalid memberId'' ''memberId'' ''member not found'')
                            else Inl e
                | Inr _ \<Rightarrow> Inr ()) (\<lambda>_.
       if \<not> is_in_slice (t_organizers t) target
       then save_and_details env w (t\<lparr>t_organizers := t_organizers t @ [target], t_updated_at := now\<rparr>)
       else (tripDetailsForTrip env w t, w)))"

fun remove_organizer :: "MemberID list \<Rightarrow> MemberID \<Rightarrow> MemberID list" where
  "remove_organizer [] target = []"
| "remove_organizer (i # is) target =
     (if i = target then remove_organizer is target else i # remove_organizer is target)"

definition last_organizer :: goerror where
  "last_organizer = trips_conflict ''LAST_ORGANIZER'' ''cannot remove the last organizer''"

definition RemoveTripOrganizer ::
    "go_env \<Rightarrow> world \<Rightarrow> MemberID \<Rightarrow> TripID \<Rightarrow> MemberID \<Rightarrow> gotime \<Rightarrow> trip_details outcome" where
  "RemoveTripOrganizer env w caller tid target now =
     guarded w (load_organized_trip w caller tid) (\<lambda>t.
       if \<not> is_in_slice (t_organizers t) target then (tripDetailsForTrip env w t, w)
       else if length (t_organizers t) = 1 then (Inl last_organizer, w)
       else
         let out = remove_organizer (t_organizers t) target in
         if out = [] then (Inl last_organizer, w)
         else save_and_details env w (t\<lparr>t_organizers := out, t_updated_at := now\<rparr>))"

section \<open>CancelTrip and PublishTrip\<close>

definition CancelTrip ::
    "go_env \<Rightarrow> world \<Rightarrow> MemberID \<Rightarrow> TripID \<Rightarrow> gotime \<Rightarrow> trip_details outcome" where
  "CancelTrip env w caller tid now =
     guarded w (load_organized_trip w caller tid) (\<lambda>t.
       if t_status t = Canceled then (tripDetailsForTrip env w t, w)
       else if t_status t \<noteq> Draft \<and> t_status t \<noteq> Published
       then (Inl (trips_conflict ''TRIP_INVALID_STATUS'' ''invalid trip status''), w)
       else save_and_details env w (t\<lparr>t_status := Canceled, t_updated_at := now\<rparr>))"

text \<open>A draft that may be published, as the published trip (before its clock reading).\<close>

definition published_trip :: "trip \<Rightarrow> goerror + trip" where
  "published_trip t =
     (if t_draft_visibility t \<noteq> Public
      then Inl (trips_conflict ''TRIP_PRIVATE_DRAFT'' ''private drafts cannot be published'')
      else
        let missing = requiredPublishFieldsMissing t in
        if missing \<noteq> []
        then Inl (TripsError (app_err_details 409 ''TRIP_NOT_READY_TO_PUBLISH''
               ''trip is missing required fields for publish'' [(''missing'', DStrings missing)]))
        else Inr (t\<lparr>t_status := Published,
                    t_attending_rigs := (case t_attending_rigs t of None \<Rightarrow> Some 0 | Some n \<Rightarrow> Some n)\<rparr>))"

definition with_announcement :: "trip_details outcome \<Rightarrow> (trip_details \<times> gostring) outcome" where
  "with_announcement r =
     (and_then (fst r) (\<lambda>d. Inr (d, announcementCopyFromTrip d)), snd r)"

definition PublishTrip ::
    "go_env \<Rightarrow> world \<Rightarrow> MemberID \<Rightarrow> TripID \<Rightarrow> gotime \<Rightarrow> (trip_details \<times> gostring) outcome" where
  "PublishTrip env w caller tid now =
     guarded w (load_organized_trip w caller tid) (\<lambda>t.
       case t_status t of
         Published \<Rightarrow> with_announcement (tripDetailsForTrip env w t, w)
       | Canceled \<Rightarrow>
           (Inl (trips_conflict ''TRIP_CANCELED'' ''trip is canceled and cannot be published''), w)
       | OtherStatus _ \<Rightarrow> (Inl (trips_conflict ''TRIP_INVALID_STATUS'' ''invalid trip status''), w)
       | Draft \<Rightarrow>
           guarded w (published_trip t) (\<lambda>t'.
             with_announcement (save_and_details env w (t'\<lparr>t_updated_at := now\<rparr>))))"

end
