(* ===== verification/MembersSvc.thy ===== *)
theory MembersSvc
  imports MemberRepo
begin

text \<open>
  The member service (internal/app/members/service.go) over the in-memory repository. Each
  method is a function of the repository and its inputs; the clock reading and the generated
  member ID are arguments. A method that writes returns the new repository with its result; a
  method that fails returns the error, and no failing path has written.
\<close>

text \<open>\<open>NewService\<close> sets \<open>SearchLimit\<close> to 50.\<close>

definition search_limit :: int where
  "search_limit = 50"

record vehicle_profile_patch =
  vpp_make :: "gostring optional"
  vpp_model :: "gostring optional"
  vpp_tire_size :: "gostring optional"
  vpp_lift_lockers :: "gostring optional"
  vpp_fuel_range :: "gostring optional"
  vpp_recovery_gear :: "gostring optional"
  vpp_ham_radio_call_sign :: "gostring optional"
  vpp_notes :: "gostring optional"

record update_member_input =
  um_display_name :: "gostring optional"
  um_email :: "gostring optional"
  um_group_alias_email :: "gostring optional"
  um_vehicle_profile :: "vehicle_profile_patch optional"

record create_member_input =
  cm_display_name :: gostring
  cm_email :: gostring
  cm_group_alias_email :: "gostring option"
  cm_vehicle_profile :: "vehicle_profile_patch option"

section \<open>Helpers\<close>

definition toDomain :: "member_row \<Rightarrow> member" where
  "toDomain m = \<lparr>m_id = mr_id m, m_subject = mr_subject m, m_display_name = mr_display_name m,
     m_email = mr_email m, m_group_alias_email = cloneStringPtr (mr_group_alias_email m),
     m_vehicle_profile = cloneVehicleProfile (mr_vehicle_profile m),
     m_is_active = mr_is_active m, m_created_at = mr_created_at m, m_updated_at = mr_updated_at m\<rparr>"

fun containsMemberID :: "member list \<Rightarrow> MemberID \<Rightarrow> bool" where
  "containsMemberID [] i = False"
| "containsMemberID (m # ms) i = (if m_id m = i then True else containsMemberID ms i)"

definition less_member :: "go_env \<Rightarrow> member \<Rightarrow> member \<Rightarrow> bool" where
  "less_member env a b =
     (let di = to_lower env (m_display_name a); dj = to_lower env (m_display_name b) in
      if di = dj then m_id a < m_id b else di < dj)"

definition sortMembersByDisplayName :: "go_env \<Rightarrow> member list \<Rightarrow> member list" where
  "sortMembersByDisplayName env ms = sort_slice (less_member env) ms"

text \<open>\<open>validateEmail\<close> returns the error text, \<open>None\<close> for a nil error.\<close>

definition validateEmail :: "go_env \<Rightarrow> gostring \<Rightarrow> gostring option" where
  "validateEmail env email =
     (if email = '''' then Some ''must be non-empty''
      else case env_parse_address env email of
             Inl err \<Rightarrow> Some err
           | Inr addr \<Rightarrow> if addr \<noteq> email then Some ''must be a bare email address'' else None)"

fun email_in_use :: "go_env \<Rightarrow> gostring \<Rightarrow> MemberID \<Rightarrow> member_row list \<Rightarrow> bool" where
  "email_in_use env email exclude [] = False"
| "email_in_use env email exclude (m # ms) =
     (if exclude \<noteq> '''' \<and> mr_id m = exclude then email_in_use env email exclude ms
      else if equal_fold env (mr_email m) email then True
      else email_in_use env email exclude ms)"

definition ensureEmailUnique ::
    "go_env \<Rightarrow> member_repo \<Rightarrow> gostring \<Rightarrow> MemberID \<Rightarrow> goerror + unit" where
  "ensureEmailUnique env r email exclude =
     (if email_in_use env email exclude (member_list env r True)
      then Inl (MembersError (app_err 409 ''EMAIL_ALREADY_IN_USE'' ''email address is already in use''))
      else Inr ())"

text \<open>A missing profile is patched as an empty one.\<close>

definition empty_vehicle_profile :: vehicle_profile where
  "empty_vehicle_profile = \<lparr>vp_make = None, vp_model = None, vp_tire_size = None,
     vp_lift_lockers = None, vp_fuel_range = None, vp_recovery_gear = None,
     vp_ham_radio_call_sign = None, vp_notes = None\<rparr>"

definition applyVehicleProfilePatch ::
    "vehicle_profile option \<Rightarrow> vehicle_profile_patch \<Rightarrow> vehicle_profile option" where
  "applyVehicleProfilePatch existing patch =
     (let cur = (case existing of None \<Rightarrow> empty_vehicle_profile | Some vp \<Rightarrow> vp) in
      Some \<lparr>vp_make = apply_nullable (vp_make cur) (vpp_make patch),
            vp_model = apply_nullable (vp_model cur) (vpp_model patch),
            vp_tire_size = apply_nullable (vp_tire_size cur) (vpp_tire_size patch),
            vp_lift_lockers = apply_nullable (vp_lift_lockers cur) (vpp_lift_lockers patch),
            vp_fuel_range = apply_nullable (vp_fuel_range cur) (vpp_fuel_range patch),
            vp_recovery_gear = apply_nullable (vp_recovery_gear cur) (vpp_recovery_gear patch),
            vp_ham_radio_call_sign =
              apply_nullable (vp_ham_radio_call_sign cur) (vpp_ham_radio_call_sign patch),
            vp_notes = apply_nullable (vp_notes cur) (vpp_notes patch)\<rparr>)"

fun set_if_specified :: "gostring optional \<Rightarrow> gostring option" where
  "set_if_specified (Specified v) = Some v"
| "set_if_specified _ = None"

fun createVehicleProfile :: "vehicle_profile_patch option \<Rightarrow> vehicle_profile option" where
  "createVehicleProfile None = None"
| "createVehicleProfile (Some vp) = Some
     \<lparr>vp_make = set_if_specified (vpp_make vp), vp_model = set_if_specified (vpp_model vp),
      vp_tire_size = set_if_specified (vpp_tire_size vp),
      vp_lift_lockers = set_if_specified (vpp_lift_lockers vp),
      vp_fuel_range = set_if_specified (vpp_fuel_range vp),
      vp_recovery_gear = set_if_specified (vpp_recovery_gear vp),
      vp_ham_radio_call_sign = set_if_specified (vpp_ham_radio_call_sign vp),
      vp_notes = set_if_specified (vpp_notes vp)\<rparr>"

text \<open>The validation error all handlers report with status 422.\<close>

definition members_invalid :: "gostring \<Rightarrow> gostring \<Rightarrow> gostring \<Rightarrow> goerror" where
  "members_invalid msg field problem =
     MembersError (app_err_details 422 ''VALIDATION_ERROR'' msg [(field, DString problem)])"

definition member_not_provisioned :: goerror where
  "member_not_provisioned = MembersError (app_err 404 ''MEMBER_NOT_PROVISIONED''
     ''No member profile exists for the authenticated subject.'')"

definition member_already_exists :: goerror where
  "member_already_exists = MembersError (app_err 409 ''MEMBER_ALREADY_EXISTS''
     ''A member profile already exists for the authenticated subject.'')"

section \<open>Queries\<close>

definition ListMembers :: "go_env \<Rightarrow> member_repo \<Rightarrow> SubjectID \<Rightarrow> bool \<Rightarrow> member list" where
  "ListMembers env r subject include_inactive =
     (let out = map toDomain (member_list env r include_inactive) in
      if \<not> include_inactive then
        (case member_get_by_subject r subject of
           Inl _ \<Rightarrow> out
         | Inr me \<Rightarrow>
             if \<not> mr_is_active me \<and> \<not> containsMemberID out (mr_id me)
             then sortMembersByDisplayName env (out @ [toDomain me])
             else out)
      else out)"

definition SearchMembers :: "go_env \<Rightarrow> member_repo \<Rightarrow> gostring \<Rightarrow> goerror + member list" where
  "SearchMembers env r query =
     (let q = trim_space query in
      if rune_count q < 3
      then Inl (members_invalid ''invalid search query'' ''q'' ''must be at least 3 characters'')
      else Inr (map toDomain (member_search env r q search_limit)))"

definition GetMyMemberProfile :: "member_repo \<Rightarrow> SubjectID \<Rightarrow> goerror + member" where
  "GetMyMemberProfile r subject =
     (case member_get_by_subject r subject of
        Inl e \<Rightarrow> if e = MemberNotFound then Inl member_not_provisioned else Inl e
      | Inr m \<Rightarrow> Inr (toDomain m))"

section \<open>CreateMyMember\<close>

definition CreateMyMember ::
    "go_env \<Rightarrow> member_repo \<Rightarrow> SubjectID \<Rightarrow> create_member_input \<Rightarrow> gotime \<Rightarrow> MemberID \<Rightarrow>
     goerror + member \<times> member_repo" where
  "CreateMyMember env r subject inp now new_id =
     (case member_get_by_subject r subject of
        Inr _ \<Rightarrow> Inl member_already_exists
      | Inl e \<Rightarrow>
        if e \<noteq> MemberNotFound then Inl e else
        let display_name = NormalizeHumanName (cm_display_name inp) in
        if display_name = '''' then
          Inl (members_invalid ''invalid displayName'' ''displayName'' ''must be non-empty'') else
        let email = trim_space (cm_email inp) in
        (case validateEmail env email of
           Some err \<Rightarrow> Inl (members_invalid ''invalid email'' ''email'' err)
         | None \<Rightarrow>
           and_then (ensureEmailUnique env r email '''') (\<lambda>_.
             let m = \<lparr>mr_id = new_id, mr_subject = subject, mr_display_name = display_name,
                      mr_email = email,
                      mr_group_alias_email = cloneStringPtr (cm_group_alias_email inp),
                      mr_vehicle_profile = createVehicleProfile (cm_vehicle_profile inp),
                      mr_is_active = True, mr_created_at = now, mr_updated_at = now\<rparr> in
             (case member_create r m of
                Inl e \<Rightarrow>
                  if e = MemberSubjectAlreadyBound then Inl member_already_exists else Inl e
              | Inr r' \<Rightarrow> Inr (toDomain m, r')))))"

section \<open>UpdateMyMemberProfile\<close>

text \<open>The four optional fields, in the order the source applies them.\<close>

definition update_display_name :: "gostring optional \<Rightarrow> member_row \<Rightarrow> goerror + member_row" where
  "update_display_name p m =
     (case p of
        Unspecified \<Rightarrow> Inr m
      | Null \<Rightarrow> Inl (members_invalid ''invalid displayName'' ''displayName'' ''cannot be null'')
      | Specified v \<Rightarrow>
          let n = NormalizeHumanName v in
          if n = '''' then Inl (members_invalid ''invalid displayName'' ''displayName'' ''must be non-empty'')
          else Inr (m\<lparr>mr_display_name := n\<rparr>))"

definition update_email ::
    "go_env \<Rightarrow> member_repo \<Rightarrow> gostring optional \<Rightarrow> member_row \<Rightarrow> goerror + member_row" where
  "update_email env r p m =
     (case p of
        Unspecified \<Rightarrow> Inr m
      | Null \<Rightarrow> Inl (members_invalid ''invalid email'' ''email'' ''cannot be null'')
      | Specified v \<Rightarrow>
          let email = trim_space v in
          (case validateEmail env email of
             Some err \<Rightarrow> Inl (members_invalid ''invalid email'' ''email'' err)
           | None \<Rightarrow>
               and_then (ensureEmailUnique env r email (mr_id m)) (\<lambda>_. Inr (m\<lparr>mr_email := email\<rparr>))))"

definition update_group_alias :: "go_env \<Rightarrow> gostring optional \<Rightarrow> member_row \<Rightarrow> goerror + member_row" where
  "update_group_alias env p m =
     (case p of
        Unspecified \<Rightarrow> Inr m
      | Null \<Rightarrow> Inr (m\<lparr>mr_group_alias_email := None\<rparr>)
      | Specified v \<Rightarrow>
          let gae = trim_space v in
          (case validateEmail env gae of
             Some err \<Rightarrow> Inl (members_invalid ''invalid groupAliasEmail'' ''groupAliasEmail'' err)
           | None \<Rightarrow> Inr (m\<lparr>mr_group_alias_email := Some gae\<rparr>)))"

definition update_vehicle_profile :: "vehicle_profile_patch optional \<Rightarrow> member_row \<Rightarrow> member_row" where
  "update_vehicle_profile p m =
     (case p of
        Unspecified \<Rightarrow> m
      | Null \<Rightarrow> m\<lparr>mr_vehicle_profile := None\<rparr>
      | Specified v \<Rightarrow> m\<lparr>mr_vehicle_profile := applyVehicleProfilePatch (mr_vehicle_profile m) v\<rparr>)"

definition UpdateMyMemberProfile ::
    "go_env \<Rightarrow> member_repo \<Rightarrow> SubjectID \<Rightarrow> update_member_input \<Rightarrow> gotime \<Rightarrow>
     goerror + member \<times> member_repo" where
  "UpdateMyMemberProfile env r subject inp now =
     (case member_get_by_subject r subject of
        Inl e \<Rightarrow> if e = MemberNotFound then Inl member_not_provisioned else Inl e
      | Inr m0 \<Rightarrow>
        and_then (update_display_name (um_display_name inp) m0) (\<lambda>m1.
        and_then (update_email env r (um_email inp) m1) (\<lambda>m2.
        and_then (update_group_alias env (um_group_alias_email inp) m2) (\<lambda>m3.
          let m4 = (update_vehicle_profile (um_vehicle_profile inp) m3)\<lparr>mr_updated_at := now\<rparr> in
          and_then (member_update r m4) (\<lambda>r'. Inr (toDomain m4, r'))))))"

section \<open>Invariant of the member directory\<close>

text \<open>
  Beyond the repository's own consistency: every stored display name is normalised and
  non-empty, every stored e-mail address passes validation, and no two members' addresses are
  equal under case folding.
\<close>

definition wf_members :: "go_env \<Rightarrow> member_repo \<Rightarrow> bool" where
  "wf_members env r \<longleftrightarrow>
     wf_member_repo r \<and>
     (\<forall>i m. map_of (mb_by_id r) i = Some m \<longrightarrow>
        mr_display_name m \<noteq> '''' \<and> NormalizeHumanName (mr_display_name m) = mr_display_name m \<and>
        validateEmail env (mr_email m) = None) \<and>
     (\<forall>i j m n. map_of (mb_by_id r) i = Some m \<longrightarrow> map_of (mb_by_id r) j = Some n \<longrightarrow> i \<noteq> j \<longrightarrow>
        \<not> equal_fold env (mr_email m) (mr_email n))"

lemma wf_membersD:
  assumes "wf_members env r"
  shows "wf_member_repo r"
    and "map_of (mb_by_id r) i = Some m \<Longrightarrow>
        mr_display_name m \<noteq> '''' \<and> NormalizeHumanName (mr_display_name m) = mr_display_name m \<and>
        validateEmail env (mr_email m) = None"
    and "map_of (mb_by_id r) i = Some m \<Longrightarrow> map_of (mb_by_id r) j = Some n \<Longrightarrow> i \<noteq> j \<Longrightarrow>
        \<not> equal_fold env (mr_email m) (mr_email n)"
  using assms unfolding wf_members_def by blast+

lemma wf_members_new [simp]: "wf_members env new_member_repo"
  by (simp add: wf_members_def) (simp add: new_member_repo_def)

lemma email_in_use_iff:
  "email_in_use env e ex ms \<longleftrightarrow>
   (\<exists>m \<in> set ms. \<not> (ex \<noteq> '''' \<and> mr_id m = ex) \<and> equal_fold env (mr_email m) e)"
  by (induction ms) auto

lemma ensureEmailUnique_Inr:
  assumes "wf_member_repo r"
  shows "ensureEmailUnique env r e ex = Inr u \<longleftrightarrow>
    (\<forall>i m. map_of (mb_by_id r) i = Some m \<longrightarrow> (ex \<noteq> '''' \<and> i = ex) \<or> \<not> equal_fold env (mr_email m) e)"
proof -
  have "m \<in> set (member_list env r True) \<longleftrightarrow> map_of (mb_by_id r) (mr_id m) = Some m" for m
    by (simp add: member_list_set [OF assms])
  then have "email_in_use env e ex (member_list env r True) \<longleftrightarrow>
    (\<exists>m. map_of (mb_by_id r) (mr_id m) = Some m \<and> \<not> (ex \<noteq> '''' \<and> mr_id m = ex) \<and>
         equal_fold env (mr_email m) e)"
    by (auto simp: email_in_use_iff)
  also have "\<dots> \<longleftrightarrow> (\<exists>i m. map_of (mb_by_id r) i = Some m \<and> \<not> (ex \<noteq> '''' \<and> i = ex) \<and>
         equal_fold env (mr_email m) e)"
    using wf_member_repoD(3) [OF assms] by metis
  finally show ?thesis unfolding ensureEmailUnique_def by auto
qed

text \<open>Adding or replacing one row keeps the invariant when the row is valid and its address free.\<close>

lemma wf_members_put:
  assumes "wf_members env r" and "wf_member_repo r'"
    and by_id: "map_of (mb_by_id r') = (map_of (mb_by_id r))(i \<mapsto> m)"
    and "mr_display_name m \<noteq> ''''" and "NormalizeHumanName (mr_display_name m) = mr_display_name m"
    and "validateEmail env (mr_email m) = None"
    and free: "\<And>j n. map_of (mb_by_id r) j = Some n \<Longrightarrow> j \<noteq> i \<Longrightarrow>
      \<not> equal_fold env (mr_email n) (mr_email m)"
  shows "wf_members env r'"
  unfolding wf_members_def by_id
proof (intro conjI allI impI)
  fix j k a b
  assume a: "((map_of (mb_by_id r))(i \<mapsto> m)) j = Some a"
    and b: "((map_of (mb_by_id r))(i \<mapsto> m)) k = Some b" and "j \<noteq> k"
  show "\<not> equal_fold env (mr_email a) (mr_email b)"
  proof (cases "j = i \<or> k = i")
    case True
    with a b \<open>j \<noteq> k\<close> free [of k b] free [of j a] show ?thesis
      using equal_fold_sym [of env "mr_email a" "mr_email b"] by (auto split: if_splits)
  next
    case False
    with a b \<open>j \<noteq> k\<close> wf_membersD(3) [OF assms(1)] show ?thesis by simp
  qed
qed (use assms wf_membersD(2) [OF assms(1)] in \<open>auto split: if_splits\<close>)

section \<open>CreateMyMember\<close>

lemma CreateMyMember_success:
  assumes wf: "wf_member_repo r" and c: "CreateMyMember env r s inp now i = Inr (d, r')"
  obtains m where "d = toDomain m" and "member_create r m = Inr r'"
    and "mr_id m = i" and "mr_subject m = s"
    and "mr_display_name m = NormalizeHumanName (cm_display_name inp)" and "mr_display_name m \<noteq> ''''"
    and "mr_email m = trim_space (cm_email inp)" and "validateEmail env (mr_email m) = None"
    and "mr_group_alias_email m = cm_group_alias_email inp" and "mr_is_active m"
    and "mr_created_at m = now" and "mr_updated_at m = now"
    and "\<And>j n. map_of (mb_by_id r) j = Some n \<Longrightarrow> \<not> equal_fold env (mr_email n) (mr_email m)"
proof -
  let ?dn = "NormalizeHumanName (cm_display_name inp)" and ?em = "trim_space (cm_email inp)"
  let ?m = "\<lparr>mr_id = i, mr_subject = s, mr_display_name = ?dn, mr_email = ?em,
             mr_group_alias_email = cloneStringPtr (cm_group_alias_email inp),
             mr_vehicle_profile = createVehicleProfile (cm_vehicle_profile inp),
             mr_is_active = True, mr_created_at = now, mr_updated_at = now\<rparr>"
  from c have "?dn \<noteq> ''''" and "validateEmail env ?em = None"
    and u: "\<exists>u. ensureEmailUnique env r ?em '''' = Inr u"
    and "member_create r ?m = Inr r'" and "d = toDomain ?m"
    by (auto simp: CreateMyMember_def and_then_Inr Let_def split: sum.splits if_splits option.splits)
  moreover have "\<not> equal_fold env (mr_email n) ?em" if "map_of (mb_by_id r) j = Some n" for j n
    using u that by (auto simp: ensureEmailUnique_Inr [OF wf])
  ultimately show ?thesis by (intro that [of ?m]) auto
qed

lemma CreateMyMember_wf:
  assumes "wf_members env r" and "CreateMyMember env r s inp now i = Inr (d, r')"
  shows "wf_members env r'"
proof -
  note wf = wf_membersD(1) [OF assms(1)]
  obtain m where m: "member_create r m = Inr r'" "mr_id m = i" "mr_display_name m \<noteq> ''''"
      "mr_display_name m = NormalizeHumanName (cm_display_name inp)"
      "validateEmail env (mr_email m) = None"
      "\<And>j n. map_of (mb_by_id r) j = Some n \<Longrightarrow> \<not> equal_fold env (mr_email n) (mr_email m)"
    using CreateMyMember_success [OF wf assms(2)] by metis
  show ?thesis
    using m member_createE(4) [OF wf m(1)]
    by (intro wf_members_put [OF assms(1) member_create_wf [OF wf m(1)], of i m]) auto
qed

section \<open>UpdateMyMemberProfile\<close>

text \<open>Each field step, inverted: what it does to the row when it succeeds.\<close>

lemma update_display_nameE:
  "update_display_name p m = Inr m' \<Longrightarrow>
   \<exists>n. m' = m\<lparr>mr_display_name := n\<rparr> \<and>
       (p = Unspecified \<and> n = mr_display_name m \<or> n \<noteq> '''' \<and> (\<exists>v. p = Specified v \<and> n = NormalizeHumanName v))"
  by (cases p) (auto simp: update_display_name_def Let_def split: if_splits)

lemma update_emailE:
  "update_email env r p m = Inr m' \<Longrightarrow>
   \<exists>e. m' = m\<lparr>mr_email := e\<rparr> \<and>
       (p = Unspecified \<and> e = mr_email m \<or>
        (\<exists>v. p = Specified v \<and> e = trim_space v) \<and> validateEmail env e = None \<and>
        (\<exists>u. ensureEmailUnique env r e (mr_id m) = Inr u))"
  by (cases p) (auto simp: update_email_def Let_def and_then_Inr split: option.splits)

lemma update_group_aliasE:
  "update_group_alias env p m = Inr m' \<Longrightarrow> \<exists>g. m' = m\<lparr>mr_group_alias_email := g\<rparr>"
  by (cases p) (auto simp: update_group_alias_def Let_def split: option.splits intro: exI [of _ "mr_group_alias_email m"])

lemma update_vehicle_profileE:
  "\<exists>v. update_vehicle_profile p m = m\<lparr>mr_vehicle_profile := v\<rparr>"
  by (cases p) (auto simp: update_vehicle_profile_def intro: exI [of _ "mr_vehicle_profile m"])

lemma UpdateMyMemberProfile_success:
  assumes u: "UpdateMyMemberProfile env r s inp now = Inr (d, r')"
  obtains m0 n e g v where "member_get_by_subject r s = Inr m0"
    and "member_update r (m0\<lparr>mr_display_name := n, mr_email := e, mr_group_alias_email := g,
          mr_vehicle_profile := v, mr_updated_at := now\<rparr>) = Inr r'"
    and "d = toDomain (m0\<lparr>mr_display_name := n, mr_email := e, mr_group_alias_email := g,
          mr_vehicle_profile := v, mr_updated_at := now\<rparr>)"
    and "um_display_name inp = Unspecified \<and> n = mr_display_name m0 \<or>
         n \<noteq> '''' \<and> (\<exists>v. um_display_name inp = Specified v \<and> n = NormalizeHumanName v)"
    and "um_email inp = Unspecified \<and> e = mr_email m0 \<or>
        (\<exists>v. um_email inp = Specified v \<and> e = trim_space v) \<and> validateEmail env e = None \<and>
        (\<exists>u. ensureEmailUnique env r e (mr_id m0) = Inr u)"
proof -
  from u obtain m0 m1 m2 m3 where m0: "member_get_by_subject r s = Inr m0"
    and s1: "update_display_name (um_display_name inp) m0 = Inr m1"
    and s2: "update_email env r (um_email inp) m1 = Inr m2"
    and s3: "update_group_alias env (um_group_alias_email inp) m2 = Inr m3"
    and upd: "member_update r ((update_vehicle_profile (um_vehicle_profile inp) m3)\<lparr>mr_updated_at := now\<rparr>) = Inr r'"
    and d: "d = toDomain ((update_vehicle_profile (um_vehicle_profile inp) m3)\<lparr>mr_updated_at := now\<rparr>)"
    by (auto simp: UpdateMyMemberProfile_def and_then_Inr Let_def split: sum.splits if_splits)
  show ?thesis
    using update_display_nameE [OF s1] update_emailE [OF s2] update_group_aliasE [OF s3]
      update_vehicle_profileE [of "um_vehicle_profile inp" m3] upd d m0
    by (elim exE conjE) (erule that; fastforce)
qed

lemma UpdateMyMemberProfile_wf:
  assumes wfm: "wf_members env r" and u: "UpdateMyMemberProfile env r s inp now = Inr (d, r')"
  shows "wf_members env r'"
proof -
  note wf = wf_membersD(1) [OF wfm]
  obtain m0 n e g v where m0: "member_get_by_subject r s = Inr m0"
    and upd: "member_update r (m0\<lparr>mr_display_name := n, mr_email := e, mr_group_alias_email := g,
          mr_vehicle_profile := v, mr_updated_at := now\<rparr>) = Inr r'" (is "member_update r ?m = _")
    and n: "um_display_name inp = Unspecified \<and> n = mr_display_name m0 \<or>
         n \<noteq> '''' \<and> (\<exists>v. um_display_name inp = Specified v \<and> n = NormalizeHumanName v)"
    and e: "um_email inp = Unspecified \<and> e = mr_email m0 \<or>
        (\<exists>v. um_email inp = Specified v \<and> e = trim_space v) \<and> validateEmail env e = None \<and>
        (\<exists>u. ensureEmailUnique env r e (mr_id m0) = Inr u)"
    using UpdateMyMemberProfile_success [OF u] by metis
  have m0': "map_of (mb_by_id r) (mr_id m0) = Some m0" "mr_id m0 \<noteq> ''''"
    using m0 mrepo.by_subject_iff [OF wf, of s m0] wf_member_repoD(3) [OF wf] by auto
  note old = wf_membersD(2) [OF wfm m0'(1)]
  have "\<not> equal_fold env (mr_email x) e" if "map_of (mb_by_id r) j = Some x" "j \<noteq> mr_id m0" for j x
    using e that m0'(1) wf_membersD(3) [OF wfm that(1) m0'(1)]
    by (auto simp: ensureEmailUnique_Inr [OF wf])
  with old n e upd member_update_wf [OF wf upd] show ?thesis
    by (intro wf_members_put [OF wfm, of r' "mr_id m0" ?m]) (auto elim!: member_updateE)
qed

text \<open>What the patch leaves alone.\<close>

lemma UpdateMyMemberProfile_frame:
  assumes "wf_member_repo r" and "UpdateMyMemberProfile env r s inp now = Inr (d, r')"
  shows "\<exists>m0. GetMyMemberProfile r s = Inr m0 \<and> m_id d = m_id m0 \<and> m_subject d = s \<and>
           m_is_active d = m_is_active m0 \<and> m_created_at d = m_created_at m0 \<and>
           (um_display_name inp = Unspecified \<longrightarrow> m_display_name d = m_display_name m0) \<and>
           (um_email inp = Unspecified \<longrightarrow> m_email d = m_email m0)"
    and "GetMyMemberProfile r' s = Inr d"
    and "j \<noteq> m_id d \<Longrightarrow> member_get_by_id r' j = member_get_by_id r j"
proof -
  obtain m0 n e g v where m0: "member_get_by_subject r s = Inr m0"
    and upd: "member_update r (m0\<lparr>mr_display_name := n, mr_email := e, mr_group_alias_email := g,
          mr_vehicle_profile := v, mr_updated_at := now\<rparr>) = Inr r'"
    and d: "d = toDomain (m0\<lparr>mr_display_name := n, mr_email := e, mr_group_alias_email := g,
          mr_vehicle_profile := v, mr_updated_at := now\<rparr>)"
    and n: "um_display_name inp = Unspecified \<and> n = mr_display_name m0 \<or>
         n \<noteq> '''' \<and> (\<exists>v. um_display_name inp = Specified v \<and> n = NormalizeHumanName v)"
    and e: "um_email inp = Unspecified \<and> e = mr_email m0 \<or>
        (\<exists>v. um_email inp = Specified v \<and> e = trim_space v) \<and> validateEmail env e = None \<and>
        (\<exists>u. ensureEmailUnique env r e (mr_id m0) = Inr u)"
    using UpdateMyMemberProfile_success [OF assms(2)] by metis
  have s: "mr_subject m0 = s" using m0 mrepo.by_subject_iff [OF assms(1)] by simp
  show "\<exists>m0. GetMyMemberProfile r s = Inr m0 \<and> m_id d = m_id m0 \<and> m_subject d = s \<and>
           m_is_active d = m_is_active m0 \<and> m_created_at d = m_created_at m0 \<and>
           (um_display_name inp = Unspecified \<longrightarrow> m_display_name d = m_display_name m0) \<and>
           (um_email inp = Unspecified \<longrightarrow> m_email d = m_email m0)"
    using m0 s n e by (auto simp: GetMyMemberProfile_def toDomain_def d)
  show "GetMyMemberProfile r' s = Inr d"
    using mrepo.update_by_subject [OF assms(1) upd] s by (simp add: GetMyMemberProfile_def d)
  show "member_get_by_id r' j = member_get_by_id r j" if "j \<noteq> m_id d"
    using that mrepo.update_by_id [OF assms(1) upd, of j] by (simp add: d toDomain_def)
qed

section \<open>Directory queries\<close>

definition member_key :: "go_env \<Rightarrow> member \<Rightarrow> gostring \<times> MemberID" where
  "member_key env m = (to_lower env (m_display_name m), m_id m)"

interpretation member_order: slice_order "less_member env" "member_key env" for env
  by unfold_locales (auto simp: less_member_def member_key_def Let_def less_prod_def')

lemma containsMemberID_iff: "containsMemberID ms i \<longleftrightarrow> i \<in> m_id ` set ms"
  by (induction ms) auto

lemma m_id_toDomain [simp]: "m_id (toDomain m) = mr_id m"
  by (simp add: toDomain_def)

lemma member_key_toDomain: "member_key env (toDomain m) = member_row_key env m"
  by (simp add: member_key_def member_row_key_def toDomain_def)

lemma map_member_key_toDomain: "map (member_key env) (map toDomain ms) = map (member_row_key env) ms"
  by (simp add: member_key_toDomain)

lemma ListMembers_sorted_lemma: "sorted (map (member_key env) (ListMembers env r s inactive))"
proof -
  have "sorted (map (member_key env) (map toDomain (member_list env r inactive)))"
    unfolding map_member_key_toDomain by (rule member_list_sorted)
  moreover have "sorted (map (member_key env) (sortMembersByDisplayName env ms))" for ms
    unfolding sortMembersByDisplayName_def by (rule member_order.sorted_slice)
  ultimately show ?thesis
    by (simp only: ListMembers_def Let_def split: if_splits sum.splits) simp
qed

lemma ListMembers_set:
  assumes "wf_member_repo r"
  shows "d \<in> set (ListMembers env r s inactive) \<longleftrightarrow>
    (\<exists>m. d = toDomain m \<and> member_get_by_id r (mr_id m) = Inr m \<and>
       (inactive \<or> mr_is_active m \<or> mr_subject m = s))"
proof -
  have base: "d \<in> set (map toDomain (member_list env r inactive)) \<longleftrightarrow>
      (\<exists>m. d = toDomain m \<and> member_get_by_id r (mr_id m) = Inr m \<and> (inactive \<or> mr_is_active m))" for d
    by (auto simp: member_list_set [OF assms])
  have caller: "member_get_by_subject r s = Inr me \<longleftrightarrow>
      member_get_by_id r (mr_id me) = Inr me \<and> mr_subject me = s" for me
    by (rule mrepo.by_subject_iff [OF assms])
  show ?thesis
  proof (cases "member_get_by_subject r s")
    case (Inl e)
    then have "mr_subject m \<noteq> s" if "member_get_by_id r (mr_id m) = Inr m" for m
      using caller that by auto
    then show ?thesis using Inl base [of d] by (auto simp: ListMembers_def Let_def)
  next
    case (Inr me)
    then have me: "member_get_by_id r (mr_id me) = Inr me" "mr_subject me = s" using caller by auto
    have only: "m = me" if "member_get_by_id r (mr_id m) = Inr m" "mr_subject m = s" for m
      using that caller Inr by (metis Inr_inject)
    have listed: "containsMemberID (map toDomain (member_list env r inactive)) (mr_id me) \<longleftrightarrow>
        inactive \<or> mr_is_active me"
      using me by (force simp: containsMemberID_iff member_list_set [OF assms])
    show ?thesis
    proof (cases "inactive \<or> mr_is_active me")
      case True
      then have "ListMembers env r s inactive = map toDomain (member_list env r inactive)"
        by (auto simp: ListMembers_def Let_def Inr)
      then show ?thesis using base [of d] only True by metis
    next
      case False
      then have "set (ListMembers env r s inactive) =
          insert (toDomain me) (set (map toDomain (member_list env r inactive)))"
        using listed by (simp add: ListMembers_def Let_def Inr sortMembersByDisplayName_def)
      then show ?thesis using base [of d] only me by (metis insert_iff)
    qed
  qed
qed

end
