(* ===== verification/TripsInv.thy ===== *)
theory TripsInv
  imports TripsCmd MembersSvc
begin

text \<open>
  The invariant of the whole planner state and its preservation by every method of the trip
  service and of the member service. \<open>trip_ok\<close> is what a stored trip promises about itself,
  the member directory and the RSVP records; \<open>wf_world\<close> adds the consistency of the three
  repositories and the references between them.
\<close>

definition member_exists :: "member_repo \<Rightarrow> MemberID \<Rightarrow> bool" where
  "member_exists r i \<longleftrightarrow> map_of (mb_by_id r) i \<noteq> None"

definition trip_ok :: "member_repo \<Rightarrow> rsvp_repo \<Rightarrow> trip \<Rightarrow> bool" where
  "trip_ok ms rv t \<longleftrightarrow>
     t_status t \<in> {Draft, Published, Canceled} \<and>
     t_draft_visibility t \<in> {Private, Public} \<and>
     member_exists ms (t_creator t) \<and>
     t_organizers t \<noteq> [] \<and> distinct (t_organizers t) \<and> (\<forall>i \<in> set (t_organizers t). member_exists ms i) \<and>
     (case t_name t of Some n \<Rightarrow> n \<noteq> '''' \<and> NormalizeHumanName n = n | None \<Rightarrow> False) \<and>
     (case (t_start_date t, t_end_date t) of (Some s, Some e) \<Rightarrow> s \<le> e | _ \<Rightarrow> True) \<and>
     (t_status t = Draft \<longrightarrow> t_attending_rigs t = None) \<and>
     (t_status t = Published \<longrightarrow> t_attending_rigs t \<noteq> None) \<and>
     (case t_attending_rigs t of
        None \<Rightarrow> (\<forall>m. rsvp_lookup rv (t_id t, m) = None)
      | Some n \<Rightarrow> n = rsvp_count_yes_by_trip rv (t_id t)) \<and>
     (case t_capacity_rigs t of
        None \<Rightarrow> True
      | Some c \<Rightarrow> 1 \<le> c \<and> (case t_attending_rigs t of None \<Rightarrow> True | Some n \<Rightarrow> n \<le> c))"

definition wf_world :: "go_env \<Rightarrow> world \<Rightarrow> bool" where
  "wf_world env w \<longleftrightarrow>
     wf_members env (w_members w) \<and> wf_trip_repo (w_trips w) \<and> wf_rsvp_repo (w_rsvps w) \<and>
     (\<forall>i t. trip_lookup (w_trips w) i = Some t \<longrightarrow> trip_ok (w_members w) (w_rsvps w) t) \<and>
     (\<forall>i m v. rsvp_lookup (w_rsvps w) (i, m) = Some v \<longrightarrow>
        member_exists (w_members w) m \<and> trip_lookup (w_trips w) i \<noteq> None \<and>
        rs_status v \<in> {Yes, No, Unset})"

lemma wf_worldD:
  assumes "wf_world env w"
  shows "wf_members env (w_members w)" and "wf_trip_repo (w_trips w)" and "wf_rsvp_repo (w_rsvps w)"
    and "trip_lookup (w_trips w) i = Some t \<Longrightarrow> trip_ok (w_members w) (w_rsvps w) t"
    and "rsvp_lookup (w_rsvps w) (i, m) = Some v \<Longrightarrow> member_exists (w_members w) m"
    and "rsvp_lookup (w_rsvps w) (i, m) = Some v \<Longrightarrow> trip_lookup (w_trips w) i \<noteq> None"
    and "rsvp_lookup (w_rsvps w) (i, m) = Some v \<Longrightarrow> rs_status v \<in> {Yes, No, Unset}"
    and "wf_member_repo (w_members w)"
  using assms wf_membersD(1) unfolding wf_world_def by blast+

lemma wf_worldI:
  assumes "wf_members env (w_members w)" and "wf_trip_repo (w_trips w)" and "wf_rsvp_repo (w_rsvps w)"
    and "\<And>i t. trip_lookup (w_trips w) i = Some t \<Longrightarrow> trip_ok (w_members w) (w_rsvps w) t"
    and "\<And>i m v. rsvp_lookup (w_rsvps w) (i, m) = Some v \<Longrightarrow>
        member_exists (w_members w) m \<and> trip_lookup (w_trips w) i \<noteq> None \<and> rs_status v \<in> {Yes, No, Unset}"
  shows "wf_world env w"
  using assms unfolding wf_world_def by blast

lemma wf_new_world [simp]: "wf_world env new_world"
  by (rule wf_worldI) (simp_all add: new_world_def new_trip_repo_def new_rsvp_repo_def
      trip_lookup_def rsvp_lookup_def wf_new_trip_repo [unfolded new_trip_repo_def]
      wf_new_rsvp_repo [unfolded new_rsvp_repo_def])

lemma trip_okD:
  assumes "trip_ok ms rv t"
  shows "t_status t \<in> {Draft, Published, Canceled}" and "t_draft_visibility t \<in> {Private, Public}"
    and "member_exists ms (t_creator t)" and "t_organizers t \<noteq> []" and "distinct (t_organizers t)"
    and "i \<in> set (t_organizers t) \<Longrightarrow> member_exists ms i"
    and "t_status t = Draft \<Longrightarrow> t_attending_rigs t = None"
    and "t_status t = Published \<Longrightarrow> t_attending_rigs t = Some (rsvp_count_yes_by_trip rv (t_id t))"
    and "t_attending_rigs t = None \<Longrightarrow> rsvp_lookup rv (t_id t, m) = None"
    and "t_attending_rigs t = Some n \<Longrightarrow> n = rsvp_count_yes_by_trip rv (t_id t)"
    and "t_capacity_rigs t = Some c \<Longrightarrow> 1 \<le> c"
    and "t_capacity_rigs t = Some c \<Longrightarrow> t_attending_rigs t = Some n \<Longrightarrow> n \<le> c"
  using assms unfolding trip_ok_def by (auto split: option.splits)

section \<open>Loading\<close>

lemma load_trip_Inr: "load_trip w tid = Inr t \<longleftrightarrow> trip_lookup (w_trips w) tid = Some t"
  by (auto simp: load_trip_def trip_get_cases split: option.split)

lemma load_trip_Inl:
  "load_trip w tid = Inl e \<longleftrightarrow> trip_lookup (w_trips w) tid = None \<and> e = trip_not_found"
  by (auto simp: load_trip_def trip_get_cases split: option.split)

lemma load_visible_Inr:
  "load_visible_trip w c tid = Inr t \<longleftrightarrow>
   trip_lookup (w_trips w) tid = Some t \<and> isTripVisibleToCaller t c"
  by (auto simp: load_visible_trip_def and_then_Inr load_trip_Inr split: if_splits)

lemma load_organized_Inr:
  "load_organized_trip w c tid = Inr t \<longleftrightarrow>
   trip_lookup (w_trips w) tid = Some t \<and> isTripVisibleToCaller t c \<and> c \<in> set (t_organizers t)"
  by (auto simp: load_organized_trip_def and_then_Inr load_visible_Inr split: if_splits)

text \<open>A trip the caller may not see, or that does not exist.\<close>

definition hidden_from :: "world \<Rightarrow> MemberID \<Rightarrow> TripID \<Rightarrow> bool" where
  "hidden_from w c tid \<longleftrightarrow>
     (case trip_lookup (w_trips w) tid of None \<Rightarrow> True | Some t \<Rightarrow> \<not> isTripVisibleToCaller t c)"

lemma load_visible_hidden: "load_visible_trip w c tid = Inl e \<longleftrightarrow> hidden_from w c tid \<and> e = trip_not_found"
  by (auto simp: load_visible_trip_def hidden_from_def and_then_Inl load_trip_Inr load_trip_Inl split: option.splits)

lemma load_organized_Inl: "load_organized_trip w c tid = Inl e \<Longrightarrow> e = trip_not_found"
  by (auto simp: load_organized_trip_def and_then_Inl load_visible_hidden split: if_splits)

lemma load_organized_hidden: "hidden_from w c tid \<Longrightarrow> load_organized_trip w c tid = Inl trip_not_found"
  by (auto simp: load_organized_trip_def and_then_Inl load_visible_hidden)

text \<open>The same, as equations.\<close>

lemma load_visible_eq:
  "load_visible_trip w c tid =
   (case trip_lookup (w_trips w) tid of
      None \<Rightarrow> Inl trip_not_found
    | Some t \<Rightarrow> if isTripVisibleToCaller t c then Inr t else Inl trip_not_found)"
  by (simp add: load_visible_hidden load_visible_Inr hidden_from_def split: option.split)

lemma load_organized_eq:
  "load_organized_trip w c tid =
   (case trip_lookup (w_trips w) tid of
      None \<Rightarrow> Inl trip_not_found
    | Some t \<Rightarrow> if isTripVisibleToCaller t c \<and> c \<in> set (t_organizers t) then Inr t else Inl trip_not_found)"
  by (simp add: load_organized_trip_def load_visible_eq split: option.split)

lemma load_trip_eq:
  "load_trip w tid = (case trip_lookup (w_trips w) tid of None \<Rightarrow> Inl trip_not_found | Some t \<Rightarrow> Inr t)"
  by (simp add: load_trip_Inl load_trip_Inr split: option.split)

lemma load_trip_cases:
  obtains (missing) "trip_lookup (w_trips w) tid = None" "load_trip w tid = Inl trip_not_found"
  | (found) t where "trip_lookup (w_trips w) tid = Some t" "load_trip w tid = Inr t"
proof (cases "load_trip w tid")
  case (Inl e)
  then show ?thesis using missing by (simp add: load_trip_Inl)
next
  case (Inr t)
  then show ?thesis using found by (simp add: load_trip_Inr)
qed

lemma load_visible_cases:
  obtains (hidden) "hidden_from w c tid" "load_visible_trip w c tid = Inl trip_not_found"
  | (seen) t where "trip_lookup (w_trips w) tid = Some t" "isTripVisibleToCaller t c"
      "load_visible_trip w c tid = Inr t"
proof (cases "load_visible_trip w c tid")
  case (Inl e)
  then show ?thesis using hidden load_visible_hidden by blast
next
  case (Inr t)
  then show ?thesis using seen load_visible_Inr by blast
qed

lemma load_organized_cases:
  obtains (refused) "load_organized_trip w c tid = Inl trip_not_found"
  | (organized) t where "trip_lookup (w_trips w) tid = Some t" "isTripVisibleToCaller t c"
      "c \<in> set (t_organizers t)" "load_organized_trip w c tid = Inr t"
proof (cases "load_organized_trip w c tid")
  case (Inl e)
  then show ?thesis using refused load_organized_Inl by blast
next
  case (Inr t)
  then show ?thesis using organized load_organized_Inr by blast
qed

section \<open>Reading details never fails on a well-formed world\<close>

lemma load_summaries_total:
  "\<forall>i \<in> set is. member_exists r i \<Longrightarrow> \<exists>ss. load_summaries r is = Inr ss \<and> map ms_id ss = is"
  if "wf_member_repo r"
proof (induction "is")
  case Nil
  then show ?case by simp
next
  case (Cons i "is")
  then obtain ss m where "load_summaries r is = Inr ss" "map ms_id ss = is"
    and m: "map_of (mb_by_id r) i = Some m"
    by (auto simp: member_exists_def)
  moreover have "member_get_by_id r i = Inr m" using m by simp
  moreover have "mr_id m = i" using wf_member_repoD [OF that] m by blast
  ultimately show ?case by (simp add: member_summary_of_def del: get_by_id_Inr)
qed

lemma summaries_sorted_total:
  assumes "wf_member_repo (w_members w)" and "\<forall>i \<in> set is. member_exists (w_members w) i"
  obtains ss where "loadMemberSummariesSorted env w is = Inr ss" "mset (map ms_id ss) = mset is"
proof -
  obtain ss where "load_summaries (w_members w) is = Inr ss" "map ms_id ss = is"
    using load_summaries_total [OF assms] by blast
  moreover have "mset (map ms_id (sort_slice lt ss)) = mset (map ms_id ss)" for lt :: "member_summary \<Rightarrow> member_summary \<Rightarrow> bool"
    by (simp only: mset_map mset_sort_slice)
  ultimately show ?thesis
    by (cases "is = []") (auto intro!: that simp: loadMemberSummariesSorted_def)
qed

lemma rsvp_ids_members:
  assumes "wf_world env w" and "i \<in> set (rsvp_ids st (rsvp_list_by_trip (w_rsvps w) tid))"
  shows "member_exists (w_members w) i"
  using assms(2) wf_worldD(5) [OF assms(1)]
  by (auto simp: rsvp_ids_def list_by_trip_set [OF wf_worldD(3) [OF assms(1)]])

text \<open>The RSVP summary of any trip: counter and lists are those of the RSVP records.\<close>

lemma rsvp_summary_total:
  assumes wf: "wf_world env w"
  obtains s where "tripRSVPSummaryForTrip env w t = Inr s"
    and "sum_capacity_rigs s = t_capacity_rigs t"
    and "sum_attending_rigs s = rsvp_count_yes_by_trip (w_rsvps w) (t_id t)"
    and "mset (map ms_id (sum_attending_members s)) =
           mset (rsvp_ids Yes (rsvp_list_by_trip (w_rsvps w) (t_id t)))"
    and "mset (map ms_id (sum_not_attending_members s)) =
           mset (rsvp_ids No (rsvp_list_by_trip (w_rsvps w) (t_id t)))"
proof -
  let ?ids = "\<lambda>st. rsvp_ids st (rsvp_list_by_trip (w_rsvps w) (t_id t))"
  note ms = rsvp_ids_members [OF wf]
  obtain ys where ys: "loadMemberSummariesSorted env w (?ids Yes) = Inr ys"
    "mset (map ms_id ys) = mset (?ids Yes)"
    using summaries_sorted_total [OF wf_worldD(8) [OF wf]] ms by metis
  obtain ns where ns: "loadMemberSummariesSorted env w (?ids No) = Inr ns"
    "mset (map ms_id ns) = mset (?ids No)"
    using summaries_sorted_total [OF wf_worldD(8) [OF wf]] ms by metis
  have "length ys = length (?ids Yes)" using ys(2) by (metis length_map size_mset)
  then have "int (length ys) = rsvp_count_yes_by_trip (w_rsvps w) (t_id t)"
    by (simp add: rsvp_ids_def count_yes_list [OF wf_worldD(3) [OF wf]])
  then have "tripRSVPSummaryForTrip env w t =
      Inr \<lparr>sum_capacity_rigs = t_capacity_rigs t,
           sum_attending_rigs = rsvp_count_yes_by_trip (w_rsvps w) (t_id t),
           sum_attending_members = ys, sum_not_attending_members = ns\<rparr>"
    using ys(1) ns(1) by (simp add: tripRSVPSummaryForTrip_def Let_def)
  then show ?thesis by (rule that) (simp_all only: trip_rsvp_summary.simps ys(2) ns(2))
qed

lemma details_total:
  assumes wf: "wf_world env w" and ok: "trip_ok (w_members w) rv t"
  obtains d where "tripDetailsForTrip env w t = Inr d"
proof -
  obtain orgs where "loadOrganizerSummaries w (t_organizers t) = Inr orgs"
    using load_summaries_total [OF wf_worldD(8) [OF wf]] trip_okD(6) [OF ok]
    unfolding loadOrganizerSummaries_def by blast
  moreover obtain s where "tripRSVPSummaryForTrip env w t = Inr s"
    using rsvp_summary_total [OF wf] by blast
  ultimately have "\<exists>d. tripDetailsForTrip env w t = Inr d"
    by (simp add: tripDetailsForTrip_def Let_def)
  then show ?thesis using that by blast
qed


section \<open>What a patch keeps\<close>

lemma name_patch:
  "update_trip_name p t = Inr t' \<Longrightarrow>
   t' = t\<lparr>t_name := t_name t'\<rparr> \<and>
   (t_name t' = t_name t \<or> (\<exists>n. t_name t' = Some n \<and> n \<noteq> '''' \<and> NormalizeHumanName n = n))"
  by (auto simp: update_trip_name_def Let_def split: optional.splits if_splits)

lemma capacity_patch:
  "update_trip_capacity p t = Inr t' \<Longrightarrow>
   t' = t\<lparr>t_capacity_rigs := t_capacity_rigs t'\<rparr> \<and>
   (t_capacity_rigs t' = t_capacity_rigs t \<or> t_capacity_rigs t' = None \<or>
    (\<exists>c. t_capacity_rigs t' = Some c \<and> 1 \<le> c \<and>
       (t_status t = Published \<longrightarrow> (\<forall>n. t_attending_rigs t = Some n \<longrightarrow> n \<le> c))))"
  by (auto simp: update_trip_capacity_def Let_def split: optional.splits if_splits option.splits)

lemma artifacts_patch:
  "update_trip_artifacts p t = Inr t' \<Longrightarrow> t' = t\<lparr>t_artifacts := t_artifacts t'\<rparr>"
  by (auto simp: update_trip_artifacts_def and_then_Inr split: optional.splits)

lemma location_patch_frame:
  "update_trip_location p t = t\<lparr>t_meeting_location := t_meeting_location (update_trip_location p t)\<rparr>"
  by (simp add: update_trip_location_def split: optional.splits)

lemma date_check:
  "check_date_range t = Inr t' \<Longrightarrow>
   t' = t \<and> (case (t_start_date t, t_end_date t) of (Some s, Some e) \<Rightarrow> s \<le> e | _ \<Rightarrow> True)"
  by (auto simp: check_date_range_def not_less split: option.splits if_splits)

text \<open>A successful update, field by field.\<close>

lemma patched_steps:
  assumes "patched_trip inp t = Inr t'"
  shows "\<exists>nm cp lo as. t' = (update_trip_texts inp t)\<lparr>t_name := nm, t_capacity_rigs := cp,
      t_meeting_location := lo, t_artifacts := as\<rparr> \<and>
    update_trip_name (ut_name inp) t = Inr (t\<lparr>t_name := nm\<rparr>) \<and>
    cp = apply_nullable (t_capacity_rigs t) (ut_capacity_rigs inp) \<and>
    (case ut_artifact_ids inp of Unspecified \<Rightarrow> as = t_artifacts t | Null \<Rightarrow> as = []
      | Specified ids \<Rightarrow> reorderArtifactsByID (t_artifacts t) ids = Inr as) \<and>
    lo = (case ut_meeting_location inp of Unspecified \<Rightarrow> t_meeting_location t
      | Null \<Rightarrow> None | Specified p \<Rightarrow> applyLocationPatch (t_meeting_location t) p)"
proof -
  from assms obtain t1 t2 t3 where n: "update_trip_name (ut_name inp) t = Inr t1"
    and c: "update_trip_capacity (ut_capacity_rigs inp) (update_trip_texts inp t1) = Inr t2"
    and a: "update_trip_artifacts (ut_artifact_ids inp)
              (update_trip_location (ut_meeting_location inp) t2) = Inr t3"
    and d: "check_date_range t3 = Inr t'"
    by (auto simp: patched_trip_def and_then_Inr)
  obtain nm where t1: "t1 = t\<lparr>t_name := nm\<rparr>" using name_patch [OF n] by blast
  have "t_capacity_rigs t2 = apply_nullable (t_capacity_rigs t) (ut_capacity_rigs inp)"
    using c by (auto simp: update_trip_capacity_def update_trip_texts_def t1 Let_def
        split: optional.splits if_splits)
  then have t2: "t2 = (update_trip_texts inp t1)\<lparr>t_capacity_rigs :=
      apply_nullable (t_capacity_rigs t) (ut_capacity_rigs inp)\<rparr>"
    using capacity_patch [OF c] by metis
  have "t_meeting_location t2 = t_meeting_location t" by (simp add: t2 update_trip_texts_def t1)
  then have l: "update_trip_location (ut_meeting_location inp) t2 = t2\<lparr>t_meeting_location :=
      (case ut_meeting_location inp of Unspecified \<Rightarrow> t_meeting_location t
      | Null \<Rightarrow> None | Specified p \<Rightarrow> applyLocationPatch (t_meeting_location t) p)\<rparr>"
    by (auto simp: update_trip_location_def split: optional.split)
  obtain as where t3: "t3 = (update_trip_location (ut_meeting_location inp) t2)\<lparr>t_artifacts := as\<rparr>"
    using artifacts_patch [OF a] by blast
  have "t_artifacts (update_trip_location (ut_meeting_location inp) t2) = t_artifacts t"
    by (subst l) (simp add: t2 update_trip_texts_def t1)
  then have arts: "case ut_artifact_ids inp of Unspecified \<Rightarrow> as = t_artifacts t | Null \<Rightarrow> as = []
      | Specified ids \<Rightarrow> reorderArtifactsByID (t_artifacts t) ids = Inr as"
    using a by (auto simp: update_trip_artifacts_def t3 and_then_Inr split: optional.splits dest: arg_cong [of _ _ t_artifacts])
  have "t' = (update_trip_texts inp t)\<lparr>t_name := nm, t_capacity_rigs := apply_nullable (t_capacity_rigs t) (ut_capacity_rigs inp),
      t_meeting_location := (case ut_meeting_location inp of Unspecified \<Rightarrow> t_meeting_location t
      | Null \<Rightarrow> None | Specified p \<Rightarrow> applyLocationPatch (t_meeting_location t) p), t_artifacts := as\<rparr>"
    using date_check [OF d] t3 [unfolded l] t2 t1 by (simp add: update_trip_texts_def)
  then show ?thesis using n t1 arts by blast
qed

text \<open>The fields an update can touch, and the conditions on their new values.\<close>

lemma patched_fields:
  assumes "patched_trip inp t = Inr t'"
  shows "t_id t' = t_id t" and "t_status t' = t_status t" and "t_creator t' = t_creator t"
    and "t_organizers t' = t_organizers t" and "t_draft_visibility t' = t_draft_visibility t"
    and "t_attending_rigs t' = t_attending_rigs t" and "t_created_at t' = t_created_at t"
    and "t_name t' = t_name t \<or> (\<exists>n. t_name t' = Some n \<and> n \<noteq> '''' \<and> NormalizeHumanName n = n)"
    and "t_capacity_rigs t' = t_capacity_rigs t \<or> t_capacity_rigs t' = None \<or>
      (\<exists>c. t_capacity_rigs t' = Some c \<and> 1 \<le> c \<and>
         (t_status t = Published \<longrightarrow> (\<forall>n. t_attending_rigs t = Some n \<longrightarrow> n \<le> c)))"
    and "case (t_start_date t', t_end_date t') of (Some s, Some e) \<Rightarrow> s \<le> e | _ \<Rightarrow> True"
proof -
  from assms obtain t1 t2 t3 where n: "update_trip_name (ut_name inp) t = Inr t1"
    and c: "update_trip_capacity (ut_capacity_rigs inp) (update_trip_texts inp t1) = Inr t2"
    and a: "update_trip_artifacts (ut_artifact_ids inp)
              (update_trip_location (ut_meeting_location inp) t2) = Inr t3"
    and d: "check_date_range t3 = Inr t'"
    by (auto simp: patched_trip_def and_then_Inr)
  let ?t2 = "update_trip_location (ut_meeting_location inp) t2"
  note n = name_patch [OF n] and c = capacity_patch [OF c] and a = artifacts_patch [OF a]
    and d = date_check [OF d] and l = location_patch_frame [of "ut_meeting_location inp" t2]
  obtain nm where t1: "t1 = t\<lparr>t_name := nm\<rparr>" using n by blast
  obtain cp where t2: "t2 = (update_trip_texts inp t1)\<lparr>t_capacity_rigs := cp\<rparr>" using c by blast
  obtain lo where l2: "?t2 = t2\<lparr>t_meeting_location := lo\<rparr>" using l by metis
  obtain as where t3: "t3 = ?t2\<lparr>t_artifacts := as\<rparr>" using a by blast
  have t': "t' = t3" and dd: "case (t_start_date t', t_end_date t') of (Some s, Some e) \<Rightarrow> s \<le> e | _ \<Rightarrow> True"
    using d by simp_all
  note eqs = t' t3 [unfolded l2] t2 update_trip_texts_def t1
  show "t_id t' = t_id t" "t_status t' = t_status t" "t_creator t' = t_creator t"
    "t_organizers t' = t_organizers t" "t_draft_visibility t' = t_draft_visibility t"
    "t_attending_rigs t' = t_attending_rigs t" "t_created_at t' = t_created_at t"
    by (simp_all add: eqs)
  show "t_name t' = t_name t \<or> (\<exists>n. t_name t' = Some n \<and> n \<noteq> '''' \<and> NormalizeHumanName n = n)"
    using n by (simp add: eqs)
  show "t_capacity_rigs t' = t_capacity_rigs t \<or> t_capacity_rigs t' = None \<or>
      (\<exists>c. t_capacity_rigs t' = Some c \<and> 1 \<le> c \<and>
         (t_status t = Published \<longrightarrow> (\<forall>n. t_attending_rigs t = Some n \<longrightarrow> n \<le> c)))"
    using c by (simp add: eqs)
  show "case (t_start_date t', t_end_date t') of (Some s, Some e) \<Rightarrow> s \<le> e | _ \<Rightarrow> True"
    by (rule dd)
qed

lemma authorized_status:
  "authorize_update t c = Inr u \<Longrightarrow> t_status t = Draft \<or> t_status t = Published"
  by (auto simp: authorize_update_def split: trip_status.splits)

lemma trip_ok_touch [simp]: "trip_ok ms rv (t\<lparr>t_updated_at := n\<rparr>) = trip_ok ms rv t"
  by (simp add: trip_ok_def cong: option.case_cong)

lemma patched_ok:
  assumes ok: "trip_ok ms rv t" and auth: "authorize_update t c = Inr u" and p: "patched_trip inp t = Inr t'"
  shows "trip_ok ms rv t'"
proof -
  note f = patched_fields [OF p]
  have cap: "case t_capacity_rigs t' of None \<Rightarrow> True
      | Some c \<Rightarrow> 1 \<le> c \<and> (case t_attending_rigs t' of None \<Rightarrow> True | Some n \<Rightarrow> n \<le> c)"
    using f(9) ok authorized_status [OF auth]
    by (auto simp: f(6) trip_ok_def split: option.splits)
  have name: "case t_name t' of Some n \<Rightarrow> n \<noteq> '''' \<and> NormalizeHumanName n = n | None \<Rightarrow> False"
    using f(8) ok unfolding trip_ok_def by auto
  show ?thesis
    using ok unfolding trip_ok_def f(1-6) using f(10) cap [unfolded f(6)] name by simp
qed

section \<open>Saving a trip\<close>

definition saved :: "world \<Rightarrow> trip \<Rightarrow> world" where
  "saved w t = w\<lparr>w_trips := trip_put (w_trips w) (t_id t) t\<rparr>"

lemma saved_fields [simp]:
  "w_members (saved w t) = w_members w" "w_rsvps (saved w t) = w_rsvps w"
  "trip_lookup (w_trips (saved w t)) j = (if j = t_id t then Some t else trip_lookup (w_trips w) j)"
  by (simp_all add: saved_def trepo.lookup_store)

lemma save_and_details_eq:
  "t_id t \<noteq> '''' \<Longrightarrow> save_and_details env w t = (tripDetailsForTrip env (saved w t) t, saved w t)"
  by (simp add: save_and_details_def trip_save_put saved_def Let_def)

lemma saved_wf:
  assumes wf: "wf_world env w" and old: "trip_lookup (w_trips w) (t_id t) \<noteq> None"
    and ok: "trip_ok (w_members w) (w_rsvps w) t"
  shows "wf_world env (saved w t)"
proof (rule wf_worldI)
  obtain t0 where t0: "trip_lookup (w_trips w) (t_id t) = Some t0" using old by blast
  have ne: "t_id t \<noteq> ''''" using trip_lookup_id [OF wf_worldD(2) [OF wf] t0] by simp
  show "wf_members env (w_members (saved w t))" "wf_rsvp_repo (w_rsvps (saved w t))"
    using wf_worldD [OF wf] by simp_all
  show "wf_trip_repo (w_trips (saved w t))"
    using trip_put_wf [OF wf_worldD(2) [OF wf] refl ne] by (simp add: saved_def)
  show "trip_ok (w_members (saved w t)) (w_rsvps (saved w t)) u"
    if "trip_lookup (w_trips (saved w t)) i = Some u" for i u
    using that ok wf_worldD(4) [OF wf] by (simp split: if_splits)
  show "member_exists (w_members (saved w t)) m \<and> trip_lookup (w_trips (saved w t)) i \<noteq> None \<and>
        rs_status v \<in> {Yes, No, Unset}"
    if "rsvp_lookup (w_rsvps (saved w t)) (i, m) = Some v" for i m v
    using that wf_worldD(5-7) [OF wf, of i m v] by simp
qed


section \<open>The life of a trip\<close>

text \<open>
  The abstract specification of the methods that change a trip: which member may turn which
  trip into which, without the order of the checks or the error values. The fields of a
  trip that a change does not mention stay as they are.
\<close>

inductive trip_change :: "member_repo \<Rightarrow> MemberID \<Rightarrow> trip \<Rightarrow> trip \<Rightarrow> bool" for ms :: member_repo and c :: MemberID where
  edited: "authorize_update t c = Inr () \<Longrightarrow> patched_trip inp t = Inr t' \<Longrightarrow>
    trip_change ms c t (t'\<lparr>t_updated_at := now\<rparr>)"
| shared: "t_status t = Draft \<Longrightarrow> isTripVisibleToCaller t c \<Longrightarrow> t_creator t = c \<Longrightarrow>
    dv \<in> {Private, Public} \<Longrightarrow> trip_change ms c t (t\<lparr>t_draft_visibility := dv, t_updated_at := now\<rparr>)"
| joined: "c \<in> set (t_organizers t) \<Longrightarrow> isTripVisibleToCaller t c \<Longrightarrow> member_exists ms m \<Longrightarrow>
    m \<notin> set (t_organizers t) \<Longrightarrow>
    trip_change ms c t (t\<lparr>t_organizers := t_organizers t @ [m], t_updated_at := now\<rparr>)"
| departed: "c \<in> set (t_organizers t) \<Longrightarrow> isTripVisibleToCaller t c \<Longrightarrow> m \<in> set (t_organizers t) \<Longrightarrow>
    removeAll m (t_organizers t) \<noteq> [] \<Longrightarrow>
    trip_change ms c t (t\<lparr>t_organizers := removeAll m (t_organizers t), t_updated_at := now\<rparr>)"
| cancelled: "c \<in> set (t_organizers t) \<Longrightarrow> isTripVisibleToCaller t c \<Longrightarrow> t_status t \<in> {Draft, Published} \<Longrightarrow>
    trip_change ms c t (t\<lparr>t_status := Canceled, t_updated_at := now\<rparr>)"
| opened: "c \<in> set (t_organizers t) \<Longrightarrow> t_status t = Draft \<Longrightarrow> t_draft_visibility t = Public \<Longrightarrow>
    ready_to_publish t \<Longrightarrow>
    trip_change ms c t (t\<lparr>t_status := Published,
      t_attending_rigs := (case t_attending_rigs t of None \<Rightarrow> Some 0 | Some n \<Rightarrow> Some n), t_updated_at := now\<rparr>)"

lemma count_yes_none:
  assumes "wf_rsvp_repo rv" and "\<And>m. rsvp_lookup rv (i, m) = None"
  shows "rsvp_count_yes_by_trip rv i = 0"
proof -
  have "rsvp_list_by_trip rv i = []"
    using list_by_trip_set [OF assms(1), of _ i] assms(2) by (metis list.set_intros(1) neq_Nil_conv option.distinct(1))
  then show ?thesis by (simp add: count_yes_list [OF assms(1)])
qed

lemma trip_change_kept:
  "trip_change ms c t t' \<Longrightarrow> t_id t' = t_id t \<and> t_creator t' = t_creator t \<and> t_created_at t' = t_created_at t"
  by (induction rule: trip_change.induct) (simp_all add: patched_fields)

lemma trip_change_status:
  "trip_change ms c t t' \<Longrightarrow> t_status t' = t_status t \<or> t_status t = Draft \<and> t_status t' = Published \<or>
    t_status t \<in> {Draft, Published} \<and> t_status t' = Canceled"
  by (induction rule: trip_change.induct) (simp_all add: patched_fields)

lemma trip_change_authorised:
  "trip_change ms c t t' \<Longrightarrow> isTripVisibleToCaller t c \<and>
    (c \<in> set (t_organizers t) \<or> t_status t = Draft \<and> t_creator t = c)"
  by (induction rule: trip_change.induct)
     (auto simp: authorize_update_def isTripVisibleToCaller_def draft_visible_iff
        split: trip_status.splits if_splits draft_visibility.splits)

text \<open>Of a canceled trip only the organizers can change.\<close>

lemma trip_change_canceled:
  "trip_change ms c t t' \<Longrightarrow> t_status t = Canceled \<Longrightarrow>
   \<exists>os now. t' = t\<lparr>t_organizers := os, t_updated_at := now\<rparr>"
  by (induction rule: trip_change.induct) (auto dest: authorized_status)

text \<open>Every change keeps what a stored trip promises.\<close>

lemma trip_change_ok:
  assumes "trip_change ms c t t'" and ok: "trip_ok ms rv t" and rv: "wf_rsvp_repo rv"
  shows "trip_ok ms rv t'"
  using assms(1)
proof cases
  case (edited inp t1 now)
  then show ?thesis using patched_ok [OF ok] by simp
next
  case (opened now)
  have none: "t_attending_rigs t = None" using trip_okD(7) [OF ok opened(3)] .
  then have "rsvp_count_yes_by_trip rv (t_id t) = 0"
    using count_yes_none [OF rv] trip_okD(9) [OF ok] by blast
  then show ?thesis using ok none opened unfolding trip_ok_def by (auto split: option.splits)
next
  case (departed m now)
  then show ?thesis using ok unfolding trip_ok_def by (auto simp: distinct_removeAll cong: option.case_cong)
next
  case (joined m now)
  then show ?thesis using ok unfolding trip_ok_def by (simp cong: option.case_cong)
next
  case (shared dv now)
  then show ?thesis using ok unfolding trip_ok_def by (auto split: option.splits)
next
  case (cancelled now)
  then show ?thesis using ok unfolding trip_ok_def by (simp cong: option.case_cong)
qed

text \<open>Reading the details back changes nothing and always succeeds.\<close>

lemma details_now:
  assumes "wf_world env w" and "trip_lookup (w_trips w) tid = Some t"
  obtains d where "tripDetailsForTrip env w t = Inr d"
  using details_total [OF assms(1) wf_worldD(4) [OF assms]] by blast

end
