(* ===== verification/TripsMethods.thy ===== *)
theory TripsMethods
  imports TripsInv
begin

text \<open>
  The methods of the trip service against their contract. \<open>caller_method\<close> is what every method
  taking a caller and a trip ID promises its HTTP handler: a trip the caller may not see is
  answered exactly like a trip that does not exist, only application errors come out, a failed
  call changes nothing, other trips and the member directory are untouched, and the invariant
  is kept. \<open>trip_method\<close> is the stronger contract of the methods that edit the trip itself:
  they do at most one change of the trip's life cycle.
\<close>

definition app_error_only :: "goerror + 'a \<Rightarrow> bool" where
  "app_error_only r \<longleftrightarrow>
     (case r of
        Inl e \<Rightarrow> (case e of TripsError ae \<Rightarrow> ae_status ae \<in> {404, 409, 422} | _ \<Rightarrow> False)
      | Inr _ \<Rightarrow> True)"

lemma app_error_only_simps [simp]:
  "app_error_only (Inr x)" "app_error_only (Inl (TripsError e)) \<longleftrightarrow> ae_status e \<in> {404, 409, 422}"
  "app_error_only (Inl trip_not_found)"
  "app_error_only (Inl (trips_conflict a b))" "app_error_only (Inl (trips_invalid a b d))"
  by (simp_all add: app_error_only_def trip_not_found_def trips_conflict_def trips_invalid_def)

locale caller_method =
  fixes env :: go_env and run :: "world \<Rightarrow> MemberID \<Rightarrow> TripID \<Rightarrow> 'a outcome"
  assumes hidden: "wf_world env w \<Longrightarrow> hidden_from w c tid \<Longrightarrow> run w c tid = (Inl trip_not_found, w)"
    and app_errors: "wf_world env w \<Longrightarrow> app_error_only (fst (run w c tid))"
    and failed_unchanged: "wf_world env w \<Longrightarrow> fst (run w c tid) = Inl e \<Longrightarrow> snd (run w c tid) = w"
    and keeps_wf: "wf_world env w \<Longrightarrow> member_exists (w_members w) c \<Longrightarrow> wf_world env (snd (run w c tid))"
    and keeps_members: "wf_world env w \<Longrightarrow> w_members (snd (run w c tid)) = w_members w"
    and keeps_other_trips: "wf_world env w \<Longrightarrow> j \<noteq> tid \<Longrightarrow>
      trip_lookup (w_trips (snd (run w c tid))) j = trip_lookup (w_trips w) j"
    and keeps_other_rsvps: "wf_world env w \<Longrightarrow> (j, m) \<noteq> (tid, c) \<Longrightarrow>
      rsvp_lookup (w_rsvps (snd (run w c tid))) (j, m) = rsvp_lookup (w_rsvps w) (j, m)"
begin

text \<open>A hidden draft cannot be told from a trip that does not exist, in this or any other world.\<close>

lemma hidden_indistinguishable:
  "wf_world env w \<Longrightarrow> wf_world env w' \<Longrightarrow> hidden_from w c tid \<Longrightarrow> hidden_from w' c' tid' \<Longrightarrow>
   fst (run w c tid) = fst (run w' c' tid')"
  by (simp add: hidden)

lemma failure: "wf_world env w \<Longrightarrow> fst (run w c tid) = Inl e \<Longrightarrow> (\<exists>ae. e = TripsError ae \<and> ae_status ae \<in> {404, 409, 422}) \<and> snd (run w c tid) = w"
  using app_errors [of w c tid] failed_unchanged by (auto simp: app_error_only_def split: goerror.splits)

lemma changed_succeeded: "wf_world env w \<Longrightarrow> snd (run w c tid) \<noteq> w \<Longrightarrow> \<exists>x. fst (run w c tid) = Inr x"
  using failed_unchanged by (cases "fst (run w c tid)") auto

lemma changed_visible: "wf_world env w \<Longrightarrow> snd (run w c tid) \<noteq> w \<Longrightarrow> \<not> hidden_from w c tid"
  using hidden by fastforce

end

locale trip_method =
  fixes env :: go_env and run :: "world \<Rightarrow> MemberID \<Rightarrow> TripID \<Rightarrow> 'a outcome"
  assumes hidden_trip: "wf_world env w \<Longrightarrow> hidden_from w c tid \<Longrightarrow> run w c tid = (Inl trip_not_found, w)"
    and effect: "wf_world env w \<Longrightarrow>
      (snd (run w c tid) = w \<and> app_error_only (fst (run w c tid))) \<or>
      (\<exists>t t' x. trip_lookup (w_trips w) tid = Some t \<and> trip_change (w_members w) c t t' \<and>
         run w c tid = (Inr x, saved w t'))"
begin

lemma effect_cases:
  assumes "wf_world env w"
  obtains (same) "snd (run w c tid) = w" "app_error_only (fst (run w c tid))"
  | (changed) t t' x where "trip_lookup (w_trips w) tid = Some t" "trip_change (w_members w) c t t'"
      "run w c tid = (Inr x, saved w t')" "t_id t' = tid" "t_id t = tid" "wf_world env (saved w t')"
proof -
  consider "snd (run w c tid) = w" "app_error_only (fst (run w c tid))"
    | t t' x where "trip_lookup (w_trips w) tid = Some t" "trip_change (w_members w) c t t'"
      "run w c tid = (Inr x, saved w t')"
    using effect [OF assms] by blast
  then show ?thesis
  proof cases
    case 1
    then show ?thesis by (rule same)
  next
    case (2 t t' x)
    have "t_id t = tid" using trip_lookup_id [OF wf_worldD(2) [OF assms] 2(1)] by simp
    moreover then have "t_id t' = tid" using trip_change_kept [OF 2(2)] by simp
    moreover have "wf_world env (saved w t')"
    proof (rule saved_wf [OF assms])
      show "trip_lookup (w_trips w) (t_id t') \<noteq> None" using 2(1) \<open>t_id t' = tid\<close> by simp
      show "trip_ok (w_members w) (w_rsvps w) t'"
        by (rule trip_change_ok [OF 2(2) wf_worldD(4) [OF assms 2(1)] wf_worldD(3) [OF assms]])
    qed
    ultimately show ?thesis using 2 changed by blast
  qed
qed

lemma effect_wf: "wf_world env w \<Longrightarrow> wf_world env (snd (run w c tid))"
  using effect_cases [of w c tid] by (metis snd_conv)

lemma effect_rsvps: "wf_world env w \<Longrightarrow> w_rsvps (snd (run w c tid)) = w_rsvps w"
  using effect_cases [of w c tid] by (metis snd_conv saved_fields(2))

lemma effect_trip:
  "wf_world env w \<Longrightarrow> trip_lookup (w_trips w) tid = Some t \<Longrightarrow>
   \<exists>t'. trip_lookup (w_trips (snd (run w c tid))) tid = Some t' \<and> (t' = t \<or> trip_change (w_members w) c t t')"
  by (rule effect_cases [of w c tid]) auto

end

sublocale trip_method \<subseteq> caller_method env run
proof unfold_locales
  fix w c tid e j m
  assume wf: "wf_world env w"
  show "hidden_from w c tid \<Longrightarrow> run w c tid = (Inl trip_not_found, w)" by (rule hidden_trip [OF wf])
  show "app_error_only (fst (run w c tid))" by (rule effect_cases [OF wf, of c tid]) auto
  show "fst (run w c tid) = Inl e \<Longrightarrow> snd (run w c tid) = w"
    by (rule effect_cases [OF wf, of c tid]) auto
  show "wf_world env (snd (run w c tid))" by (rule effect_wf [OF wf])
  show "w_members (snd (run w c tid)) = w_members w"
    by (rule effect_cases [OF wf, of c tid]) auto
  show "j \<noteq> tid \<Longrightarrow> trip_lookup (w_trips (snd (run w c tid))) j = trip_lookup (w_trips w) j"
    by (rule effect_cases [OF wf, of c tid]) auto
  show "rsvp_lookup (w_rsvps (snd (run w c tid))) (j, m) = rsvp_lookup (w_rsvps w) (j, m)"
    by (simp add: effect_rsvps [OF wf])
qed

section \<open>The methods that edit a trip\<close>

text \<open>From the shape shared by their bodies: checks, a pure change, save, details.\<close>

lemma details_app:
  "wf_world env w \<Longrightarrow> trip_lookup (w_trips w) tid = Some t \<Longrightarrow> \<exists>d. tripDetailsForTrip env w t = Inr d"
  using details_now by blast

lemma save_effect:
  assumes wf: "wf_world env w" and t: "trip_lookup (w_trips w) tid = Some t"
    and ch: "trip_change (w_members w) c t t'"
  obtains d where "save_and_details env w t' = (Inr d, saved w t')"
proof -
  have "t_id t = tid" "tid \<noteq> ''''" using trip_lookup_id [OF wf_worldD(2) [OF wf] t] by simp_all
  then have id': "t_id t' = tid" using trip_change_kept [OF ch] by simp
  have ok: "trip_ok (w_members w) (w_rsvps w) t'"
    by (rule trip_change_ok [OF ch wf_worldD(4) [OF wf t] wf_worldD(3) [OF wf]])
  have "wf_world env (saved w t')" using saved_wf [OF wf _ ok] id' t by simp
  then obtain d where "tripDetailsForTrip env (saved w t') t' = Inr d"
    using details_total [of env "saved w t'" "w_rsvps w" t'] ok by auto
  then show ?thesis using that id' \<open>tid \<noteq> ''''\<close> by (simp add: save_and_details_eq)
qed




lemma guarded_hidden [simp]:
  "hidden_from w c tid \<Longrightarrow> guarded w (load_organized_trip w c tid) f = (Inl trip_not_found, w)"
  "hidden_from w c tid \<Longrightarrow> guarded w (load_visible_trip w c tid) f = (Inl trip_not_found, w)"
proof -
  assume h: "hidden_from w c tid"
  show "guarded w (load_organized_trip w c tid) f = (Inl trip_not_found, w)"
    using load_organized_hidden [OF h] by simp
  have "load_visible_trip w c tid = Inl trip_not_found" using h load_visible_hidden by blast
  then show "guarded w (load_visible_trip w c tid) f = (Inl trip_not_found, w)" by simp
qed

lemma wf_status:
  "wf_world env w \<Longrightarrow> trip_lookup (w_trips w) tid = Some t \<Longrightarrow>
   t_status t = Draft \<or> t_status t = Published \<or> t_status t = Canceled"
  using trip_okD(1) [OF wf_worldD(4)] by auto

lemma name_patch_error: "update_trip_name p t = Inl e \<Longrightarrow> app_error_only (Inl e)"
  by (auto simp: update_trip_name_def Let_def split: optional.splits if_splits)

lemma capacity_patch_error: "update_trip_capacity p t = Inl e \<Longrightarrow> app_error_only (Inl e)"
  by (auto simp: update_trip_capacity_def Let_def split: optional.splits if_splits)

lemma pick_error: "pick_artifacts m is = Inl e \<Longrightarrow> app_error_only (Inl e)"
  by (induction "is" arbitrary: e) (auto simp: and_then_Inl split: option.splits)

lemma artifacts_patch_error: "update_trip_artifacts p t = Inl e \<Longrightarrow> app_error_only (Inl e)"
  by (auto simp: update_trip_artifacts_def reorderArtifactsByID_def and_then_Inl pick_error
      split: optional.splits)

lemma date_check_error: "check_date_range t = Inl e \<Longrightarrow> app_error_only (Inl e)"
  by (auto simp: check_date_range_def split: option.splits if_splits)

lemma patched_error: "patched_trip inp t = Inl e \<Longrightarrow> app_error_only (Inl e)"
  unfolding patched_trip_def and_then_Inl
  using name_patch_error capacity_patch_error artifacts_patch_error date_check_error by blast

lemma authorize_error: "authorize_update t c = Inl e \<Longrightarrow> app_error_only (Inl e)"
  by (auto simp: authorize_update_def split: trip_status.splits if_splits)

lemma hidden_draft:
  assumes "wf_world env w" and "hidden_from w c tid" and "trip_lookup (w_trips w) tid = Some t"
  shows "t_status t = Draft" and "\<not> isTripVisibleToCaller t c"
  using assms wf_status [OF assms(1,3)] by (auto simp: hidden_from_def)

interpretation update: trip_method env "\<lambda>w c tid. UpdateTrip env w c tid inp now" for env inp now
proof unfold_locales
  fix w c tid
  assume wf: "wf_world env w"
  show "UpdateTrip env w c tid inp now = (Inl trip_not_found, w)" if h: "hidden_from w c tid"
  proof (cases rule: load_trip_cases [of w tid])
    case missing
    then show ?thesis by (simp add: UpdateTrip_def)
  next
    case (found t)
    have "authorize_update t c = Inl trip_not_found"
      using hidden_draft [OF wf h found(1)] by (simp add: authorize_update_def draft_visible_iff)
    then show ?thesis using found(2) by (simp add: UpdateTrip_def)
  qed
  let ?r = "UpdateTrip env w c tid inp now"
  show "(snd ?r = w \<and> app_error_only (fst ?r)) \<or>
      (\<exists>t t' x. trip_lookup (w_trips w) tid = Some t \<and> trip_change (w_members w) c t t' \<and>
         ?r = (Inr x, saved w t'))"
  proof (cases rule: load_trip_cases [of w tid])
    case missing
    then show ?thesis by (simp add: UpdateTrip_def)
  next
    case (found t)
    show ?thesis
    proof (cases "authorize_update t c")
      case (Inl e)
      then show ?thesis using found(2) authorize_error [OF Inl] by (simp add: UpdateTrip_def)
    next
      case auth: (Inr u)
      show ?thesis
      proof (cases "patched_trip inp t")
        case (Inl e)
        then show ?thesis using found(2) auth patched_error [OF Inl] by (simp add: UpdateTrip_def)
      next
        case (Inr t')
        have ch: "trip_change (w_members w) c t (t'\<lparr>t_updated_at := now\<rparr>)"
          using auth Inr by (intro trip_change.edited) auto
        obtain d where "save_and_details env w (t'\<lparr>t_updated_at := now\<rparr>) = (Inr d, saved w (t'\<lparr>t_updated_at := now\<rparr>))"
          by (rule save_effect [OF wf found(1) ch])
        then show ?thesis using found auth Inr ch by (auto simp: UpdateTrip_def)
      qed
    qed
  qed
qed

interpretation visibility: trip_method env "\<lambda>w c tid. SetTripDraftVisibility env w c tid dv now"
  for env dv now
proof unfold_locales
  fix w c tid
  assume wf: "wf_world env w"
  show "hidden_from w c tid \<Longrightarrow> SetTripDraftVisibility env w c tid dv now = (Inl trip_not_found, w)"
    by (simp add: SetTripDraftVisibility_def)
  let ?r = "SetTripDraftVisibility env w c tid dv now"
  show "(snd ?r = w \<and> app_error_only (fst ?r)) \<or>
      (\<exists>t t' x. trip_lookup (w_trips w) tid = Some t \<and> trip_change (w_members w) c t t' \<and>
         ?r = (Inr x, saved w t'))"
  proof (cases rule: load_visible_cases [of w c tid])
    case hidden
    then show ?thesis by (simp add: SetTripDraftVisibility_def)
  next
    case (seen t)
    show ?thesis
    proof (cases "with_visibility t c dv")
      case (Inl e)
      then have "app_error_only (Inl e)" by (auto simp: with_visibility_def split: if_splits draft_visibility.splits)
      then show ?thesis using seen Inl by (simp add: SetTripDraftVisibility_def)
    next
      case (Inr t')
      then have "t_status t = Draft" "t_creator t = c" "dv \<in> {Private, Public}"
        and t': "t' = t\<lparr>t_draft_visibility := dv\<rparr>"
        by (auto simp: with_visibility_def split: if_splits draft_visibility.splits)
      then have ch: "trip_change (w_members w) c t (t'\<lparr>t_updated_at := now\<rparr>)"
        using seen trip_change.shared by simp
      obtain d where "save_and_details env w (t'\<lparr>t_updated_at := now\<rparr>) = (Inr d, saved w (t'\<lparr>t_updated_at := now\<rparr>))"
        by (rule save_effect [OF wf seen(1) ch])
      then show ?thesis using seen Inr ch by (auto simp: SetTripDraftVisibility_def)
    qed
  qed
qed

lemma remove_organizer_eq: "remove_organizer is m = removeAll m is"
  by (induction "is") auto

interpretation add_organizer: trip_method env "\<lambda>w c tid. AddTripOrganizer env w c tid target now"
  for env target now
proof unfold_locales
  fix w c tid
  assume wf: "wf_world env w"
  show "hidden_from w c tid \<Longrightarrow> AddTripOrganizer env w c tid target now = (Inl trip_not_found, w)"
    by (simp add: AddTripOrganizer_def)
  let ?r = "AddTripOrganizer env w c tid target now"
  show "(snd ?r = w \<and> app_error_only (fst ?r)) \<or>
      (\<exists>t t' x. trip_lookup (w_trips w) tid = Some t \<and> trip_change (w_members w) c t t' \<and>
         ?r = (Inr x, saved w t'))"
  proof (cases rule: load_organized_cases [of w c tid])
    case refused
    then show ?thesis by (simp add: AddTripOrganizer_def)
  next
    case (organized t)
    let ?t' = "t\<lparr>t_organizers := t_organizers t @ [target], t_updated_at := now\<rparr>"
    obtain d where d: "tripDetailsForTrip env w t = Inr d" using details_now [OF wf organized(1)] .
    show ?thesis
    proof (cases "map_of (mb_by_id (w_members w)) target")
      case None
      then have "member_get_by_id (w_members w) target = Inl MemberNotFound" by (simp add: get_by_id_Inl)
      then show ?thesis using organized by (simp add: AddTripOrganizer_def)
    next
      case (Some m)
      then have g: "member_get_by_id (w_members w) target = Inr m" by simp
      show ?thesis
      proof (cases "target \<in> set (t_organizers t)")
        case True
        then show ?thesis using organized g d by (simp add: AddTripOrganizer_def del: get_by_id_Inr)
      next
        case False
        then have ch: "trip_change (w_members w) c t ?t'"
          using organized Some by (intro trip_change.joined) (simp_all add: member_exists_def)
        obtain d' where "save_and_details env w ?t' = (Inr d', saved w ?t')"
          by (rule save_effect [OF wf organized(1) ch])
        then have "?r = (Inr d', saved w ?t')"
          using organized g False by (simp add: AddTripOrganizer_def del: get_by_id_Inr)
        then show ?thesis using organized(1) ch by blast
      qed
    qed
  qed
qed

interpretation remove_organizer: trip_method env "\<lambda>w c tid. RemoveTripOrganizer env w c tid target now"
  for env target now
proof unfold_locales
  fix w c tid
  assume wf: "wf_world env w"
  show "hidden_from w c tid \<Longrightarrow> RemoveTripOrganizer env w c tid target now = (Inl trip_not_found, w)"
    by (simp add: RemoveTripOrganizer_def)
  let ?r = "RemoveTripOrganizer env w c tid target now"
  show "(snd ?r = w \<and> app_error_only (fst ?r)) \<or>
      (\<exists>t t' x. trip_lookup (w_trips w) tid = Some t \<and> trip_change (w_members w) c t t' \<and>
         ?r = (Inr x, saved w t'))"
  proof (cases rule: load_organized_cases [of w c tid])
    case refused
    then show ?thesis by (simp add: RemoveTripOrganizer_def)
  next
    case (organized t)
    let ?t' = "t\<lparr>t_organizers := removeAll target (t_organizers t), t_updated_at := now\<rparr>"
    obtain d where d: "tripDetailsForTrip env w t = Inr d" using details_now [OF wf organized(1)] .
    show ?thesis
    proof (cases "target \<in> set (t_organizers t) \<and> length (t_organizers t) \<noteq> 1 \<and>
        removeAll target (t_organizers t) \<noteq> []")
      case False
      then show ?thesis using organized d
        by (auto simp: RemoveTripOrganizer_def last_organizer_def remove_organizer_eq Let_def)
    next
      case True
      then have ch: "trip_change (w_members w) c t ?t'"
        using organized by (intro trip_change.departed) simp_all
      obtain d' where "save_and_details env w ?t' = (Inr d', saved w ?t')"
        by (rule save_effect [OF wf organized(1) ch])
      then have "?r = (Inr d', saved w ?t')"
        using organized True by (simp add: RemoveTripOrganizer_def remove_organizer_eq Let_def)
      then show ?thesis using organized(1) ch by blast
    qed
  qed
qed


interpretation cancel: trip_method env "\<lambda>w c tid. CancelTrip env w c tid now" for env now
proof unfold_locales
  fix w c tid
  assume wf: "wf_world env w"
  show "hidden_from w c tid \<Longrightarrow> CancelTrip env w c tid now = (Inl trip_not_found, w)"
    by (simp add: CancelTrip_def)
  let ?r = "CancelTrip env w c tid now"
  show "(snd ?r = w \<and> app_error_only (fst ?r)) \<or>
      (\<exists>t t' x. trip_lookup (w_trips w) tid = Some t \<and> trip_change (w_members w) c t t' \<and>
         ?r = (Inr x, saved w t'))"
  proof (cases rule: load_organized_cases [of w c tid])
    case refused
    then show ?thesis by (simp add: CancelTrip_def)
  next
    case (organized t)
    let ?t' = "t\<lparr>t_status := Canceled, t_updated_at := now\<rparr>"
    obtain d where d: "tripDetailsForTrip env w t = Inr d" using details_now [OF wf organized(1)] .
    show ?thesis
    proof (cases "t_status t = Canceled")
      case True
      then show ?thesis using organized d by (simp add: CancelTrip_def)
    next
      case False
      then have st: "t_status t \<in> {Draft, Published}" using wf_status [OF wf organized(1)] by simp
      then have ch: "trip_change (w_members w) c t ?t'"
        using organized by (intro trip_change.cancelled)
      obtain d' where "save_and_details env w ?t' = (Inr d', saved w ?t')"
        by (rule save_effect [OF wf organized(1) ch])
      then have "?r = (Inr d', saved w ?t')" using organized False st by (auto simp: CancelTrip_def)
      then show ?thesis using organized(1) ch by blast
    qed
  qed
qed

lemma with_announcement_simps [simp]:
  "with_announcement (Inr d, w) = (Inr (d, announcementCopyFromTrip d), w)"
  "with_announcement (Inl e, w) = (Inl e, w)"
  by (simp_all add: with_announcement_def)

lemma published_trip_Inr:
  "published_trip t = Inr t' \<longleftrightarrow> t_draft_visibility t = Public \<and> ready_to_publish t \<and>
   t' = t\<lparr>t_status := Published,
          t_attending_rigs := (case t_attending_rigs t of None \<Rightarrow> Some 0 | Some n \<Rightarrow> Some n)\<rparr>"
  by (auto simp: published_trip_def Let_def missing_Nil_iff)

lemma published_trip_error: "published_trip t = Inl e \<Longrightarrow> app_error_only (Inl e)"
  by (auto simp: published_trip_def Let_def split: if_splits)

interpretation publish: trip_method env "\<lambda>w c tid. PublishTrip env w c tid now" for env now
proof unfold_locales
  fix w c tid
  assume wf: "wf_world env w"
  show "hidden_from w c tid \<Longrightarrow> PublishTrip env w c tid now = (Inl trip_not_found, w)"
    by (simp add: PublishTrip_def)
  let ?r = "PublishTrip env w c tid now"
  show "(snd ?r = w \<and> app_error_only (fst ?r)) \<or>
      (\<exists>t t' x. trip_lookup (w_trips w) tid = Some t \<and> trip_change (w_members w) c t t' \<and>
         ?r = (Inr x, saved w t'))"
  proof (cases rule: load_organized_cases [of w c tid])
    case refused
    then show ?thesis by (simp add: PublishTrip_def)
  next
    case (organized t)
    obtain d where d: "tripDetailsForTrip env w t = Inr d" using details_now [OF wf organized(1)] .
    show ?thesis
    proof (cases "t_status t = Draft")
      case False
      then show ?thesis using organized d wf_status [OF wf organized(1)] by (auto simp: PublishTrip_def)
    next
      case draft: True
      show ?thesis
      proof (cases "published_trip t")
        case (Inl e)
        then show ?thesis using organized draft published_trip_error [OF Inl] by (simp add: PublishTrip_def)
      next
        case (Inr t')
        let ?t' = "t'\<lparr>t_updated_at := now\<rparr>"
        have ch: "trip_change (w_members w) c t ?t'"
          using Inr organized draft trip_change.opened [of c t "w_members w" now]
          by (simp add: published_trip_Inr)
        obtain d' where "save_and_details env w ?t' = (Inr d', saved w ?t')"
          by (rule save_effect [OF wf organized(1) ch])
        then have "?r = (Inr (d', announcementCopyFromTrip d'), saved w ?t')"
          using organized draft Inr by (simp add: PublishTrip_def)
        then show ?thesis using organized(1) ch by blast
      qed
    qed
  qed
qed

end
