(* ===== verification/TripsRsvp.thy ===== *)
theory TripsRsvp
  imports TripsMethods
begin

text \<open>
  \<open>SetMyRSVP\<close> against its abstract specification: the set of members attending a trip. The
  method adds the caller to the set or removes the caller from it, it refuses exactly when the
  set is full, and the counter stored on the trip is the size of the set.
\<close>

definition attendees :: "rsvp_repo \<Rightarrow> TripID \<Rightarrow> MemberID set" where
  "attendees rv tid = {m. \<exists>v. rsvp_lookup rv (tid, m) = Some v \<and> rs_status v = Yes}"

definition rsvp_record :: "TripID \<Rightarrow> MemberID \<Rightarrow> rsvp_response \<Rightarrow> gotime \<Rightarrow> rsvp" where
  "rsvp_record tid c resp now = \<lparr>rs_trip = tid, rs_member = c, rs_status = resp, rs_updated_at = now\<rparr>"

lemma rsvp_record_fields [simp]:
  "rs_trip (rsvp_record tid c resp now) = tid" "rs_member (rsvp_record tid c resp now) = c"
  "rs_status (rsvp_record tid c resp now) = resp" "rs_updated_at (rsvp_record tid c resp now) = now"
  by (simp_all add: rsvp_record_def)

lemma attendees_ids:
  "wf_rsvp_repo rv \<Longrightarrow> attendees rv tid = set (rsvp_ids Yes (rsvp_list_by_trip rv tid))"
  by (auto simp: attendees_def rsvp_ids_def list_by_trip_set image_iff dest: rsvp_lookup_key)

lemma attendees_finite: "wf_rsvp_repo rv \<Longrightarrow> finite (attendees rv tid)"
  by (simp add: attendees_ids)

lemma rsvp_ids_distinct: "wf_rsvp_repo rv \<Longrightarrow> distinct (rsvp_ids st (rsvp_list_by_trip rv tid))"
  unfolding rsvp_ids_def by (rule distinct_map_filter) (rule list_by_trip_members_distinct)

lemma card_attendees: "wf_rsvp_repo rv \<Longrightarrow> int (card (attendees rv tid)) = rsvp_count_yes_by_trip rv tid"
  using rsvp_ids_distinct [of rv Yes tid]
  by (simp add: attendees_ids distinct_card count_yes_list) (simp add: rsvp_ids_def)

lemma attendees_upsert:
  "attendees (rsvp_upsert rv (rsvp_record tid c resp now)) j =
   (if j = tid then (if resp = Yes then insert c (attendees rv tid) else attendees rv tid - {c})
    else attendees rv j)"
  by (auto simp: attendees_def rsvp_upsert_put rrepo.lookup_store rsvp_record_def split: if_splits)

lemma record_lookup:
  "rsvp_lookup (rsvp_upsert rv (rsvp_record tid c resp now)) k =
   (if k = (tid, c) then Some (rsvp_record tid c resp now) else rsvp_lookup rv k)"
  by (simp add: rsvp_upsert_put rrepo.lookup_store rsvp_record_def)

text \<open>The attendance the code computes is the count after the write; the clamp at 0 never acts.\<close>

lemma new_attendance_count:
  assumes wf: "wf_rsvp_repo rv"
  shows "new_attendance (rsvp_count_yes_by_trip rv tid) (rsvp_lookup rv (tid, c)) resp =
         rsvp_count_yes_by_trip (rsvp_upsert rv (rsvp_record tid c resp now)) tid"
proof -
  let ?rv = "rsvp_upsert rv (rsvp_record tid c resp now)"
  have "rsvp_count_yes_by_trip ?rv tid =
      rsvp_count_yes_by_trip rv tid + rsvp_delta (rsvp_lookup rv (tid, c)) resp"
    using count_yes_upsert [OF wf, of "rsvp_record tid c resp now" tid] rsvp_lookup_key [OF wf]
    by (auto simp: rsvp_delta_def rsvp_record_def yes_on_def split: option.splits)
  moreover have "0 \<le> rsvp_count_yes_by_trip ?rv tid" using count_yes_nonneg wf by simp
  ultimately show ?thesis by (simp add: new_attendance_def Let_def)
qed

definition answered :: "world \<Rightarrow> trip \<Rightarrow> MemberID \<Rightarrow> rsvp_response \<Rightarrow> gotime \<Rightarrow> gotime \<Rightarrow> world" where
  "answered w t c resp now1 now2 =
     (let rv = rsvp_upsert (w_rsvps w) (rsvp_record (t_id t) c resp now2) in
      (saved w (t\<lparr>t_attending_rigs := Some (rsvp_count_yes_by_trip rv (t_id t)), t_updated_at := now1\<rparr>))
        \<lparr>w_rsvps := rv\<rparr>)"

lemma rsvp_checks_error: "rsvp_checks t c resp = Inl e \<Longrightarrow> app_error_only (Inl e)"
  by (auto simp: rsvp_checks_def split: if_splits option.splits rsvp_response.splits)

lemma rsvp_checks_Inr:
  "rsvp_checks t c resp = Inr cap \<longleftrightarrow>
   t_status t = Published \<and> t_capacity_rigs t = Some cap \<and> 1 \<le> cap \<and> resp \<in> {Yes, No, Unset}"
  by (auto simp: rsvp_checks_def split: if_splits option.splits rsvp_response.splits)

definition has_answer :: "world \<Rightarrow> TripID \<Rightarrow> MemberID \<Rightarrow> rsvp_response \<Rightarrow> bool" where
  "has_answer w tid c resp \<longleftrightarrow>
     (case rsvp_lookup (w_rsvps w) (tid, c) of Some ex \<Rightarrow> rs_status ex = resp | None \<Rightarrow> False)"

definition at_capacity :: goerror where
  "at_capacity = trips_conflict ''TRIP_AT_CAPACITY'' ''trip is at capacity''"

text \<open>The method in closed form, with the attendance as a set.\<close>

lemma SetMyRSVP_eq:
  assumes wf: "wf_world env w" and t: "trip_lookup (w_trips w) tid = Some t"
  shows "SetMyRSVP w c tid resp now1 now2 =
    (case rsvp_checks t c resp of
       Inl e \<Rightarrow> (Inl e, w)
     | Inr cap \<Rightarrow>
         if has_answer w tid c resp
         then (Inr (my_rsvp_of tid c (the (rsvp_lookup (w_rsvps w) (tid, c)))), w)
         else if resp = Yes \<and> cap \<le> int (card (attendees (w_rsvps w) tid)) then (Inl at_capacity, w)
         else (Inr (my_rsvp_of tid c (rsvp_record tid c resp now2)), answered w t c resp now1 now2))"
proof (cases "rsvp_checks t c resp")
  case (Inl e)
  then show ?thesis using t by (simp add: SetMyRSVP_def load_trip_Inr [THEN iffD2])
next
  case cap: (Inr cap)
  note rv = wf_worldD(3) [OF wf]
  have tid: "t_id t = tid" "tid \<noteq> ''''" using trip_lookup_id [OF wf_worldD(2) [OF wf] t] by simp_all
  have load: "load_trip w tid = Inr t" using t by (simp add: load_trip_Inr)
  let ?ex = "rsvp_lookup (w_rsvps w) (tid, c)"
  have ex: "(case rsvp_get (w_rsvps w) tid c of Inr ex \<Rightarrow> Inr (Some ex)
      | Inl e \<Rightarrow> if e = RsvpNotFound then Inr None else Inl e) = Inr ?ex"
    by (simp add: rsvp_get_cases split: option.split)
  note natt = new_attendance_count [OF rv, of tid c resp now2]
  show ?thesis
  proof (cases "has_answer w tid c resp")
    case True
    then show ?thesis using load cap ex by (simp add: SetMyRSVP_def has_answer_def)
  next
    case new: False
    have absent: "resp = Yes \<Longrightarrow> c \<notin> attendees (w_rsvps w) tid"
      using new by (auto simp: attendees_def has_answer_def)
    have full: "resp = Yes \<Longrightarrow> rsvp_count_yes_by_trip (rsvp_upsert (w_rsvps w) (rsvp_record tid c resp now2)) tid =
        int (card (attendees (w_rsvps w) tid)) + 1"
      by (subst card_attendees [symmetric])
         (simp_all add: rv attendees_upsert attendees_finite [OF rv] absent)
    have room: "resp = Yes \<and> cap < rsvp_count_yes_by_trip (rsvp_upsert (w_rsvps w) (rsvp_record tid c resp now2)) tid \<longleftrightarrow>
        resp = Yes \<and> cap \<le> int (card (attendees (w_rsvps w) tid))"
      using full by auto
    show ?thesis
      using load cap ex new tid
      by (simp add: SetMyRSVP_def has_answer_def natt room Let_def trip_save_put at_capacity_def
          answered_def saved_def rsvp_record_def [symmetric])
  qed
qed

lemma SetMyRSVP_missing:
  "trip_lookup (w_trips w) tid = None \<Longrightarrow> SetMyRSVP w c tid resp now1 now2 = (Inl trip_not_found, w)"
  by (simp add: SetMyRSVP_def load_trip_Inl [THEN iffD2])

text \<open>The capacity bound after an accepted answer.\<close>

lemma answered_count:
  assumes wf: "wf_world env w" and t: "trip_lookup (w_trips w) tid = Some t"
    and cap: "rsvp_checks t c resp = Inr cap" and new: "\<not> has_answer w tid c resp"
    and room: "\<not> (resp = Yes \<and> cap \<le> int (card (attendees (w_rsvps w) tid)))"
  shows "rsvp_count_yes_by_trip (rsvp_upsert (w_rsvps w) (rsvp_record tid c resp now2)) tid \<le> cap"
proof -
  note rv = wf_worldD(3) [OF wf]
  have "t_id t = tid" using trip_lookup_id [OF wf_worldD(2) [OF wf] t] by simp
  moreover have "t_status t = Published" "t_capacity_rigs t = Some cap" using cap by (simp_all add: rsvp_checks_Inr)
  moreover note ok = wf_worldD(4) [OF wf t]
  ultimately have "int (card (attendees (w_rsvps w) tid)) \<le> cap"
    using trip_okD(8,12) [OF ok] by (simp add: card_attendees [OF rv])
  moreover have "finite (attendees (w_rsvps w) tid)" by (rule attendees_finite [OF rv])
  ultimately show ?thesis using room
    by (subst card_attendees [symmetric]) (auto simp: rv attendees_upsert card_insert_if card_Diff_singleton_if)
qed

lemma answered_wf:
  assumes wf: "wf_world env w" and t: "trip_lookup (w_trips w) tid = Some t"
    and c: "member_exists (w_members w) c"
    and cap: "rsvp_checks t c resp = Inr cap" and new: "\<not> has_answer w tid c resp"
    and room: "\<not> (resp = Yes \<and> cap \<le> int (card (attendees (w_rsvps w) tid)))"
  shows "wf_world env (answered w t c resp now1 now2)"
proof (rule wf_worldI)
  note rv = wf_worldD(3) [OF wf]
  let ?rec = "rsvp_record tid c resp now2"
  let ?rv = "rsvp_upsert (w_rsvps w) ?rec"
  let ?n = "rsvp_count_yes_by_trip ?rv tid"
  let ?t = "t\<lparr>t_attending_rigs := Some ?n, t_updated_at := now1\<rparr>"
  have tid: "t_id t = tid" "tid \<noteq> ''''" using trip_lookup_id [OF wf_worldD(2) [OF wf] t] by simp_all
  have w': "w_members (answered w t c resp now1 now2) = w_members w"
    "w_rsvps (answered w t c resp now1 now2) = ?rv"
    "w_trips (answered w t c resp now1 now2) = trip_put (w_trips w) tid ?t"
    by (simp_all add: answered_def Let_def tid saved_def)
  have lk: "trip_lookup (trip_put (w_trips w) tid ?t) j = (if j = tid then Some ?t else trip_lookup (w_trips w) j)" for j
    by (simp add: trepo.lookup_store)
  have ck: "t_status t = Published" "t_capacity_rigs t = Some cap" "1 \<le> cap" "resp \<in> {Yes, No, Unset}"
    using cap by (simp_all add: rsvp_checks_Inr)
  show "wf_members env (w_members (answered w t c resp now1 now2))"
    using wf_worldD(1) [OF wf] by (simp add: w')
  show "wf_trip_repo (w_trips (answered w t c resp now1 now2))"
    unfolding w' by (rule trip_put_wf [OF wf_worldD(2) [OF wf]]) (simp_all add: tid)
  show "wf_rsvp_repo (w_rsvps (answered w t c resp now1 now2))" by (simp add: w' rv)
  show "trip_ok (w_members (answered w t c resp now1 now2)) (w_rsvps (answered w t c resp now1 now2)) u"
    if u: "trip_lookup (w_trips (answered w t c resp now1 now2)) i = Some u" for i u
  proof (cases "i = tid")
    case True
    then have "u = ?t" using u by (simp add: w' lk)
    then show ?thesis
      using wf_worldD(4) [OF wf t] ck answered_count [OF wf t cap new room, of now2] tid
      unfolding trip_ok_def w' by simp
  next
    case False
    then have "trip_lookup (w_trips w) i = Some u" using u by (simp add: w' lk)
    note ok = wf_worldD(4) [OF wf this] and ui = trip_lookup_id [OF wf_worldD(2) [OF wf] this]
    have "rsvp_count_yes_by_trip ?rv i = rsvp_count_yes_by_trip (w_rsvps w) i"
      using False by (simp add: card_attendees [symmetric] rv attendees_upsert)
    moreover have "rsvp_lookup ?rv (i, m) = rsvp_lookup (w_rsvps w) (i, m)" for m
      using False by (simp add: record_lookup)
    ultimately show ?thesis using ok ui unfolding trip_ok_def w' by (simp cong: option.case_cong)
  qed
  show "member_exists (w_members (answered w t c resp now1 now2)) m \<and>
      trip_lookup (w_trips (answered w t c resp now1 now2)) i \<noteq> None \<and> rs_status v \<in> {Yes, No, Unset}"
    if "rsvp_lookup (w_rsvps (answered w t c resp now1 now2)) (i, m) = Some v" for i m v
    using that c ck(4) wf_worldD(5-7) [OF wf, of i m v]
    by (auto simp: w' lk record_lookup split: if_splits)
qed


lemma answered_frame [simp]:
  "w_members (answered w t c resp now1 now2) = w_members w"
  "w_rsvps (answered w t c resp now1 now2) = rsvp_upsert (w_rsvps w) (rsvp_record (t_id t) c resp now2)"
  "trip_lookup (w_trips (answered w t c resp now1 now2)) j =
     (if j = t_id t then Some (t\<lparr>t_attending_rigs := Some (rsvp_count_yes_by_trip
        (rsvp_upsert (w_rsvps w) (rsvp_record (t_id t) c resp now2)) (t_id t)), t_updated_at := now1\<rparr>)
      else trip_lookup (w_trips w) j)"
  by (simp_all add: answered_def Let_def)

interpretation set_rsvp: caller_method env "\<lambda>w c tid. SetMyRSVP w c tid resp now1 now2"
  for env resp now1 now2
proof unfold_locales
  fix w c tid e j m
  assume wf: "wf_world env w"
  let ?r = "SetMyRSVP w c tid resp now1 now2"
  have shape: "(snd ?r = w \<and> app_error_only (fst ?r)) \<or>
      (\<exists>t x. trip_lookup (w_trips w) tid = Some t \<and> t_id t = tid \<and> ?r = (Inr x, answered w t c resp now1 now2) \<and>
         (member_exists (w_members w) c \<longrightarrow> wf_world env (answered w t c resp now1 now2)))"
  proof (cases "trip_lookup (w_trips w) tid")
    case None
    then show ?thesis by (simp add: SetMyRSVP_missing)
  next
    case (Some t)
    have "t_id t = tid" using trip_lookup_id [OF wf_worldD(2) [OF wf] Some] by simp
    then show ?thesis
      using rsvp_checks_error [of t c resp] answered_wf [OF wf Some, of c resp]
      by (auto simp: SetMyRSVP_eq [OF wf Some] Some at_capacity_def split: sum.split)
  qed
  show "hidden_from w c tid \<Longrightarrow> ?r = (Inl trip_not_found, w)"
    by (cases "trip_lookup (w_trips w) tid")
       (auto simp: SetMyRSVP_missing SetMyRSVP_eq [OF wf] hidden_from_def rsvp_checks_def)
  show "app_error_only (fst ?r)" using shape by auto
  show "fst ?r = Inl e \<Longrightarrow> snd ?r = w" using shape by auto
  show "member_exists (w_members w) c \<Longrightarrow> wf_world env (snd ?r)" using shape wf by auto
  show "w_members (snd ?r) = w_members w" using shape by auto
  show "j \<noteq> tid \<Longrightarrow> trip_lookup (w_trips (snd ?r)) j = trip_lookup (w_trips w) j" using shape by auto
  show "(j, m) \<noteq> (tid, c) \<Longrightarrow> rsvp_lookup (w_rsvps (snd ?r)) (j, m) = rsvp_lookup (w_rsvps w) (j, m)"
    using shape by (auto simp: record_lookup)
qed

section \<open>The queries keep the same contract\<close>

lemma query_details:
  assumes wf: "wf_world env w" and t: "trip_lookup (w_trips w) tid = Some t" and vis: "isTripVisibleToCaller t c"
  obtains d where "GetTripDetails env w c tid = Inr d"
proof -
  note ok = wf_worldD(4) [OF wf t]
  obtain orgs where "loadOrganizerSummaries w (t_organizers t) = Inr orgs"
    using load_summaries_total [OF wf_worldD(8) [OF wf]] trip_okD(6) [OF ok]
    unfolding loadOrganizerSummaries_def by blast
  moreover obtain s where "tripRSVPSummaryForTrip env w t = Inr s" using rsvp_summary_total [OF wf] by blast
  moreover have "load_visible_trip w c tid = Inr t" using t vis by (simp add: load_visible_Inr)
  ultimately have "\<exists>d. GetTripDetails env w c tid = Inr d"
    by (simp add: GetTripDetails_def Let_def myRSVPForTrip_def rsvp_get_cases split: option.split)
  then show ?thesis using that by blast
qed

interpretation get_details: caller_method env "\<lambda>w c tid. (GetTripDetails env w c tid, w)" for env
proof unfold_locales
  fix w c tid
  assume wf: "wf_world env w"
  show "hidden_from w c tid \<Longrightarrow> (GetTripDetails env w c tid, w) = (Inl trip_not_found, w)"
    by (simp add: GetTripDetails_def load_visible_hidden [THEN iffD2])
  show "app_error_only (fst (GetTripDetails env w c tid, w))"
  proof (cases rule: load_visible_cases [of w c tid])
    case hidden
    then show ?thesis by (simp add: GetTripDetails_def)
  next
    case (seen t)
    then show ?thesis by (metis query_details [OF wf] app_error_only_simps(1) fst_conv)
  qed
qed simp_all

interpretation get_rsvp: caller_method env "\<lambda>w c tid. (GetMyRSVPForTrip w c tid, w)" for env
proof unfold_locales
  fix w c tid
  assume wf: "wf_world env w"
  show "hidden_from w c tid \<Longrightarrow> (GetMyRSVPForTrip w c tid, w) = (Inl trip_not_found, w)"
    by (simp add: GetMyRSVPForTrip_def load_visible_hidden [THEN iffD2])
  show "app_error_only (fst (GetMyRSVPForTrip w c tid, w))"
    by (rule load_visible_cases [of w c tid])
       (auto simp: GetMyRSVPForTrip_def rsvp_get_cases split: option.split)
qed simp_all

interpretation get_summary: caller_method env "\<lambda>w c tid. (GetTripRSVPSummary env w c tid, w)" for env
proof unfold_locales
  fix w c tid
  assume wf: "wf_world env w"
  show "hidden_from w c tid \<Longrightarrow> (GetTripRSVPSummary env w c tid, w) = (Inl trip_not_found, w)"
    by (simp add: GetTripRSVPSummary_def load_visible_hidden [THEN iffD2])
  show "app_error_only (fst (GetTripRSVPSummary env w c tid, w))"
  proof (cases rule: load_visible_cases [of w c tid])
    case hidden
    then show ?thesis by (simp add: GetTripRSVPSummary_def)
  next
    case (seen t)
    obtain s where "tripRSVPSummaryForTrip env w t = Inr s" using rsvp_summary_total [OF wf] by blast
    then show ?thesis using seen by (simp add: GetTripRSVPSummary_def)
  qed
qed simp_all

end
