(* ===== verification/Planner.thy ===== *)
theory Planner
  imports TripsRsvp
begin

text \<open>
  The planner as a state machine: every method of the two services that writes is an
  operation, a step runs one operation to completion, and the reachable worlds are those
  obtained from the empty repositories. The clock readings and generated IDs of an operation
  are arbitrary. The caller of a trip operation is a member, as the HTTP handlers ensure by
  resolving the authenticated subject to its profile.
\<close>

datatype op =
    CreateMember SubjectID create_member_input gotime MemberID
  | UpdateMember SubjectID update_member_input gotime
  | DraftTrip MemberID gostring gotime TripID
  | EditTrip MemberID TripID update_trip_input gotime
  | SetVisibility MemberID TripID draft_visibility gotime
  | AddOrganizer MemberID TripID MemberID gotime
  | DropOrganizer MemberID TripID MemberID gotime
  | Cancel MemberID TripID gotime
  | Publish MemberID TripID gotime
  | Answer MemberID TripID rsvp_response gotime gotime

text \<open>Running a method of the member service inside the world.\<close>

definition members_outcome :: "world \<Rightarrow> goerror + 'a \<times> member_repo \<Rightarrow> 'a outcome" where
  "members_outcome w r =
     (case r of Inl e \<Rightarrow> (Inl e, w) | Inr (x, ms) \<Rightarrow> (Inr x, w\<lparr>w_members := ms\<rparr>))"

definition done_with :: "'a outcome \<Rightarrow> unit outcome" where
  "done_with r = (and_then (fst r) (\<lambda>_. Inr ()), snd r)"

fun exec :: "go_env \<Rightarrow> op \<Rightarrow> world \<Rightarrow> unit outcome" where
  "exec env (CreateMember s inp now i) w = done_with (members_outcome w (CreateMyMember env (w_members w) s inp now i))"
| "exec env (UpdateMember s inp now) w = done_with (members_outcome w (UpdateMyMemberProfile env (w_members w) s inp now))"
| "exec env (DraftTrip c nm now i) w = done_with (CreateTripDraft w c nm now i)"
| "exec env (EditTrip c tid inp now) w = done_with (UpdateTrip env w c tid inp now)"
| "exec env (SetVisibility c tid dv now) w = done_with (SetTripDraftVisibility env w c tid dv now)"
| "exec env (AddOrganizer c tid m now) w = done_with (AddTripOrganizer env w c tid m now)"
| "exec env (DropOrganizer c tid m now) w = done_with (RemoveTripOrganizer env w c tid m now)"
| "exec env (Cancel c tid now) w = done_with (CancelTrip env w c tid now)"
| "exec env (Publish c tid now) w = done_with (PublishTrip env w c tid now)"
| "exec env (Answer c tid resp now1 now2) w = done_with (SetMyRSVP w c tid resp now1 now2)"

fun caller_of :: "op \<Rightarrow> MemberID option" where
  "caller_of (CreateMember s inp now i) = None"
| "caller_of (UpdateMember s inp now) = None"
| "caller_of (DraftTrip c nm now i) = Some c"
| "caller_of (EditTrip c tid inp now) = Some c"
| "caller_of (SetVisibility c tid dv now) = Some c"
| "caller_of (AddOrganizer c tid m now) = Some c"
| "caller_of (DropOrganizer c tid m now) = Some c"
| "caller_of (Cancel c tid now) = Some c"
| "caller_of (Publish c tid now) = Some c"
| "caller_of (Answer c tid resp now1 now2) = Some c"

fun trip_of :: "op \<Rightarrow> TripID option" where
  "trip_of (CreateMember s inp now i) = None"
| "trip_of (UpdateMember s inp now) = None"
| "trip_of (DraftTrip c nm now i) = None"
| "trip_of (EditTrip c tid inp now) = Some tid"
| "trip_of (SetVisibility c tid dv now) = Some tid"
| "trip_of (AddOrganizer c tid m now) = Some tid"
| "trip_of (DropOrganizer c tid m now) = Some tid"
| "trip_of (Cancel c tid now) = Some tid"
| "trip_of (Publish c tid now) = Some tid"
| "trip_of (Answer c tid resp now1 now2) = Some tid"

inductive step :: "go_env \<Rightarrow> world \<Rightarrow> op \<Rightarrow> world \<Rightarrow> bool" for env where
  run: "(\<And>c. caller_of p = Some c \<Longrightarrow> member_exists (w_members w) c) \<Longrightarrow> step env w p (snd (exec env p w))"

inductive reachable :: "go_env \<Rightarrow> world \<Rightarrow> bool" for env where
  initial: "reachable env new_world"
| next_step: "reachable env w \<Longrightarrow> step env w p w' \<Longrightarrow> reachable env w'"

inductive_cases stepE: "step env w p w'"

lemma snd_done_with [simp]: "snd (done_with r) = snd r"
  by (simp add: done_with_def)

lemma fst_done_with_Inl [simp]: "fst (done_with r) = Inl e \<longleftrightarrow> fst r = Inl e"
  by (cases "fst r") (simp_all add: done_with_def)

lemma members_outcome_simps [simp]:
  "members_outcome w (Inl e) = (Inl e, w)" "members_outcome w (Inr (x, ms)) = (Inr x, w\<lparr>w_members := ms\<rparr>)"
  by (simp_all add: members_outcome_def)

section \<open>Every operation keeps the invariant\<close>

text \<open>A member directory that only grows or edits members keeps the trips well formed.\<close>

lemma members_changed_wf:
  assumes wf: "wf_world env w" and ms: "wf_members env ms"
    and grows: "\<And>i. member_exists (w_members w) i \<Longrightarrow> member_exists ms i"
  shows "wf_world env (w\<lparr>w_members := ms\<rparr>)"
proof (rule wf_worldI)
  show "trip_ok (w_members (w\<lparr>w_members := ms\<rparr>)) (w_rsvps (w\<lparr>w_members := ms\<rparr>)) t"
    if "trip_lookup (w_trips (w\<lparr>w_members := ms\<rparr>)) i = Some t" for i t
  proof -
    have "trip_ok (w_members w) (w_rsvps w) t" using wf_worldD(4) [OF wf] that by simp
    then show ?thesis using grows unfolding trip_ok_def by (simp cong: option.case_cong)
  qed
qed (use wf_worldD [OF wf] ms grows in simp_all)

lemma create_member_wf:
  assumes wf: "wf_world env w" and c: "CreateMyMember env (w_members w) s inp now i = Inr (d, ms)"
  shows "wf_world env (w\<lparr>w_members := ms\<rparr>)"
proof -
  note wfm = wf_worldD(1) [OF wf] and wfr = wf_worldD(8) [OF wf]
  obtain m where m: "member_create (w_members w) m = Inr ms"
    using CreateMyMember_success [OF wfr c] by metis
  have "member_exists ms j" if "member_exists (w_members w) j" for j
    using that member_createE(4) [OF wfr m] by (auto simp: member_exists_def)
  then show ?thesis by (rule members_changed_wf [OF wf CreateMyMember_wf [OF wfm c]])
qed

lemma update_member_wf:
  assumes wf: "wf_world env w" and c: "UpdateMyMemberProfile env (w_members w) s inp now = Inr (d, ms)"
  shows "wf_world env (w\<lparr>w_members := ms\<rparr>)"
proof -
  note wfm = wf_worldD(1) [OF wf]
  obtain m where m: "member_update (w_members w) m = Inr ms"
    using UpdateMyMemberProfile_success [OF c] by metis
  have "member_exists ms j" if "member_exists (w_members w) j" for j
    using that m by (auto simp: member_exists_def elim!: member_updateE)
  then show ?thesis by (rule members_changed_wf [OF wf UpdateMyMemberProfile_wf [OF wfm c]])
qed

lemma CreateTripDraft_cases:
  "(\<exists>e. CreateTripDraft w c nm now i = (Inl (TripsError e), w)) \<or>
   (member_exists (w_members w) c \<and> NormalizeHumanName nm \<noteq> '''' \<and> i \<noteq> '''' \<and>
    trip_lookup (w_trips w) i = None \<and>
    CreateTripDraft w c nm now i =
      (Inr \<lparr>tc_id = i, tc_status = Draft, tc_draft_visibility = Private\<rparr>,
       saved w (new_draft i (NormalizeHumanName nm) c now)))"
proof (cases "map_of (mb_by_id (w_members w)) c")
  case None
  then have "member_get_by_id (w_members w) c = Inl MemberNotFound" by (simp add: get_by_id_Inl)
  then show ?thesis by (simp add: CreateTripDraft_def trips_invalid_def)
next
  case (Some m)
  then have g: "member_get_by_id (w_members w) c = Inr m" by simp
  have "trip_create (w_trips w) t = Inl e \<Longrightarrow> e = TripAlreadyExists" for t e
    by (auto simp: trip_create_def split: if_splits)
  then show ?thesis
    using g Some
    by (auto simp: CreateTripDraft_def Let_def trips_invalid_def trips_conflict_def member_exists_def
        trip_create_put saved_def new_draft_def trip_lookup_def simp del: get_by_id_Inr split: sum.split)
qed

lemma draft_trip_wf:
  assumes wf: "wf_world env w"
  shows "wf_world env (snd (CreateTripDraft w c nm now i))"
  using CreateTripDraft_cases [of w c nm now i]
proof (elim disjE exE conjE)
  fix e assume "CreateTripDraft w c nm now i = (Inl (TripsError e), w)"
  then show ?thesis using wf by simp
next
  let ?t = "new_draft i (NormalizeHumanName nm) c now"
  assume c: "member_exists (w_members w) c" and nm: "NormalizeHumanName nm \<noteq> ''''" and i: "i \<noteq> ''''"
    and fresh: "trip_lookup (w_trips w) i = None"
    and eq: "CreateTripDraft w c nm now i =
      (Inr \<lparr>tc_id = i, tc_status = Draft, tc_draft_visibility = Private\<rparr>, saved w ?t)"
  have none: "rsvp_lookup (w_rsvps w) (i, m) = None" for m
    using wf_worldD(6) [OF wf, of i m] fresh by (cases "rsvp_lookup (w_rsvps w) (i, m)") auto
  have ok: "trip_ok (w_members w) (w_rsvps w) ?t"
    using c nm none by (simp add: trip_ok_def new_draft_def)
  have "wf_world env (saved w ?t)"
  proof (rule wf_worldI)
    show "wf_trip_repo (w_trips (saved w ?t))"
      unfolding saved_def by simp (rule trip_put_wf [OF wf_worldD(2) [OF wf]], simp_all add: new_draft_def i)
    show "trip_ok (w_members (saved w ?t)) (w_rsvps (saved w ?t)) u"
      if "trip_lookup (w_trips (saved w ?t)) j = Some u" for j u
      using that ok wf_worldD(4) [OF wf] by (simp split: if_splits)
    show "member_exists (w_members (saved w ?t)) m \<and> trip_lookup (w_trips (saved w ?t)) j \<noteq> None \<and>
        rs_status v \<in> {Yes, No, Unset}"
      if "rsvp_lookup (w_rsvps (saved w ?t)) (j, m) = Some v" for j m v
      using that wf_worldD(5-7) [OF wf, of j m v] by simp
  qed (use wf_worldD [OF wf] in simp_all)
  then show ?thesis by (simp add: eq)
qed

lemma exec_wf:
  assumes wf: "wf_world env w" and c: "\<And>c. caller_of p = Some c \<Longrightarrow> member_exists (w_members w) c"
  shows "wf_world env (snd (exec env p w))"
proof (cases p)
  case (CreateMember s inp now i)
  then show ?thesis using wf create_member_wf [OF wf]
    by (auto simp: members_outcome_def split: sum.split)
next
  case (UpdateMember s inp now)
  then show ?thesis using wf update_member_wf [OF wf]
    by (auto simp: members_outcome_def split: sum.split)
next
  case (DraftTrip c nm now i)
  then show ?thesis using draft_trip_wf [OF wf] by simp
qed (use c in \<open>simp_all add: update.effect_wf visibility.effect_wf add_organizer.effect_wf
       remove_organizer.effect_wf cancel.effect_wf publish.effect_wf set_rsvp.keeps_wf wf\<close>)

lemma reachable_wf_world: "reachable env w \<Longrightarrow> wf_world env w"
  by (induction rule: reachable.induct) (auto elim!: stepE intro: exec_wf)


section \<open>What one step does to one trip\<close>

lemma method_trip:
  assumes wf: "wf_world env w" and t: "trip_lookup (w_trips w) tid = Some t"
    and own: "\<And>t. trip_lookup (w_trips w) j = Some t \<Longrightarrow>
      \<exists>t'. trip_lookup (w_trips w') j = Some t' \<and> (t' = t \<or> trip_change (w_members w) c t t')"
    and others: "\<And>i. i \<noteq> j \<Longrightarrow> trip_lookup (w_trips w') i = trip_lookup (w_trips w) i"
  shows "\<exists>t'. trip_lookup (w_trips w') tid = Some t' \<and> (t' = t \<or> trip_change (w_members w) c t t')"
  using own [of t] others [of tid] t by (cases "tid = j") auto

lemma exec_trip:
  assumes wf: "wf_world env w" and t: "trip_lookup (w_trips w) tid = Some t"
  shows "\<exists>t'. trip_lookup (w_trips (snd (exec env p w))) tid = Some t' \<and>
    (t' = t \<or> (\<exists>c. caller_of p = Some c \<and> trip_change (w_members w) c t t') \<or>
     (\<exists>c resp now1 now2 cap n. p = Answer c tid resp now1 now2 \<and> rsvp_checks t c resp = Inr cap \<and>
        t' = t\<lparr>t_attending_rigs := Some n, t_updated_at := now1\<rparr>))"
proof (cases p)
  case (CreateMember s inp now i)
  then show ?thesis using t by (auto simp: members_outcome_def split: sum.split)
next
  case (UpdateMember s inp now)
  then show ?thesis using t by (auto simp: members_outcome_def split: sum.split)
next
  case (DraftTrip c nm now i)
  then show ?thesis using t CreateTripDraft_cases [of w c nm now i] by (auto simp: new_draft_def)
next
  case (EditTrip c j inp now)
  then show ?thesis
    using method_trip [OF wf t update.effect_trip [OF wf] update.keeps_other_trips [OF wf], of j c inp now] by auto
next
  case (SetVisibility c j dv now)
  then show ?thesis
    using method_trip [OF wf t visibility.effect_trip [OF wf] visibility.keeps_other_trips [OF wf], of j c dv now] by auto
next
  case (AddOrganizer c j m now)
  then show ?thesis
    using method_trip [OF wf t add_organizer.effect_trip [OF wf] add_organizer.keeps_other_trips [OF wf], of j c m now] by auto
next
  case (DropOrganizer c j m now)
  then show ?thesis
    using method_trip [OF wf t remove_organizer.effect_trip [OF wf] remove_organizer.keeps_other_trips [OF wf], of j c m now] by auto
next
  case (Cancel c j now)
  then show ?thesis
    using method_trip [OF wf t cancel.effect_trip [OF wf] cancel.keeps_other_trips [OF wf], of j c now] by auto
next
  case (Publish c j now)
  then show ?thesis
    using method_trip [OF wf t publish.effect_trip [OF wf] publish.keeps_other_trips [OF wf], of j c now] by auto
next
  case (Answer c j resp now1 now2)
  show ?thesis
  proof (cases "j = tid")
    case False
    then show ?thesis using set_rsvp.keeps_other_trips [OF wf, of tid j c resp now1 now2] t Answer by simp
  next
    case True
    have "t_id t = tid" using trip_lookup_id [OF wf_worldD(2) [OF wf] t] by simp
    then show ?thesis using Answer True t
      by (auto simp: SetMyRSVP_eq [OF wf t] split: sum.split)
  qed
qed

text \<open>The answers given to a trip change only through \<open>SetMyRSVP\<close>, and only the caller's own.\<close>

lemma exec_rsvps:
  assumes wf: "wf_world env w"
    and "rsvp_lookup (w_rsvps (snd (exec env p w))) (tid, m) \<noteq> rsvp_lookup (w_rsvps w) (tid, m)"
  shows "\<exists>resp now1 now2 t cap. p = Answer m tid resp now1 now2 \<and>
    trip_lookup (w_trips w) tid = Some t \<and> rsvp_checks t m resp = Inr cap"
proof (cases p)
  case (CreateMember s inp now i)
  then show ?thesis using assms(2) by (auto simp: members_outcome_def split: sum.splits)
next
  case (UpdateMember s inp now)
  then show ?thesis using assms(2) by (auto simp: members_outcome_def split: sum.splits)
next
  case (DraftTrip c nm now i)
  then show ?thesis using assms(2) CreateTripDraft_cases [of w c nm now i] by auto
next
  case (Answer c j resp now1 now2)
  then have j: "j = tid" "c = m"
    using set_rsvp.keeps_other_rsvps [OF wf, of tid m j c resp now1 now2] assms(2) by auto
  show ?thesis
  proof (cases "trip_lookup (w_trips w) tid")
    case None
    then show ?thesis using assms(2) Answer j by (simp add: SetMyRSVP_missing)
  next
    case (Some t)
    show ?thesis
    proof (cases "rsvp_checks t m resp")
      case (Inl e)
      then show ?thesis using assms(2) Answer j by (simp add: SetMyRSVP_eq [OF wf Some])
    next
      case (Inr cap)
      then show ?thesis using Answer j Some by blast
    qed
  qed
qed (use assms(2) in \<open>simp_all add: update.effect_rsvps visibility.effect_rsvps
      add_organizer.effect_rsvps remove_organizer.effect_rsvps cancel.effect_rsvps
      publish.effect_rsvps wf\<close>)

inductive_cases trip_changeE: "trip_change ms c t t'"

lemma step_exec: "step env w p w' \<Longrightarrow> w' = snd (exec env p w)"
  by (auto elim: stepE)

end
