(* ===== verification/Scenario.thy ===== *)
theory Scenario
  imports Planner "HOL-Library.Code_Target_Nat"
begin

text \<open>
  A concrete run of the planner: two members join, one of them drafts, completes, shares and
  publishes a trip with room for one rig, the other one answers, and the trip is canceled. The
  properties are applied to the worlds of this run.
\<close>

definition demo_env :: go_env where
  "demo_env = \<lparr>env_to_lower = (\<lambda>r. r), env_same_fold = (\<lambda>a b. False),
     env_parse_address = (\<lambda>s. if CHR ''@'' \<in> set s then Inr s else Inl ''mail: missing @'')\<rparr>"

definition demo_member :: "gostring \<Rightarrow> gostring \<Rightarrow> create_member_input" where
  "demo_member n e = \<lparr>cm_display_name = n, cm_email = e, cm_group_alias_email = None,
     cm_vehicle_profile = None\<rparr>"

definition demo_place :: location_patch where
  "demo_place = \<lparr>lp_label = Specified ''Camp'', lp_address = Unspecified, lp_latitude = Unspecified,
     lp_longitude = Unspecified, lp_clear_coordinates = False\<rparr>"

definition demo_edit :: update_trip_input where
  "demo_edit = \<lparr>ut_name = Unspecified, ut_description = Specified ''Dunes'',
     ut_start_date = Specified 100, ut_end_date = Specified 200, ut_capacity_rigs = Specified 1,
     ut_difficulty_text = Specified ''easy'', ut_meeting_location = Specified (Some demo_place),
     ut_comms_requirements_text = Specified ''GMRS'',
     ut_recommended_requirements_text = Specified ''spare'', ut_artifact_ids = Unspecified\<rparr>"

definition demo_ops :: "op list" where
  "demo_ops =
     [CreateMember ''sa'' (demo_member ''Ann'' ''ann@x'') 1 ''a'',
      CreateMember ''sb'' (demo_member ''Bob'' ''bob@x'') 2 ''b'',
      DraftTrip ''a'' '' Baja  run '' 3 ''t1'',
      EditTrip ''a'' ''t1'' demo_edit 4,
      SetVisibility ''a'' ''t1'' Public 5,
      Publish ''a'' ''t1'' 6,
      Answer ''b'' ''t1'' Yes 7 8,
      Cancel ''a'' ''t1'' 9]"

fun run_ops :: "go_env \<Rightarrow> op list \<Rightarrow> world \<Rightarrow> world" where
  "run_ops env [] w = w"
| "run_ops env (p # ps) w = run_ops env ps (snd (exec env p w))"

text \<open>Every caller is a member when its operation runs.\<close>

fun callers_known :: "go_env \<Rightarrow> op list \<Rightarrow> world \<Rightarrow> bool" where
  "callers_known env [] w = True"
| "callers_known env (p # ps) w =
     ((case caller_of p of None \<Rightarrow> True | Some c \<Rightarrow> member_exists (w_members w) c) \<and>
      callers_known env ps (snd (exec env p w)))"

lemma run_ops_reachable:
  "reachable env w \<Longrightarrow> callers_known env ps w \<Longrightarrow> reachable env (run_ops env ps w)"
proof (induction ps arbitrary: w)
  case Nil
  then show ?case by simp
next
  case (Cons p ps)
  have "step env w p (snd (exec env p w))"
    using Cons.prems(2) by (intro step.run) (simp split: option.splits)
  then show ?case using Cons by (auto intro: reachable.next_step)
qed

lemma succeeded: "\<not> isl (fst r) \<Longrightarrow> \<exists>x. r = (Inr x, snd r)"
  by (cases r; cases "fst r") auto

definition demo_world :: "nat \<Rightarrow> world" where
  "demo_world n = run_ops demo_env (take n demo_ops) new_world"


lemma callers_known_take: "callers_known env ps w \<Longrightarrow> callers_known env (take n ps) w"
  by (induction ps arbitrary: n w) (simp, case_tac n, simp_all)

lemma demo_callers: "callers_known demo_env demo_ops new_world"
  by code_simp

lemma demo_reachable: "reachable demo_env (demo_world n)"
  unfolding demo_world_def
  by (intro run_ops_reachable reachable.initial callers_known_take demo_callers)


text \<open>The trip of the run after \<open>n\<close> operations; what the witnesses need to know of it.\<close>

definition demo_trip :: "nat \<Rightarrow> trip" where
  "demo_trip n = the (trip_lookup (w_trips (demo_world n)) ''t1'')"

lemma demo_present:
  "\<not> Option.is_none (trip_lookup (w_trips (demo_world 3)) ''t1'')"
  "\<not> Option.is_none (trip_lookup (w_trips (demo_world 4)) ''t1'')"
  "\<not> Option.is_none (trip_lookup (w_trips (demo_world 5)) ''t1'')"
  "\<not> Option.is_none (trip_lookup (w_trips (demo_world 6)) ''t1'')"
  "\<not> Option.is_none (trip_lookup (w_trips (demo_world 7)) ''t1'')"
  "\<not> Option.is_none (trip_lookup (w_trips (demo_world 8)) ''t1'')"
  by code_simp+

lemma demo_lookup:
  "trip_lookup (w_trips (demo_world 3)) ''t1'' = Some (demo_trip 3)"
  "trip_lookup (w_trips (demo_world 4)) ''t1'' = Some (demo_trip 4)"
  "trip_lookup (w_trips (demo_world 5)) ''t1'' = Some (demo_trip 5)"
  "trip_lookup (w_trips (demo_world 6)) ''t1'' = Some (demo_trip 6)"
  "trip_lookup (w_trips (demo_world 7)) ''t1'' = Some (demo_trip 7)"
  "trip_lookup (w_trips (demo_world 8)) ''t1'' = Some (demo_trip 8)"
  using demo_present by (simp_all add: demo_trip_def Option.is_none_def)

lemma demo_status:
  "t_status (demo_trip 3) = Draft" "t_draft_visibility (demo_trip 3) = Private"
  "t_status (demo_trip 5) = Draft" "t_draft_visibility (demo_trip 5) = Public"
  "t_status (demo_trip 6) = Published" "t_status (demo_trip 7) = Published"
  "t_status (demo_trip 8) = Canceled"
  by code_simp+

lemma demo_step: "n < 8 \<Longrightarrow> demo_world (Suc n) = snd (exec demo_env (demo_ops ! n) (demo_world n))"
proof -
  have "run_ops env (ps @ [p]) w = snd (exec env p (run_ops env ps w))" for env ps p w
    by (induction ps arbitrary: w) simp_all
  moreover have "length demo_ops = 8" by (simp add: demo_ops_def)
  ultimately show "n < 8 \<Longrightarrow> ?thesis"
    by (simp add: demo_world_def take_Suc_conv_app_nth)
qed

text \<open>Each operation of the run is a step.\<close>

lemma demo_steps: "n < 8 \<Longrightarrow> step demo_env (demo_world n) (demo_ops ! n) (demo_world (Suc n))"
proof -
  have known: "callers_known env ps w \<Longrightarrow> n < length ps \<Longrightarrow> caller_of (ps ! n) = Some c \<Longrightarrow>
      member_exists (w_members (run_ops env (take n ps) w)) c" for env ps w c
  proof (induction ps arbitrary: n w)
    case (Cons p ps)
    then show ?case by (cases n) simp_all
  qed simp
  assume n: "n < 8"
  moreover have "length demo_ops = 8" by (simp add: demo_ops_def)
  ultimately show ?thesis
    unfolding demo_step [OF n] using known [OF demo_callers]
    by (intro step.run) (simp add: demo_world_def)
qed

end
