(* ===== verification/TripProperties.thy ===== *)
theory TripProperties
  imports Scenario
begin

text \<open>
  The properties of the trip service: capacity and attendance, the life cycle of a trip, who
  may change and who may see it, and what each method returns. Each is stated over the reachable
  worlds and followed by its application to the run of theory Scenario.
\<close>

section \<open>Attendance and capacity\<close>

text \<open>C1: In every reachable state the attendance counter stored on a published trip is the number
  of members whose RSVP is YES, and it never exceeds the trip's capacity: \<open>SetMyRSVP\<close>, \<open>UpdateTrip\<close>
  and \<open>PublishTrip\<close>, run one after the other, never overbook a trip.\<close>

theorem no_overbooking:
  assumes "reachable env w" and "trip_lookup (w_trips w) tid = Some t" and "t_status t = Published"
  shows "t_attending_rigs t = Some (int (card (attendees (w_rsvps w) tid))) \<and>
    (\<forall>cap. t_capacity_rigs t = Some cap \<longrightarrow> 1 \<le> cap \<and> int (card (attendees (w_rsvps w) tid)) \<le> cap)"
proof -
  note wf = reachable_wf_world [OF assms(1)]
  note ok = wf_worldD(4) [OF wf assms(2)]
  have "t_id t = tid" using trip_lookup_id [OF wf_worldD(2) [OF wf] assms(2)] by simp
  then show ?thesis
    using trip_okD(8) [OF ok assms(3)] trip_okD(11,12) [OF ok]
    by (simp add: card_attendees [OF wf_worldD(3) [OF wf]])
qed

lemma no_overbooking_witness:
  "t_attending_rigs (demo_trip 7) = Some (int (card (attendees (w_rsvps (demo_world 7)) ''t1'')))"
  using no_overbooking [OF demo_reachable demo_lookup(5) demo_status(6)] by simp

text \<open>C2: \<open>SetMyRSVP\<close> implements the set of attendees: once the checks on the trip pass, a YES is
  refused with TRIP_AT_CAPACITY exactly when the caller is not attending and the set already has
  as many members as the capacity; otherwise the caller is added to or removed from the set, and
  reading the caller's RSVP back gives the response just returned.\<close>

theorem set_rsvp_refines_attendance:
  assumes "reachable env w" and "trip_lookup (w_trips w) tid = Some t"
    and "rsvp_checks t c resp = Inr cap"
  shows "case SetMyRSVP w c tid resp now1 now2 of
      (Inl e, w') \<Rightarrow> e = at_capacity \<and> resp = Yes \<and> c \<notin> attendees (w_rsvps w) tid \<and>
        int (card (attendees (w_rsvps w) tid)) = cap \<and> w' = w
    | (Inr my, w') \<Rightarrow>
        attendees (w_rsvps w') tid =
          (if resp = Yes then insert c (attendees (w_rsvps w) tid) else attendees (w_rsvps w) tid - {c}) \<and>
        (c \<in> attendees (w_rsvps w) tid \<or> resp \<noteq> Yes \<or> int (card (attendees (w_rsvps w) tid)) < cap) \<and>
        my_response my = resp \<and> GetMyRSVPForTrip w' c tid = Inr my"
proof -
  note wf = reachable_wf_world [OF assms(1)]
  note ok = wf_worldD(4) [OF wf assms(2)]
  have tid: "t_id t = tid" using trip_lookup_id [OF wf_worldD(2) [OF wf] assms(2)] by simp
  have pub: "t_status t = Published" "t_capacity_rigs t = Some cap"
    using assms(3) by (simp_all add: rsvp_checks_Inr)
  have le: "int (card (attendees (w_rsvps w) tid)) \<le> cap"
    using trip_okD(8,12) [OF ok] pub tid by (simp add: card_attendees [OF wf_worldD(3) [OF wf]])
  have absent: "resp = Yes \<Longrightarrow> \<not> has_answer w tid c resp \<Longrightarrow> c \<notin> attendees (w_rsvps w) tid"
    by (auto simp: attendees_def has_answer_def)
  have visible: "load_visible_trip w c tid = Inr t" using assms(2) pub by (simp add: load_visible_Inr)
  show ?thesis
  proof (cases "has_answer w tid c resp")
    case True
    then obtain ex where ex: "rsvp_lookup (w_rsvps w) (tid, c) = Some ex" "rs_status ex = resp"
      by (auto simp: has_answer_def split: option.splits)
    have "(if resp = Yes then insert c (attendees (w_rsvps w) tid) else attendees (w_rsvps w) tid - {c}) =
        attendees (w_rsvps w) tid"
      using ex by (auto simp: attendees_def)
    moreover have "GetMyRSVPForTrip w c tid = Inr (my_rsvp_of tid c ex)"
      using visible pub ex by (simp add: GetMyRSVPForTrip_def rsvp_get_cases)
    moreover have "resp = Yes \<Longrightarrow> c \<in> attendees (w_rsvps w) tid" using ex by (auto simp: attendees_def)
    ultimately show ?thesis
      using True ex by (auto simp: SetMyRSVP_eq [OF wf assms(2)] assms(3) my_rsvp_of_def)
  next
    case False
    have "GetMyRSVPForTrip (answered w t c resp now1 now2) c tid =
        Inr (my_rsvp_of tid c (rsvp_record tid c resp now2))"
      using pub tid by (simp add: GetMyRSVPForTrip_def load_visible_eq rsvp_get_cases record_lookup)
    then show ?thesis
      using False absent le tid
      by (auto simp: SetMyRSVP_eq [OF wf assms(2)] assms(3) attendees_upsert my_rsvp_of_def)
  qed
qed

lemma set_rsvp_refines_attendance_witness:
  "attendees (w_rsvps (snd (SetMyRSVP (demo_world 6) ''b'' ''t1'' Yes 7 8))) ''t1'' = {''b''} \<and>
   fst (SetMyRSVP (demo_world 7) ''a'' ''t1'' Yes 9 9) = Inl at_capacity"
proof
  have "rsvp_checks (demo_trip 6) ''b'' Yes = Inr 1" by code_simp
  note use = set_rsvp_refines_attendance [OF demo_reachable demo_lookup(4) this, of 7 8]
  have "attendees (w_rsvps (demo_world 6)) ''t1'' = {}"
    using wf_worldD(3) [OF reachable_wf_world [OF demo_reachable, of 6]]
    by (simp add: attendees_ids) code_simp
  moreover have "\<not> isl (fst (SetMyRSVP (demo_world 6) ''b'' ''t1'' Yes 7 8))" by code_simp
  ultimately show "attendees (w_rsvps (snd (SetMyRSVP (demo_world 6) ''b'' ''t1'' Yes 7 8))) ''t1'' = {''b''}"
    using use by (auto split: prod.splits sum.splits)
  have "rsvp_checks (demo_trip 7) ''a'' Yes = Inr 1" by code_simp
  note use = set_rsvp_refines_attendance [OF demo_reachable demo_lookup(5) this, of 9 9]
  have "isl (fst (SetMyRSVP (demo_world 7) ''a'' ''t1'' Yes 9 9))" by code_simp
  then show "fst (SetMyRSVP (demo_world 7) ''a'' ''t1'' Yes 9 9) = Inl at_capacity"
    using use by (auto split: prod.splits sum.splits)
qed


text \<open>Answering twice is answering once: after a successful \<open>SetMyRSVP\<close> the same call, at any
  later time, returns the same RSVP (with the first call's time) and changes nothing.\<close>

theorem set_rsvp_idempotent:
  assumes "reachable env w" and "member_exists (w_members w) c"
    and "SetMyRSVP w c tid resp now1 now2 = (Inr my, w')"
  shows "SetMyRSVP w' c tid resp now3 now4 = (Inr my, w')"
proof -
  note wf = reachable_wf_world [OF assms(1)]
  have wf': "wf_world env w'" using set_rsvp.keeps_wf [OF wf assms(2), of tid resp now1 now2] assms(3) by simp
  obtain t where t: "trip_lookup (w_trips w) tid = Some t"
    using assms(3) SetMyRSVP_missing [of w tid c resp now1 now2] by (cases "trip_lookup (w_trips w) tid") auto
  have tid: "t_id t = tid" using trip_lookup_id [OF wf_worldD(2) [OF wf] t] by simp
  obtain cap where cap: "rsvp_checks t c resp = Inr cap"
    using assms(3) by (cases "rsvp_checks t c resp") (auto simp: SetMyRSVP_eq [OF wf t])
  show ?thesis
  proof (cases "has_answer w tid c resp")
    case True
    then have "w' = w" "my = my_rsvp_of tid c (the (rsvp_lookup (w_rsvps w) (tid, c)))"
      using assms(3) by (auto simp: SetMyRSVP_eq [OF wf t] cap)
    then show ?thesis using True by (simp add: SetMyRSVP_eq [OF wf t] cap)
  next
    case False
    then have w': "w' = answered w t c resp now1 now2" and my: "my = my_rsvp_of tid c (rsvp_record tid c resp now2)"
      using assms(3) by (auto simp: SetMyRSVP_eq [OF wf t] cap split: if_splits)
    obtain t' where t': "trip_lookup (w_trips w') tid = Some t'" "t_status t' = t_status t"
      "t_capacity_rigs t' = t_capacity_rigs t"
      by (simp add: w' tid)
    have "rsvp_checks t' c resp = Inr cap" using cap t' by (simp add: rsvp_checks_Inr)
    moreover have "has_answer w' tid c resp" by (simp add: has_answer_def w' tid record_lookup)
    ultimately show ?thesis
      by (simp add: SetMyRSVP_eq [OF wf' t'(1)] my) (simp add: w' tid record_lookup)
  qed
qed

lemma set_rsvp_idempotent_witness:
  "\<exists>my. SetMyRSVP (demo_world 7) ''b'' ''t1'' Yes 99 99 = (Inr my, demo_world 7)"
proof -
  have "member_exists (w_members (demo_world 6)) ''b''" by code_simp
  note use = set_rsvp_idempotent [OF demo_reachable this, of "''t1''" Yes 7 8 _ _ 99 99]
  have "\<not> isl (fst (SetMyRSVP (demo_world 6) ''b'' ''t1'' Yes 7 8))" by code_simp
  then obtain my where "SetMyRSVP (demo_world 6) ''b'' ''t1'' Yes 7 8 = (Inr my, demo_world 7)"
    using succeeded demo_step [of 6] by (fastforce simp: demo_ops_def)
  then show ?thesis using use by blast
qed

section \<open>The life cycle of a trip\<close>

text \<open>C5: A trip only moves forward through its life cycle and keeps its identity: no step deletes
  it, changes its ID, creator or creation time, or leads back from PUBLISHED to DRAFT or out of
  CANCELED.\<close>

theorem trip_life_cycle:
  assumes "reachable env w" and "step env w p w'" and "trip_lookup (w_trips w) tid = Some t"
  shows "\<exists>t'. trip_lookup (w_trips w') tid = Some t' \<and> t_id t' = t_id t \<and> t_creator t' = t_creator t \<and>
    t_created_at t' = t_created_at t \<and>
    (t_status t, t_status t') \<in> {(Draft, Draft), (Draft, Published), (Draft, Canceled),
      (Published, Published), (Published, Canceled), (Canceled, Canceled)}"
proof -
  note wf = reachable_wf_world [OF assms(1)]
  obtain t' where t': "trip_lookup (w_trips w') tid = Some t'"
    and how: "t' = t \<or> (\<exists>c. trip_change (w_members w) c t t') \<or>
      (\<exists>n now. t' = t\<lparr>t_attending_rigs := Some n, t_updated_at := now\<rparr>)"
    using exec_trip [OF wf assms(3), of p] step_exec [OF assms(2)] by blast
  note st = wf_status [OF wf assms(3)]
  have "t_id t' = t_id t \<and> t_creator t' = t_creator t \<and> t_created_at t' = t_created_at t"
    using how trip_change_kept by auto
  moreover have "(t_status t, t_status t') \<in> {(Draft, Draft), (Draft, Published), (Draft, Canceled),
      (Published, Published), (Published, Canceled), (Canceled, Canceled)}"
    using how st trip_change_status by fastforce
  ultimately show ?thesis using t' by blast
qed

lemma trip_life_cycle_witness:
  "\<exists>t'. trip_lookup (w_trips (demo_world 6)) ''t1'' = Some t' \<and> t_creator t' = t_creator (demo_trip 5)"
  using trip_life_cycle [OF demo_reachable demo_steps [of 5] demo_lookup(3)] by (simp add: numeral_eq_Suc) blast

text \<open>C18: A canceled trip is frozen: a step leaves everything but its organizers (and its time of
  change) as it was, and no answer to it can be given or changed any more.\<close>

theorem canceled_trip_frozen:
  assumes "reachable env w" and "step env w p w'" and "trip_lookup (w_trips w) tid = Some t"
    and "t_status t = Canceled"
  shows "(\<exists>os now. trip_lookup (w_trips w') tid = Some (t\<lparr>t_organizers := os, t_updated_at := now\<rparr>)) \<and>
    (\<forall>m. rsvp_lookup (w_rsvps w') (tid, m) = rsvp_lookup (w_rsvps w) (tid, m))"
proof (intro conjI allI)
  note wf = reachable_wf_world [OF assms(1)]
  show "\<exists>os now. trip_lookup (w_trips w') tid = Some (t\<lparr>t_organizers := os, t_updated_at := now\<rparr>)"
  proof -
    obtain t' where t': "trip_lookup (w_trips w') tid = Some t'"
      and "t' = t \<or> (\<exists>c. trip_change (w_members w) c t t')"
      using exec_trip [OF wf assms(3), of p] step_exec [OF assms(2)] assms(4)
      by (auto simp: rsvp_checks_Inr)
    moreover have "t = t\<lparr>t_organizers := t_organizers t, t_updated_at := t_updated_at t\<rparr>" by simp
    ultimately show ?thesis using trip_change_canceled [OF _ assms(4)] by metis
  qed
  fix m
  show "rsvp_lookup (w_rsvps w') (tid, m) = rsvp_lookup (w_rsvps w) (tid, m)"
    using exec_rsvps [OF wf, of p tid m] step_exec [OF assms(2)] assms(3,4)
    by (auto simp: rsvp_checks_Inr)
qed

lemma canceled_trip_frozen_witness:
  "\<exists>os now. trip_lookup (w_trips (snd (exec demo_env (DropOrganizer ''a'' ''t1'' ''b'' 10) (demo_world 8)))) ''t1'' =
     Some ((demo_trip 8)\<lparr>t_organizers := os, t_updated_at := now\<rparr>)"
proof -
  have "member_exists (w_members (demo_world 8)) ''a''" by code_simp
  then have "step demo_env (demo_world 8) (DropOrganizer ''a'' ''t1'' ''b'' 10)
      (snd (exec demo_env (DropOrganizer ''a'' ''t1'' ''b'' 10) (demo_world 8)))"
    by (intro step.run) simp
  from canceled_trip_frozen [OF demo_reachable this demo_lookup(6) demo_status(7)] show ?thesis by blast
qed

section \<open>Who may change and who may see a trip\<close>

text \<open>C4: Only authorised members change a trip: when a step changes a stored trip, its caller
  could see the trip, and was one of its organizers, or the creator of the draft, or only changed
  the attendance counter by answering.\<close>

theorem only_authorised_changes:
  assumes "reachable env w" and "step env w p w'" and "trip_lookup (w_trips w) tid = Some t"
    and "trip_lookup (w_trips w') tid = Some t'" and "t' \<noteq> t"
  shows "\<exists>c. caller_of p = Some c \<and> isTripVisibleToCaller t c \<and>
    (c \<in> set (t_organizers t) \<or> t_status t = Draft \<and> t_creator t = c \<or>
     (\<exists>resp now1 now2 n. p = Answer c tid resp now1 now2 \<and>
        t' = t\<lparr>t_attending_rigs := Some n, t_updated_at := now1\<rparr>))"
proof -
  note wf = reachable_wf_world [OF assms(1)]
  consider c where "caller_of p = Some c" "trip_change (w_members w) c t t'"
    | c resp now1 now2 cap n where "p = Answer c tid resp now1 now2" "rsvp_checks t c resp = Inr cap"
      "t' = t\<lparr>t_attending_rigs := Some n, t_updated_at := now1\<rparr>"
    using exec_trip [OF wf assms(3), of p] assms(4,5) unfolding step_exec [OF assms(2)]
    by (metis option.inject)
  then show ?thesis
  proof cases
    case 1
    then show ?thesis using trip_change_authorised by blast
  next
    case (2 c resp now1 now2 cap n)
    then have "isTripVisibleToCaller t c" by (simp add: rsvp_checks_Inr)
    then show ?thesis using 2 by auto
  qed
qed

lemma only_authorised_changes_witness:
  "\<exists>c. caller_of (demo_ops ! 4) = Some c \<and> isTripVisibleToCaller (demo_trip 4) c"
proof -
  have "t_draft_visibility (demo_trip 4) = Private" by code_simp
  then have "demo_trip 5 \<noteq> demo_trip 4" using demo_status(4) by auto
  from only_authorised_changes [OF demo_reachable _ demo_lookup(2,3) this, of "demo_ops ! 4"]
  show ?thesis using demo_steps [of 4] by auto
qed

text \<open>C3: A trip the caller may not see is indistinguishable from one that does not exist: every
  operation and every query on it, and on any other hidden or missing ID, gives TRIP_NOT_FOUND,
  and nothing changes.\<close>

theorem hidden_trip_not_found:
  assumes "reachable env w" and "hidden_from w c tid"
  shows "(\<forall>p. caller_of p = Some c \<and> trip_of p = Some tid \<longrightarrow> exec env p w = (Inl trip_not_found, w)) \<and>
    GetTripDetails env w c tid = Inl trip_not_found \<and> GetMyRSVPForTrip w c tid = Inl trip_not_found \<and>
    GetTripRSVPSummary env w c tid = Inl trip_not_found"
proof (intro conjI allI impI)
  note wf = reachable_wf_world [OF assms(1)]
  fix p assume "caller_of p = Some c \<and> trip_of p = Some tid"
  then show "exec env p w = (Inl trip_not_found, w)"
    by (cases p) (simp_all add: done_with_def update.hidden_trip visibility.hidden_trip
      add_organizer.hidden_trip remove_organizer.hidden_trip cancel.hidden_trip publish.hidden_trip
      set_rsvp.hidden [OF wf] wf assms(2))
qed (use get_details.hidden get_rsvp.hidden get_summary.hidden reachable_wf_world [OF assms(1)] assms(2)
     in \<open>simp_all add: prod_eq_iff\<close>)

lemma hidden_trip_not_found_witness:
  "exec demo_env (Cancel ''b'' ''t1'' 9) (demo_world 4) = (Inl trip_not_found, demo_world 4)"
proof -
  have "hidden_from (demo_world 4) ''b'' ''t1''" by code_simp
  from hidden_trip_not_found [OF demo_reachable this] show ?thesis by (simp del: exec.simps)
qed

end
