(* ===== verification/Failures.thy ===== *)
theory Failures
  imports Planner
begin

text \<open>
  How the operations of the two services fail: only with errors of the application, whose
  statuses are the ones the HTTP handlers map, and without any effect.
\<close>

fun member_error_in :: "nat set \<Rightarrow> goerror \<Rightarrow> bool" where
  "member_error_in sts (MembersError ae) = (ae_status ae \<in> sts)"
| "member_error_in sts _ = False"

fun trip_error_in :: "nat set \<Rightarrow> goerror \<Rightarrow> bool" where
  "trip_error_in sts (TripsError ae) = (ae_status ae \<in> sts)"
| "trip_error_in sts _ = False"

lemma app_error_only_Inl: "app_error_only (Inl e) \<longleftrightarrow> trip_error_in {404, 409, 422} e"
  by (cases e) (simp_all add: app_error_only_def)

section \<open>The member service\<close>

lemma CreateMyMember_error:
  "CreateMyMember env r s inp now i = Inl e \<Longrightarrow> member_error_in {409, 422} e \<or> e = MemberAlreadyExists"
  by (auto simp: CreateMyMember_def member_create_def member_already_exists_def members_invalid_def
      ensureEmailUnique_def and_then_Inl Let_def member_get_by_subject_def
      split: sum.splits if_splits option.splits)

lemma CreateMyMember_collision:
  "CreateMyMember env r s inp now i = Inl MemberAlreadyExists \<Longrightarrow> i = '''' \<or> map_of (mb_by_id r) i \<noteq> None"
  by (auto simp: CreateMyMember_def member_create_def member_already_exists_def members_invalid_def
      ensureEmailUnique_def and_then_Inl Let_def member_get_by_subject_def
      split: sum.splits if_splits option.splits)

lemma member_patch_errors:
  "update_display_name p m = Inl e \<Longrightarrow> member_error_in {404, 409, 422} e"
  "update_email env r p m = Inl e \<Longrightarrow> member_error_in {404, 409, 422} e"
  "update_group_alias env p m = Inl e \<Longrightarrow> member_error_in {404, 409, 422} e"
  by (auto simp: update_display_name_def update_email_def update_group_alias_def members_invalid_def
      ensureEmailUnique_def and_then_Inl Let_def split: optional.splits if_splits option.splits)

lemma UpdateMyMember_error:
  assumes wf: "wf_member_repo r" and u: "UpdateMyMemberProfile env r s inp now = Inl e"
  shows "member_error_in {404, 409, 422} e"
proof (cases "member_get_by_subject r s")
  case (Inl e')
  then show ?thesis using u get_by_subject_Inl [OF wf, of s e']
    by (auto simp: UpdateMyMemberProfile_def member_not_provisioned_def split: if_splits)
next
  case (Inr m0)
  then have m0: "map_of (mb_by_id r) (mr_id m0) = Some m0" using mrepo.by_subject_iff [OF wf] by auto
  have "\<exists>r'. member_update r ((update_vehicle_profile v m3)\<lparr>mr_updated_at := now\<rparr>) = Inr r'"
    if m1: "update_display_name n m0 = Inr m1" and m2: "update_email env r em m1 = Inr m2"
      and m3: "update_group_alias env g m2 = Inr m3" for n m1 em m2 g m3 v
  proof -
    have "mr_id (update_vehicle_profile v m3) = mr_id m0" "mr_subject (update_vehicle_profile v m3) = mr_subject m0"
      using update_display_nameE [OF m1] update_emailE [OF m2] update_group_aliasE [OF m3]
        update_vehicle_profileE [of v m3] by auto
    then show ?thesis using m0 by (simp add: member_update_def)
  qed
  note total = this
  from u consider "update_display_name (um_display_name inp) m0 = Inl e"
    | m1 where "update_email env r (um_email inp) m1 = Inl e"
    | m2 where "update_group_alias env (um_group_alias_email inp) m2 = Inl e"
    | m1 m2 m3 where "update_display_name (um_display_name inp) m0 = Inr m1"
      "update_email env r (um_email inp) m1 = Inr m2"
      "update_group_alias env (um_group_alias_email inp) m2 = Inr m3"
      "member_update r ((update_vehicle_profile (um_vehicle_profile inp) m3)\<lparr>mr_updated_at := now\<rparr>) = Inl e"
    unfolding UpdateMyMemberProfile_def Inr sum.case and_then_Inl Let_def by blast
  then show ?thesis
  proof cases
    case 4
    then show ?thesis using total [OF 4(1-3)] by (metis Inl_Inr_False)
  qed (use member_patch_errors in blast)+
qed


section \<open>The trip service\<close>

lemma CreateTripDraft_failure:
  assumes "fst (CreateTripDraft w c nm now i) = Inl e"
  shows "trip_error_in {409, 422} e \<and> snd (CreateTripDraft w c nm now i) = w"
proof (cases "map_of (mb_by_id (w_members w)) c")
  case None
  then have "member_get_by_id (w_members w) c = Inl MemberNotFound" by (simp add: get_by_id_Inl)
  then show ?thesis using assms by (auto simp: CreateTripDraft_def trips_invalid_def Let_def split: if_splits)
next
  case (Some m)
  then have g: "member_get_by_id (w_members w) c = Inr m" by simp
  have "trip_create (w_trips w) t = Inl e \<Longrightarrow> e = TripAlreadyExists" for t e
    by (auto simp: trip_create_def split: if_splits)
  then show ?thesis using assms
    unfolding CreateTripDraft_def g sum.case Let_def
    by (auto simp: trips_invalid_def trips_conflict_def split: sum.splits if_splits)
qed

section \<open>Operations\<close>

fun op_error :: "op \<Rightarrow> goerror \<Rightarrow> bool" where
  "op_error (CreateMember s inp now i) e = (member_error_in {409, 422} e \<or> e = MemberAlreadyExists)"
| "op_error (UpdateMember s inp now) e = member_error_in {404, 409, 422} e"
| "op_error (DraftTrip c nm now i) e = trip_error_in {409, 422} e"
| "op_error p e = trip_error_in {404, 409, 422} e"

text \<open>A failed operation leaves the world as it was, and its error is one of its own.\<close>

lemma exec_op_error:
  assumes wf: "wf_world env w" and e: "fst (exec env p w) = Inl e"
  shows "snd (exec env p w) = w \<and> op_error p e"
proof (cases p)
  case (CreateMember s inp now i)
  then show ?thesis using e CreateMyMember_error [of env "w_members w" s inp now i]
    by (auto simp: members_outcome_def split: sum.splits)
next
  case (UpdateMember s inp now)
  then show ?thesis using e UpdateMyMember_error [OF wf_worldD(8) [OF wf], of env s inp now]
    by (auto simp: members_outcome_def split: sum.splits)
next
  case (DraftTrip c nm now i)
  then show ?thesis using e CreateTripDraft_failure [of w c nm now i] by auto
next
  case (EditTrip c tid inp now)
  then show ?thesis using e update.failure [OF wf, of c tid inp now e] by auto
next
  case (SetVisibility c tid dv now)
  then show ?thesis using e visibility.failure [OF wf, of c tid dv now e] by auto
next
  case (AddOrganizer c tid m now)
  then show ?thesis using e add_organizer.failure [OF wf, of c tid m now e] by auto
next
  case (DropOrganizer c tid m now)
  then show ?thesis using e remove_organizer.failure [OF wf, of c tid m now e] by auto
next
  case (Cancel c tid now)
  then show ?thesis using e cancel.failure [OF wf, of c tid now e] by auto
next
  case (Publish c tid now)
  then show ?thesis using e publish.failure [OF wf, of c tid now e] by auto
next
  case (Answer c tid resp now1 now2)
  then show ?thesis using e set_rsvp.failure [OF wf, of c tid resp now1 now2 e] by auto
qed

lemma exec_collision:
  assumes "fst (exec env (CreateMember s inp now i) w) = Inl MemberAlreadyExists"
  shows "i = '''' \<or> map_of (mb_by_id (w_members w)) i \<noteq> None"
  using assms CreateMyMember_collision [of env "w_members w" s inp now i]
  by (auto simp: members_outcome_def split: sum.splits)

end
