(* ===== verification/TripResults.thy ===== *)
theory TripResults
  imports Scenario Failures
begin

text \<open>
  What the methods of the trip service return: errors and their effect, the publishing
  checklist, the fields of an update, the details and listings read back, and repeated calls.
\<close>

section \<open>Failures\<close>

text \<open>C11: A failing operation has no effect and fails with an error of the application: the
  state is exactly as before, and the error is an application error with status 404, 409 or 422 (409
  or 422 where something is created), except that a generated member ID that is empty or already in
  use surfaces as the repository's own error.\<close>

theorem failure_changes_nothing:
  assumes "reachable env w" and "fst (exec env p w) = Inl e"
  shows "snd (exec env p w) = w \<and>
    (case p of
       CreateMember s inp now i \<Rightarrow> (\<exists>ae. e = MembersError ae \<and> ae_status ae \<in> {409, 422}) \<or>
         e = MemberAlreadyExists \<and> (i = '''' \<or> map_of (mb_by_id (w_members w)) i \<noteq> None)
     | UpdateMember s inp now \<Rightarrow> \<exists>ae. e = MembersError ae \<and> ae_status ae \<in> {404, 409, 422}
     | DraftTrip c nm now i \<Rightarrow> \<exists>ae. e = TripsError ae \<and> ae_status ae \<in> {409, 422}
     | _ \<Rightarrow> \<exists>ae. e = TripsError ae \<and> ae_status ae \<in> {404, 409, 422})"
proof -
  have "trip_error_in sts e \<longleftrightarrow> (\<exists>ae. e = TripsError ae \<and> ae_status ae \<in> sts)"
    "member_error_in sts e \<longleftrightarrow> (\<exists>ae. e = MembersError ae \<and> ae_status ae \<in> sts)" for sts
    by (cases e; simp)+
  then show ?thesis
    using exec_op_error [OF reachable_wf_world [OF assms(1)] assms(2)] assms(2) exec_collision [of env _ _ _ _ w]
    by (cases p) (simp_all del: exec.simps, blast)
qed

lemma failure_changes_nothing_witness:
  "snd (exec demo_env (Answer ''a'' ''t1'' Yes 9 9) (demo_world 7)) = demo_world 7 \<and>
   (\<exists>ae. fst (exec demo_env (Answer ''a'' ''t1'' Yes 9 9) (demo_world 7)) = Inl (TripsError ae) \<and>
      ae_status ae \<in> {404, 409, 422})"
proof -
  have "isl (fst (exec demo_env (Answer ''a'' ''t1'' Yes 9 9) (demo_world 7)))" by code_simp
  then obtain e where e: "fst (exec demo_env (Answer ''a'' ''t1'' Yes 9 9) (demo_world 7)) = Inl e"
    by (auto simp: isl_def simp del: exec.simps)
  from failure_changes_nothing [OF demo_reachable e] e show ?thesis by (simp del: exec.simps)
qed


section \<open>Publishing\<close>

text \<open>The publishing checklist as a table: the field name of the error and what it requires.\<close>

definition publish_checklist :: "trip \<Rightarrow> (gostring \<times> bool) list" where
  "publish_checklist t =
     [(''name'', hasText (t_name t)), (''description'', hasText (t_description t)),
      (''startDate'', t_start_date t \<noteq> None), (''endDate'', t_end_date t \<noteq> None),
      (''capacityRigs'', case t_capacity_rigs t of Some c \<Rightarrow> 1 \<le> c | None \<Rightarrow> False),
      (''difficultyText'', hasText (t_difficulty_text t)),
      (''meetingLocation'', case t_meeting_location t of Some l \<Rightarrow> trim_space (loc_label l) \<noteq> '''' | None \<Rightarrow> False),
      (''commsRequirementsText'', hasText (t_comms_requirements_text t)),
      (''recommendedRequirementsText'', hasText (t_recommended_requirements_text t)),
      (''organizers'', t_organizers t \<noteq> [])]"

lemma missing_item:
  "map fst (filter (\<lambda>(n, ok). \<not> ok) ((n, ok) # xs)) =
   (if \<not> ok then [n] else []) @ map fst (filter (\<lambda>(n, ok). \<not> ok) xs)"
  by simp

lemma missing_checklist:
  "requiredPublishFieldsMissing t = map fst (filter (\<lambda>(n, ok). \<not> ok) (publish_checklist t))"
proof -
  have "(case t_capacity_rigs t of None \<Rightarrow> True | Some c \<Rightarrow> c < 1) \<longleftrightarrow>
      \<not> (case t_capacity_rigs t of Some c \<Rightarrow> 1 \<le> c | None \<Rightarrow> False)"
    by (cases "t_capacity_rigs t") auto
  moreover have "(case t_meeting_location t of None \<Rightarrow> True | Some l \<Rightarrow> trim_space (loc_label l) = '''') \<longleftrightarrow>
      \<not> (case t_meeting_location t of Some l \<Rightarrow> trim_space (loc_label l) \<noteq> '''' | None \<Rightarrow> False)"
    by (cases "t_meeting_location t") auto
  ultimately show ?thesis
    unfolding requiredPublishFieldsMissing_def publish_checklist_def missing_item
    by (simp only: filter.simps list.map append_Nil2 not_not)
qed

text \<open>C9: An organizer's \<open>PublishTrip\<close> on a draft succeeds exactly when the draft is PUBLIC and every
  item of the checklist holds; the trip is then PUBLISHED with nobody attending. A private draft
  is refused, its creator with TRIP_PRIVATE_DRAFT and another organizer, who cannot see it, with
  TRIP_NOT_FOUND; an incomplete public one is refused with the list of exactly the items that fail,
  in the order of the checklist; a refusal changes nothing.\<close>

theorem publish_checks:
  assumes "reachable env w" and "trip_lookup (w_trips w) tid = Some t" and "t_status t = Draft"
    and "c \<in> set (t_organizers t)"
  shows "case PublishTrip env w c tid now of
      (Inr (d, msg), w') \<Rightarrow> t_draft_visibility t = Public \<and> list_all snd (publish_checklist t) \<and>
        trip_lookup (w_trips w') tid =
          Some (t\<lparr>t_status := Published, t_attending_rigs := Some 0, t_updated_at := now\<rparr>) \<and>
        attendees (w_rsvps w') tid = {} \<and> msg = announcementCopyFromTrip d
    | (Inl e, w') \<Rightarrow> w' = w \<and>
        (if t_draft_visibility t = Public
         then filter (\<lambda>(n, ok). \<not> ok) (publish_checklist t) \<noteq> [] \<and>
           e = TripsError (app_err_details 409 ''TRIP_NOT_READY_TO_PUBLISH''
             ''trip is missing required fields for publish''
             [(''missing'', DStrings (map fst (filter (\<lambda>(n, ok). \<not> ok) (publish_checklist t))))])
         else if t_creator t = c
         then e = trips_conflict ''TRIP_PRIVATE_DRAFT'' ''private drafts cannot be published''
         else e = trip_not_found)"
proof (cases "isTripVisibleToCaller t c")
  case False
  then have "t_draft_visibility t \<noteq> Public" "t_creator t \<noteq> c"
    using assms(3,4) trip_okD(2) [OF wf_worldD(4) [OF reachable_wf_world [OF assms(1)] assms(2)]]
    by (auto simp: isTripVisibleToCaller_def split: draft_visibility.splits)
  then show ?thesis using False assms(2) by (simp add: PublishTrip_def load_organized_eq)
next
  case vis: True
  then have creator: "t_draft_visibility t = Public \<or> t_creator t = c"
    using assms(3) by (auto simp: isTripVisibleToCaller_def split: draft_visibility.splits)
  note wf = reachable_wf_world [OF assms(1)]
  note ok = wf_worldD(4) [OF wf assms(2)]
  have load: "load_organized_trip w c tid = Inr t" using assms vis by (simp add: load_organized_eq)
  have tid: "t_id t = tid" using trip_lookup_id [OF wf_worldD(2) [OF wf] assms(2)] by simp
  have none: "t_attending_rigs t = None" by (rule trip_okD(7) [OF ok assms(3)])
  show ?thesis
  proof (cases "published_trip t")
    case (Inl e)
    then show ?thesis using load assms(3) creator
      by (auto simp: PublishTrip_def published_trip_def Let_def missing_checklist split: if_splits)
  next
    case (Inr t')
    then have t': "t' = t\<lparr>t_status := Published, t_attending_rigs := Some 0\<rparr>"
      and pub: "t_draft_visibility t = Public" and ready: "ready_to_publish t"
      using none by (simp_all add: published_trip_Inr)
    let ?t = "t'\<lparr>t_updated_at := now\<rparr>"
    have ch: "trip_change (w_members w) c t ?t"
      using trip_change.opened [OF assms(4,3) pub ready, of "w_members w" now] by (simp add: t' none)
    obtain d where d: "save_and_details env w ?t = (Inr d, saved w ?t)"
      by (rule save_effect [OF wf assms(2) ch])
    have "map fst (filter (\<lambda>(n, ok). \<not> ok) (publish_checklist t)) = []"
      using ready by (simp only: missing_Nil_iff missing_checklist [symmetric])
    then have all: "list_all snd (publish_checklist t)" by (auto simp: filter_empty_conv list_all_iff)
    have "attendees (w_rsvps w) tid = {}"
      using trip_okD(9) [OF ok none] tid by (simp add: attendees_def)
    then show ?thesis using load assms(3) Inr d pub all tid by (simp add: PublishTrip_def t')
  qed
qed

lemma publish_checks_witness:
  "t_draft_visibility (demo_trip 5) = Public \<and> list_all snd (publish_checklist (demo_trip 5)) \<and>
   snd (PublishTrip demo_env (demo_world 4) ''a'' ''t1'' 6) = demo_world 4"
proof (intro conjI)
  have "''a'' \<in> set (t_organizers (demo_trip 5))" by code_simp
  note use = publish_checks [OF demo_reachable demo_lookup(3) demo_status(3) this, of 6]
  have "\<not> isl (fst (PublishTrip demo_env (demo_world 5) ''a'' ''t1'' 6))" by code_simp
  then show "t_draft_visibility (demo_trip 5) = Public" "list_all snd (publish_checklist (demo_trip 5))"
    using use by (auto split: prod.splits sum.splits)
  have "t_status (demo_trip 4) = Draft" "''a'' \<in> set (t_organizers (demo_trip 4))" by code_simp+
  note use = publish_checks [OF demo_reachable demo_lookup(2) this, of 6]
  have "isl (fst (PublishTrip demo_env (demo_world 4) ''a'' ''t1'' 6))" by code_simp
  then show "snd (PublishTrip demo_env (demo_world 4) ''a'' ''t1'' 6) = demo_world 4"
    using use by (auto split: prod.splits sum.splits)
qed

section \<open>What an update writes, and reading it back\<close>






lemma listed_iff:
  assumes "wf_trip_repo r" and "\<And>t. t \<in> set ts \<longleftrightarrow> trip_lookup r (t_id t) = Some t \<and> P t"
  shows "tid \<in> ts_id ` set (map toDomainSummary ts) \<longleftrightarrow> (\<exists>t. trip_lookup r tid = Some t \<and> P t)"
proof -
  have "ts_id (toDomainSummary t) = t_id t" for t by (simp add: toDomainSummary_def)
  then have "tid \<in> ts_id ` set (map toDomainSummary ts) \<longleftrightarrow> (\<exists>t \<in> set ts. t_id t = tid)"
    by (auto simp: image_iff)
  then show ?thesis using assms(2) trip_lookup_id [OF assms(1)] by metis
qed




section \<open>Listings and details agree\<close>

text \<open>C19: A caller is listed exactly the trips the caller can open: a trip ID occurs among the
  summaries of \<open>ListVisibleTripsForMember\<close> or of the caller's \<open>ListMyDraftTrips\<close> if and only if
  \<open>GetTripDetails\<close> succeeds for it.\<close>

theorem listings_match_details:
  assumes "reachable env w"
  shows "(tid \<in> ts_id ` set (ListVisibleTripsForMember w) \<union> ts_id ` set (ListMyDraftTrips w c)) \<longleftrightarrow>
      (\<exists>d. GetTripDetails env w c tid = Inr d)"
proof -
  note wf = reachable_wf_world [OF assms]
  note trips = wf_worldD(2) [OF wf]
  have vis: "tid \<in> ts_id ` set (ListVisibleTripsForMember w) \<longleftrightarrow>
      (\<exists>t. trip_lookup (w_trips w) tid = Some t \<and> (t_status t = Published \<or> t_status t = Canceled))"
    unfolding ListVisibleTripsForMember_def by (rule listed_iff [OF trips list_published_set [OF trips]])
  have "tid \<in> ts_id ` set (ListMyDraftTrips w c) \<longleftrightarrow>
      (\<exists>t. trip_lookup (w_trips w) tid = Some t \<and> t_status t = Draft \<and> isDraftVisibleTo t c)"
    unfolding ListMyDraftTrips_def by (rule listed_iff [OF trips list_drafts_set [OF trips]])
  then have drafts: "tid \<in> ts_id ` set (ListMyDraftTrips w c) \<longleftrightarrow>
      (\<exists>t. trip_lookup (w_trips w) tid = Some t \<and> t_status t = Draft \<and> isTripVisibleToCaller t c)"
    using draft_listed_iff_visible by metis
  show ?thesis
  proof (cases "trip_lookup (w_trips w) tid")
    case None
    then have "hidden_from w c tid" by (simp add: hidden_from_def)
    then show ?thesis using get_details.hidden [OF wf, of c tid] None by (simp add: vis drafts)
  next
    case (Some t)
    show ?thesis
    proof (cases "isTripVisibleToCaller t c")
      case True
      obtain d where "GetTripDetails env w c tid = Inr d" by (rule query_details [OF wf Some True])
      then show ?thesis using Some True wf_status [OF wf Some] by (auto simp: vis drafts)
    next
      case False
      then have "hidden_from w c tid" using Some by (simp add: hidden_from_def)
      then have "GetTripDetails env w c tid = Inl trip_not_found"
        using get_details.hidden [OF wf, of c tid] by simp
      moreover have "t_status t \<noteq> Published" "t_status t \<noteq> Canceled" using False by auto
      ultimately show ?thesis using Some False by (simp add: vis drafts)
    qed
  qed
qed

lemma listings_match_details_witness:
  "''t1'' \<in> ts_id ` set (ListMyDraftTrips (demo_world 4) ''a'') \<and>
   (\<exists>d. GetTripDetails demo_env (demo_world 4) ''a'' ''t1'' = Inr d)"
proof -
  have "''t1'' \<in> ts_id ` set (ListMyDraftTrips (demo_world 4) ''a'')" by code_simp
  then show ?thesis using listings_match_details [OF demo_reachable, of "''t1''" 4 "''a''"] by blast
qed

text \<open>A new draft is private to its creator: after a successful \<open>CreateTripDraft\<close> the caller
  finds it in \<open>ListMyDraftTrips\<close> and can open it, with the caller as its only organizer, while to
  every other member it is hidden; no other trip is touched.\<close>

theorem new_draft_private:
  assumes "reachable env w" and "CreateTripDraft w c nm now i = (Inr created, w')"
  shows "tc_id created = i \<and> i \<in> ts_id ` set (ListMyDraftTrips w' c) \<and>
    (\<exists>d. GetTripDetails env w' c i = Inr d \<and> map ms_id (td_organizers d) = [c] \<and>
       ts_name d = Some (NormalizeHumanName nm)) \<and>
    (\<forall>m. m \<noteq> c \<longrightarrow> hidden_from w' m i) \<and>
    (\<forall>j. j \<noteq> i \<longrightarrow> trip_lookup (w_trips w') j = trip_lookup (w_trips w) j)"
proof -
  note wf = reachable_wf_world [OF assms(1)]
  let ?t = "new_draft i (NormalizeHumanName nm) c now"
  have new: "member_exists (w_members w) c" "trip_lookup (w_trips w) i = None" "w' = saved w ?t" "tc_id created = i"
    using CreateTripDraft_cases [of w c nm now i] assms(2) by auto
  have wf': "wf_world env w'" using draft_trip_wf [OF wf, of c nm now i] assms(2) by simp
  have id: "t_id ?t = i" "t_status ?t = Draft" "t_draft_visibility ?t = Private" "t_creator ?t = c"
    by (simp_all add: new_draft_def)
  have lk: "trip_lookup (w_trips w') i = Some ?t" by (simp add: new id)
  have vis: "isTripVisibleToCaller ?t m \<longleftrightarrow> m = c" for m using id by (auto simp: isTripVisibleToCaller_def)
  obtain orgs where orgs: "load_summaries (w_members w') [c] = Inr orgs" "map ms_id orgs = [c]"
    using load_summaries_total [OF wf_worldD(8) [OF wf'], of "[c]"] new(1,3) by auto
  have "GetTripDetails env w' c i = Inr ((toDomainDetails ?t)\<lparr>td_organizers := orgs, td_artifacts := [],
      td_rsvp_actions_enabled := False, td_rsvp_summary := None, td_my_rsvp := None\<rparr>)"
    using orgs(1) vis [of c] id
    by (simp add: GetTripDetails_def load_visible_eq lk loadOrganizerSummaries_def Let_def)
       (simp add: new_draft_def)
  moreover have "ts_name (toDomainDetails ?t) = Some (NormalizeHumanName nm)" by (simp add: new_draft_def)
  moreover have "?t \<in> set (trip_list_drafts_visible_to (w_trips w') c)"
    using list_drafts_set [OF wf_worldD(2) [OF wf'], of ?t c] vis [of c] draft_listed_iff_visible [OF id(2)]
    by (simp add: lk id)
  then have "i \<in> ts_id ` set (ListMyDraftTrips w' c)"
    using id by (force simp: ListMyDraftTrips_def toDomainSummary_def image_image)
  moreover have "m \<noteq> c \<longrightarrow> hidden_from w' m i" for m by (simp add: hidden_from_def lk vis)
  ultimately show ?thesis using orgs(2) new id by (simp add: toDomainDetails_def)
qed

lemma new_draft_private_witness:
  "hidden_from (demo_world 3) ''b'' ''t1'' \<and>
   (\<exists>d. GetTripDetails demo_env (demo_world 3) ''a'' ''t1'' = Inr d \<and> ts_name d = Some ''Baja run'')"
proof -
  have "\<not> isl (fst (CreateTripDraft (demo_world 2) ''a'' '' Baja  run '' 3 ''t1''))" by code_simp
  then obtain d where "CreateTripDraft (demo_world 2) ''a'' '' Baja  run '' 3 ''t1'' = (Inr d, demo_world 3)"
    using succeeded demo_step [of 2] by (fastforce simp: demo_ops_def)
  note use = new_draft_private [OF demo_reachable this]
  moreover have "NormalizeHumanName '' Baja  run '' = ''Baja run''" by code_simp
  ultimately show ?thesis by auto
qed


section \<open>Organizers\<close>

text \<open>In every reachable state a stored trip always has an organizer, its organizers are
  pairwise different existing members, as is its creator, its name is normalised and non-empty,
  its dates are in order and its capacity, if any, is at least one.\<close>

theorem stored_trips_valid:
  assumes "reachable env w" and "trip_lookup (w_trips w) tid = Some t"
  shows "t_organizers t \<noteq> [] \<and> distinct (t_organizers t) \<and>
    (\<forall>i \<in> insert (t_creator t) (set (t_organizers t)). \<exists>m. member_get_by_id (w_members w) i = Inr m) \<and>
    (\<exists>n. t_name t = Some n \<and> n \<noteq> '''' \<and> NormalizeHumanName n = n) \<and>
    (\<forall>s e. t_start_date t = Some s \<longrightarrow> t_end_date t = Some e \<longrightarrow> s \<le> e) \<and>
    (\<forall>cap. t_capacity_rigs t = Some cap \<longrightarrow> 1 \<le> cap) \<and> t_id t = tid \<and> tid \<noteq> ''''"
proof -
  note wf = reachable_wf_world [OF assms(1)]
  note ok = wf_worldD(4) [OF wf assms(2)]
  have "member_exists (w_members w) i \<Longrightarrow> \<exists>m. member_get_by_id (w_members w) i = Inr m" for i
    by (auto simp: member_exists_def)
  then have members: "\<forall>i \<in> insert (t_creator t) (set (t_organizers t)). \<exists>m. member_get_by_id (w_members w) i = Inr m"
    using trip_okD(3,6) [OF ok] by blast
  have name: "\<exists>n. t_name t = Some n \<and> n \<noteq> '''' \<and> NormalizeHumanName n = n"
    using ok by (cases "t_name t") (simp_all add: trip_ok_def)
  have dates: "case (t_start_date t, t_end_date t) of (Some s, Some e) \<Rightarrow> s \<le> e | _ \<Rightarrow> True"
    using ok unfolding trip_ok_def by blast
  have "\<forall>s e. t_start_date t = Some s \<longrightarrow> t_end_date t = Some e \<longrightarrow> s \<le> e"
    using dates by auto
  then show ?thesis
    using members name trip_okD(4,5,11) [OF ok] trip_lookup_id [OF wf_worldD(2) [OF wf] assms(2)] by blast
qed

lemma stored_trips_valid_witness:
  "t_organizers (demo_trip 7) \<noteq> [] \<and> (\<exists>n. t_name (demo_trip 7) = Some n \<and> NormalizeHumanName n = n)"
  using stored_trips_valid [OF demo_reachable demo_lookup(5)] by blast

text \<open>\<open>RemoveTripOrganizer\<close> by an organizer removes exactly the given organizer, keeping the order of
  the others, unless the trip would be left without one: then it is refused with LAST_ORGANIZER.
  Removing somebody who is no organizer changes nothing and succeeds.\<close>

theorem remove_organizer_result:
  assumes "reachable env w" and "trip_lookup (w_trips w) tid = Some t"
    and "isTripVisibleToCaller t c" and "c \<in> set (t_organizers t)"
  shows "case RemoveTripOrganizer env w c tid m now of
      (Inl e, w') \<Rightarrow> w' = w \<and> e = last_organizer \<and> t_organizers t = [m]
    | (Inr d, w') \<Rightarrow> \<exists>t'. trip_lookup (w_trips w') tid = Some t' \<and>
        t_organizers t' = filter (\<lambda>i. i \<noteq> m) (t_organizers t) \<and> t_organizers t' \<noteq> [] \<and>
        (m \<notin> set (t_organizers t) \<longrightarrow> w' = w)"
proof -
  note wf = reachable_wf_world [OF assms(1)]
  note ok = wf_worldD(4) [OF wf assms(2)]
  have load: "load_organized_trip w c tid = Inr t" using assms by (simp add: load_organized_eq)
  have rem: "removeAll m (t_organizers t) = filter (\<lambda>i. i \<noteq> m) (t_organizers t)"
    unfolding removeAll_filter_not_eq by (rule filter_cong) auto
  show ?thesis
  proof (cases "m \<in> set (t_organizers t)")
    case False
    obtain d where d: "tripDetailsForTrip env w t = Inr d" using details_now [OF wf assms(2)] .
    have "filter (\<lambda>i. i \<noteq> m) (t_organizers t) = t_organizers t" using False by (auto simp: filter_id_conv)
    then show ?thesis
      using False d load assms(2) trip_okD(4) [OF ok] by (simp add: RemoveTripOrganizer_def)
  next
    case True
    show ?thesis
    proof (cases "length (t_organizers t) = 1")
      case single: True
      then have "t_organizers t = [m]" using True by (cases "t_organizers t") auto
      then show ?thesis using load by (simp add: RemoveTripOrganizer_def)
    next
      case False
      then have two: "removeAll m (t_organizers t) \<noteq> []"
        using True trip_okD(5) [OF ok] by (cases "t_organizers t" rule: remdups_adj.cases) auto
      let ?t = "t\<lparr>t_organizers := removeAll m (t_organizers t), t_updated_at := now\<rparr>"
      have ch: "trip_change (w_members w) c t ?t"
        by (rule trip_change.departed [OF assms(4,3) True two])
      obtain d where d: "save_and_details env w ?t = (Inr d, saved w ?t)"
        by (rule save_effect [OF wf assms(2) ch])
      have "t_id t = tid" using trip_lookup_id [OF wf_worldD(2) [OF wf] assms(2)] by simp
      then show ?thesis using load True False two d rem
        by (simp add: RemoveTripOrganizer_def remove_organizer_eq Let_def)
    qed
  qed
qed

lemma remove_organizer_result_witness:
  "RemoveTripOrganizer demo_env (demo_world 5) ''a'' ''t1'' ''a'' 9 = (Inl last_organizer, demo_world 5)"
proof -
  have "isTripVisibleToCaller (demo_trip 5) ''a''" "''a'' \<in> set (t_organizers (demo_trip 5))" by code_simp+
  note use = remove_organizer_result [OF demo_reachable demo_lookup(3) this, of "''a''" 9]
  have "isl (fst (RemoveTripOrganizer demo_env (demo_world 5) ''a'' ''t1'' ''a'' 9))" by code_simp
  then show ?thesis using use by (auto split: prod.splits sum.splits simp: prod_eq_iff)
qed

section \<open>RSVP summaries\<close>

definition summary_key :: "go_env \<Rightarrow> member_summary \<Rightarrow> gostring \<times> MemberID" where
  "summary_key env m = (to_lower env (ms_display_name m), ms_id m)"

interpretation summary_order: slice_order "less_member_summary env" "summary_key env" for env
  by unfold_locales (auto simp: less_member_summary_def summary_key_def Let_def less_prod_def')

lemma summaries_sorted:
  "loadMemberSummariesSorted env w is = Inr ss \<Longrightarrow> sorted (map (summary_key env) ss)"
  by (auto simp: loadMemberSummariesSorted_def and_then_Inr summary_order.sorted_slice split: if_splits)

text \<open>C20: The RSVP summary of a published or canceled trip lists exactly the members who answered
  YES and exactly those who answered NO, each once and both sorted by lower-cased name and ID; its
  counter is the number of members attending and its capacity the trip's.\<close>

theorem rsvp_summary_exact:
  assumes "reachable env w" and "trip_lookup (w_trips w) tid = Some t" and "t_status t \<noteq> Draft"
  shows "\<exists>s. GetTripRSVPSummary env w c tid = Inr s \<and>
    set (map ms_id (sum_attending_members s)) = attendees (w_rsvps w) tid \<and>
    set (map ms_id (sum_not_attending_members s)) =
      {m. \<exists>v. rsvp_lookup (w_rsvps w) (tid, m) = Some v \<and> rs_status v = No} \<and>
    distinct (map ms_id (sum_attending_members s)) \<and> distinct (map ms_id (sum_not_attending_members s)) \<and>
    sorted (map (summary_key env) (sum_attending_members s)) \<and>
    sorted (map (summary_key env) (sum_not_attending_members s)) \<and>
    sum_attending_rigs s = int (card (attendees (w_rsvps w) tid)) \<and> sum_capacity_rigs s = t_capacity_rigs t"
proof -
  note wf = reachable_wf_world [OF assms(1)]
  note rv = wf_worldD(3) [OF wf]
  have tid: "t_id t = tid" using trip_lookup_id [OF wf_worldD(2) [OF wf] assms(2)] by simp
  obtain s where s: "tripRSVPSummaryForTrip env w t = Inr s"
    and cap: "sum_capacity_rigs s = t_capacity_rigs t"
    and count: "sum_attending_rigs s = rsvp_count_yes_by_trip (w_rsvps w) (t_id t)"
    and yes: "mset (map ms_id (sum_attending_members s)) = mset (rsvp_ids Yes (rsvp_list_by_trip (w_rsvps w) (t_id t)))"
    and no: "mset (map ms_id (sum_not_attending_members s)) = mset (rsvp_ids No (rsvp_list_by_trip (w_rsvps w) (t_id t)))"
    using rsvp_summary_total [OF wf] by blast
  have "t_status t = Published \<or> t_status t = Canceled" using wf_status [OF wf assms(2)] assms(3) by blast
  then have get: "GetTripRSVPSummary env w c tid = Inr s"
    using s assms(2,3) by (auto simp: GetTripRSVPSummary_def load_visible_eq)
  have sorted: "sorted (map (summary_key env) (sum_attending_members s))"
    "sorted (map (summary_key env) (sum_not_attending_members s))"
    using s summaries_sorted by (auto simp: tripRSVPSummaryForTrip_def and_then_Inr Let_def)
  have "set (rsvp_ids No (rsvp_list_by_trip (w_rsvps w) tid)) =
      {m. \<exists>v. rsvp_lookup (w_rsvps w) (tid, m) = Some v \<and> rs_status v = No}"
    by (auto simp: rsvp_ids_def list_by_trip_set [OF rv] image_iff dest: rsvp_lookup_key [OF rv])
  then show ?thesis
    using get sorted cap count tid mset_eq_setD [OF yes] mset_eq_setD [OF no]
      mset_eq_imp_distinct_iff [OF yes] mset_eq_imp_distinct_iff [OF no] rsvp_ids_distinct [OF rv]
    by (simp add: attendees_ids [OF rv, symmetric] card_attendees [OF rv])
qed

lemma rsvp_summary_exact_witness:
  "\<exists>s. GetTripRSVPSummary demo_env (demo_world 7) ''a'' ''t1'' = Inr s \<and>
     set (map ms_id (sum_attending_members s)) = attendees (w_rsvps (demo_world 7)) ''t1''"
  using rsvp_summary_exact [OF demo_reachable demo_lookup(5), of "''a''"] demo_status(6) by auto

section \<open>Repeated calls\<close>

text \<open>Canceling twice is canceling once: after a successful \<open>CancelTrip\<close> the same organizer's
  call succeeds again at any later time with the same details and changes nothing; so does
  \<open>PublishTrip\<close>, with the same announcement.\<close>

theorem cancel_publish_idempotent:
  assumes "reachable env w"
  shows "(CancelTrip env w c tid now = (Inr d, w') \<longrightarrow> CancelTrip env w' c tid now2 = (Inr d, w')) \<and>
    (PublishTrip env w c tid now = (Inr r, w'') \<longrightarrow> PublishTrip env w'' c tid now2 = (Inr r, w''))"
proof (intro conjI impI)
  note wf = reachable_wf_world [OF assms]
  assume a: "CancelTrip env w c tid now = (Inr d, w')"
  then obtain t where t: "trip_lookup (w_trips w) tid = Some t" "isTripVisibleToCaller t c" "c \<in> set (t_organizers t)"
    and load: "load_organized_trip w c tid = Inr t"
    by (cases rule: load_organized_cases [of w c tid]) (auto simp: CancelTrip_def)
  have tid: "t_id t = tid" "tid \<noteq> ''''" using trip_lookup_id [OF wf_worldD(2) [OF wf] t(1)] by simp_all
  show "CancelTrip env w' c tid now2 = (Inr d, w')"
  proof (cases "t_status t = Canceled")
    case True
    then show ?thesis using a load by (auto simp: CancelTrip_def)
  next
    case False
    let ?t = "t\<lparr>t_status := Canceled, t_updated_at := now\<rparr>"
    have "w' = saved w ?t" "tripDetailsForTrip env (saved w ?t) ?t = Inr d"
      using a load False tid wf_status [OF wf t(1)]
      by (auto simp: CancelTrip_def save_and_details_eq)
    then show ?thesis using t tid by (simp add: CancelTrip_def load_organized_eq)
  qed
next
  note wf = reachable_wf_world [OF assms]
  assume a: "PublishTrip env w c tid now = (Inr r, w'')"
  then obtain t where t: "trip_lookup (w_trips w) tid = Some t" "isTripVisibleToCaller t c" "c \<in> set (t_organizers t)"
    and load: "load_organized_trip w c tid = Inr t"
    by (cases rule: load_organized_cases [of w c tid]) (auto simp: PublishTrip_def)
  have tid: "t_id t = tid" "tid \<noteq> ''''" using trip_lookup_id [OF wf_worldD(2) [OF wf] t(1)] by simp_all
  show "PublishTrip env w'' c tid now2 = (Inr r, w'')"
  proof (cases "t_status t = Draft")
    case False
    then show ?thesis using a load wf_status [OF wf t(1)]
      by (auto simp: PublishTrip_def with_announcement_def and_then_Inr)
  next
    case True
    then obtain t' where p: "published_trip t = Inr t'"
      using a load by (cases "published_trip t") (auto simp: PublishTrip_def)
    let ?t = "t'\<lparr>t_updated_at := now\<rparr>"
    have t': "t_id t' = tid" "t_status t' = Published" "t_organizers t' = t_organizers t"
      using p tid by (auto simp: published_trip_Inr)
    obtain d where d: "r = (d, announcementCopyFromTrip d)" "w'' = saved w ?t"
        "tripDetailsForTrip env (saved w ?t) ?t = Inr d"
      using a load True p t' tid
      by (auto simp: PublishTrip_def save_and_details_eq with_announcement_def and_then_Inr)
    then show ?thesis using t t' by (simp add: PublishTrip_def load_organized_eq)
  qed
qed

lemma cancel_publish_idempotent_witness:
  "\<exists>d. CancelTrip demo_env (demo_world 8) ''a'' ''t1'' 99 = (Inr d, demo_world 8)"
proof -
  have "\<not> isl (fst (CancelTrip demo_env (demo_world 7) ''a'' ''t1'' 9))" by code_simp
  then obtain d where "CancelTrip demo_env (demo_world 7) ''a'' ''t1'' 9 = (Inr d, demo_world 8)"
    using succeeded demo_step [of 7] by (fastforce simp: demo_ops_def)
  then show ?thesis using cancel_publish_idempotent [OF demo_reachable, of 7] by blast
qed

end
