(* ===== verification/RsvpRace.thy ===== *)
theory RsvpRace
  imports Scenario
begin

text \<open>
  \<open>SetMyRSVP\<close> as the sequence of repository calls it really is. Each repository locks its own
  mutex for one call only, so the calls of two requests interleave. \<open>rsvp_step\<close> is one call of
  one request with the code that follows it; running a request alone to its end is \<open>SetMyRSVP\<close>,
  while two requests interleaved can both pass the capacity check.
\<close>

text \<open>Where a request stands, with the values it has read so far.\<close>

datatype rsvp_pc =
    Loading                                    \<comment> \<open>before \<open>trips.GetByID\<close>\<close>
  | Reading trip int                           \<comment> \<open>before \<open>rsvps.Get\<close>\<close>
  | Counting trip int "rsvp option"            \<comment> \<open>before \<open>rsvps.CountYesByTrip\<close>\<close>
  | Saving trip                                \<comment> \<open>before \<open>trips.Save\<close> of this trip\<close>
  | Upserting                                  \<comment> \<open>before \<open>rsvps.Upsert\<close>\<close>
  | Answered "goerror + my_rsvp"

record rsvp_request =
  rq_caller :: MemberID
  rq_trip :: TripID
  rq_response :: rsvp_response
  rq_now1 :: gotime
  rq_now2 :: gotime

fun rsvp_step :: "rsvp_request \<Rightarrow> world \<Rightarrow> rsvp_pc \<Rightarrow> world \<times> rsvp_pc" where
  "rsvp_step rq w Loading =
     (case load_trip w (rq_trip rq) of
        Inl e \<Rightarrow> (w, Answered (Inl e))
      | Inr t \<Rightarrow> (case rsvp_checks t (rq_caller rq) (rq_response rq) of
                    Inl e \<Rightarrow> (w, Answered (Inl e))
                  | Inr cap \<Rightarrow> (w, Reading t cap)))"
| "rsvp_step rq w (Reading t cap) =
     (case rsvp_get (w_rsvps w) (rq_trip rq) (rq_caller rq) of
        Inr ex \<Rightarrow> if rs_status ex = rq_response rq
                  then (w, Answered (Inr (my_rsvp_of (rq_trip rq) (rq_caller rq) ex)))
                  else (w, Counting t cap (Some ex))
      | Inl e \<Rightarrow> if e = RsvpNotFound then (w, Counting t cap None) else (w, Answered (Inl e)))"
| "rsvp_step rq w (Counting t cap existing) =
     (let n = new_attendance (rsvp_count_yes_by_trip (w_rsvps w) (rq_trip rq)) existing (rq_response rq) in
      if rq_response rq = Yes \<and> cap < n
      then (w, Answered (Inl (trips_conflict ''TRIP_AT_CAPACITY'' ''trip is at capacity'')))
      else (w, Saving (t\<lparr>t_attending_rigs := Some n, t_updated_at := rq_now1 rq\<rparr>)))"
| "rsvp_step rq w (Saving t) =
     (case trip_save (w_trips w) t of
        Inl e \<Rightarrow> (w, Answered (Inl e))
      | Inr ts \<Rightarrow> (w\<lparr>w_trips := ts\<rparr>, Upserting))"
| "rsvp_step rq w Upserting =
     (let rec = \<lparr>rs_trip = rq_trip rq, rs_member = rq_caller rq, rs_status = rq_response rq,
                rs_updated_at = rq_now2 rq\<rparr> in
      (w\<lparr>w_rsvps := rsvp_upsert (w_rsvps w) rec\<rparr>,
       Answered (Inr (my_rsvp_of (rq_trip rq) (rq_caller rq) rec))))"
| "rsvp_step rq w (Answered r) = (w, Answered r)"

fun alone :: "nat \<Rightarrow> rsvp_request \<Rightarrow> world \<times> rsvp_pc \<Rightarrow> world \<times> rsvp_pc" where
  "alone 0 rq s = s"
| "alone (Suc n) rq s = alone n rq (rsvp_step rq (fst s) (snd s))"

text \<open>Two requests, \<open>True\<close> scheduling the first: each entry of the schedule is one call.\<close>

fun interleave :: "bool list \<Rightarrow> rsvp_request \<Rightarrow> rsvp_request \<Rightarrow> world \<Rightarrow> rsvp_pc \<Rightarrow> rsvp_pc \<Rightarrow>
    world \<times> rsvp_pc \<times> rsvp_pc" where
  "interleave [] a b w p q = (w, p, q)"
| "interleave (True # bs) a b w p q = (let (w', p') = rsvp_step a w p in interleave bs a b w' p' q)"
| "interleave (False # bs) a b w p q = (let (w', q') = rsvp_step b w q in interleave bs a b w' p q')"

text \<open>Run without interference, the sequence of repository calls is \<open>SetMyRSVP\<close>: five calls
  always suffice, and they give its answer and its final state.\<close>

theorem alone_is_SetMyRSVP:
  "alone 5 \<lparr>rq_caller = c, rq_trip = tid, rq_response = resp, rq_now1 = now1, rq_now2 = now2\<rparr> (w, Loading) =
   (snd (SetMyRSVP w c tid resp now1 now2), Answered (fst (SetMyRSVP w c tid resp now1 now2)))"
proof (cases "load_trip w tid")
  case (Inl e)
  then show ?thesis by (simp add: numeral_eq_Suc SetMyRSVP_def)
next
  case t: (Inr t)
  show ?thesis
  proof (cases "rsvp_checks t c resp")
    case (Inl e)
    then show ?thesis using t by (simp add: numeral_eq_Suc SetMyRSVP_def)
  next
    case cap: (Inr cap)
    show ?thesis
    proof (cases "rsvp_get (w_rsvps w) tid c")
      case (Inl e)
      then have "e = RsvpNotFound" by (auto simp: rsvp_get_cases split: option.splits)
      then show ?thesis using t cap Inl
        by (auto simp: numeral_eq_Suc SetMyRSVP_def Let_def trip_save_put)
    next
      case (Inr ex)
      then show ?thesis using t cap
        by (auto simp: numeral_eq_Suc SetMyRSVP_def Let_def trip_save_put)
    qed
  qed
qed

definition race_request :: "MemberID \<Rightarrow> rsvp_request" where
  "race_request c = \<lparr>rq_caller = c, rq_trip = ''t1'', rq_response = Yes, rq_now1 = 7, rq_now2 = 8\<rparr>"

definition race_result :: "world \<times> rsvp_pc \<times> rsvp_pc" where
  "race_result = interleave [True, True, True, False, False, False, True, True, False, False]
     (race_request ''a'') (race_request ''b'') (demo_world 6) Loading Loading"

fun told_yes :: "rsvp_pc \<Rightarrow> bool" where
  "told_yes (Answered (Inr r)) = (my_response r = Yes)"
| "told_yes pc = False"

text \<open>C6: Two requests at once can overbook: from a reachable state with a published trip with room for one rig and nobody
  attending, there is an interleaving of two members' \<open>SetMyRSVP YES\<close> after which both have been
  told YES, two members attend, and the stored counter says one.\<close>

theorem concurrent_rsvps_overbook:
  "\<exists>w schedule a b w' ra rb t. reachable demo_env w \<and> attendees (w_rsvps w) ''t1'' = {} \<and>
     interleave schedule (race_request a) (race_request b) w Loading Loading = (w', Answered (Inr ra), Answered (Inr rb)) \<and>
     my_response ra = Yes \<and> my_response rb = Yes \<and> attendees (w_rsvps w') ''t1'' = {a, b} \<and> a \<noteq> b \<and>
     trip_lookup (w_trips w') ''t1'' = Some t \<and> t_capacity_rigs t = Some 1 \<and> t_attending_rigs t = Some 1"
proof -
  let ?w' = "fst race_result"
  have start: "attendees (w_rsvps (demo_world 6)) ''t1'' = {}"
    using wf_worldD(3) [OF reachable_wf_world [OF demo_reachable, of 6]] by (simp add: attendees_ids) code_simp
  have "rv_m (w_rsvps ?w') =
      [((''t1'', ''a''), rsvp_record ''t1'' ''a'' Yes 8), ((''t1'', ''b''), rsvp_record ''t1'' ''b'' Yes 8)]"
    by code_simp
  then have both: "attendees (w_rsvps ?w') ''t1'' = {''a'', ''b''}"
    by (auto simp: attendees_def rsvp_lookup_def split: if_splits)
  have "told_yes (fst (snd race_result))" "told_yes (snd (snd race_result))" by code_simp+
  then obtain ra rb where "fst (snd race_result) = Answered (Inr ra)" "snd (snd race_result) = Answered (Inr rb)"
    and yes: "my_response ra = Yes" "my_response rb = Yes"
    by (auto elim!: told_yes.elims)
  then have r: "race_result = (?w', Answered (Inr ra), Answered (Inr rb))" by (simp add: prod_eq_iff)
  have "(case trip_lookup (w_trips ?w') ''t1'' of Some t \<Rightarrow> t_capacity_rigs t = Some 1 \<and> t_attending_rigs t = Some 1
      | None \<Rightarrow> False)" by code_simp
  then obtain t where t: "trip_lookup (w_trips ?w') ''t1'' = Some t" "t_capacity_rigs t = Some 1"
    "t_attending_rigs t = Some 1" by (auto split: option.splits)
  show ?thesis
    by (intro exI conjI, rule demo_reachable [of 6], rule start, rule r [unfolded race_result_def],
        rule yes(1), rule yes(2), rule both [unfolded race_result_def], simp,
        rule t(1) [unfolded race_result_def], rule t(2), rule t(3))
qed

end
