(* ===== verification/MemberProperties.thy ===== *)
theory MemberProperties
  imports Scenario
begin

text \<open>
  The properties of the member service and of name normalisation: the invariants of the
  directory, what joining and editing a profile do, and what listing and searching return.
\<close>

section \<open>Names\<close>

text \<open>\<open>NormalizeHumanName\<close> keeps exactly the words of a name: for every byte string, valid UTF-8
  or not, it is the words of the input joined by single blanks, the words are non-empty and free of
  Unicode white space, normalising again changes nothing, and two names have the same normal form
  exactly when they have the same words.\<close>

theorem normalize_keeps_words:
  "NormalizeHumanName s = join '' '' (str_fields s) \<and> list_all is_word (str_fields s) \<and>
   str_fields (NormalizeHumanName s) = str_fields s \<and>
   NormalizeHumanName (NormalizeHumanName s) = NormalizeHumanName s \<and>
   (NormalizeHumanName s = NormalizeHumanName t \<longleftrightarrow> str_fields s = str_fields t)"
proof -
  have "NormalizeHumanName s = NormalizeHumanName t \<Longrightarrow> str_fields s = str_fields t"
    using fields_normalize by metis
  then show ?thesis using fields_words fields_normalize by (auto simp: NormalizeHumanName_def)
qed

section \<open>The directory\<close>

text \<open>C26: The member directory stays consistent in every reachable state: any two listed members
  differ in ID, in subject and, under case folding, in e-mail address; every display name is
  normalised and non-empty and every address passes validation; and a listed member is the one
  found by its own subject.\<close>

theorem directory_consistent:
  assumes "reachable env w" and "m \<in> set (ListMembers env (w_members w) s True)"
    and "n \<in> set (ListMembers env (w_members w) s True)"
  shows "m_display_name m \<noteq> '''' \<and> NormalizeHumanName (m_display_name m) = m_display_name m \<and>
    validateEmail env (m_email m) = None \<and> GetMyMemberProfile (w_members w) (m_subject m) = Inr m \<and>
    (m \<noteq> n \<longrightarrow> m_id m \<noteq> m_id n \<and> m_subject m \<noteq> m_subject n \<and> \<not> equal_fold env (m_email m) (m_email n))"
proof -
  note wfm = wf_worldD(1) [OF reachable_wf_world [OF assms(1)]]
  note wfr = wf_membersD(1) [OF wfm]
  obtain a where a: "m = toDomain a" "map_of (mb_by_id (w_members w)) (mr_id a) = Some a"
    using assms(2) by (auto simp: ListMembers_set [OF wfr])
  obtain b where b: "n = toDomain b" "map_of (mb_by_id (w_members w)) (mr_id b) = Some b"
    using assms(3) by (auto simp: ListMembers_set [OF wfr])
  have subj: "member_get_by_subject (w_members w) (mr_subject x) = Inr x"
    if "map_of (mb_by_id (w_members w)) (mr_id x) = Some x" for x
    using that mrepo.by_subject_iff [OF wfr, of "mr_subject x" x] by simp
  have ids: "mr_id a \<noteq> mr_id b" if "m \<noteq> n" using that a b by (metis option.inject)
  moreover have "mr_subject a \<noteq> mr_subject b" if "m \<noteq> n"
    using ids [OF that] subj [OF a(2)] subj [OF b(2)] by (metis Inr_inject)
  moreover have "\<not> equal_fold env (mr_email a) (mr_email b)" if "m \<noteq> n"
    using ids [OF that] wf_membersD(3) [OF wfm a(2) b(2)] by simp
  moreover have m: "m_display_name m = mr_display_name a" "m_email m = mr_email a" "m_id m = mr_id a"
    "m_subject m = mr_subject a" and n: "m_email n = mr_email b" "m_id n = mr_id b" "m_subject n = mr_subject b"
    by (simp_all add: a(1) b(1) toDomain_def)
  moreover have "GetMyMemberProfile (w_members w) (mr_subject a) = Inr m"
    using subj [OF a(2)] a(1) by (simp add: GetMyMemberProfile_def)
  ultimately show ?thesis
    using wf_membersD(2) [OF wfm a(2)] unfolding m n by blast
qed

lemma directory_consistent_witness:
  "\<exists>m n. {m, n} \<subseteq> set (ListMembers demo_env (w_members (demo_world 2)) ''sa'' True) \<and>
     m_subject m \<noteq> m_subject n"
proof -
  let ?ms = "ListMembers demo_env (w_members (demo_world 2)) ''sa'' True"
  have two: "length ?ms = 2" "m_id (?ms ! 0) \<noteq> m_id (?ms ! 1)" by code_simp+
  then have "?ms ! 0 \<in> set ?ms" "?ms ! 1 \<in> set ?ms" "?ms ! 0 \<noteq> ?ms ! 1" by auto
  with directory_consistent [OF demo_reachable this(1,2)] show ?thesis by blast
qed

text \<open>Joining works once per subject: after a successful \<open>CreateMyMember\<close> the subject's profile is
  the member returned, active, with the normalised name and trimmed address, every other member is
  unchanged, and any further attempt by the same subject is refused with MEMBER_ALREADY_EXISTS.\<close>

theorem create_member_once:
  assumes "reachable env w" and "CreateMyMember env (w_members w) s inp now i = Inr (d, r')"
  shows "GetMyMemberProfile r' s = Inr d \<and> m_id d = i \<and> m_subject d = s \<and> m_is_active d \<and>
    m_display_name d = NormalizeHumanName (cm_display_name inp) \<and> m_email d = trim_space (cm_email inp) \<and>
    GetMyMemberProfile (w_members w) s = Inl member_not_provisioned \<and>
    (\<forall>j. j \<noteq> i \<longrightarrow> member_get_by_id r' j = member_get_by_id (w_members w) j) \<and>
    CreateMyMember env r' s inp2 now2 i2 = Inl member_already_exists"
proof -
  note wfr = wf_worldD(8) [OF reachable_wf_world [OF assms(1)]]
  obtain m where m: "d = toDomain m" "member_create (w_members w) m = Inr r'" "mr_id m = i" "mr_subject m = s"
      "mr_display_name m = NormalizeHumanName (cm_display_name inp)" "mr_email m = trim_space (cm_email inp)"
      "mr_is_active m"
    using CreateMyMember_success [OF wfr assms(2)] by metis
  have "member_get_by_subject r' s = Inr m" using mrepo.create_by_subject [OF wfr m(2)] m(4) by simp
  moreover have "member_get_by_subject (w_members w) s = Inl MemberNotFound"
    using mrepo.create_fresh [OF wfr m(2)] m(4) by simp
  moreover have "j \<noteq> i \<longrightarrow> member_get_by_id r' j = member_get_by_id (w_members w) j" for j
    using mrepo.create_by_id [OF wfr m(2), of j] m(3) by simp
  ultimately show ?thesis
    using m by (simp add: GetMyMemberProfile_def CreateMyMember_def) (simp add: toDomain_def)
qed

lemma create_member_once_witness:
  "\<exists>d r'. CreateMyMember demo_env (w_members (demo_world 1)) ''sb'' (demo_member ''Bob'' ''bob@x'') 2 ''b'' = Inr (d, r') \<and>
     GetMyMemberProfile r' ''sb'' = Inr d"
proof -
  let ?r = "CreateMyMember demo_env (w_members (demo_world 1)) ''sb'' (demo_member ''Bob'' ''bob@x'') 2 ''b''"
  have "\<not> isl ?r" by code_simp
  then obtain d r' where "?r = Inr (d, r')" by (cases ?r) auto
  with create_member_once [OF demo_reachable this] show ?thesis by blast
qed






section \<open>Listing and searching\<close>

text \<open>\<open>ListMembers\<close> lists, sorted by lower-cased display name and then ID, exactly the members
  that are active, or all of them when inactive ones are asked for; the caller is listed in any case.\<close>

theorem list_members_exact:
  assumes "reachable env w"
  shows "sorted (map (member_key env) (ListMembers env (w_members w) s inactive)) \<and>
    (d \<in> set (ListMembers env (w_members w) s inactive) \<longleftrightarrow>
      (\<exists>m. d = toDomain m \<and> member_get_by_id (w_members w) (mr_id m) = Inr m \<and>
         (inactive \<or> mr_is_active m \<or> mr_subject m = s)))"
  using ListMembers_sorted_lemma ListMembers_set [OF wf_worldD(8) [OF reachable_wf_world [OF assms]]] by blast

lemma list_members_exact_witness:
  "sorted (map (member_key demo_env) (ListMembers demo_env (w_members (demo_world 2)) ''sa'' False))"
  using list_members_exact [OF demo_reachable] by blast

text \<open>C40: \<open>SearchMembers\<close> refuses a trimmed query of fewer than three characters and otherwise returns at
  most fifty members, sorted by lower-cased name and ID, all of them active members whose
  lower-cased name contains every lower-cased word of the query; when it returns fewer than fifty,
  no such member is missing.\<close>

theorem search_members_exact:
  assumes "reachable env w"
  shows "case SearchMembers env (w_members w) q of
      Inl e \<Rightarrow> rune_count (trim_space q) < 3 \<and>
        e = members_invalid ''invalid search query'' ''q'' ''must be at least 3 characters''
    | Inr ms \<Rightarrow> 3 \<le> rune_count (trim_space q) \<and> length ms \<le> 50 \<and> sorted (map (member_key env) ms) \<and>
        (\<forall>d \<in> set ms. \<exists>m. d = toDomain m \<and> member_get_by_id (w_members w) (mr_id m) = Inr m \<and>
           mr_is_active m \<and> matchesAllTokens env (mr_display_name m) (tokenize env (trim_space q))) \<and>
        (length ms < 50 \<longrightarrow> tokenize env (trim_space q) \<noteq> [] \<longrightarrow>
          (\<forall>i m. member_get_by_id (w_members w) i = Inr m \<and> mr_is_active m \<and>
             matchesAllTokens env (mr_display_name m) (tokenize env (trim_space q)) \<longrightarrow> toDomain m \<in> set ms))"
proof (cases "rune_count (trim_space q) < 3")
  case True
  then show ?thesis by (simp add: SearchMembers_def Let_def)
next
  case False
  note wfr = wf_worldD(8) [OF reachable_wf_world [OF assms]]
  let ?s = "member_search env (w_members w) (trim_space q) search_limit"
  have limit: "length ?s \<le> 50"
    using member_search_limit [of search_limit env "w_members w" "trim_space q"] by (simp add: search_limit_def)
  have sorted: "sorted (map (member_key env) (map toDomain ?s))"
    unfolding map_member_key_toDomain by (rule member_search_sorted)
  have sound: "\<forall>d \<in> set (map toDomain ?s). \<exists>m. d = toDomain m \<and> member_get_by_id (w_members w) (mr_id m) = Inr m \<and>
      mr_is_active m \<and> matchesAllTokens env (mr_display_name m) (tokenize env (trim_space q))"
    using member_search_props [OF wfr] by auto
  have complete: "toDomain m \<in> set (map toDomain ?s)"
    if "length ?s < 50" "tokenize env (trim_space q) \<noteq> []" "member_get_by_id (w_members w) i = Inr m"
      "mr_is_active m" "matchesAllTokens env (mr_display_name m) (tokenize env (trim_space q))" for i m
    using member_search_complete [OF wfr _ that(4,5,2), of i search_limit] that(1,3) by (simp add: search_limit_def)
  have result: "SearchMembers env (w_members w) q = Inr (map toDomain ?s)"
    using False by (simp add: SearchMembers_def Let_def)
  show ?thesis
    unfolding result sum.case length_map using False limit sorted sound complete not_less by blast
qed

lemma search_members_exact_witness:
  "\<exists>ms. SearchMembers demo_env (w_members (demo_world 2)) '' Ann '' = Inr ms \<and> length ms \<le> 50 \<and>
     sorted (map (member_key demo_env) ms)"
proof -
  have "\<not> isl (SearchMembers demo_env (w_members (demo_world 2)) '' Ann '')" by code_simp
  then obtain ms where "SearchMembers demo_env (w_members (demo_world 2)) '' Ann '' = Inr ms"
    by (cases "SearchMembers demo_env (w_members (demo_world 2)) '' Ann ''") auto
  then show ?thesis using search_members_exact [OF demo_reachable, of "'' Ann ''" 2] by simp
qed

end
