(* ===== verification/Oas.thy ===== *)
theory Oas
  imports TripsCmd MembersSvc
begin

text \<open>
  The transport types of the HTTP adapter (the models of the generated
  internal/adapters/httpapi/oas/api.gen.go) and the conversions of
  internal/adapters/httpapi/server.go between them and the domain. \<open>nullable.Nullable[T]\<close> is the
  tri-state \<open>optional\<close> of theory Domain, an \<open>openapi_types.Date\<close> is its instant, a pointer is an
  \<open>option\<close>; the string enumerations convert to and from the domain's without change.
\<close>

section \<open>Responses\<close>

record error_response =
  er_code :: gostring
  er_message :: gostring
  er_details :: "(gostring \<times> detail) list optional"
  er_request_id :: "gostring optional"

record oas_vehicle_profile =
  ov_fuel_range :: "gostring optional"
  ov_ham_radio_call_sign :: "gostring optional"
  ov_lift_lockers :: "gostring optional"
  ov_make :: "gostring optional"
  ov_model :: "gostring optional"
  ov_notes :: "gostring optional"
  ov_recovery_gear :: "gostring optional"
  ov_tire_size :: "gostring optional"

record oas_member_profile =
  op_display_name :: gostring
  op_email :: gostring
  op_group_alias_email :: "gostring optional"
  op_member_id :: gostring
  op_vehicle_profile :: "oas_vehicle_profile option"

record oas_member_summary =
  os_display_name :: gostring
  os_email :: gostring
  os_group_alias_email :: "gostring optional"
  os_member_id :: gostring

record oas_directory_entry =
  od_display_name :: gostring
  od_member_id :: gostring

record oas_location =
  ol_address :: "gostring optional"
  ol_label :: gostring
  ol_latitude_longitude :: "(float64 option \<times> float64 option) optional"

record oas_trip_artifact =
  oa_artifact_id :: gostring
  oa_title :: gostring
  oa_type :: artifact_type
  oa_url :: gostring

record oas_my_rsvp =
  om_member_id :: gostring
  om_response :: rsvp_response
  om_trip_id :: gostring
  om_updated_at :: gotime

record oas_rsvp_summary =
  or_attending_members :: "oas_member_summary list"
  or_attending_rigs :: int
  or_capacity_rigs :: "int optional"
  or_not_attending_members :: "oas_member_summary list"

record oas_trip_summary =
  ot_attending_rigs :: "int optional"
  ot_capacity_rigs :: "int optional"
  ot_draft_visibility :: "draft_visibility option"
  ot_end_date :: "gotime optional"
  ot_name :: "gostring optional"
  ot_start_date :: "gotime optional"
  ot_status :: trip_status
  ot_trip_id :: gostring

record oas_trip_details =
  ox_artifacts :: "oas_trip_artifact list"
  ox_capacity_rigs :: "int optional"
  ox_comms_requirements_text :: "gostring optional"
  ox_description :: "gostring optional"
  ox_difficulty_text :: "gostring optional"
  ox_draft_visibility :: "draft_visibility option"
  ox_end_date :: "gotime optional"
  ox_meeting_location :: "oas_location option"
  ox_my_rsvp :: "oas_my_rsvp option"
  ox_name :: "gostring optional"
  ox_organizers :: "oas_member_summary list"
  ox_recommended_requirements_text :: "gostring optional"
  ox_rsvp_actions_enabled :: bool
  ox_rsvp_summary :: "oas_rsvp_summary option"
  ox_start_date :: "gotime optional"
  ox_status :: trip_status
  ox_trip_id :: gostring

record oas_trip_created =
  oc_draft_visibility :: draft_visibility
  oc_status :: trip_status
  oc_trip_id :: gostring

section \<open>Requests\<close>

record oas_create_member =
  ocm_display_name :: gostring
  ocm_email :: gostring
  ocm_group_alias_email :: "gostring optional"
  ocm_vehicle_profile :: "oas_vehicle_profile option"

record oas_update_member =
  oum_display_name :: "gostring optional"
  oum_email :: "gostring option"
  oum_group_alias_email :: "gostring optional"
  oum_vehicle_profile :: "oas_vehicle_profile option"

record oas_location_patch =
  olp_address :: "gostring optional"
  olp_label :: "gostring optional"
  olp_latitude_longitude :: "(float64 optional \<times> float64 optional) optional"

record oas_update_trip =
  out_artifact_ids :: "gostring list optional"
  out_capacity_rigs :: "int optional"
  out_comms_requirements_text :: "gostring optional"
  out_description :: "gostring optional"
  out_difficulty_text :: "gostring optional"
  out_end_date :: "gotime optional"
  out_meeting_location :: "oas_location_patch option"
  out_name :: "gostring option"
  out_recommended_requirements_text :: "gostring optional"
  out_start_date :: "gotime optional"

section \<open>From the domain\<close>

text \<open>\<open>nullableString\<close>, \<open>nullableInt\<close>, \<open>nullableDate\<close>: a nil pointer stays unspecified.\<close>

fun nullable_ptr :: "'a option \<Rightarrow> 'a optional" where
  "nullable_ptr None = Unspecified"
| "nullable_ptr (Some v) = Specified v"

definition memberSummaryFromDomain :: "member_summary \<Rightarrow> oas_member_summary" where
  "memberSummaryFromDomain m =
     \<lparr>os_display_name = ms_display_name m, os_email = ms_email m,
      os_group_alias_email = nullable_ptr (ms_group_alias_email m), os_member_id = ms_id m\<rparr>"

definition tripArtifactFromDomain :: "trip_artifact \<Rightarrow> oas_trip_artifact" where
  "tripArtifactFromDomain a =
     \<lparr>oa_artifact_id = art_id a, oa_title = art_title a, oa_type = art_type a, oa_url = art_url a\<rparr>"

definition locationFromDomain :: "location \<Rightarrow> oas_location" where
  "locationFromDomain l =
     \<lparr>ol_address = nullable_ptr (loc_address l), ol_label = loc_label l,
      ol_latitude_longitude =
        (if loc_latitude l \<noteq> None \<or> loc_longitude l \<noteq> None
         then Specified (loc_latitude l, loc_longitude l) else Unspecified)\<rparr>"

definition myRSVPFromDomain :: "my_rsvp \<Rightarrow> oas_my_rsvp" where
  "myRSVPFromDomain m =
     \<lparr>om_member_id = my_member m, om_response = my_response m, om_trip_id = my_trip m,
      om_updated_at = my_updated_at m\<rparr>"

definition tripRSVPSummaryFromDomain :: "trip_rsvp_summary \<Rightarrow> oas_rsvp_summary" where
  "tripRSVPSummaryFromDomain s =
     \<lparr>or_attending_members = map memberSummaryFromDomain (sum_attending_members s),
      or_attending_rigs = sum_attending_rigs s,
      or_capacity_rigs = nullable_ptr (sum_capacity_rigs s),
      or_not_attending_members = map memberSummaryFromDomain (sum_not_attending_members s)\<rparr>"

definition tripSummaryFromDomain :: "trip_summary \<Rightarrow> oas_trip_summary" where
  "tripSummaryFromDomain t =
     \<lparr>ot_attending_rigs = nullable_ptr (ts_attending_rigs t),
      ot_capacity_rigs = nullable_ptr (ts_capacity_rigs t),
      ot_draft_visibility = ts_draft_visibility t, ot_end_date = nullable_ptr (ts_end_date t),
      ot_name = nullable_ptr (ts_name t), ot_start_date = nullable_ptr (ts_start_date t),
      ot_status = ts_status t, ot_trip_id = ts_id t\<rparr>"

definition tripDetailsFromDomain :: "trip_details \<Rightarrow> oas_trip_details" where
  "tripDetailsFromDomain t =
     \<lparr>ox_artifacts = map tripArtifactFromDomain (td_artifacts t),
      ox_capacity_rigs = nullable_ptr (ts_capacity_rigs t),
      ox_comms_requirements_text = nullable_ptr (td_comms_requirements_text t),
      ox_description = nullable_ptr (td_description t),
      ox_difficulty_text = nullable_ptr (td_difficulty_text t),
      ox_draft_visibility = ts_draft_visibility t,
      ox_end_date = nullable_ptr (ts_end_date t),
      ox_meeting_location = map_option locationFromDomain (td_meeting_location t),
      ox_my_rsvp = map_option myRSVPFromDomain (td_my_rsvp t),
      ox_name = nullable_ptr (ts_name t),
      ox_organizers = map memberSummaryFromDomain (td_organizers t),
      ox_recommended_requirements_text = nullable_ptr (td_recommended_requirements_text t),
      ox_rsvp_actions_enabled = td_rsvp_actions_enabled t,
      ox_rsvp_summary = map_option tripRSVPSummaryFromDomain (td_rsvp_summary t),
      ox_start_date = nullable_ptr (ts_start_date t),
      ox_status = ts_status t, ox_trip_id = ts_id t\<rparr>"

definition vehicleProfileFromDomain :: "vehicle_profile \<Rightarrow> oas_vehicle_profile" where
  "vehicleProfileFromDomain vp =
     \<lparr>ov_fuel_range = nullable_ptr (vp_fuel_range vp),
      ov_ham_radio_call_sign = nullable_ptr (vp_ham_radio_call_sign vp),
      ov_lift_lockers = nullable_ptr (vp_lift_lockers vp), ov_make = nullable_ptr (vp_make vp),
      ov_model = nullable_ptr (vp_model vp), ov_notes = nullable_ptr (vp_notes vp),
      ov_recovery_gear = nullable_ptr (vp_recovery_gear vp),
      ov_tire_size = nullable_ptr (vp_tire_size vp)\<rparr>"

definition memberProfileFromDomain :: "member \<Rightarrow> oas_member_profile" where
  "memberProfileFromDomain m =
     \<lparr>op_display_name = m_display_name m, op_email = m_email m,
      op_group_alias_email = nullable_ptr (m_group_alias_email m), op_member_id = m_id m,
      op_vehicle_profile = map_option vehicleProfileFromDomain (m_vehicle_profile m)\<rparr>"

definition directory_entry :: "member \<Rightarrow> oas_directory_entry" where
  "directory_entry m = \<lparr>od_display_name = m_display_name m, od_member_id = m_id m\<rparr>"

section \<open>To the domain\<close>

text \<open>\<open>optionalStringFromNullable\<close> and its five copies: the same tri-state on both sides.\<close>

fun optional_from_nullable :: "'a optional \<Rightarrow> 'a optional" where
  "optional_from_nullable Unspecified = Unspecified"
| "optional_from_nullable Null = Null"
| "optional_from_nullable (Specified v) = Specified v"

definition vehicleProfilePatchFromOAS :: "oas_vehicle_profile \<Rightarrow> vehicle_profile_patch" where
  "vehicleProfilePatchFromOAS vp =
     \<lparr>vpp_make = optional_from_nullable (ov_make vp),
      vpp_model = optional_from_nullable (ov_model vp),
      vpp_tire_size = optional_from_nullable (ov_tire_size vp),
      vpp_lift_lockers = optional_from_nullable (ov_lift_lockers vp),
      vpp_fuel_range = optional_from_nullable (ov_fuel_range vp),
      vpp_recovery_gear = optional_from_nullable (ov_recovery_gear vp),
      vpp_ham_radio_call_sign = optional_from_nullable (ov_ham_radio_call_sign vp),
      vpp_notes = optional_from_nullable (ov_notes vp)\<rparr>"

definition createMemberInputFromOAS :: "oas_create_member \<Rightarrow> create_member_input" where
  "createMemberInputFromOAS b =
     \<lparr>cm_display_name = ocm_display_name b, cm_email = ocm_email b,
      cm_group_alias_email = (case ocm_group_alias_email b of Specified v \<Rightarrow> Some v | _ \<Rightarrow> None),
      cm_vehicle_profile = map_option vehicleProfilePatchFromOAS (ocm_vehicle_profile b)\<rparr>"

definition updateMyMemberProfileInputFromOAS :: "oas_update_member \<Rightarrow> update_member_input" where
  "updateMyMemberProfileInputFromOAS b =
     \<lparr>um_display_name = optional_from_nullable (oum_display_name b),
      um_email = (case oum_email b of None \<Rightarrow> Unspecified | Some e \<Rightarrow> Specified (trim_space e)),
      um_group_alias_email =
        (case oum_group_alias_email b of
           Unspecified \<Rightarrow> Unspecified | Null \<Rightarrow> Null | Specified v \<Rightarrow> Specified (trim_space v)),
      um_vehicle_profile =
        (case oum_vehicle_profile b of
           None \<Rightarrow> Unspecified | Some vp \<Rightarrow> Specified (vehicleProfilePatchFromOAS vp))\<rparr>"

definition location_patch_from_oas :: "oas_location_patch \<Rightarrow> location_patch" where
  "location_patch_from_oas l =
     \<lparr>lp_label = optional_from_nullable (olp_label l),
      lp_address = optional_from_nullable (olp_address l),
      lp_latitude = (case olp_latitude_longitude l of
                       Specified (lat, lon) \<Rightarrow> optional_from_nullable lat | _ \<Rightarrow> Unspecified),
      lp_longitude = (case olp_latitude_longitude l of
                       Specified (lat, lon) \<Rightarrow> optional_from_nullable lon | _ \<Rightarrow> Unspecified),
      lp_clear_coordinates = (case olp_latitude_longitude l of Null \<Rightarrow> True | _ \<Rightarrow> False)\<rparr>"

definition updateTripInputFromOAS :: "oas_update_trip \<Rightarrow> update_trip_input" where
  "updateTripInputFromOAS b =
     \<lparr>ut_name = (case out_name b of None \<Rightarrow> Unspecified | Some n \<Rightarrow> Specified n),
      ut_description = optional_from_nullable (out_description b),
      ut_start_date = optional_from_nullable (out_start_date b),
      ut_end_date = optional_from_nullable (out_end_date b),
      ut_capacity_rigs = optional_from_nullable (out_capacity_rigs b),
      ut_difficulty_text = optional_from_nullable (out_difficulty_text b),
      ut_meeting_location =
        (case out_meeting_location b of
           None \<Rightarrow> Unspecified | Some l \<Rightarrow> Specified (Some (location_patch_from_oas l))),
      ut_comms_requirements_text = optional_from_nullable (out_comms_requirements_text b),
      ut_recommended_requirements_text = optional_from_nullable (out_recommended_requirements_text b),
      ut_artifact_ids = optional_from_nullable (out_artifact_ids b)\<rparr>"

lemma optional_from_nullable_id [simp]: "optional_from_nullable n = n"
  by (cases n) simp_all

lemma apply_nullable_ptr [simp]: "apply_nullable d (nullable_ptr d) = d"
  by (cases d) simp_all

text \<open>Sending back the profile one was shown changes nothing.\<close>

lemma vehicle_profile_echo_lemma:
  "applyVehicleProfilePatch (Some vp) (vehicleProfilePatchFromOAS (vehicleProfileFromDomain vp)) = Some vp"
  by (simp add: applyVehicleProfilePatch_def vehicleProfilePatchFromOAS_def vehicleProfileFromDomain_def)

end
