(* ===== verification/IdemStore.thy ===== *)
theory IdemStore
  imports Domain
begin

text \<open>
  The idempotency store: the port internal/ports/out/idempotency and its in-memory
  implementation (internal/adapters/memory/idempotency/store.go), with the two halves of the
  protocol every mutating handler of internal/adapters/httpapi/server.go runs around its
  service call. \<open>idem_begin\<close> is what happens before the call (the meta record that pins the
  body hash to the key, the conflict, the replay), \<open>idem_finish\<close> what happens after it.

  Both take the store's methods as arguments, as the handlers hold a \<open>Store\<close> interface; the
  locale \<open>idempotency_store\<close> states the methods' contract, and the in-memory store meets it.
\<close>

record fingerprint =
  fp_key :: gostring
  fp_subject :: SubjectID
  fp_method :: gostring
  fp_route :: gostring
  fp_body_hash :: gostring

record idem_record =
  ir_status_code :: nat
  ir_content_type :: gostring
  ir_body :: gostring
  ir_created_at :: gotime

record idem_store =
  is_m :: "(fingerprint, idem_record) gomap"

definition new_idem_store :: idem_store where
  "new_idem_store = \<lparr>is_m = []\<rparr>"

definition idem_get :: "idem_store \<Rightarrow> fingerprint \<Rightarrow> goerror + idem_record option" where
  "idem_get s fp = Inr (map_of (is_m s) fp)"

definition idem_put :: "idem_store \<Rightarrow> fingerprint \<Rightarrow> idem_record \<Rightarrow> idem_store" where
  "idem_put s fp rec = s\<lparr>is_m := AList.update fp rec (is_m s)\<rparr>"

section \<open>The protocol\<close>

datatype 'p idem_outcome = IdemFailed goerror | IdemConflict | IdemReplay 'p | IdemProceed

text \<open>
  \<open>want\<close> is the status of the handler's success response and \<open>decode\<close> is \<open>json.Unmarshal\<close> at
  its payload type. A record that does not decode is ignored, as in the source.
\<close>

definition idem_begin ::
    "('s \<Rightarrow> fingerprint \<Rightarrow> goerror + idem_record option) \<Rightarrow>
     ('s \<Rightarrow> fingerprint \<Rightarrow> idem_record \<Rightarrow> 's) \<Rightarrow> (gostring \<Rightarrow> 'p option) \<Rightarrow> nat \<Rightarrow>
     fingerprint \<Rightarrow> gostring \<Rightarrow> gotime \<Rightarrow> 's \<Rightarrow> 'p idem_outcome \<times> 's" where
  "idem_begin get put decode want meta_fp body_hash now s =
     (let replay = (\<lambda>s.
        case get s (meta_fp\<lparr>fp_body_hash := body_hash\<rparr>) of
          Inl e \<Rightarrow> (IdemFailed e, s)
        | Inr None \<Rightarrow> (IdemProceed, s)
        | Inr (Some rec) \<Rightarrow>
            if ir_status_code rec = want \<and> has_prefix (ir_content_type rec) ''application/json'' then
              (case decode (ir_body rec) of Some p \<Rightarrow> (IdemReplay p, s) | None \<Rightarrow> (IdemProceed, s))
            else (IdemProceed, s))
      in case get s meta_fp of
           Inl e \<Rightarrow> (IdemFailed e, s)
         | Inr (Some meta) \<Rightarrow> if ir_body meta \<noteq> body_hash then (IdemConflict, s) else replay s
         | Inr None \<Rightarrow>
             replay (put s meta_fp \<lparr>ir_status_code = 0, ir_content_type = ''text/plain'',
                                     ir_body = body_hash, ir_created_at = now\<rparr>))"

definition idem_finish ::
    "('s \<Rightarrow> fingerprint \<Rightarrow> idem_record \<Rightarrow> 's) \<Rightarrow> ('p \<Rightarrow> gostring option) \<Rightarrow> nat \<Rightarrow>
     fingerprint \<Rightarrow> gostring \<Rightarrow> gotime \<Rightarrow> 'p \<Rightarrow> 's \<Rightarrow> 's" where
  "idem_finish put encode want meta_fp body_hash now p s =
     (case encode p of
        None \<Rightarrow> s
      | Some b \<Rightarrow> put s (meta_fp\<lparr>fp_body_hash := body_hash\<rparr>)
                   \<lparr>ir_status_code = want, ir_content_type = ''application/json'',
                    ir_body = b, ir_created_at = now\<rparr>)"

section \<open>The port\<close>

locale idempotency_store =
  fixes get :: "'s \<Rightarrow> fingerprint \<Rightarrow> goerror + idem_record option"
    and put :: "'s \<Rightarrow> fingerprint \<Rightarrow> idem_record \<Rightarrow> 's"
    and stored :: "idem_record \<Rightarrow> idem_record"
  assumes get_total: "\<exists>x. get s fp = Inr x"
    and get_put: "ir_status_code rec < 2 ^ 31 \<Longrightarrow> get (put s fp rec) fp = Inr (Some (stored rec))"
    and put_frame: "fp' \<noteq> fp \<Longrightarrow> get (put s fp rec) fp' = get s fp'"
    and stored_status: "ir_status_code (stored rec) = ir_status_code rec"
    and stored_type: "ir_content_type (stored rec) = ir_content_type rec"
    and stored_body: "ir_body (stored rec) = ir_body rec"
begin

lemmas stored_fields = stored_status stored_type stored_body

text \<open>A key is pinned to a body hash when its meta record holds that hash.\<close>

lemma begin_pins:
  assumes "idem_begin get put decode want fp h now s = (out, s')" and "out \<noteq> IdemConflict"
    and "fp_body_hash fp = ''''" and "h \<noteq> ''''"
  shows "\<exists>meta. get s' fp = Inr (Some meta) \<and> ir_body meta = h"
proof -
  obtain x where x: "get s fp = Inr x" using get_total by blast
  show ?thesis
    using assms x
    by (cases x)
       (auto simp: idem_begin_def Let_def get_put put_frame stored_fields split: sum.splits option.splits if_splits)
qed

text \<open>A pinned key rejects every other body and then changes nothing.\<close>

lemma begin_conflict:
  assumes "get s fp = Inr (Some meta)" and "ir_body meta \<noteq> h"
  shows "idem_begin get put decode want fp h now s = (IdemConflict, s)"
  using assms by (simp add: idem_begin_def)

text \<open>A stored response is replayed, and a replay changes nothing.\<close>

lemma begin_replay:
  assumes "get s fp = Inr (Some meta)" and "ir_body meta = h"
    and "get s (fp\<lparr>fp_body_hash := h\<rparr>) = Inr (Some rec)" and "ir_status_code rec = want"
    and "ir_content_type rec = ''application/json''" and "decode (ir_body rec) = Some p"
  shows "idem_begin get put decode want fp h now s = (IdemReplay p, s)"
  using assms by (simp add: idem_begin_def has_prefix_iff)

lemma finish_stores:
  assumes "encode p = Some b" and "fp_body_hash fp = ''''" and "h \<noteq> ''''"
    and "get s fp = Inr (Some meta)" and "ir_body meta = h" and "want < 2 ^ 31"
    and "s' = idem_finish put encode want fp h now p s"
  shows "get s' fp = Inr (Some meta)"
    and "get s' (fp\<lparr>fp_body_hash := h\<rparr>) =
      Inr (Some (stored \<lparr>ir_status_code = want, ir_content_type = ''application/json'',
                         ir_body = b, ir_created_at = now\<rparr>))"
proof -
  have "fp \<noteq> fp\<lparr>fp_body_hash := h\<rparr>" using assms(2,3) by (metis fingerprint.select_convs(5)
        fingerprint.surjective fingerprint.update_convs(5))
  then show "get s' fp = Inr (Some meta)"
    and "get s' (fp\<lparr>fp_body_hash := h\<rparr>) =
      Inr (Some (stored \<lparr>ir_status_code = want, ir_content_type = ''application/json'',
                         ir_body = b, ir_created_at = now\<rparr>))"
    using assms by (simp_all add: idem_finish_def get_put put_frame)
qed

text \<open>The two halves together: once a response is stored, the same request replays it and any
  other body under the key is a conflict, whatever the time of the retry.\<close>

lemma finished_replays:
  assumes "idem_begin get put decode want fp h now s = (IdemProceed, s1)"
    and "encode p = Some b" and "decode b = Some p" and "fp_body_hash fp = ''''" and "h \<noteq> ''''"
    and "want < 2 ^ 31" and s2: "s2 = idem_finish put encode want fp h now' p s1"
  shows "idem_begin get put decode want fp h now'' s2 = (IdemReplay p, s2)"
    and "h' \<noteq> h \<Longrightarrow> idem_begin get put decode want fp h' now'' s2 = (IdemConflict, s2)"
proof -
  obtain meta where meta: "get s1 fp = Inr (Some meta)" "ir_body meta = h"
    using begin_pins [OF assms(1)] assms(4,5) by blast
  note st = finish_stores [OF assms(2,4,5) meta assms(6) s2]
  show "idem_begin get put decode want fp h now'' s2 = (IdemReplay p, s2)"
    by (rule begin_replay [OF st(1) meta(2) st(2)]) (simp_all add: assms(3) stored_fields)
  show "h' \<noteq> h \<Longrightarrow> idem_begin get put decode want fp h' now'' s2 = (IdemConflict, s2)"
    by (rule begin_conflict [OF st(1)]) (auto simp: meta(2))
qed

lemma begin_never_fails: "idem_begin get put decode want fp h now s \<noteq> (IdemFailed e, s')"
proof -
  have "get u f \<noteq> Inl x" for u f x using get_total [of u f] by auto
  then show ?thesis
    by (auto simp: idem_begin_def Let_def split: sum.splits option.splits if_splits)
qed

text \<open>Only the request's own two fingerprints are written.\<close>

lemma begin_frame:
  "idem_begin get put decode want fp h now s = (out, s') \<Longrightarrow> fp' \<noteq> fp \<Longrightarrow> get s' fp' = get s fp'"
  by (auto simp: idem_begin_def Let_def put_frame split: sum.splits option.splits if_splits)

lemma finish_frame:
  "fp' \<noteq> fp\<lparr>fp_body_hash := h\<rparr> \<Longrightarrow>
   get (idem_finish put encode want fp h now p s) fp' = get s fp'"
  by (simp add: idem_finish_def put_frame split: option.split)

end

interpretation istore: idempotency_store idem_get idem_put "\<lambda>rec. rec"
  by unfold_locales (auto simp: idem_get_def idem_put_def)

end
