(* ===== verification/HttpServer.thy ===== *)
theory HttpServer
  imports Oas IdemStore
begin

text \<open>
  The handlers of internal/adapters/httpapi/server.go. The server holds the repositories (the
  \<open>world\<close>) and, unless it is nil, the idempotency store. A handler returns a response of the
  generated layer or a bare Go error, which the router's \<open>ResponseErrorHandlerFunc\<close> turns into a
  500; it is a function of the request context (authenticated subject, request ID), the clock
  readings and generated IDs, and the server state.

  JSON encoding and decoding of the generated types and the SHA-256 digest of an encoded body
  rest on third-party types and are the fields of \<open>json_env\<close>.
\<close>

record server =
  sv_world :: world
  sv_idem :: "idem_store option"

record req_context =
  cx_subject :: "gostring option"   \<comment> \<open>the value stored by the authentication middleware\<close>
  cx_request_id :: gostring

text \<open>The readings one request may take, in program order, and the ID a creation would get.\<close>

record readings =
  rd_meta :: gotime
  rd_now1 :: gotime
  rd_now2 :: gotime
  rd_store :: gotime
  rd_new_id :: gostring

datatype payload =
    PMembers "oas_directory_entry list"
  | PProfile oas_member_profile
  | PTrips "oas_trip_summary list"
  | PTrip oas_trip_details
  | PCreated oas_trip_created
  | PPublished oas_trip_details gostring
  | PRsvp oas_my_rsvp
  | PSummary oas_rsvp_summary

datatype reply = Reply nat payload | Failure nat error_response | RawError goerror

text \<open>The canonical bodies the seven \<open>hash...Body\<close> functions marshal.\<close>

datatype hash_input =
    HashUpdateMember oas_update_member
  | HashCreateTripDraft gostring
  | HashUpdateTrip TripID oas_update_trip
  | HashSetVisibility TripID draft_visibility
  | HashAddOrganizer TripID MemberID
  | HashRemoveOrganizer TripID MemberID
  | HashCancel TripID
  | HashSetRsvp TripID rsvp_response

datatype payload_type = TProfile | TTrip | TCreated | TRsvp

record json_env =
  js_digest :: "hash_input \<Rightarrow> goerror + gostring"        \<comment> \<open>\<open>json.Marshal\<close>, then hex SHA-256\<close>
  js_encode :: "payload \<Rightarrow> gostring option"
  js_decode :: "payload_type \<Rightarrow> gostring \<Rightarrow> payload option"  \<comment> \<open>\<open>json.Unmarshal\<close> into that type\<close>

section \<open>Context and errors\<close>

definition SubjectFromContext :: "req_context \<Rightarrow> gostring option" where
  "SubjectFromContext cx =
     (case cx_subject cx of Some v \<Rightarrow> if v \<noteq> '''' then Some v else None | None \<Rightarrow> None)"

definition oasError :: "req_context \<Rightarrow> gostring \<Rightarrow> gostring \<Rightarrow> (gostring \<times> detail) list option \<Rightarrow> error_response" where
  "oasError cx code msg details =
     \<lparr>er_code = code, er_message = msg,
      er_details = (case details of None \<Rightarrow> Unspecified | Some ds \<Rightarrow> Specified ds),
      er_request_id = (if cx_request_id cx \<noteq> '''' then Specified (cx_request_id cx) else Unspecified)\<rparr>"

definition app_failure :: "req_context \<Rightarrow> nat \<Rightarrow> app_error \<Rightarrow> reply" where
  "app_failure cx st ae = Failure st (oasError cx (ae_code ae) (ae_message ae) (ae_details ae))"

fun isMemberNotProvisioned :: "goerror \<Rightarrow> bool" where
  "isMemberNotProvisioned (MembersError ae) = (ae_code ae = ''MEMBER_NOT_PROVISIONED'')"
| "isMemberNotProvisioned _ = False"

definition unauthorized :: "req_context \<Rightarrow> reply" where
  "unauthorized cx = Failure 401 (oasError cx ''UNAUTHORIZED'' ''missing subject'' None)"

definition not_provisioned :: "req_context \<Rightarrow> reply" where
  "not_provisioned cx = Failure 401 (oasError cx ''MEMBER_NOT_PROVISIONED''
     ''No member profile exists for the authenticated subject.'' None)"

definition missing_body :: "req_context \<Rightarrow> reply" where
  "missing_body cx = Failure 422 (oasError cx ''VALIDATION_ERROR'' ''missing request body'' None)"

definition key_reuse :: "req_context \<Rightarrow> reply" where
  "key_reuse cx = Failure 409 (oasError cx ''IDEMPOTENCY_KEY_REUSE''
     ''idempotency key reuse with different payload'' None)"

text \<open>The two guards every handler starts with.\<close>

definition with_subject :: "req_context \<Rightarrow> server \<Rightarrow> (SubjectID \<Rightarrow> reply \<times> server) \<Rightarrow> reply \<times> server" where
  "with_subject cx sv f =
     (case SubjectFromContext cx of None \<Rightarrow> (unauthorized cx, sv) | Some sub \<Rightarrow> f sub)"

definition with_member ::
    "req_context \<Rightarrow> server \<Rightarrow> (SubjectID \<Rightarrow> member \<Rightarrow> reply \<times> server) \<Rightarrow> reply \<times> server" where
  "with_member cx sv f =
     with_subject cx sv (\<lambda>sub.
       case GetMyMemberProfile (w_members (sv_world sv)) sub of
         Inl e \<Rightarrow> (if isMemberNotProvisioned e then not_provisioned cx else RawError e, sv)
       | Inr me \<Rightarrow> f sub me)"

definition with_body :: "req_context \<Rightarrow> server \<Rightarrow> 'b option \<Rightarrow> ('b \<Rightarrow> reply \<times> server) \<Rightarrow> reply \<times> server" where
  "with_body cx sv body f = (case body of None \<Rightarrow> (missing_body cx, sv) | Some b \<Rightarrow> f b)"

text \<open>
  Mapping a service error: \<open>status\<close> is the handler's switch on the error's status, \<open>None\<close> its
  default branch.
\<close>

fun trips_failure :: "req_context \<Rightarrow> (nat \<Rightarrow> nat option) \<Rightarrow> goerror \<Rightarrow> reply" where
  "trips_failure cx status (TripsError ae) =
     (case status (ae_status ae) of Some st \<Rightarrow> app_failure cx st ae | None \<Rightarrow> RawError (TripsError ae))"
| "trips_failure cx status e = RawError e"

fun members_failure :: "req_context \<Rightarrow> (nat \<Rightarrow> nat option) \<Rightarrow> goerror \<Rightarrow> reply" where
  "members_failure cx status (MembersError ae) =
     (case status (ae_status ae) of Some st \<Rightarrow> app_failure cx st ae | None \<Rightarrow> RawError (MembersError ae))"
| "members_failure cx status e = RawError e"

definition same_status :: "nat list \<Rightarrow> nat \<Rightarrow> nat option" where
  "same_status sts st = (if st \<in> set sts then Some st else None)"

text \<open>The switch of \<open>CreateTripDraft\<close>, which reports a 404 as a conflict.\<close>

definition create_status :: "nat \<Rightarrow> nat option" where
  "create_status st = (if st = 409 \<or> st = 404 then Some 409 else if st = 422 then Some 422 else None)"

section \<open>Body hashes\<close>

definition hashUpdateMyMemberProfileBody :: "json_env \<Rightarrow> oas_update_member \<Rightarrow> goerror + gostring" where
  "hashUpdateMyMemberProfileBody js b =
     js_digest js (HashUpdateMember
       (b\<lparr>oum_display_name := (case oum_display_name b of
              Specified v \<Rightarrow> Specified (NormalizeHumanName v) | n \<Rightarrow> n),
          oum_email := map_option trim_space (oum_email b),
          oum_group_alias_email := (case oum_group_alias_email b of
              Specified v \<Rightarrow> Specified (trim_space v) | n \<Rightarrow> n)\<rparr>))"

definition hashCreateTripDraftBody :: "json_env \<Rightarrow> gostring \<Rightarrow> goerror + gostring" where
  "hashCreateTripDraftBody js name = js_digest js (HashCreateTripDraft (NormalizeHumanName name))"

definition hashUpdateTripBody :: "json_env \<Rightarrow> TripID \<Rightarrow> oas_update_trip \<Rightarrow> goerror + gostring" where
  "hashUpdateTripBody js tid b =
     js_digest js (HashUpdateTrip tid (b\<lparr>out_name := map_option NormalizeHumanName (out_name b)\<rparr>))"

definition hashSetTripDraftVisibilityBody :: "json_env \<Rightarrow> TripID \<Rightarrow> draft_visibility \<Rightarrow> goerror + gostring" where
  "hashSetTripDraftVisibilityBody js tid dv = js_digest js (HashSetVisibility tid dv)"

definition hashAddTripOrganizerBody :: "json_env \<Rightarrow> TripID \<Rightarrow> MemberID \<Rightarrow> goerror + gostring" where
  "hashAddTripOrganizerBody js tid m = js_digest js (HashAddOrganizer tid m)"

definition hashRemoveTripOrganizerBody :: "json_env \<Rightarrow> TripID \<Rightarrow> MemberID \<Rightarrow> goerror + gostring" where
  "hashRemoveTripOrganizerBody js tid m = js_digest js (HashRemoveOrganizer tid m)"

definition hashCancelTripBody :: "json_env \<Rightarrow> TripID \<Rightarrow> goerror + gostring" where
  "hashCancelTripBody js tid = js_digest js (HashCancel tid)"

definition hashSetMyRSVPBody :: "json_env \<Rightarrow> TripID \<Rightarrow> rsvp_response \<Rightarrow> goerror + gostring" where
  "hashSetMyRSVPBody js tid r = js_digest js (HashSetRsvp tid r)"

definition with_hash :: "server \<Rightarrow> goerror + gostring \<Rightarrow> (gostring \<Rightarrow> reply \<times> server) \<Rightarrow> reply \<times> server" where
  "with_hash sv h f = (case h of Inl e \<Rightarrow> (RawError e, sv) | Inr x \<Rightarrow> f x)"

section \<open>The idempotency protocol around a call\<close>

text \<open>
  \<open>want\<close> is the status of the success response, \<open>ty\<close> the type a stored response is decoded into,
  \<open>storing\<close> whether the response is stored. \<open>run\<close> is the service call with its error mapping.
\<close>

definition idempotent ::
    "json_env \<Rightarrow> req_context \<Rightarrow> readings \<Rightarrow> nat \<Rightarrow> payload_type \<Rightarrow> bool \<Rightarrow> fingerprint \<Rightarrow> gostring \<Rightarrow>
     server \<Rightarrow> (world \<Rightarrow> reply \<times> world) \<Rightarrow> reply \<times> server" where
  "idempotent js cx rd want ty storing fp h sv run =
     (case sv_idem sv of
        None \<Rightarrow> let (rep, w') = run (sv_world sv) in (rep, sv\<lparr>sv_world := w'\<rparr>)
      | Some st \<Rightarrow>
          (case idem_begin idem_get idem_put (js_decode js ty) want fp h (rd_meta rd) st of
             (IdemFailed e, st') \<Rightarrow> (RawError e, sv\<lparr>sv_idem := Some st'\<rparr>)
           | (IdemConflict, st') \<Rightarrow> (key_reuse cx, sv\<lparr>sv_idem := Some st'\<rparr>)
           | (IdemReplay p, st') \<Rightarrow> (Reply want p, sv\<lparr>sv_idem := Some st'\<rparr>)
           | (IdemProceed, st') \<Rightarrow>
               let (rep, w') = run (sv_world sv);
                   st'' = (case rep of
                             Reply _ p \<Rightarrow>
                               if storing then idem_finish idem_put (js_encode js) want fp h (rd_store rd) p st'
                               else st'
                           | _ \<Rightarrow> st')
               in (rep, sv\<lparr>sv_world := w', sv_idem := Some st''\<rparr>)))"

definition trips_call ::
    "req_context \<Rightarrow> (nat \<Rightarrow> nat option) \<Rightarrow> nat \<Rightarrow> ('a \<Rightarrow> payload) \<Rightarrow> 'a outcome \<Rightarrow> reply \<times> world" where
  "trips_call cx status want render r =
     (case r of (Inl e, w') \<Rightarrow> (trips_failure cx status e, w') | (Inr x, w') \<Rightarrow> (Reply want (render x), w'))"

text \<open>A query: the service reads the world, no idempotency.\<close>

definition trips_query ::
    "req_context \<Rightarrow> (nat \<Rightarrow> nat option) \<Rightarrow> ('a \<Rightarrow> payload) \<Rightarrow> server \<Rightarrow> goerror + 'a \<Rightarrow> reply \<times> server" where
  "trips_query cx status render sv r = (fst (trips_call cx status 200 render (r, sv_world sv)), sv)"

definition meta_fp :: "gostring \<Rightarrow> SubjectID \<Rightarrow> gostring \<Rightarrow> gostring \<Rightarrow> fingerprint" where
  "meta_fp key sub method route =
     \<lparr>fp_key = key, fp_subject = sub, fp_method = method, fp_route = route, fp_body_hash = ''''\<rparr>"


section \<open>Members\<close>

definition handle_ListMembers :: "go_env \<Rightarrow> req_context \<Rightarrow> bool option \<Rightarrow> server \<Rightarrow> reply \<times> server" where
  "handle_ListMembers env cx include_inactive sv =
     with_member cx sv (\<lambda>sub me.
       let inactive = (case include_inactive of None \<Rightarrow> False | Some b \<Rightarrow> b) in
       (Reply 200 (PMembers (map directory_entry
          (ListMembers env (w_members (sv_world sv)) sub inactive))), sv))"

definition handle_SearchMembers :: "go_env \<Rightarrow> req_context \<Rightarrow> gostring \<Rightarrow> server \<Rightarrow> reply \<times> server" where
  "handle_SearchMembers env cx q sv =
     with_member cx sv (\<lambda>sub me.
       case SearchMembers env (w_members (sv_world sv)) q of
         Inl e \<Rightarrow> (members_failure cx (same_status [422]) e, sv)
       | Inr ms \<Rightarrow> (Reply 200 (PMembers (map directory_entry ms)), sv))"

definition handle_CreateMyMember ::
    "go_env \<Rightarrow> req_context \<Rightarrow> readings \<Rightarrow> oas_create_member option \<Rightarrow> server \<Rightarrow> reply \<times> server" where
  "handle_CreateMyMember env cx rd body sv =
     with_subject cx sv (\<lambda>sub.
     with_body cx sv body (\<lambda>b.
       case CreateMyMember env (w_members (sv_world sv)) sub (createMemberInputFromOAS b)
              (rd_now1 rd) (rd_new_id rd) of
         Inl e \<Rightarrow> (members_failure cx (same_status [409, 422]) e, sv)
       | Inr (m, ms) \<Rightarrow> (Reply 201 (PProfile (memberProfileFromDomain m)),
                         sv\<lparr>sv_world := (sv_world sv)\<lparr>w_members := ms\<rparr>\<rparr>)))"

definition handle_GetMyMemberProfile :: "req_context \<Rightarrow> server \<Rightarrow> reply \<times> server" where
  "handle_GetMyMemberProfile cx sv =
     with_subject cx sv (\<lambda>sub.
       case GetMyMemberProfile (w_members (sv_world sv)) sub of
         Inl e \<Rightarrow> (members_failure cx (same_status [404]) e, sv)
       | Inr m \<Rightarrow> (Reply 200 (PProfile (memberProfileFromDomain m)), sv))"

definition handle_UpdateMyMemberProfile ::
    "go_env \<Rightarrow> json_env \<Rightarrow> req_context \<Rightarrow> readings \<Rightarrow> gostring \<Rightarrow> oas_update_member option \<Rightarrow>
     server \<Rightarrow> reply \<times> server" where
  "handle_UpdateMyMemberProfile env js cx rd key body sv =
     with_subject cx sv (\<lambda>sub.
     with_body cx sv body (\<lambda>b.
     with_hash sv (hashUpdateMyMemberProfileBody js b) (\<lambda>h.
       idempotent js cx rd 200 TProfile True (meta_fp key sub ''PATCH'' ''/members/me'') h sv (\<lambda>w.
         case UpdateMyMemberProfile env (w_members w) sub (updateMyMemberProfileInputFromOAS b) (rd_now1 rd) of
           Inl e \<Rightarrow> (members_failure cx (same_status [404, 409, 422]) e, w)
         | Inr (m, ms) \<Rightarrow> (Reply 200 (PProfile (memberProfileFromDomain m)), w\<lparr>w_members := ms\<rparr>)))))"

section \<open>Trips: queries\<close>

definition handle_ListVisibleTripsForMember :: "req_context \<Rightarrow> server \<Rightarrow> reply \<times> server" where
  "handle_ListVisibleTripsForMember cx sv =
     with_member cx sv (\<lambda>sub me.
       (Reply 200 (PTrips (map tripSummaryFromDomain (ListVisibleTripsForMember (sv_world sv)))), sv))"

definition handle_ListMyDraftTrips :: "req_context \<Rightarrow> server \<Rightarrow> reply \<times> server" where
  "handle_ListMyDraftTrips cx sv =
     with_member cx sv (\<lambda>sub me.
       (Reply 200 (PTrips (map tripSummaryFromDomain (ListMyDraftTrips (sv_world sv) (m_id me)))), sv))"

definition handle_GetTripDetails :: "go_env \<Rightarrow> req_context \<Rightarrow> TripID \<Rightarrow> server \<Rightarrow> reply \<times> server" where
  "handle_GetTripDetails env cx tid sv =
     with_member cx sv (\<lambda>sub me.
       trips_query cx (same_status [404]) (\<lambda>d. PTrip (tripDetailsFromDomain d)) sv
         (GetTripDetails env (sv_world sv) (m_id me) tid))"

definition handle_GetMyRSVPForTrip :: "req_context \<Rightarrow> TripID \<Rightarrow> server \<Rightarrow> reply \<times> server" where
  "handle_GetMyRSVPForTrip cx tid sv =
     with_member cx sv (\<lambda>sub me.
       trips_query cx (same_status [404, 409]) (\<lambda>m. PRsvp (myRSVPFromDomain m)) sv
         (GetMyRSVPForTrip (sv_world sv) (m_id me) tid))"

definition handle_GetTripRSVPSummary :: "go_env \<Rightarrow> req_context \<Rightarrow> TripID \<Rightarrow> server \<Rightarrow> reply \<times> server" where
  "handle_GetTripRSVPSummary env cx tid sv =
     with_member cx sv (\<lambda>sub me.
       trips_query cx (same_status [404, 409]) (\<lambda>s. PSummary (tripRSVPSummaryFromDomain s)) sv
         (GetTripRSVPSummary env (sv_world sv) (m_id me) tid))"

section \<open>Trips: changes\<close>

definition render_trip :: "trip_details \<Rightarrow> payload" where
  "render_trip d = PTrip (tripDetailsFromDomain d)"

definition render_created :: "trip_created \<Rightarrow> payload" where
  "render_created c = PCreated \<lparr>oc_draft_visibility = tc_draft_visibility c, oc_status = tc_status c,
     oc_trip_id = tc_id c\<rparr>"

definition render_published :: "trip_details \<times> gostring \<Rightarrow> payload" where
  "render_published r = PPublished (tripDetailsFromDomain (fst r)) (snd r)"

definition handle_CreateTripDraft ::
    "json_env \<Rightarrow> req_context \<Rightarrow> readings \<Rightarrow> gostring \<Rightarrow> gostring option \<Rightarrow> server \<Rightarrow> reply \<times> server" where
  "handle_CreateTripDraft js cx rd key body sv =
     with_member cx sv (\<lambda>sub me.
     with_body cx sv body (\<lambda>name.
     with_hash sv (hashCreateTripDraftBody js name) (\<lambda>h.
       idempotent js cx rd 201 TCreated True (meta_fp key sub ''POST'' ''/trips'') h sv (\<lambda>w.
         trips_call cx create_status 201 render_created
           (CreateTripDraft w (m_id me) name (rd_now1 rd) (rd_new_id rd))))))"

definition handle_UpdateTrip ::
    "go_env \<Rightarrow> json_env \<Rightarrow> req_context \<Rightarrow> readings \<Rightarrow> gostring \<Rightarrow> TripID \<Rightarrow> oas_update_trip option \<Rightarrow>
     server \<Rightarrow> reply \<times> server" where
  "handle_UpdateTrip env js cx rd key tid body sv =
     with_member cx sv (\<lambda>sub me.
     with_body cx sv body (\<lambda>b.
     with_hash sv (hashUpdateTripBody js tid b) (\<lambda>h.
       idempotent js cx rd 200 TTrip True (meta_fp key sub ''PATCH'' ''/trips/{tripId}'') h sv (\<lambda>w.
         trips_call cx (same_status [404, 409, 422]) 200 render_trip
           (UpdateTrip env w (m_id me) tid (updateTripInputFromOAS b) (rd_now1 rd))))))"

definition handle_SetTripDraftVisibility ::
    "go_env \<Rightarrow> json_env \<Rightarrow> req_context \<Rightarrow> readings \<Rightarrow> gostring \<Rightarrow> TripID \<Rightarrow> draft_visibility option \<Rightarrow>
     server \<Rightarrow> reply \<times> server" where
  "handle_SetTripDraftVisibility env js cx rd key tid body sv =
     with_member cx sv (\<lambda>sub me.
     with_body cx sv body (\<lambda>dv.
     with_hash sv (hashSetTripDraftVisibilityBody js tid dv) (\<lambda>h.
       idempotent js cx rd 200 TTrip True (meta_fp key sub ''PUT'' ''/trips/{tripId}/draft-visibility'') h sv (\<lambda>w.
         trips_call cx (same_status [404, 409, 422]) 200 render_trip
           (SetTripDraftVisibility env w (m_id me) tid dv (rd_now1 rd))))))"

definition handle_PublishTrip ::
    "go_env \<Rightarrow> req_context \<Rightarrow> readings \<Rightarrow> TripID \<Rightarrow> server \<Rightarrow> reply \<times> server" where
  "handle_PublishTrip env cx rd tid sv =
     with_member cx sv (\<lambda>sub me.
       let (rep, w') = trips_call cx (same_status [404, 409, 422]) 200 render_published
                         (PublishTrip env (sv_world sv) (m_id me) tid (rd_now1 rd))
       in (rep, sv\<lparr>sv_world := w'\<rparr>))"

text \<open>
  \<open>CancelTrip\<close> takes an optional key; without one the protocol is skipped, and the response is
  stored only under a non-empty key.
\<close>

definition handle_CancelTrip ::
    "go_env \<Rightarrow> json_env \<Rightarrow> req_context \<Rightarrow> readings \<Rightarrow> gostring option \<Rightarrow> TripID \<Rightarrow> server \<Rightarrow> reply \<times> server" where
  "handle_CancelTrip env js cx rd key tid sv =
     with_member cx sv (\<lambda>sub me.
       let run = (\<lambda>w. trips_call cx (same_status [404, 409, 422]) 200 render_trip
                    (CancelTrip env w (m_id me) tid (rd_now1 rd))) in
       case key of
         None \<Rightarrow> let (rep, w') = run (sv_world sv) in (rep, sv\<lparr>sv_world := w'\<rparr>)
       | Some k \<Rightarrow>
           with_hash sv (hashCancelTripBody js tid) (\<lambda>h.
             idempotent js cx rd 200 TTrip (k \<noteq> '''') (meta_fp k sub ''POST'' ''/trips/{tripId}/cancel'') h sv run))"

definition handle_AddTripOrganizer ::
    "go_env \<Rightarrow> json_env \<Rightarrow> req_context \<Rightarrow> readings \<Rightarrow> gostring \<Rightarrow> TripID \<Rightarrow> MemberID option \<Rightarrow>
     server \<Rightarrow> reply \<times> server" where
  "handle_AddTripOrganizer env js cx rd key tid body sv =
     with_member cx sv (\<lambda>sub me.
     with_body cx sv body (\<lambda>m.
     with_hash sv (hashAddTripOrganizerBody js tid m) (\<lambda>h.
       idempotent js cx rd 200 TTrip True (meta_fp key sub ''POST'' ''/trips/{tripId}/organizers'') h sv (\<lambda>w.
         trips_call cx (same_status [404, 409, 422]) 200 render_trip
           (AddTripOrganizer env w (m_id me) tid m (rd_now1 rd))))))"

definition handle_RemoveTripOrganizer ::
    "go_env \<Rightarrow> json_env \<Rightarrow> req_context \<Rightarrow> readings \<Rightarrow> gostring \<Rightarrow> TripID \<Rightarrow> MemberID \<Rightarrow>
     server \<Rightarrow> reply \<times> server" where
  "handle_RemoveTripOrganizer env js cx rd key tid m sv =
     with_member cx sv (\<lambda>sub me.
     with_hash sv (hashRemoveTripOrganizerBody js tid m) (\<lambda>h.
       idempotent js cx rd 200 TTrip True
         (meta_fp key sub ''DELETE'' ''/trips/{tripId}/organizers/{memberId}'') h sv (\<lambda>w.
         trips_call cx (same_status [404, 409, 422]) 200 render_trip
           (RemoveTripOrganizer env w (m_id me) tid m (rd_now1 rd)))))"

definition handle_SetMyRSVP ::
    "json_env \<Rightarrow> req_context \<Rightarrow> readings \<Rightarrow> gostring \<Rightarrow> TripID \<Rightarrow> rsvp_response option \<Rightarrow>
     server \<Rightarrow> reply \<times> server" where
  "handle_SetMyRSVP js cx rd key tid body sv =
     with_member cx sv (\<lambda>sub me.
     with_body cx sv body (\<lambda>r.
     with_hash sv (hashSetMyRSVPBody js tid r) (\<lambda>h.
       idempotent js cx rd 200 TRsvp True (meta_fp key sub ''PUT'' ''/trips/{tripId}/rsvp'') h sv (\<lambda>w.
         trips_call cx (same_status [404, 409, 422]) 200 (\<lambda>m. PRsvp (myRSVPFromDomain m))
           (SetMyRSVP w (m_id me) tid r (rd_now1 rd) (rd_now2 rd))))))"

section \<open>Dispatch\<close>

text \<open>The requests of the API, as the generated layer hands them to the handlers.\<close>

datatype api_request =
    ReqListMembers "bool option"
  | ReqSearchMembers gostring
  | ReqCreateMyMember "oas_create_member option"
  | ReqGetMyMemberProfile
  | ReqUpdateMyMemberProfile gostring "oas_update_member option"
  | ReqListVisibleTrips
  | ReqListMyDraftTrips
  | ReqGetTripDetails TripID
  | ReqCreateTripDraft gostring "gostring option"
  | ReqUpdateTrip gostring TripID "oas_update_trip option"
  | ReqSetVisibility gostring TripID "draft_visibility option"
  | ReqPublishTrip TripID
  | ReqCancelTrip "gostring option" TripID
  | ReqAddOrganizer gostring TripID "MemberID option"
  | ReqRemoveOrganizer gostring TripID MemberID
  | ReqSetMyRSVP gostring TripID "rsvp_response option"
  | ReqGetMyRSVP TripID
  | ReqGetRSVPSummary TripID

fun handle :: "go_env \<Rightarrow> json_env \<Rightarrow> req_context \<Rightarrow> readings \<Rightarrow> api_request \<Rightarrow> server \<Rightarrow> reply \<times> server" where
  "handle env js cx rd (ReqListMembers inactive) = handle_ListMembers env cx inactive"
| "handle env js cx rd (ReqSearchMembers q) = handle_SearchMembers env cx q"
| "handle env js cx rd (ReqCreateMyMember b) = handle_CreateMyMember env cx rd b"
| "handle env js cx rd ReqGetMyMemberProfile = handle_GetMyMemberProfile cx"
| "handle env js cx rd (ReqUpdateMyMemberProfile k b) = handle_UpdateMyMemberProfile env js cx rd k b"
| "handle env js cx rd ReqListVisibleTrips = handle_ListVisibleTripsForMember cx"
| "handle env js cx rd ReqListMyDraftTrips = handle_ListMyDraftTrips cx"
| "handle env js cx rd (ReqGetTripDetails t) = handle_GetTripDetails env cx t"
| "handle env js cx rd (ReqCreateTripDraft k b) = handle_CreateTripDraft js cx rd k b"
| "handle env js cx rd (ReqUpdateTrip k t b) = handle_UpdateTrip env js cx rd k t b"
| "handle env js cx rd (ReqSetVisibility k t b) = handle_SetTripDraftVisibility env js cx rd k t b"
| "handle env js cx rd (ReqPublishTrip t) = handle_PublishTrip env cx rd t"
| "handle env js cx rd (ReqCancelTrip k t) = handle_CancelTrip env js cx rd k t"
| "handle env js cx rd (ReqAddOrganizer k t b) = handle_AddTripOrganizer env js cx rd k t b"
| "handle env js cx rd (ReqRemoveOrganizer k t m) = handle_RemoveTripOrganizer env js cx rd k t m"
| "handle env js cx rd (ReqSetMyRSVP k t b) = handle_SetMyRSVP js cx rd k t b"
| "handle env js cx rd (ReqGetMyRSVP t) = handle_GetMyRSVPForTrip cx t"
| "handle env js cx rd (ReqGetRSVPSummary t) = handle_GetTripRSVPSummary env cx t"

end
