(* ===== verification/HttpPipeline.thy ===== *)
theory HttpPipeline
  imports HttpServer Failures
begin

text \<open>
  The eighteen handlers as one pipeline, the reference the properties of the HTTP adapter are
  proved over: authenticate, resolve the member, check the body, hash it, run the idempotency
  protocol, call the service, map the result. A request is described by what differs between
  the handlers: whether it needs a profile, its fingerprint, its digest, the status and type of
  its response, and the service call. \<open>handle_pipeline\<close> is the equivalence.
\<close>

fun needs_profile :: "api_request \<Rightarrow> bool" where
  "needs_profile (ReqCreateMyMember b) = False"
| "needs_profile ReqGetMyMemberProfile = False"
| "needs_profile (ReqUpdateMyMemberProfile k b) = False"
| "needs_profile _ = True"

text \<open>The meta fingerprint of a request that runs the protocol.\<close>

fun idem_fp :: "SubjectID \<Rightarrow> api_request \<Rightarrow> fingerprint option" where
  "idem_fp sub (ReqUpdateMyMemberProfile k (Some b)) = Some (meta_fp k sub ''PATCH'' ''/members/me'')"
| "idem_fp sub (ReqCreateTripDraft k (Some b)) = Some (meta_fp k sub ''POST'' ''/trips'')"
| "idem_fp sub (ReqUpdateTrip k t (Some b)) = Some (meta_fp k sub ''PATCH'' ''/trips/{tripId}'')"
| "idem_fp sub (ReqSetVisibility k t (Some b)) = Some (meta_fp k sub ''PUT'' ''/trips/{tripId}/draft-visibility'')"
| "idem_fp sub (ReqCancelTrip (Some k) t) = Some (meta_fp k sub ''POST'' ''/trips/{tripId}/cancel'')"
| "idem_fp sub (ReqAddOrganizer k t (Some b)) = Some (meta_fp k sub ''POST'' ''/trips/{tripId}/organizers'')"
| "idem_fp sub (ReqRemoveOrganizer k t m) = Some (meta_fp k sub ''DELETE'' ''/trips/{tripId}/organizers/{memberId}'')"
| "idem_fp sub (ReqSetMyRSVP k t (Some b)) = Some (meta_fp k sub ''PUT'' ''/trips/{tripId}/rsvp'')"
| "idem_fp sub _ = None"

fun body_digest :: "json_env \<Rightarrow> api_request \<Rightarrow> goerror + gostring" where
  "body_digest js (ReqUpdateMyMemberProfile k (Some b)) = hashUpdateMyMemberProfileBody js b"
| "body_digest js (ReqCreateTripDraft k (Some name)) = hashCreateTripDraftBody js name"
| "body_digest js (ReqUpdateTrip k t (Some b)) = hashUpdateTripBody js t b"
| "body_digest js (ReqSetVisibility k t (Some dv)) = hashSetTripDraftVisibilityBody js t dv"
| "body_digest js (ReqCancelTrip k t) = hashCancelTripBody js t"
| "body_digest js (ReqAddOrganizer k t (Some m)) = hashAddTripOrganizerBody js t m"
| "body_digest js (ReqRemoveOrganizer k t m) = hashRemoveTripOrganizerBody js t m"
| "body_digest js (ReqSetMyRSVP k t (Some r)) = hashSetMyRSVPBody js t r"
| "body_digest js _ = Inr ''''"

fun stored_type :: "api_request \<Rightarrow> payload_type" where
  "stored_type (ReqUpdateMyMemberProfile k b) = TProfile"
| "stored_type (ReqCreateTripDraft k b) = TCreated"
| "stored_type (ReqSetMyRSVP k t b) = TRsvp"
| "stored_type _ = TTrip"

fun success_status :: "api_request \<Rightarrow> nat" where
  "success_status (ReqCreateMyMember b) = 201"
| "success_status (ReqCreateTripDraft k b) = 201"
| "success_status _ = 200"

text \<open>Only \<open>CancelTrip\<close> makes storing its response depend on the key.\<close>

fun stores_response :: "api_request \<Rightarrow> bool" where
  "stores_response (ReqCancelTrip k t) = (k \<noteq> Some '''')"
| "stores_response _ = True"

definition members_reply ::
    "req_context \<Rightarrow> nat list \<Rightarrow> nat \<Rightarrow> world \<Rightarrow> goerror + member \<times> member_repo \<Rightarrow> reply \<times> world" where
  "members_reply cx sts want w r =
     (case r of Inl e \<Rightarrow> (members_failure cx (same_status sts) e, w)
      | Inr (m, ms) \<Rightarrow> (Reply want (PProfile (memberProfileFromDomain m)), w\<lparr>w_members := ms\<rparr>))"

fun service_call ::
    "go_env \<Rightarrow> req_context \<Rightarrow> readings \<Rightarrow> SubjectID \<Rightarrow> MemberID \<Rightarrow> api_request \<Rightarrow> world \<Rightarrow> reply \<times> world" where
  "service_call env cx rd sub me (ReqListMembers inactive) = (\<lambda>w.
     (Reply 200 (PMembers (map directory_entry
        (ListMembers env (w_members w) sub (case inactive of None \<Rightarrow> False | Some b \<Rightarrow> b)))), w))"
| "service_call env cx rd sub me (ReqSearchMembers q) = (\<lambda>w.
     (case SearchMembers env (w_members w) q of
        Inl e \<Rightarrow> members_failure cx (same_status [422]) e
      | Inr ms \<Rightarrow> Reply 200 (PMembers (map directory_entry ms)), w))"
| "service_call env cx rd sub me (ReqCreateMyMember None) = (\<lambda>w. (missing_body cx, w))"
| "service_call env cx rd sub me (ReqCreateMyMember (Some b)) = (\<lambda>w.
     members_reply cx [409, 422] 201 w (CreateMyMember env (w_members w) sub (createMemberInputFromOAS b)
       (rd_now1 rd) (rd_new_id rd)))"
| "service_call env cx rd sub me ReqGetMyMemberProfile = (\<lambda>w.
     (case GetMyMemberProfile (w_members w) sub of
        Inl e \<Rightarrow> members_failure cx (same_status [404]) e
      | Inr m \<Rightarrow> Reply 200 (PProfile (memberProfileFromDomain m)), w))"
| "service_call env cx rd sub me (ReqUpdateMyMemberProfile k None) = (\<lambda>w. (missing_body cx, w))"
| "service_call env cx rd sub me (ReqUpdateMyMemberProfile k (Some b)) = (\<lambda>w.
     members_reply cx [404, 409, 422] 200 w (UpdateMyMemberProfile env (w_members w) sub
       (updateMyMemberProfileInputFromOAS b) (rd_now1 rd)))"
| "service_call env cx rd sub me ReqListVisibleTrips = (\<lambda>w.
     (Reply 200 (PTrips (map tripSummaryFromDomain (ListVisibleTripsForMember w))), w))"
| "service_call env cx rd sub me ReqListMyDraftTrips = (\<lambda>w.
     (Reply 200 (PTrips (map tripSummaryFromDomain (ListMyDraftTrips w me))), w))"
| "service_call env cx rd sub me (ReqGetTripDetails t) = (\<lambda>w.
     trips_call cx (same_status [404]) 200 (\<lambda>d. PTrip (tripDetailsFromDomain d)) (GetTripDetails env w me t, w))"
| "service_call env cx rd sub me (ReqCreateTripDraft k None) = (\<lambda>w. (missing_body cx, w))"
| "service_call env cx rd sub me (ReqCreateTripDraft k (Some name)) = (\<lambda>w.
     trips_call cx create_status 201 render_created (CreateTripDraft w me name (rd_now1 rd) (rd_new_id rd)))"
| "service_call env cx rd sub me (ReqUpdateTrip k t None) = (\<lambda>w. (missing_body cx, w))"
| "service_call env cx rd sub me (ReqUpdateTrip k t (Some b)) = (\<lambda>w.
     trips_call cx (same_status [404, 409, 422]) 200 render_trip
       (UpdateTrip env w me t (updateTripInputFromOAS b) (rd_now1 rd)))"
| "service_call env cx rd sub me (ReqSetVisibility k t None) = (\<lambda>w. (missing_body cx, w))"
| "service_call env cx rd sub me (ReqSetVisibility k t (Some dv)) = (\<lambda>w.
     trips_call cx (same_status [404, 409, 422]) 200 render_trip (SetTripDraftVisibility env w me t dv (rd_now1 rd)))"
| "service_call env cx rd sub me (ReqPublishTrip t) = (\<lambda>w.
     trips_call cx (same_status [404, 409, 422]) 200 render_published (PublishTrip env w me t (rd_now1 rd)))"
| "service_call env cx rd sub me (ReqCancelTrip k t) = (\<lambda>w.
     trips_call cx (same_status [404, 409, 422]) 200 render_trip (CancelTrip env w me t (rd_now1 rd)))"
| "service_call env cx rd sub me (ReqAddOrganizer k t None) = (\<lambda>w. (missing_body cx, w))"
| "service_call env cx rd sub me (ReqAddOrganizer k t (Some m)) = (\<lambda>w.
     trips_call cx (same_status [404, 409, 422]) 200 render_trip (AddTripOrganizer env w me t m (rd_now1 rd)))"
| "service_call env cx rd sub me (ReqRemoveOrganizer k t m) = (\<lambda>w.
     trips_call cx (same_status [404, 409, 422]) 200 render_trip (RemoveTripOrganizer env w me t m (rd_now1 rd)))"
| "service_call env cx rd sub me (ReqSetMyRSVP k t None) = (\<lambda>w. (missing_body cx, w))"
| "service_call env cx rd sub me (ReqSetMyRSVP k t (Some r)) = (\<lambda>w.
     trips_call cx (same_status [404, 409, 422]) 200 (\<lambda>m. PRsvp (myRSVPFromDomain m))
       (SetMyRSVP w me t r (rd_now1 rd) (rd_now2 rd)))"
| "service_call env cx rd sub me (ReqGetMyRSVP t) = (\<lambda>w.
     trips_call cx (same_status [404, 409]) 200 (\<lambda>m. PRsvp (myRSVPFromDomain m)) (GetMyRSVPForTrip w me t, w))"
| "service_call env cx rd sub me (ReqGetRSVPSummary t) = (\<lambda>w.
     trips_call cx (same_status [404, 409]) 200 (\<lambda>s. PSummary (tripRSVPSummaryFromDomain s))
       (GetTripRSVPSummary env w me t, w))"

definition run_plain :: "server \<Rightarrow> (world \<Rightarrow> reply \<times> world) \<Rightarrow> reply \<times> server" where
  "run_plain sv run = (fst (run (sv_world sv)), sv\<lparr>sv_world := snd (run (sv_world sv))\<rparr>)"

definition after_guards ::
    "go_env \<Rightarrow> json_env \<Rightarrow> req_context \<Rightarrow> readings \<Rightarrow> SubjectID \<Rightarrow> MemberID \<Rightarrow> api_request \<Rightarrow> server \<Rightarrow> reply \<times> server" where
  "after_guards env js cx rd sub me req sv =
     (case idem_fp sub req of
        None \<Rightarrow> run_plain sv (service_call env cx rd sub me req)
      | Some fp \<Rightarrow>
          with_hash sv (body_digest js req) (\<lambda>h.
            idempotent js cx rd (success_status req) (stored_type req) (stores_response req) fp h sv
              (service_call env cx rd sub me req)))"

definition pipeline ::
    "go_env \<Rightarrow> json_env \<Rightarrow> req_context \<Rightarrow> readings \<Rightarrow> api_request \<Rightarrow> server \<Rightarrow> reply \<times> server" where
  "pipeline env js cx rd req sv =
     (if needs_profile req then with_member cx sv (\<lambda>sub me. after_guards env js cx rd sub (m_id me) req sv)
      else with_subject cx sv (\<lambda>sub. after_guards env js cx rd sub '''' req sv))"

lemma server_same [simp]: "sv\<lparr>sv_world := sv_world sv\<rparr> = sv"
  by (cases sv) simp

lemma trips_call_simps [simp]:
  "trips_call cx status want render (Inl e, w) = (trips_failure cx status e, w)"
  "trips_call cx status want render (Inr x, w) = (Reply want (render x), w)"
  by (simp_all add: trips_call_def)

lemma snd_trips_call [simp]: "snd (trips_call cx status want render r) = snd r"
  by (cases r; cases "fst r") simp_all

lemma with_subject_cong: "(\<And>sub. f sub = g sub) \<Longrightarrow> with_subject cx sv f = with_subject cx sv g"
  by (simp add: with_subject_def cong: option.case_cong)

lemma with_member_cong: "(\<And>sub me. f sub me = g sub me) \<Longrightarrow> with_member cx sv f = with_member cx sv g"
  by (simp add: with_member_def cong: option.case_cong sum.case_cong)

lemma handle_pipeline: "handle env js cx rd req sv = pipeline env js cx rd req sv"
proof -
  note guards = pipeline_def after_guards_def run_plain_def with_body_def trips_query_def members_reply_def
  have "handle env js cx rd req sv = pipeline env js cx rd req sv" if "\<exists>i q b t. req \<in> {ReqListMembers i,
     ReqSearchMembers q, ReqCreateMyMember b, ReqGetMyMemberProfile, ReqListVisibleTrips, ReqListMyDraftTrips,
     ReqGetTripDetails t, ReqPublishTrip t, ReqGetMyRSVP t, ReqGetRSVPSummary t}"
    using that
    by (auto simp: guards handle_ListMembers_def handle_SearchMembers_def handle_CreateMyMember_def
        handle_GetMyMemberProfile_def handle_ListVisibleTripsForMember_def handle_ListMyDraftTrips_def
        handle_GetTripDetails_def handle_PublishTrip_def handle_GetMyRSVPForTrip_def
        handle_GetTripRSVPSummary_def Let_def case_prod_unfold
        intro!: with_member_cong with_subject_cong split: option.split sum.split)
  then show ?thesis
    by (cases req)
       (auto simp: guards handle_UpdateMyMemberProfile_def handle_CreateTripDraft_def handle_UpdateTrip_def
        handle_SetTripDraftVisibility_def handle_CancelTrip_def handle_AddTripOrganizer_def
        handle_RemoveTripOrganizer_def handle_SetMyRSVP_def Let_def case_prod_unfold
        intro!: with_member_cong with_subject_cong split: option.split sum.split)
qed

end
