(* ===== verification/HttpInv.thy ===== *)
theory HttpInv
  imports HttpPipeline
begin

text \<open>
  Library for the HTTP adapter, over the pipeline form of the handlers: how a request is
  admitted, which operation of the planner it performs, how its outcome is answered, and what
  the idempotency protocol does to the store. The protocol's facts come from the
  interpretation of the locale \<open>idempotency_store\<close>.
\<close>

section \<open>Admission\<close>

text \<open>The member ID the services see for an authenticated subject.\<close>

definition acts_as :: "member_repo \<Rightarrow> SubjectID \<Rightarrow> api_request \<Rightarrow> MemberID \<Rightarrow> bool" where
  "acts_as r sub req mid \<longleftrightarrow>
     (if needs_profile req then (\<exists>me. GetMyMemberProfile r sub = Inr me \<and> mid = m_id me) else mid = '''')"

lemma GetMyMemberProfile_cases:
  assumes "wf_member_repo r"
  obtains (missing) "GetMyMemberProfile r sub = Inl member_not_provisioned"
  | (present) me where "GetMyMemberProfile r sub = Inr me" "member_exists r (m_id me)"
proof (cases "member_get_by_subject r sub")
  case (Inl e)
  then show ?thesis using missing get_by_subject_Inl [OF assms, of sub e]
    by (auto simp: GetMyMemberProfile_def)
next
  case (Inr m)
  then have "map_of (mb_by_id r) (mr_id m) = Some m" using mrepo.by_subject_iff [OF assms] by auto
  then show ?thesis using present [of "toDomain m"] Inr
    by (simp add: GetMyMemberProfile_def member_exists_def toDomain_def)
qed

lemma handle_cases:
  assumes "wf_member_repo (w_members (sv_world sv))"
  obtains (unauthenticated) "SubjectFromContext cx = None" "handle env js cx rd req sv = (unauthorized cx, sv)"
  | (unprovisioned) sub where "SubjectFromContext cx = Some sub" "needs_profile req"
      "GetMyMemberProfile (w_members (sv_world sv)) sub = Inl member_not_provisioned"
      "handle env js cx rd req sv = (not_provisioned cx, sv)"
  | (admitted) sub mid where "SubjectFromContext cx = Some sub"
      "acts_as (w_members (sv_world sv)) sub req mid"
      "handle env js cx rd req sv = after_guards env js cx rd sub mid req sv"
proof (cases "SubjectFromContext cx")
  case None
  then show ?thesis using unauthenticated
    by (simp add: handle_pipeline pipeline_def with_member_def with_subject_def)
next
  case (Some sub)
  note h = handle_pipeline pipeline_def with_member_def with_subject_def acts_as_def Some
  show ?thesis
  proof (cases "needs_profile req")
    case False
    then show ?thesis using admitted [of sub "''''"] by (simp add: h)
  next
    case True
    show ?thesis
      by (rule GetMyMemberProfile_cases [OF assms, of sub])
         (use unprovisioned [of sub] admitted [of sub] True in \<open>auto simp: h member_not_provisioned_def app_err_def\<close>)
  qed
qed

lemma handle_admitted:
  assumes "SubjectFromContext cx = Some sub" and "acts_as (w_members (sv_world sv)) sub req mid"
  shows "handle env js cx rd req sv = after_guards env js cx rd sub mid req sv"
  using assms by (auto simp: handle_pipeline pipeline_def with_member_def with_subject_def acts_as_def split: if_splits)

text \<open>The server passed to \<open>after_guards\<close> yields one of four results.\<close>

lemma after_guards_cases:
  obtains (plain) "idem_fp sub req = None"
      "after_guards env js cx rd sub mid req sv = run_plain sv (service_call env cx rd sub mid req)"
  | (unhashed) fp e where "idem_fp sub req = Some fp" "body_digest js req = Inl e" "after_guards env js cx rd sub mid req sv = (RawError e, sv)"
  | (keyed) fp h where "idem_fp sub req = Some fp" "body_digest js req = Inr h"
      "after_guards env js cx rd sub mid req sv =
         idempotent js cx rd (success_status req) (stored_type req) (stores_response req) fp h sv
           (service_call env cx rd sub mid req)"
proof (cases "idem_fp sub req")
  case None
  then show ?thesis using plain by (simp add: after_guards_def)
next
  case (Some fp)
  then show ?thesis using unhashed keyed
    by (cases "body_digest js req") (simp_all add: after_guards_def with_hash_def)
qed

text \<open>The canonical form of a body, whose digest is the body hash.\<close>

fun canonical_body :: "api_request \<Rightarrow> hash_input option" where
  "canonical_body (ReqUpdateMyMemberProfile k (Some b)) = Some (HashUpdateMember
     (b\<lparr>oum_display_name := (case oum_display_name b of Specified v \<Rightarrow> Specified (NormalizeHumanName v) | n \<Rightarrow> n),
        oum_email := map_option trim_space (oum_email b),
        oum_group_alias_email := (case oum_group_alias_email b of Specified v \<Rightarrow> Specified (trim_space v) | n \<Rightarrow> n)\<rparr>))"
| "canonical_body (ReqCreateTripDraft k (Some name)) = Some (HashCreateTripDraft (NormalizeHumanName name))"
| "canonical_body (ReqUpdateTrip k t (Some b)) =
     Some (HashUpdateTrip t (b\<lparr>out_name := map_option NormalizeHumanName (out_name b)\<rparr>))"
| "canonical_body (ReqSetVisibility k t (Some dv)) = Some (HashSetVisibility t dv)"
| "canonical_body (ReqCancelTrip (Some k) t) = Some (HashCancel t)"
| "canonical_body (ReqAddOrganizer k t (Some m)) = Some (HashAddOrganizer t m)"
| "canonical_body (ReqRemoveOrganizer k t m) = Some (HashRemoveOrganizer t m)"
| "canonical_body (ReqSetMyRSVP k t (Some r)) = Some (HashSetRsvp t r)"
| "canonical_body _ = None"

lemma body_digest_canonical:
  "idem_fp sub req = Some fp \<Longrightarrow> \<exists>x. canonical_body req = Some x \<and> body_digest js req = js_digest js x"
  by (cases "(sub, req)" rule: idem_fp.cases)
     (auto simp: hashUpdateMyMemberProfileBody_def hashCreateTripDraftBody_def
       hashUpdateTripBody_def hashSetTripDraftVisibilityBody_def hashCancelTripBody_def
       hashAddTripOrganizerBody_def hashRemoveTripOrganizerBody_def hashSetMyRSVPBody_def)

section \<open>The operation behind a request\<close>

fun request_op :: "readings \<Rightarrow> SubjectID \<Rightarrow> MemberID \<Rightarrow> api_request \<Rightarrow> op option" where
  "request_op rd sub me (ReqCreateMyMember (Some b)) =
     Some (CreateMember sub (createMemberInputFromOAS b) (rd_now1 rd) (rd_new_id rd))"
| "request_op rd sub me (ReqUpdateMyMemberProfile k (Some b)) =
     Some (UpdateMember sub (updateMyMemberProfileInputFromOAS b) (rd_now1 rd))"
| "request_op rd sub me (ReqCreateTripDraft k (Some name)) = Some (DraftTrip me name (rd_now1 rd) (rd_new_id rd))"
| "request_op rd sub me (ReqUpdateTrip k t (Some b)) = Some (EditTrip me t (updateTripInputFromOAS b) (rd_now1 rd))"
| "request_op rd sub me (ReqSetVisibility k t (Some dv)) = Some (SetVisibility me t dv (rd_now1 rd))"
| "request_op rd sub me (ReqPublishTrip t) = Some (Publish me t (rd_now1 rd))"
| "request_op rd sub me (ReqCancelTrip k t) = Some (Cancel me t (rd_now1 rd))"
| "request_op rd sub me (ReqAddOrganizer k t (Some m)) = Some (AddOrganizer me t m (rd_now1 rd))"
| "request_op rd sub me (ReqRemoveOrganizer k t m) = Some (DropOrganizer me t m (rd_now1 rd))"
| "request_op rd sub me (ReqSetMyRSVP k t (Some r)) = Some (Answer me t r (rd_now1 rd) (rd_now2 rd))"
| "request_op rd sub me _ = None"

fun is_success :: "reply \<Rightarrow> bool" where
  "is_success (Reply st p) = True"
| "is_success _ = False"

lemma trips_failure_not_success [simp]: "\<not> is_success (trips_failure cx status e)"
  by (cases e) (auto split: option.split simp: app_failure_def)

lemma members_failure_not_success [simp]: "\<not> is_success (members_failure cx status e)"
  by (cases e) (auto split: option.split simp: app_failure_def)

lemma missing_body_not_success [simp]: "\<not> is_success (missing_body cx)"
  by (simp add: missing_body_def)

lemma is_success_trips_call [simp]: "is_success (fst (trips_call cx status want render r)) \<longleftrightarrow> \<not> isl (fst r)"
  by (cases r; cases "fst r") simp_all

lemma isl_done_with [simp]: "isl (fst (done_with r)) \<longleftrightarrow> isl (fst r)"
  by (cases "fst r") (simp_all add: done_with_def)

lemma members_reply_outcome:
  "snd (members_reply cx sts want w r) = snd (members_outcome w r)"
  "is_success (fst (members_reply cx sts want w r)) \<longleftrightarrow> \<not> isl (fst (members_outcome w r))"
  by (auto simp: members_reply_def split: sum.split)

text \<open>The service call of a request runs its operation, and answers with success exactly when the
  operation succeeds.\<close>

lemma service_call_op:
  assumes "request_op rd sub me req = Some p"
  shows "snd (service_call env cx rd sub me req w) = snd (exec env p w)"
    and "is_success (fst (service_call env cx rd sub me req w)) \<longleftrightarrow> \<not> isl (fst (exec env p w))"
  using assms
  by (induction env cx rd sub me req rule: service_call.induct) (auto simp: members_reply_outcome)

lemma service_call_query:
  "request_op rd sub me req = None \<Longrightarrow> snd (service_call env cx rd sub me req w) = w"
  by (induction env cx rd sub me req rule: service_call.induct) auto

lemma service_call_failed:
  assumes "wf_world env w" and "\<not> is_success (fst (service_call env cx rd sub me req w))"
  shows "snd (service_call env cx rd sub me req w) = w"
proof (cases "request_op rd sub me req")
  case None
  then show ?thesis by (rule service_call_query)
next
  case (Some p)
  note op = service_call_op [OF Some, of env cx w]
  from assms(2) op(2) obtain e where "fst (exec env p w) = Inl e" by (auto simp: isl_def)
  then show ?thesis using exec_op_error [OF assms(1)] op(1) by simp
qed

section \<open>How outcomes are answered\<close>

fun answer_ok :: "api_request \<Rightarrow> reply \<Rightarrow> bool" where
  "answer_ok req (Reply st p) = (st = success_status req)"
| "answer_ok req (Failure st er) = (st \<in> {401, 404, 409, 422})"
| "answer_ok req (RawError e) = (e = MemberAlreadyExists \<and> (\<exists>b. req = ReqCreateMyMember (Some b)))"

lemma answer_ok_missing [simp]: "answer_ok req (missing_body cx)"
  by (simp add: missing_body_def)

lemma trips_failure_ok:
  assumes "trip_error_in sts e" and "\<And>st. st \<in> sts \<Longrightarrow> \<exists>st'. status st = Some st' \<and> st' \<in> {404, 409, 422}"
  shows "answer_ok req (trips_failure cx status e)"
proof -
  obtain ae where ae: "e = TripsError ae" "ae_status ae \<in> sts" using assms(1) by (cases e) auto
  obtain st' where "status (ae_status ae) = Some st'" "st' \<in> {404, 409, 422}" using assms(2) [OF ae(2)] by blast
  then show ?thesis by (auto simp: ae(1) app_failure_def)
qed

lemma members_failure_ok:
  assumes "member_error_in sts e" and "sts \<subseteq> set sts'" and "set sts' \<subseteq> {404, 409, 422}"
  shows "answer_ok req (members_failure cx (same_status sts') e)"
proof -
  obtain ae where ae: "e = MembersError ae" "ae_status ae \<in> sts" using assms(1) by (cases e) auto
  then show ?thesis using assms(2,3) by (auto simp: app_failure_def same_status_def)
qed

lemma trips_call_ok:
  assumes "\<And>e. fst r = Inl e \<Longrightarrow> trip_error_in sts e"
    and "\<And>st. st \<in> sts \<Longrightarrow> \<exists>st'. status st = Some st' \<and> st' \<in> {404, 409, 422}"
    and "want = success_status req"
  shows "answer_ok req (fst (trips_call cx status want render r))"
  using assms(1,3) trips_failure_ok [OF _ assms(2)] by (cases r; cases "fst r") simp_all

lemma members_reply_ok:
  assumes "\<And>e. fst (members_outcome w r) = Inl e \<Longrightarrow>
      member_error_in sts e \<or> e = MemberAlreadyExists \<and> (\<exists>b. req = ReqCreateMyMember (Some b))"
    and "sts \<subseteq> set sts'" and "set sts' \<subseteq> {404, 409, 422}" and "want = success_status req"
  shows "answer_ok req (fst (members_reply cx sts' want w r))"
  using assms(1,4) members_failure_ok [OF _ assms(2,3)]
  by (cases r) (auto simp: members_reply_def)

text \<open>The queries of the trip service fail with 404, and with 409 where a draft has no answers.\<close>

lemma query_errors:
  assumes wf: "wf_world env w"
  shows "GetTripDetails env w c t = Inl e \<Longrightarrow> trip_error_in {404} e"
    and "GetMyRSVPForTrip w c t = Inl e \<Longrightarrow> trip_error_in {404, 409} e"
    and "GetTripRSVPSummary env w c t = Inl e \<Longrightarrow> trip_error_in {404, 409} e"
proof -
  have nf: "trip_error_in {404} trip_not_found" "trip_error_in {404, 409} trip_not_found"
    by (simp_all add: trip_not_found_def)
  have hid: "hidden_from w c t \<or> (\<exists>u. trip_lookup (w_trips w) t = Some u \<and> isTripVisibleToCaller u c \<and>
      load_visible_trip w c t = Inr u)"
    by (auto simp: hidden_from_def load_visible_Inr split: option.split)
  show "trip_error_in {404} e" if "GetTripDetails env w c t = Inl e"
  proof (cases "hidden_from w c t")
    case True
    then show ?thesis using that nf get_details.hidden [OF wf, of c t] by simp
  next
    case False
    then obtain u where "trip_lookup (w_trips w) t = Some u" "isTripVisibleToCaller u c" using hid by blast
    then show ?thesis using that by (metis query_details [OF wf] Inl_Inr_False)
  qed
  show "trip_error_in {404, 409} e" if "GetMyRSVPForTrip w c t = Inl e"
    using hid that nf get_rsvp.hidden [OF wf, of c t]
    by (auto simp: GetMyRSVPForTrip_def rsvp_get_cases trips_conflict_def split: option.splits if_splits)
  show "trip_error_in {404, 409} e" if sum: "GetTripRSVPSummary env w c t = Inl e"
  proof (cases "hidden_from w c t")
    case True
    then show ?thesis using sum nf get_summary.hidden [OF wf, of c t] by simp
  next
    case False
    then obtain u where u: "load_visible_trip w c t = Inr u" using hid by blast
    obtain s where "tripRSVPSummaryForTrip env w u = Inr s" using rsvp_summary_total [OF wf] by blast
    then show ?thesis using sum by (auto simp: GetTripRSVPSummary_def u trips_conflict_def split: if_splits)
  qed
qed

lemma SearchMembers_error: "SearchMembers env r q = Inl e \<Longrightarrow> member_error_in {422} e"
  by (auto simp: SearchMembers_def members_invalid_def Let_def split: if_splits)

lemma fst_done_with_InlD: "fst r = Inl e \<Longrightarrow> fst (done_with r) = Inl e"
  by simp

text \<open>The switches of the handlers map every status their service call fails with.\<close>

lemma switches_ok:
  "(\<And>e. fst r = Inl e \<Longrightarrow> trip_error_in {404, 409, 422} e) \<Longrightarrow> success_status req = want \<Longrightarrow>
     answer_ok req (fst (trips_call cx (same_status [404, 409, 422]) want render r))"
  "(\<And>e. fst r = Inl e \<Longrightarrow> trip_error_in {409, 422} e) \<Longrightarrow> success_status req = want \<Longrightarrow>
     answer_ok req (fst (trips_call cx create_status want render r))"
  "(\<And>e. fst r = Inl e \<Longrightarrow> trip_error_in {404} e) \<Longrightarrow> success_status req = want \<Longrightarrow>
     answer_ok req (fst (trips_call cx (same_status [404]) want render r))"
  "(\<And>e. fst r = Inl e \<Longrightarrow> trip_error_in {404, 409} e) \<Longrightarrow> success_status req = want \<Longrightarrow>
     answer_ok req (fst (trips_call cx (same_status [404, 409]) want render r))"
  by (rule trips_call_ok, assumption, auto simp: same_status_def create_status_def)+

lemma members_switches_ok:
  "(\<And>e. fst (members_outcome w r) = Inl e \<Longrightarrow> member_error_in {409, 422} e \<or> e = MemberAlreadyExists) \<Longrightarrow>
     answer_ok (ReqCreateMyMember (Some b)) (fst (members_reply cx [409, 422] 201 w r))"
  "(\<And>e. fst (members_outcome w r) = Inl e \<Longrightarrow> member_error_in {404, 409, 422} e) \<Longrightarrow>
     answer_ok (ReqUpdateMyMemberProfile k (Some b')) (fst (members_reply cx [404, 409, 422] 200 w r))"
  by (rule members_reply_ok [where sts = "{409, 422}"], auto)
     (rule members_reply_ok [where sts = "{404, 409, 422}"], auto)

text \<open>Every answer of a service call is one the API documents.\<close>

lemma service_call_answer:
  assumes wf: "wf_world env w"
  shows "answer_ok req (fst (service_call env cx rd sub me req w))"
proof (cases "request_op rd sub me req")
  case (Some p)
  have err: "op_error p e" if "fst (exec env p w) = Inl e" for e
    using exec_op_error [OF wf that] by blast
  show ?thesis using Some err
    by (cases "(env, cx, rd, sub, me, req)" rule: service_call.cases)
       (auto intro!: switches_ok members_switches_ok)
next
  case None
  obtain x where my: "GetMyMemberProfile (w_members w) sub = Inl member_not_provisioned \<or>
      GetMyMemberProfile (w_members w) sub = Inr x"
    by (rule GetMyMemberProfile_cases [OF wf_worldD(8) [OF wf], of sub]) auto
  have search: "answer_ok req (members_failure cx (same_status [422]) e)" if "SearchMembers env r q = Inl e" for r q e
    using members_failure_ok [OF SearchMembers_error [OF that]] by simp
  show ?thesis using None
    by (cases "(env, cx, rd, sub, me, req)" rule: service_call.cases)
       (use my query_errors [OF wf] search in
        \<open>auto simp: same_status_def member_not_provisioned_def app_failure_def intro!: switches_ok split: sum.split\<close>)
qed

end
