(* ===== verification/HttpIdem.thy ===== *)
theory HttpIdem
  imports HttpInv
begin

text \<open>
  Library for the HTTP adapter: the servers reachable by requests, and the idempotency protocol
  over a run of requests. A key is \<open>pinned\<close> to the digest of the first body sent with it; once a
  success is \<open>recorded\<close> it stays recorded, because every later request either replays it, is
  rejected, or writes under another fingerprint.
\<close>

section \<open>Reachable servers\<close>

lemma request_op_caller:
  assumes "wf_member_repo r" and "acts_as r sub req mid" and "request_op rd sub mid req = Some p"
    and "caller_of p = Some c"
  shows "member_exists r c"
proof -
  have "needs_profile req \<and> c = mid"
    using assms(3,4) by (cases "(rd, sub, mid, req)" rule: request_op.cases) auto
  then show ?thesis using assms(2) by (cases rule: GetMyMemberProfile_cases [OF assms(1), of sub]) (auto simp: acts_as_def)
qed

lemma idempotent_world:
  "sv_world (snd (idempotent js cx rd want ty storing fp h sv run)) = sv_world sv \<or>
   sv_world (snd (idempotent js cx rd want ty storing fp h sv run)) = snd (run (sv_world sv))"
  by (auto simp: idempotent_def Let_def split: option.split prod.split idem_outcome.split)

text \<open>A request changes the world only by the operation it stands for, on behalf of the member it
  authenticates as.\<close>

lemma handle_world:
  assumes wf: "wf_member_repo (w_members (sv_world sv))"
  shows "sv_world (snd (handle env js cx rd req sv)) = sv_world sv \<or>
    (\<exists>sub mid p. SubjectFromContext cx = Some sub \<and> acts_as (w_members (sv_world sv)) sub req mid \<and>
       request_op rd sub mid req = Some p \<and>
       sv_world (snd (handle env js cx rd req sv)) = snd (exec env p (sv_world sv)))"
  using wf
proof (cases rule: handle_cases [where cx = cx and env = env and js = js and rd = rd and req = req])
  case (admitted sub mid)
  let ?call = "service_call env cx rd sub mid req"
  have "sv_world (snd (handle env js cx rd req sv)) = sv_world sv \<or>
      sv_world (snd (handle env js cx rd req sv)) = snd (?call (sv_world sv))"
    unfolding admitted(3)
    by (rule after_guards_cases [of sub req env js cx rd mid sv])
       (use idempotent_world in \<open>simp_all add: run_plain_def\<close>)
  moreover have "snd (?call (sv_world sv)) = sv_world sv \<or>
      (\<exists>p. request_op rd sub mid req = Some p \<and> snd (?call (sv_world sv)) = snd (exec env p (sv_world sv)))"
    using service_call_query [of rd sub mid req] service_call_op(1) [of rd sub mid req]
    by (cases "request_op rd sub mid req") auto
  ultimately show ?thesis using admitted(1,2) by metis
qed simp_all

inductive server_reachable :: "go_env \<Rightarrow> json_env \<Rightarrow> server \<Rightarrow> bool" for env js where
  fresh: "sv_world sv = new_world \<Longrightarrow> sv_idem sv = None \<or> sv_idem sv = Some new_idem_store \<Longrightarrow>
    server_reachable env js sv"
| request: "server_reachable env js sv \<Longrightarrow> server_reachable env js (snd (handle env js cx rd req sv))"

lemma handle_step:
  assumes wf: "wf_member_repo (w_members (sv_world sv))"
  shows "sv_world (snd (handle env js cx rd req sv)) = sv_world sv \<or>
    (\<exists>p. step env (sv_world sv) p (sv_world (snd (handle env js cx rd req sv))))"
  using handle_world [OF wf, of env js cx rd req] request_op_caller [OF wf] step.run by metis

lemma server_world_reachable: "server_reachable env js sv \<Longrightarrow> reachable env (sv_world sv)"
proof (induction rule: server_reachable.induct)
  case (fresh sv)
  then show ?case by (simp add: reachable.initial)
next
  case (request sv cx rd req)
  show ?case
    using handle_step [OF wf_worldD(8) [OF reachable_wf_world [OF request.IH]], of env js cx rd req] request.IH
    by (auto intro: reachable.next_step)
qed

lemma server_wf: "server_reachable env js sv \<Longrightarrow> wf_world env (sv_world sv)"
  by (simp add: server_world_reachable reachable_wf_world)

lemma server_members_wf: "server_reachable env js sv \<Longrightarrow> wf_member_repo (w_members (sv_world sv))"
  by (rule wf_worldD(8) [OF server_wf])

section \<open>Members stay members\<close>

lemma profile_stays:
  assumes wf: "wf_world env w" and me: "GetMyMemberProfile (w_members w) sub = Inr me"
  shows "\<exists>me'. GetMyMemberProfile (w_members (snd (exec env p w))) sub = Inr me' \<and> m_id me' = m_id me"
proof -
  note wfr = wf_worldD(8) [OF wf]
  obtain m where m: "member_get_by_id (w_members w) (mr_id m) = Inr m" "mr_subject m = sub" "me = toDomain m"
    using me mrepo.by_subject_iff [OF wfr] by (auto simp: GetMyMemberProfile_def split: sum.splits if_splits)
  have kept: ?thesis if "w_members (snd (exec env p w)) = w_members w" using me that by simp
  show ?thesis
  proof (cases p)
    case (CreateMember s inp now i)
    show ?thesis
    proof (cases "CreateMyMember env (w_members w) s inp now i")
      case (Inr x)
      then obtain d r' where c: "CreateMyMember env (w_members w) s inp now i = Inr (d, r')" by (cases x) auto
      obtain n where n: "member_create (w_members w) n = Inr r'" using CreateMyMember_success [OF wfr c] by metis
      have "mr_id n \<noteq> mr_id m" using mrepo.create_fresh [OF wfr n] m(1) by (metis Inr_not_Inl)
      then have "member_get_by_id r' (mr_id m) = Inr m" using mrepo.create_by_id [OF wfr n] m(1) by auto
      then have "member_get_by_subject r' sub = Inr m"
        using mrepo.by_subject_iff [OF mrepo.create_invar [OF wfr n]] m(2) by simp
      then show ?thesis using m(3) by (simp add: CreateMember c GetMyMemberProfile_def)
    qed (use kept CreateMember in simp)
  next
    case (UpdateMember s inp now)
    show ?thesis
    proof (cases "UpdateMyMemberProfile env (w_members w) s inp now")
      case (Inr x)
      then obtain d r' where u: "UpdateMyMemberProfile env (w_members w) s inp now = Inr (d, r')" by (cases x) auto
      note frame = UpdateMyMemberProfile_frame [OF wfr u]
      have w': "w_members (snd (exec env p w)) = r'" by (simp add: UpdateMember u)
      obtain m0 where m0: "GetMyMemberProfile (w_members w) s = Inr m0" "m_id d = m_id m0" using frame(1) by blast
      show ?thesis
      proof (cases "s = sub")
        case True
        then show ?thesis unfolding w' using frame(2) me m0 by simp
      next
        case False
        obtain n where n: "member_update (w_members w) n = Inr r'" using UpdateMyMemberProfile_success [OF u] by metis
        obtain k where k: "member_get_by_id (w_members w) (mr_id k) = Inr k" "mr_subject k = s" "m0 = toDomain k"
          using m0(1) mrepo.by_subject_iff [OF wfr] by (auto simp: GetMyMemberProfile_def split: sum.splits if_splits)
        have "mr_id m \<noteq> mr_id k" using m(1,2) k(1,2) False by (metis Inr_inject)
        then have "member_get_by_id r' (mr_id m) = Inr m" using frame(3) [of "mr_id m"] m(1) m0(2) k(3) by (simp del: get_by_id_Inr)
        then have "member_get_by_subject r' sub = Inr m"
          using mrepo.by_subject_iff [OF mrepo.update_invar [OF wfr n]] m(2) by blast
        then show ?thesis unfolding w' using m(3) by (simp add: GetMyMemberProfile_def)
      qed
    qed (use kept UpdateMember in simp)
  next
    case (DraftTrip c nm now i)
    then show ?thesis using kept CreateTripDraft_cases [of w c nm now i] by auto
  qed (rule kept, simp add: update.keeps_members [OF wf] visibility.keeps_members [OF wf]
      add_organizer.keeps_members [OF wf] remove_organizer.keeps_members [OF wf] cancel.keeps_members [OF wf]
      publish.keeps_members [OF wf] set_rsvp.keeps_members [OF wf])+
qed

lemma acts_as_stays:
  assumes wf: "wf_world env (sv_world sv)" and a: "acts_as (w_members (sv_world sv)) sub req mid"
  shows "acts_as (w_members (sv_world (snd (handle env js cx rd req' sv)))) sub req mid"
  using handle_world [OF wf_worldD(8) [OF wf], of env js cx rd req']
proof (elim disjE exE conjE)
  fix s m p
  assume w': "sv_world (snd (handle env js cx rd req' sv)) = snd (exec env p (sv_world sv))"
  show ?thesis using a profile_stays [OF wf, of sub _ p] unfolding w' acts_as_def by (metis (no_types))
qed (use a in simp)

section \<open>Pinned keys and recorded responses\<close>

context idempotency_store
begin

definition pins :: "'s \<Rightarrow> fingerprint \<Rightarrow> gostring \<Rightarrow> bool" where
  "pins s fp h \<longleftrightarrow> (\<exists>meta. get s fp = Inr (Some meta) \<and> ir_body meta = h)"

definition records :: "(gostring \<Rightarrow> 'p option) \<Rightarrow> 's \<Rightarrow> fingerprint \<Rightarrow> gostring \<Rightarrow> nat \<Rightarrow> 'p \<Rightarrow> bool" where
  "records decode s fp h want p \<longleftrightarrow>
     (\<exists>rec. get s (fp\<lparr>fp_body_hash := h\<rparr>) = Inr (Some rec) \<and> ir_status_code rec = want \<and>
        has_prefix (ir_content_type rec) ''application/json'' \<and> decode (ir_body rec) = Some p)"

lemma pinned_conflict:
  "pins s fp h \<Longrightarrow> h' \<noteq> h \<Longrightarrow> idem_begin get put decode want fp h' now s = (IdemConflict, s)"
  by (auto simp: pins_def begin_conflict)

lemma recorded_replay:
  "pins s fp h \<Longrightarrow> records decode s fp h want p \<Longrightarrow>
   idem_begin get put decode want fp h now s = (IdemReplay p, s)"
  by (auto simp: pins_def records_def idem_begin_def)

lemma replay_recorded:
  "idem_begin get put decode want fp h now s = (IdemReplay p, s') \<Longrightarrow> records decode s' fp h want p"
  by (auto simp: records_def idem_begin_def Let_def split: sum.splits option.splits if_splits)

lemma pinned_accepts:
  "pins s fp h \<Longrightarrow> idem_begin get put decode want fp h now s = (out, s') \<Longrightarrow> out \<noteq> IdemConflict"
  by (auto simp: idem_begin_def pins_def split: sum.splits option.splits if_splits)

lemma begin_pins_key:
  assumes "idem_begin get put decode want fp h now s = (out, s')" and "fp_body_hash fp = ''''" and "h \<noteq> ''''"
  shows "\<exists>h'. pins s' fp h' \<and> (out \<noteq> IdemConflict \<longrightarrow> h' = h)"
proof (cases "out = IdemConflict")
  case True
  obtain x where x: "get s fp = Inr x" using get_total by blast
  then show ?thesis using assms True
    by (cases x) (auto simp: idem_begin_def pins_def Let_def split: sum.splits option.splits if_splits)
next
  case False
  then show ?thesis using begin_pins [OF assms(1) False assms(2,3)] by (auto simp: pins_def)
qed

lemma finish_pins:
  assumes "pins s fp h" and "fp_body_hash fp = ''''" and "h' \<noteq> ''''"
  shows "pins (idem_finish put encode want fp' h' now p s) fp h"
proof -
  have "fp \<noteq> fp'\<lparr>fp_body_hash := h'\<rparr>" using assms(2,3) by auto
  then show ?thesis using assms(1) by (simp add: pins_def finish_frame)
qed

lemma finish_records:
  "encode p = Some b \<Longrightarrow> decode b = Some p \<Longrightarrow> want < 2 ^ 31 \<Longrightarrow>
   records decode (idem_finish put encode want fp h now p s) fp h want p"
  by (simp add: records_def idem_finish_def get_put stored_fields has_prefix_iff)

text \<open>A request under another fingerprint touches neither the pin nor the record of this one.\<close>

lemma other_fingerprint:
  assumes "fp' \<noteq> fp" and "fp_body_hash fp = ''''" "fp_body_hash fp' = ''''" and "h \<noteq> ''''" "h' \<noteq> ''''"
    and "idem_begin get put decode' want' fp' h' now s = (out, s1)"
    and "s2 = s1 \<or> (\<exists>q. s2 = idem_finish put encode want' fp' h' now' q s1)"
  shows "get s2 fp = get s fp" and "get s2 (fp\<lparr>fp_body_hash := h\<rparr>) = get s (fp\<lparr>fp_body_hash := h\<rparr>)"
proof -
  have ne: "fp \<noteq> fp'\<lparr>fp_body_hash := h'\<rparr>" "fp\<lparr>fp_body_hash := h\<rparr> \<noteq> fp'"
    using assms(2-5) by auto
  have "fp\<lparr>fp_body_hash := h\<rparr> \<noteq> fp'\<lparr>fp_body_hash := h'\<rparr>"
    using assms(1-3) by (cases fp; cases fp') auto
  then show "get s2 fp = get s fp" and "get s2 (fp\<lparr>fp_body_hash := h\<rparr>) = get s (fp\<lparr>fp_body_hash := h\<rparr>)"
    using begin_frame [OF assms(6)] assms(1,7) ne by (auto simp: finish_frame)
qed

end

section \<open>The protocol over a run of requests\<close>

text \<open>A SHA-256 digest in hexadecimal is never the empty string, which marks the meta record.\<close>

definition digests_nonempty :: "json_env \<Rightarrow> bool" where
  "digests_nonempty js \<longleftrightarrow> (\<forall>x. js_digest js x \<noteq> Inr '''')"

lemma body_digest_nonempty:
  assumes "digests_nonempty js" and "idem_fp sub req = Some fp" and "body_digest js req = Inr h"
  shows "h \<noteq> '''' \<and> fp_body_hash fp = '''' \<and> fp_subject fp = sub"
  using assms
proof -
  have "h \<noteq> ''''" using body_digest_canonical [OF assms(2), of js] assms(1,3) by (auto simp: digests_nonempty_def)
  moreover have "fp_body_hash fp = '''' \<and> fp_subject fp = sub"
    using assms(2) by (cases "(sub, req)" rule: idem_fp.cases) (auto simp: meta_fp_def)
  ultimately show ?thesis by simp
qed

text \<open>The route of a fingerprint determines the handler, so the type and status it stores.\<close>

lemma route_determines:
  assumes "idem_fp sub req = Some fp" and "idem_fp sub' req' = Some fp"
  shows "stored_type req' = stored_type req \<and> success_status req' = success_status req \<and>
    stores_response req' = stores_response req \<and> needs_profile req' = needs_profile req"
  using assms
  by (cases "(sub, req)" rule: idem_fp.cases; cases "(sub', req')" rule: idem_fp.cases) (auto simp: meta_fp_def)

lemma idempotent_store:
  assumes "sv_idem sv = Some st"
  obtains out s1 s2 where "idem_begin idem_get idem_put (js_decode js ty) want fp h (rd_meta rd) st = (out, s1)"
    and "sv_idem (snd (idempotent js cx rd want ty storing fp h sv run)) = Some s2"
    and "s2 = s1 \<or> (\<exists>q. out = IdemProceed \<and> s2 = idem_finish idem_put (js_encode js) want fp h (rd_store rd) q s1)"
proof -
  obtain out s1 where b: "idem_begin idem_get idem_put (js_decode js ty) want fp h (rd_meta rd) st = (out, s1)"
    by fastforce
  show ?thesis
  proof (cases out)
    case IdemProceed
    obtain rep w' where r: "run (sv_world sv) = (rep, w')" by fastforce
    let ?s2 = "case rep of Reply _ p \<Rightarrow>
        if storing then idem_finish idem_put (js_encode js) want fp h (rd_store rd) p s1 else s1 | _ \<Rightarrow> s1"
    have "?s2 = s1 \<or> (\<exists>q. out = IdemProceed \<and> ?s2 = idem_finish idem_put (js_encode js) want fp h (rd_store rd) q s1)"
      by (auto simp: IdemProceed split: reply.split)
    then show ?thesis using that [OF b, of ?s2] by (simp add: idempotent_def assms b IdemProceed r)
  qed (use that [OF b, of s1] in \<open>simp_all add: idempotent_def assms b\<close>)
qed

lemma handle_keeps:
  assumes dig: "digests_nonempty js" and wf: "wf_member_repo (w_members (sv_world sv))"
    and st: "sv_idem sv = Some st" and pin: "istore.pins st fp h"
    and fp: "idem_fp sub0 req0 = Some fp" "body_digest js req0 = Inr h"
  shows "\<exists>st'. sv_idem (snd (handle env js cx rd req sv)) = Some st' \<and> istore.pins st' fp h \<and>
    (istore.records (js_decode js (stored_type req0)) st fp h (success_status req0) p \<longrightarrow>
     istore.records (js_decode js (stored_type req0)) st' fp h (success_status req0) p)"
    (is "\<exists>st'. _ \<and> _ \<and> (?rec st \<longrightarrow> ?rec st')")
proof -
  have ne: "h \<noteq> ''''" "fp_body_hash fp = ''''" using body_digest_nonempty [OF dig fp] by simp_all
  show ?thesis
    using wf
  proof (cases rule: handle_cases [where cx = cx and env = env and js = js and rd = rd and req = req])
    case (admitted sub mid)
    let ?sv' = "snd (after_guards env js cx rd sub mid req sv)"
    have "\<exists>st'. sv_idem ?sv' = Some st' \<and> istore.pins st' fp h \<and> (?rec st \<longrightarrow> ?rec st')"
    proof (rule after_guards_cases [of sub req env js cx rd mid sv])
      fix fp' h'
      let ?i = "idempotent js cx rd (success_status req) (stored_type req) (stores_response req) fp' h' sv
        (service_call env cx rd sub mid req)"
      assume fp': "idem_fp sub req = Some fp'" "body_digest js req = Inr h'"
        and i: "after_guards env js cx rd sub mid req sv = ?i"
      have ne': "h' \<noteq> ''''" "fp_body_hash fp' = ''''" using body_digest_nonempty [OF dig fp'] by simp_all
      obtain out s1 s2 where b: "idem_begin idem_get idem_put (js_decode js (stored_type req)) (success_status req)
            fp' h' (rd_meta rd) st = (out, s1)"
        and s2: "sv_idem (snd ?i) = Some s2"
          "s2 = s1 \<or> (\<exists>q. out = IdemProceed \<and>
             s2 = idem_finish idem_put (js_encode js) (success_status req) fp' h' (rd_store rd) q s1)"
        by (rule idempotent_store [OF st])
      have "istore.pins s2 fp h \<and> (?rec st \<longrightarrow> ?rec s2)"
      proof (cases "fp' = fp")
        case False
        have "s2 = s1 \<or> (\<exists>q. s2 = idem_finish idem_put (js_encode js) (success_status req) fp' h' (rd_store rd) q s1)"
          using s2(2) by blast
        from istore.other_fingerprint [OF False ne(2) ne'(2) ne(1) ne'(1) b this] show ?thesis using pin by (simp add: istore.pins_def istore.records_def)
      next
        case True
        show ?thesis
        proof (cases "h' = h")
          case False
          then have "out = IdemConflict \<and> s1 = st" using b True by (simp add: istore.pinned_conflict [OF pin])
          then show ?thesis using s2(2) pin by auto
        next
          case same: True
          have rd: "stored_type req = stored_type req0" "success_status req = success_status req0"
            using route_determines [OF fp(1)] fp'(1) True by auto
          have "out \<noteq> IdemConflict" using istore.pinned_accepts [OF pin] b True same by blast
          then have "istore.pins s1 fp h" using istore.begin_pins_key [OF b ne'(2,1)] True same by blast
          moreover have "out = IdemReplay p \<and> s1 = st" if "?rec st"
            using b istore.recorded_replay [OF pin that] True same rd by auto
          ultimately show ?thesis
            using s2(2) istore.finish_pins [OF _ ne(2,1), of s1 h] True same by fastforce
        qed
      qed
      then show ?thesis using s2(1) by (simp add: i)
    qed (use st pin in \<open>auto simp: run_plain_def\<close>)
    then show ?thesis by (simp add: admitted(3))
  qed (use st pin in auto)
qed

text \<open>The servers a server becomes as requests are served.\<close>

inductive later :: "go_env \<Rightarrow> json_env \<Rightarrow> server \<Rightarrow> server \<Rightarrow> bool" for env js where
  now: "later env js sv sv"
| after: "later env js sv sv' \<Longrightarrow> later env js sv (snd (handle env js cx rd req sv'))"

lemma later_reachable: "later env js sv sv' \<Longrightarrow> server_reachable env js sv \<Longrightarrow> server_reachable env js sv'"
  by (induction rule: later.induct) (auto intro: server_reachable.request)

lemma acts_as_later:
  "later env js sv sv' \<Longrightarrow> server_reachable env js sv \<Longrightarrow> acts_as (w_members (sv_world sv)) sub req mid \<Longrightarrow>
   acts_as (w_members (sv_world sv')) sub req mid"
proof (induction rule: later.induct)
  case (after sv sv' cx rd req')
  then show ?case by (intro acts_as_stays server_wf [OF later_reachable])
qed simp

lemma handle_keyed:
  assumes "SubjectFromContext cx = Some sub" and "acts_as (w_members (sv_world sv)) sub req mid"
    and "idem_fp sub req = Some fp" and "body_digest js req = Inr h"
  shows "handle env js cx rd req sv =
    idempotent js cx rd (success_status req) (stored_type req) (stores_response req) fp h sv
      (service_call env cx rd sub mid req)"
  by (simp add: handle_admitted [OF assms(1,2)] after_guards_def with_hash_def assms(3,4))

text \<open>Pins and records survive any run of requests.\<close>

lemma kept_later:
  assumes "later env js sv sv'" and "digests_nonempty js" and "server_reachable env js sv"
    and "sv_idem sv = Some st" and "istore.pins st fp h"
    and "idem_fp sub0 req0 = Some fp" "body_digest js req0 = Inr h"
  shows "\<exists>st'. sv_idem sv' = Some st' \<and> istore.pins st' fp h \<and>
    (istore.records (js_decode js (stored_type req0)) st fp h (success_status req0) p \<longrightarrow>
     istore.records (js_decode js (stored_type req0)) st' fp h (success_status req0) p)"
  using assms
proof (induction rule: later.induct)
  case (after sv sv' cx rd req)
  then obtain st1 where st1: "sv_idem sv' = Some st1" "istore.pins st1 fp h"
    "istore.records (js_decode js (stored_type req0)) st fp h (success_status req0) p \<longrightarrow>
     istore.records (js_decode js (stored_type req0)) st1 fp h (success_status req0) p"
    by blast
  have "wf_member_repo (w_members (sv_world sv'))"
    using server_members_wf [OF later_reachable [OF after.hyps after.prems(2)]] .
  from handle_keeps [OF after.prems(1) this st1(1,2) after.prems(5,6), of env cx rd req p] show ?case
    using st1(3) by blast
qed blast

lemma pinned_rejects:
  assumes "SubjectFromContext cx = Some sub" and "acts_as (w_members (sv_world sv)) sub req mid"
    and "idem_fp sub req = Some fp" and "body_digest js req = Inr h"
    and "sv_idem sv = Some st" and "istore.pins st fp h'" and "h \<noteq> h'"
  shows "handle env js cx rd req sv = (key_reuse cx, sv)"
  by (simp add: handle_keyed [OF assms(1-4)] idempotent_def assms(5) istore.pinned_conflict [OF assms(6,7)])

lemma recorded_answers:
  assumes "SubjectFromContext cx = Some sub" and "acts_as (w_members (sv_world sv)) sub req mid"
    and "idem_fp sub req = Some fp" and "body_digest js req = Inr h"
    and "sv_idem sv = Some st" and "istore.pins st fp h"
    and "istore.records (js_decode js (stored_type req)) st fp h (success_status req) p"
  shows "handle env js cx rd req sv = (Reply (success_status req) p, sv)"
  by (simp add: handle_keyed [OF assms(1-4)] idempotent_def assms(5) istore.recorded_replay [OF assms(6,7)])

text \<open>What one keyed request leaves in the store.\<close>

lemma keyed_pins:
  assumes "SubjectFromContext cx = Some sub" and "acts_as (w_members (sv_world sv)) sub req mid"
    and "idem_fp sub req = Some fp" and "body_digest js req = Inr h" and "digests_nonempty js"
    and "sv_idem sv = Some st" and "fst (handle env js cx rd req sv) \<noteq> key_reuse cx"
  shows "\<exists>st'. sv_idem (snd (handle env js cx rd req sv)) = Some st' \<and> istore.pins st' fp h"
proof -
  have ne: "h \<noteq> ''''" "fp_body_hash fp = ''''" using body_digest_nonempty [OF assms(5,3,4)] by simp_all
  let ?i = "idempotent js cx rd (success_status req) (stored_type req) (stores_response req) fp h sv
    (service_call env cx rd sub mid req)"
  obtain out s1 s2 where b: "idem_begin idem_get idem_put (js_decode js (stored_type req)) (success_status req)
        fp h (rd_meta rd) st = (out, s1)"
    and s2: "sv_idem (snd ?i) = Some s2"
      "s2 = s1 \<or> (\<exists>q. out = IdemProceed \<and>
         s2 = idem_finish idem_put (js_encode js) (success_status req) fp h (rd_store rd) q s1)"
    by (rule idempotent_store [OF assms(6)])
  have "out \<noteq> IdemConflict"
    using assms(7) b by (auto simp: handle_keyed [OF assms(1-4)] idempotent_def assms(6))
  then have pin: "istore.pins s1 fp h" using istore.begin_pins_key [OF b ne(2,1)] by blast
  then have "istore.pins s2 fp h" using s2(2) istore.finish_pins [OF pin ne(2,1)] by auto
  then show ?thesis using s2(1) by (simp add: handle_keyed [OF assms(1-4)])
qed

lemma success_status_small: "success_status req < 2 ^ 31"
  by (cases req) simp_all

lemma keyed_records:
  assumes "SubjectFromContext cx = Some sub" and "acts_as (w_members (sv_world sv)) sub req mid"
    and "idem_fp sub req = Some fp" and "body_digest js req = Inr h"
    and "stores_response req" and "sv_idem sv = Some st" and ans: "fst (handle env js cx rd req sv) = Reply code p"
    and codec: "js_encode js p = Some b" "js_decode js (stored_type req) b = Some p"
  shows "\<exists>st'. sv_idem (snd (handle env js cx rd req sv)) = Some st' \<and>
    istore.records (js_decode js (stored_type req)) st' fp h (success_status req) p"
proof -
  note i = handle_keyed [OF assms(1-4), of env rd]
  obtain out s1 where b: "idem_begin idem_get idem_put (js_decode js (stored_type req)) (success_status req)
        fp h (rd_meta rd) st = (out, s1)" by fastforce
  obtain rep w' where r: "service_call env cx rd sub mid req (sv_world sv) = (rep, w')" by fastforce
  show ?thesis
  proof (cases out)
    case (IdemReplay q)
    then have "q = p" using ans by (simp add: i idempotent_def assms(6) b)
    then show ?thesis using istore.replay_recorded [OF b [unfolded IdemReplay]]
      by (simp add: i idempotent_def assms(6) b IdemReplay)
  next
    case IdemProceed
    then have "rep = Reply code p" using ans by (simp add: i idempotent_def assms(6) b r)
    then show ?thesis
      using istore.finish_records [of "js_encode js" p, OF codec(1), of "js_decode js (stored_type req)", OF codec(2) success_status_small] assms(5)
      by (simp add: i idempotent_def assms(6) b r IdemProceed)
  qed (use ans in \<open>simp_all add: i idempotent_def assms(6) b key_reuse_def\<close>)
qed

text \<open>What a successful or failed answer says about the request.\<close>

lemma success_admitted:
  assumes "server_reachable env js sv" and "SubjectFromContext cx = Some sub" and "idem_fp sub req = Some fp"
    and "is_success (fst (handle env js cx rd req sv))"
  shows "\<exists>mid h. acts_as (w_members (sv_world sv)) sub req mid \<and> body_digest js req = Inr h"
  using server_members_wf [OF assms(1)]
proof (cases rule: handle_cases [where cx = cx and env = env and js = js and rd = rd and req = req])
  case (admitted sub' mid)
  then show ?thesis using assms(2-4)
    by (cases "body_digest js req") (auto simp: after_guards_def with_hash_def)
qed (use assms in \<open>simp_all add: unauthorized_def not_provisioned_def\<close>)

lemma idempotent_answer:
  assumes "answer_ok req (fst (run (sv_world sv)))"
  shows "answer_ok req (fst (idempotent js cx rd (success_status req) ty storing fp h sv run))"
  using assms
  by (auto simp: idempotent_def Let_def key_reuse_def istore.begin_never_fails
      split: option.split prod.split idem_outcome.split)

lemma keyed_answer:
  assumes "SubjectFromContext cx = Some sub" and "acts_as (w_members (sv_world sv)) sub req mid"
    and "idem_fp sub req = Some fp" and "body_digest js req = Inr h" and "wf_world env (sv_world sv)"
  shows "answer_ok req (fst (handle env js cx rd req sv))"
  unfolding handle_keyed [OF assms(1-4)] by (intro idempotent_answer service_call_answer assms(5))

lemma failed_world:
  assumes "server_reachable env js sv" and "\<not> is_success (fst (handle env js cx rd req sv))"
  shows "sv_world (snd (handle env js cx rd req sv)) = sv_world sv"
  using server_members_wf [OF assms(1)]
proof (cases rule: handle_cases [where cx = cx and env = env and js = js and rd = rd and req = req])
  case (admitted sub mid)
  note failed = service_call_failed [OF server_wf [OF assms(1)], of cx rd sub mid req]
  have "sv_world (snd (idempotent js cx rd want ty storing fp h sv (service_call env cx rd sub mid req))) = sv_world sv"
    if "\<not> is_success (fst (idempotent js cx rd want ty storing fp h sv (service_call env cx rd sub mid req)))"
    for want ty storing fp h
    using that failed
    by (auto simp: idempotent_def Let_def split: option.splits prod.splits idem_outcome.splits)
  then show ?thesis
    using assms(2) failed unfolding admitted(3)
    by (cases rule: after_guards_cases [of sub req env js cx rd mid sv]) (auto simp: run_plain_def)
qed simp_all

lemma handle_answer:
  assumes "server_reachable env js sv" and "\<forall>x. \<exists>h. js_digest js x = Inr h"
  shows "answer_ok req (fst (handle env js cx rd req sv))"
  using server_members_wf [OF assms(1)]
proof (cases rule: handle_cases [where cx = cx and env = env and js = js and rd = rd and req = req])
  case (admitted sub mid)
  note ok = service_call_answer [OF server_wf [OF assms(1)], of req cx rd sub mid]
  show ?thesis
  proof (cases rule: after_guards_cases [of sub req env js cx rd mid sv])
    case plain
    then show ?thesis using ok admitted(3) by (simp add: run_plain_def)
  next
    case (unhashed fp e)
    then show ?thesis using body_digest_canonical [OF unhashed(1), of js] assms(2) by (metis Inr_not_Inl)
  next
    case (keyed fp h)
    then show ?thesis using idempotent_answer [of req "service_call env cx rd sub mid req" sv, OF ok] admitted(3) by simp
  qed
qed (simp_all add: unauthorized_def not_provisioned_def)

section \<open>Canonical bodies\<close>

text \<open>The services read of a body no more than its canonical form keeps.\<close>

lemma same_service_input:
  "NormalizeHumanName nm = NormalizeHumanName nm' \<Longrightarrow> CreateTripDraft w c nm now i = CreateTripDraft w c nm' now i"
  "b\<lparr>out_name := map_option NormalizeHumanName (out_name b)\<rparr> = b'\<lparr>out_name := map_option NormalizeHumanName (out_name b')\<rparr> \<Longrightarrow>
   UpdateTrip env w c t (updateTripInputFromOAS b) now = UpdateTrip env w c t (updateTripInputFromOAS b') now"
  by (cases b; cases b'; auto simp: CreateTripDraft_def UpdateTrip_def updateTripInputFromOAS_def patched_trip_def
      update_trip_texts_def update_trip_name_def split: option.splits)+

lemma same_profile_input:
  assumes "b\<lparr>oum_display_name := (case oum_display_name b of Specified v \<Rightarrow> Specified (NormalizeHumanName v) | n \<Rightarrow> n),
        oum_email := map_option trim_space (oum_email b),
        oum_group_alias_email := (case oum_group_alias_email b of Specified v \<Rightarrow> Specified (trim_space v) | n \<Rightarrow> n)\<rparr> =
     b'\<lparr>oum_display_name := (case oum_display_name b' of Specified v \<Rightarrow> Specified (NormalizeHumanName v) | n \<Rightarrow> n),
        oum_email := map_option trim_space (oum_email b'),
        oum_group_alias_email := (case oum_group_alias_email b' of Specified v \<Rightarrow> Specified (trim_space v) | n \<Rightarrow> n)\<rparr>"
  shows "UpdateMyMemberProfile env r s (updateMyMemberProfileInputFromOAS b) now =
    UpdateMyMemberProfile env r s (updateMyMemberProfileInputFromOAS b') now"
proof -
  let ?i = updateMyMemberProfileInputFromOAS
  note d = arg_cong [OF assms, of oum_display_name] and e = arg_cong [OF assms, of oum_email]
    and g = arg_cong [OF assms, of oum_group_alias_email] and v = arg_cong [OF assms, of oum_vehicle_profile]
  have "update_display_name (um_display_name (?i b)) = update_display_name (um_display_name (?i b'))"
    using d by (auto simp: update_display_name_def updateMyMemberProfileInputFromOAS_def fun_eq_iff split: optional.splits)
  moreover have "um_email (?i b) = um_email (?i b')"
    using e by (cases "oum_email b"; cases "oum_email b'") (simp_all add: updateMyMemberProfileInputFromOAS_def)
  moreover have "um_group_alias_email (?i b) = um_group_alias_email (?i b')"
    using g by (auto simp: updateMyMemberProfileInputFromOAS_def split: optional.splits)
  moreover have "um_vehicle_profile (?i b) = um_vehicle_profile (?i b')"
    using v by (simp add: updateMyMemberProfileInputFromOAS_def)
  ultimately show ?thesis unfolding UpdateMyMemberProfile_def by (simp only:)
qed

end
