(* ===== verification/HttpProperties.thy ===== *)
theory HttpProperties
  imports HttpIdem Scenario
begin

text \<open>
  The properties of the HTTP adapter: it refines the planner, it answers with the documented
  statuses, it lets nobody in without a subject and a profile, and its idempotency keys make
  retries safe.
\<close>

section \<open>A small server for the witnesses\<close>

text \<open>Digests and codec are instantiated by concrete functions: the digest of a draft is its name,
  that of a visibility change its trip, and the codec knows the one response the witnesses retry.\<close>

definition demo_created :: payload where
  "demo_created = PCreated \<lparr>oc_draft_visibility = Private, oc_status = Draft, oc_trip_id = ''t9''\<rparr>"

definition demo_js :: json_env where
  "demo_js =
     \<lparr>js_digest = (\<lambda>x. Inr (case x of HashCreateTripDraft n \<Rightarrow> ''d'' @ n | HashSetVisibility t v \<Rightarrow> ''v'' @ t | _ \<Rightarrow> ''x'')),
      js_encode = (\<lambda>p. if p = demo_created then Some ''created'' else None),
      js_decode = (\<lambda>ty b. if ty = TCreated \<and> b = ''created'' then Some demo_created else None)\<rparr>"

lemma demo_digests: "digests_nonempty demo_js" "\<exists>h. js_digest demo_js x = Inr h"
  by (simp_all add: digests_nonempty_def demo_js_def split: hash_input.split)

definition demo_cx :: "gostring \<Rightarrow> req_context" where
  "demo_cx sub = \<lparr>cx_subject = Some sub, cx_request_id = ''r1''\<rparr>"

definition demo_rd :: "gotime \<Rightarrow> gostring \<Rightarrow> readings" where
  "demo_rd n i = \<lparr>rd_meta = n, rd_now1 = n, rd_now2 = n, rd_store = n, rd_new_id = i\<rparr>"

definition demo_empty :: server where
  "demo_empty = \<lparr>sv_world = new_world, sv_idem = Some new_idem_store\<rparr>"

definition demo_join :: "gostring \<Rightarrow> api_request" where
  "demo_join nm = ReqCreateMyMember (Some \<lparr>ocm_display_name = nm, ocm_email = nm @ ''@x'',
     ocm_group_alias_email = Unspecified, ocm_vehicle_profile = None\<rparr>)"

text \<open>A server with one member.\<close>

definition demo_server :: server where
  "demo_server = snd (handle demo_env demo_js (demo_cx ''sa'') (demo_rd 1 ''a'') (demo_join ''Ann'') demo_empty)"

lemma demo_server_reachable: "server_reachable demo_env demo_js demo_server"
  unfolding demo_server_def by (intro server_reachable.request server_reachable.fresh) (simp_all add: demo_empty_def)

section \<open>Refinement of the planner\<close>

text \<open>C22: The HTTP server refines the planner: in every server reachable by requests the world is a
  reachable world of the planner, and a request either leaves the world alone or performs exactly
  the one operation it stands for, on behalf of the member its authenticated subject is bound to;
  an error answer always leaves the world alone.\<close>

theorem requests_refine_planner:
  assumes "server_reachable env js sv"
  shows "reachable env (sv_world sv) \<and>
    (sv_world (snd (handle env js cx rd req sv)) = sv_world sv \<or>
     (\<exists>sub mid p. SubjectFromContext cx = Some sub \<and> acts_as (w_members (sv_world sv)) sub req mid \<and>
        request_op rd sub mid req = Some p \<and>
        step env (sv_world sv) p (sv_world (snd (handle env js cx rd req sv))))) \<and>
    (\<not> is_success (fst (handle env js cx rd req sv)) \<longrightarrow>
       sv_world (snd (handle env js cx rd req sv)) = sv_world sv)"
proof (intro conjI impI)
  note wfm = server_members_wf [OF assms]
  show "reachable env (sv_world sv)" by (rule server_world_reachable [OF assms])
  show "sv_world (snd (handle env js cx rd req sv)) = sv_world sv \<or>
     (\<exists>sub mid p. SubjectFromContext cx = Some sub \<and> acts_as (w_members (sv_world sv)) sub req mid \<and>
        request_op rd sub mid req = Some p \<and>
        step env (sv_world sv) p (sv_world (snd (handle env js cx rd req sv))))"
    using handle_world [OF wfm, of env js cx rd req] request_op_caller [OF wfm] step.run by metis
  assume "\<not> is_success (fst (handle env js cx rd req sv))"
  then show "sv_world (snd (handle env js cx rd req sv)) = sv_world sv"
    by (rule failed_world [OF assms])
qed

lemma requests_refine_planner_witness:
  "reachable demo_env (sv_world demo_server) \<and>
   sv_world (snd (handle demo_env demo_js (demo_cx ''sb'') (demo_rd 2 ''b'') (demo_join ''Ann'') demo_server)) =
     sv_world demo_server"
proof -
  have "\<not> is_success (fst (handle demo_env demo_js (demo_cx ''sb'') (demo_rd 2 ''b'') (demo_join ''Ann'') demo_server))"
    by code_simp
  with requests_refine_planner [OF demo_server_reachable] show ?thesis by blast
qed

section \<open>Authentication\<close>

text \<open>Nobody gets in without a subject and a profile: a request without an authenticated subject is
  answered 401 UNAUTHORIZED, and one whose subject has no member profile is answered 401
  MEMBER_NOT_PROVISIONED unless it is one of the three requests on the caller's own profile; both
  leave the whole server, idempotency records included, as it was.\<close>

theorem strangers_rejected:
  assumes "server_reachable env js sv"
  shows "(SubjectFromContext cx = None \<longrightarrow> handle env js cx rd req sv = (unauthorized cx, sv)) \<and>
    (SubjectFromContext cx = Some sub \<and> needs_profile req \<and> isl (GetMyMemberProfile (w_members (sv_world sv)) sub) \<longrightarrow>
       handle env js cx rd req sv = (not_provisioned cx, sv))"
  using server_members_wf [OF assms]
  by (cases rule: handle_cases [where cx = cx and env = env and js = js and rd = rd and req = req])
     (auto simp: acts_as_def)

lemma strangers_rejected_witness:
  "handle demo_env demo_js (demo_cx ''sb'') (demo_rd 2 ''b'') (ReqCreateTripDraft ''k'' (Some ''Baja'')) demo_server =
     (not_provisioned (demo_cx ''sb''), demo_server)"
proof -
  have "isl (GetMyMemberProfile (w_members (sv_world demo_server)) ''sb'')" by code_simp
  moreover have "SubjectFromContext (demo_cx ''sb'') = Some ''sb''" by (simp add: demo_cx_def SubjectFromContext_def)
  ultimately show ?thesis
    using strangers_rejected [OF demo_server_reachable, of "demo_cx ''sb''"
        "demo_rd 2 ''b''" "ReqCreateTripDraft ''k'' (Some ''Baja'')" "''sb''"] by simp
qed

section \<open>Answers\<close>

text \<open>Every answer is one the API documents: a success carries the handler's own success status, an
  error is 401, 404, 409 or 422, and the only way to an internal error is a generated member ID that
  is already taken when a profile is created.\<close>

theorem answers_documented:
  assumes "server_reachable env js sv" and "\<forall>x. \<exists>h. js_digest js x = Inr h"
  shows "case fst (handle env js cx rd req sv) of
      Reply st p \<Rightarrow> st = success_status req
    | Failure st er \<Rightarrow> st \<in> {401, 404, 409, 422}
    | RawError e \<Rightarrow> e = MemberAlreadyExists \<and> (\<exists>b. req = ReqCreateMyMember (Some b))"
  using handle_answer [OF assms, of req cx rd]
  by (cases "fst (handle env js cx rd req sv)") simp_all

lemma answers_documented_witness:
  "case fst (handle demo_env demo_js (demo_cx ''sa'') (demo_rd 2 ''b'') (ReqGetTripDetails ''t'') demo_server) of
      Reply st p \<Rightarrow> st = 200 | Failure st er \<Rightarrow> st \<in> {401, 404, 409, 422} | RawError e \<Rightarrow> False"
  using answers_documented [OF demo_server_reachable, of "ReqGetTripDetails ''t''" "demo_cx ''sa''" "demo_rd 2 ''b''"]
    demo_digests(2) by (simp split: reply.splits)

section \<open>Idempotency keys\<close>

text \<open>C21: Retrying is safe: when a request under an idempotency key was answered with success, then
  after any number of other requests the same request by the same subject gets the same answer
  again and the server does not change, provided the digest of a body is never empty and the JSON
  codec reads back the response it wrote.\<close>

theorem retry_replays:
  assumes "server_reachable env js sv" and "digests_nonempty js" and "sv_idem sv \<noteq> None"
    and "SubjectFromContext cx = Some sub" and "idem_fp sub req = Some fp" and "stores_response req"
    and "handle env js cx rd req sv = (Reply code p, sv1)"
    and "js_encode js p = Some b" and "js_decode js (stored_type req) b = Some p"
    and "later env js sv1 sv2" and "SubjectFromContext cx' = Some sub"
  shows "handle env js cx' rd' req sv2 = (Reply code p, sv2)"
proof -
  note r1 = server_reachable.request [OF assms(1), of cx rd req, unfolded assms(7) snd_conv]
  obtain st where st: "sv_idem sv = Some st" using assms(3) by blast
  obtain mid h where h: "acts_as (w_members (sv_world sv)) sub req mid" "body_digest js req = Inr h"
    using success_admitted [OF assms(1,4,5), of rd] assms(7) by auto
  note sv1 = assms(7)
  obtain st1 where st1: "sv_idem sv1 = Some st1" "istore.pins st1 fp h"
    using keyed_pins [OF assms(4) h(1) assms(5) h(2) assms(2) st, of env rd] sv1 by (auto simp: key_reuse_def)
  have rec: "istore.records (js_decode js (stored_type req)) st1 fp h (success_status req) p"
    using keyed_records [OF assms(4) h(1) assms(5) h(2) assms(6) st, of env rd code p b] assms(8,9) sv1 st1(1) by auto
  obtain st2 where st2: "sv_idem sv2 = Some st2" "istore.pins st2 fp h"
    "istore.records (js_decode js (stored_type req)) st2 fp h (success_status req) p"
    using kept_later [OF assms(10,2) r1 st1 assms(5) h(2)] rec by blast
  have a1: "acts_as (w_members (sv_world sv1)) sub req mid"
    using acts_as_stays [OF server_wf [OF assms(1)] h(1), of js cx rd req] sv1 by simp
  note a2 = acts_as_later [OF assms(10) r1 a1]
  have "code = success_status req"
    using keyed_answer [OF assms(4) h(1) assms(5) h(2) server_wf [OF assms(1)], of rd] sv1 by simp
  then show ?thesis using recorded_answers [OF assms(11) a2 assms(5) h(2) st2] by simp
qed

lemma retry_replays_witness:
  "\<exists>sv1. handle demo_env demo_js (demo_cx ''sa'') (demo_rd 2 ''t9'') (ReqCreateTripDraft ''k'' (Some ''Baja'')) demo_server =
     (Reply 201 demo_created, sv1) \<and>
     (let sv2 = snd (handle demo_env demo_js (demo_cx ''sa'') (demo_rd 3 ''t5'') (ReqCreateTripDraft ''k2'' (Some ''Moab'')) sv1)
      in handle demo_env demo_js (demo_cx ''sa'') (demo_rd 4 ''t6'') (ReqCreateTripDraft ''k'' (Some ''Baja'')) sv2 =
           (Reply 201 demo_created, sv2))"
proof -
  let ?req = "ReqCreateTripDraft ''k'' (Some ''Baja'')"
  let ?r = "handle demo_env demo_js (demo_cx ''sa'') (demo_rd 2 ''t9'') ?req demo_server"
  have "fst ?r = Reply 201 demo_created" by code_simp
  then have r: "?r = (Reply 201 demo_created, snd ?r)" by (metis prod.collapse)
  have idem: "sv_idem demo_server \<noteq> None"
    by (simp add: Option.is_none_def [symmetric]) code_simp
  have cx: "SubjectFromContext (demo_cx ''sa'') = Some ''sa''" by (simp add: demo_cx_def SubjectFromContext_def)
  have fp: "idem_fp ''sa'' ?req = Some (meta_fp ''k'' ''sa'' ''POST'' ''/trips'')" "stores_response ?req" by simp_all
  have codec: "js_encode demo_js demo_created = Some ''created''"
    "js_decode demo_js (stored_type ?req) ''created'' = Some demo_created" by (simp_all add: demo_js_def)
  have l: "later demo_env demo_js (snd ?r) (snd (handle demo_env demo_js (demo_cx ''sa'') (demo_rd 3 ''t5'')
      (ReqCreateTripDraft ''k2'' (Some ''Moab'')) (snd ?r)))"
    by (intro later.intros)
  show ?thesis
    using r retry_replays [OF demo_server_reachable demo_digests(1) idem cx fp r codec l cx, of "demo_rd 4 ''t6''"]
    by (metis (no_types))
qed

text \<open>C27: A key is bound to the first body a member sends with it, even when the operation then fails: after
  that request, if it was not itself refused as a reuse, and any number of other requests, a request
  under the same fingerprint whose body has another digest is answered 409 IDEMPOTENCY_KEY_REUSE and
  the server does not change. (A request refused because its sender is not a member yet binds
  nothing.)\<close>

theorem key_bound_to_body:
  assumes "server_reachable env js sv" and "digests_nonempty js" and "sv_idem sv \<noteq> None"
    and "SubjectFromContext cx = Some sub" and "acts_as (w_members (sv_world sv)) sub req mid"
    and "idem_fp sub req = Some fp" and "body_digest js req = Inr h"
    and "handle env js cx rd req sv = (rep, sv1)" and "rep \<noteq> key_reuse cx" and "later env js sv1 sv2"
    and "SubjectFromContext cx' = Some sub" and "idem_fp sub req' = Some fp" and "body_digest js req' = Inr h'"
    and "h' \<noteq> h"
  shows "handle env js cx' rd' req' sv2 = (key_reuse cx', sv2)"
proof -
  note r1 = server_reachable.request [OF assms(1), of cx rd req, unfolded assms(8) snd_conv]
  obtain st where st: "sv_idem sv = Some st" using assms(3) by blast
  obtain st1 where st1: "sv_idem sv1 = Some st1" "istore.pins st1 fp h"
    using keyed_pins [OF assms(4-7,2) st, of env rd] assms(8,9) by auto
  obtain st2 where st2: "sv_idem sv2 = Some st2" "istore.pins st2 fp h"
    using kept_later [OF assms(10,2) r1 st1 assms(6,7)] by blast
  have "acts_as (w_members (sv_world sv1)) sub req' mid"
    using acts_as_stays [OF server_wf [OF assms(1)] assms(5), of js cx rd req] assms(8)
      route_determines [OF assms(6,12)] by (simp add: acts_as_def)
  note a2 = acts_as_later [OF assms(10) r1 this]
  show ?thesis by (rule pinned_rejects [OF assms(11) a2 assms(12,13) st2 assms(14)])
qed

lemma key_bound_to_body_witness:
  "\<exists>er sv1. handle demo_env demo_js (demo_cx ''sa'') (demo_rd 2 ''i'') (ReqSetVisibility ''k'' ''t1'' (Some Public)) demo_server =
     (Failure 404 er, sv1) \<and>
     handle demo_env demo_js (demo_cx ''sa'') (demo_rd 3 ''i'') (ReqSetVisibility ''k'' ''t2'' (Some Public)) sv1 =
       (key_reuse (demo_cx ''sa''), sv1)"
proof -
  let ?req = "ReqSetVisibility ''k'' ''t1'' (Some Public)" and ?req' = "ReqSetVisibility ''k'' ''t2'' (Some Public)"
  let ?r = "handle demo_env demo_js (demo_cx ''sa'') (demo_rd 2 ''i'') ?req demo_server"
  have "case fst ?r of Failure st er \<Rightarrow> st = 404 | _ \<Rightarrow> False" by code_simp
  then obtain er where r: "?r = (Failure 404 er, snd ?r)" by (cases ?r) (auto split: reply.splits)
  have cx: "SubjectFromContext (demo_cx ''sa'') = Some ''sa''" by (simp add: demo_cx_def SubjectFromContext_def)
  have "\<not> isl (GetMyMemberProfile (w_members (sv_world demo_server)) ''sa'')" by code_simp
  then have act: "acts_as (w_members (sv_world demo_server)) ''sa'' ?req
      (m_id (projr (GetMyMemberProfile (w_members (sv_world demo_server)) ''sa'')))"
    by (cases "GetMyMemberProfile (w_members (sv_world demo_server)) ''sa''") (simp_all add: acts_as_def)
  have "sv_idem demo_server \<noteq> None" by (simp add: Option.is_none_def [symmetric]) code_simp
  note bound = key_bound_to_body [OF demo_server_reachable demo_digests(1) this cx act, where rd = "demo_rd 2 ''i''" and req' = ?req'
      and rd' = "demo_rd 3 ''i''" and h = "''vt1''" and h' = "''vt2''", OF _ _ r _ later.now cx]
  have "body_digest demo_js ?req = Inr ''vt1''" "body_digest demo_js ?req' = Inr ''vt2''"
    by (simp_all add: demo_js_def hashSetTripDraftVisibilityBody_def)
  then have "handle demo_env demo_js (demo_cx ''sa'') (demo_rd 3 ''i'') ?req' (snd ?r) = (key_reuse (demo_cx ''sa''), snd ?r)"
    by (intro bound) (simp_all add: key_reuse_def)
  then show ?thesis using r by blast
qed

text \<open>Equal body hashes never merge different requests: two bodies of one handler with the same
  canonical form, and so the same digest, ask the service for the same operation with the same
  outcome, whatever the digest function, the world and the time.\<close>

theorem canonical_bodies_equivalent:
  assumes "idem_fp sub req = Some fp" and "idem_fp sub req' = Some fp" and "canonical_body req = canonical_body req'"
  shows "service_call env cx rd sub mid req w = service_call env cx rd sub mid req' w \<and>
    body_digest js req = body_digest js req'"
proof -
  have "body_digest js req = body_digest js req'"
    using body_digest_canonical [OF assms(1), of js] body_digest_canonical [OF assms(2), of js] assms(3) by auto
  moreover have "service_call env cx rd sub mid req w = service_call env cx rd sub mid req' w"
    using assms
    by (cases "(sub, req)" rule: idem_fp.cases; cases "(sub, req')" rule: idem_fp.cases)
       (auto simp: meta_fp_def intro!: arg_cong2 [where f = "trips_call _ _ _"] arg_cong [where f = "trips_call _ _ _ _"]
         arg_cong [where f = "members_reply _ _ _ _"] same_service_input same_profile_input)
  ultimately show ?thesis by blast
qed

lemma canonical_bodies_equivalent_witness:
  "service_call demo_env (demo_cx ''sa'') (demo_rd 1 ''t'') ''sa'' ''a'' (ReqCreateTripDraft ''k'' (Some '' Baja  run'')) (sv_world demo_server) =
   service_call demo_env (demo_cx ''sa'') (demo_rd 1 ''t'') ''sa'' ''a'' (ReqCreateTripDraft ''k'' (Some ''Baja run '')) (sv_world demo_server)"
proof -
  have n: "NormalizeHumanName '' Baja  run'' = NormalizeHumanName ''Baja run ''" by code_simp
  show ?thesis
    by (rule canonical_bodies_equivalent [where sub = "''sa''" and fp = "meta_fp ''k'' ''sa'' ''POST'' ''/trips''", THEN conjunct1])
       (simp_all add: n)
qed

text \<open>Idempotency keys are private to a subject: a request changes no record stored under another
  subject's fingerprints, so nobody can replay, block or overwrite another member's keys.\<close>

theorem keys_private_to_subject:
  assumes "server_reachable env js sv" and "SubjectFromContext cx = Some sub" and "sv_idem sv = Some st"
    and "fp_subject fp \<noteq> sub"
  shows "\<exists>st'. sv_idem (snd (handle env js cx rd req sv)) = Some st' \<and> idem_get st' fp = idem_get st fp"
proof -
  have "\<exists>st'. sv_idem (snd (after_guards env js cx rd sub mid req sv)) = Some st' \<and> idem_get st' fp = idem_get st fp" for mid
  proof (rule after_guards_cases [of sub req env js cx rd mid sv])
    fix fp' h'
    assume fp': "idem_fp sub req = Some fp'" and i: "after_guards env js cx rd sub mid req sv =
      idempotent js cx rd (success_status req) (stored_type req) (stores_response req) fp' h' sv (service_call env cx rd sub mid req)"
    have "fp_subject fp' = sub" using fp' by (cases "(sub, req)" rule: idem_fp.cases) (auto simp: meta_fp_def)
    then have ne: "fp \<noteq> fp'" "fp \<noteq> fp'\<lparr>fp_body_hash := h'\<rparr>" using assms(4) by auto
    obtain out s1 s2 where b: "idem_begin idem_get idem_put (js_decode js (stored_type req)) (success_status req)
          fp' h' (rd_meta rd) st = (out, s1)"
      and s2: "sv_idem (snd (after_guards env js cx rd sub mid req sv)) = Some s2"
        "s2 = s1 \<or> (\<exists>q. out = IdemProceed \<and>
           s2 = idem_finish idem_put (js_encode js) (success_status req) fp' h' (rd_store rd) q s1)"
      unfolding i by (rule idempotent_store [OF assms(3)])
    have "idem_get s1 fp = idem_get st fp" using istore.begin_frame [OF b ne(1)] .
    then have "idem_get s2 fp = idem_get st fp" using s2(2) by (auto simp: istore.finish_frame [OF ne(2)])
    then show ?thesis using s2(1) by blast
  qed (use assms(3) in \<open>auto simp: run_plain_def\<close>)
  note after = this
  show ?thesis using server_members_wf [OF assms(1)]
    by (cases rule: handle_cases [where cx = cx and env = env and js = js and rd = rd and req = req])
       (use assms(2,3) after in auto)
qed

lemma keys_private_to_subject_witness:
  "\<exists>st'. sv_idem (snd (handle demo_env demo_js (demo_cx ''sa'') (demo_rd 2 ''t9'') (ReqCreateTripDraft ''k'' (Some ''Baja'')) demo_server)) =
     Some st' \<and> idem_get st' (meta_fp ''k'' ''sb'' ''POST'' ''/trips'') = Inr None"
proof -
  have "\<not> Option.is_none (sv_idem demo_server) \<and>
      idem_get (the (sv_idem demo_server)) (meta_fp ''k'' ''sb'' ''POST'' ''/trips'') = Inr None" by code_simp
  then obtain st where st: "sv_idem demo_server = Some st" "idem_get st (meta_fp ''k'' ''sb'' ''POST'' ''/trips'') = Inr None"
    by (auto simp: Option.is_none_def)
  have "SubjectFromContext (demo_cx ''sa'') = Some ''sa''" by (simp add: demo_cx_def SubjectFromContext_def)
  from keys_private_to_subject [OF demo_server_reachable this st(1), of "meta_fp ''k'' ''sb'' ''POST'' ''/trips''"
      "demo_rd 2 ''t9''" "ReqCreateTripDraft ''k'' (Some ''Baja'')"] show ?thesis
    using st(2) by (simp add: meta_fp_def)
qed

end
