(* ===== verification/Base64.thy ===== *)
theory Base64
  imports GoTime "HOL-Library.Code_Target_Nat"
begin

text \<open>
  The part of \<open>encoding/base64\<close>, \<open>math/big\<close> and \<open>strings.Split\<close> the JWT verifier
  (internal/platform/auth/jwtverifier) and the development issuer (cmd/devjwt) use:
  \<open>RawURLEncoding\<close> in both directions, byte strings as big-endian integers, and splitting a token
  at its dots. Shown: each direction undoes the other on what the issuer writes.
\<close>

section \<open>RawURLEncoding\<close>

text \<open>The alphabet without padding; the decoder skips line breaks and, being non-strict, ignores the
  unused bits of the last character.\<close>

definition b64_char :: "nat \<Rightarrow> char" where
  "b64_char n =
     (if n < 26 then char_of (65 + n) else if n < 52 then char_of (71 + n)
      else if n < 62 then char_of (n - 4) else if n = 62 then CHR ''-'' else CHR ''_'')"

definition b64_val :: "char \<Rightarrow> nat option" where
  "b64_val c =
     (let b = byte_of c in
      if 65 \<le> b \<and> b \<le> 90 then Some (b - 65) else if 97 \<le> b \<and> b \<le> 122 then Some (b - 71)
      else if 48 \<le> b \<and> b \<le> 57 then Some (b + 4) else if b = 45 then Some 62
      else if b = 95 then Some 63 else None)"

fun b64_values :: "gostring \<Rightarrow> nat list option" where
  "b64_values [] = Some []"
| "b64_values (c # s) =
     (if byte_of c = 10 \<or> byte_of c = 13 then b64_values s
      else case b64_val c of None \<Rightarrow> None | Some v \<Rightarrow> map_option ((#) v) (b64_values s))"

fun b64_quanta :: "nat list \<Rightarrow> nat list option" where
  "b64_quanta [] = Some []"
| "b64_quanta [a] = None"
| "b64_quanta [a, b] = Some [a * 4 + b div 16]"
| "b64_quanta [a, b, c] = Some [a * 4 + b div 16, (b mod 16) * 16 + c div 4]"
| "b64_quanta (a # b # c # d # r) =
     map_option (\<lambda>bs. (a * 4 + b div 16) # ((b mod 16) * 16 + c div 4) # ((c mod 4) * 64 + d) # bs) (b64_quanta r)"

definition b64_decode :: "gostring \<Rightarrow> gostring option" where
  "b64_decode s =
     (case b64_values s of None \<Rightarrow> None | Some vs \<Rightarrow> map_option (map char_of) (b64_quanta vs))"

fun b64_digits :: "nat list \<Rightarrow> nat list" where
  "b64_digits [] = []"
| "b64_digits [x] = [x div 4, (x mod 4) * 16]"
| "b64_digits [x, y] = [x div 4, (x mod 4) * 16 + y div 16, (y mod 16) * 4]"
| "b64_digits (x # y # z # r) =
     (x div 4) # ((x mod 4) * 16 + y div 16) # ((y mod 16) * 4 + z div 64) # (z mod 64) # b64_digits r"

definition b64_encode :: "gostring \<Rightarrow> gostring" where
  "b64_encode s = map b64_char (b64_digits (map byte_of s))"

lemma byte_of_less: "byte_of c < 256"
  by (simp add: byte_of_def)

lemma char_of_byte_of [simp]: "char_of (byte_of c) = c"
  by (simp add: byte_of_def)

lemma byte_of_char_of: "byte_of (char_of n) = n mod 256"
  by (simp add: byte_of_def)

lemma b64_char_inverse:
  "n < 64 \<Longrightarrow> b64_val (b64_char n) = Some n \<and> byte_of (b64_char n) \<noteq> 10 \<and> byte_of (b64_char n) \<noteq> 13"
proof -
  have "list_all (\<lambda>n. b64_val (b64_char n) = Some n \<and> byte_of (b64_char n) \<noteq> 10 \<and> byte_of (b64_char n) \<noteq> 13) [0..<64]"
    by code_simp
  then show "n < 64 \<Longrightarrow> ?thesis" by (simp add: list_all_iff)
qed

lemma b64_values_encode: "list_all (\<lambda>n. n < 64) ns \<Longrightarrow> b64_values (map b64_char ns) = Some ns"
  by (induction ns) (simp_all add: b64_char_inverse)

lemma b64_digits_range: "list_all (\<lambda>x. x < 256) xs \<Longrightarrow> list_all (\<lambda>n. n < 64) (b64_digits xs)"
  by (induction xs rule: b64_digits.induct) (auto simp: less_mult_imp_div_less)

lemma high_bits: "y < 256 \<Longrightarrow> ((x::nat) mod m * 16 + y div 16) div 16 = x mod m"
  and high_bits4: "y < 256 \<Longrightarrow> ((x::nat) mod m * 4 + y div 64) div 4 = x mod m"
  by (simp_all add: less_mult_imp_div_less)

lemma low_bits: "y < 256 \<Longrightarrow> ((x::nat) mod m * 16 + y div 16) mod 16 = y div 16"
  and low_bits4: "y < 256 \<Longrightarrow> ((x::nat) mod m * 4 + y div 64) mod 4 = y div 64"
  by (simp_all add: less_mult_imp_div_less)

lemma b64_quanta_digits: "list_all (\<lambda>x. x < 256) xs \<Longrightarrow> b64_quanta (b64_digits xs) = Some xs"
proof (induction xs rule: b64_digits.induct)
  case (4 x y z r)
  have "y div 16 < 16" "z div 64 < 4" using 4(2) by (simp_all add: less_mult_imp_div_less)
  then have "y div 16 div 16 = 0" "y div 16 mod 16 = y div 16" "z div 64 div 4 = 0" "z div 64 mod 4 = z div 64" by simp_all
  then show ?case using 4 by (simp add: high_bits high_bits4 low_bits low_bits4)
next
  case (3 x y)
  then have "y div 16 < 16" by (simp add: less_mult_imp_div_less)
  then have "y div 16 div 16 = 0" "y div 16 mod 16 = y div 16" by simp_all
  then show ?case using 3 by (simp add: high_bits low_bits)
qed simp_all

lemma b64_round_trip: "b64_decode (b64_encode s) = Some s"
proof -
  have bytes: "list_all (\<lambda>x. x < 256) (map byte_of s)" by (simp add: list_all_iff byte_of_less)
  show ?thesis
    by (simp add: b64_decode_def b64_encode_def b64_values_encode [OF b64_digits_range [OF bytes]]
        b64_quanta_digits [OF bytes] comp_def)
qed

lemma b64_encode_Nil: "b64_encode s = [] \<longleftrightarrow> s = []"
proof -
  have "b64_digits xs = [] \<longleftrightarrow> xs = []" for xs by (cases xs rule: b64_digits.cases) simp_all
  then show ?thesis by (simp add: b64_encode_def)
qed

text \<open>An encoded string never contains a dot.\<close>

lemma b64_encode_no_dot: "CHR ''.'' \<notin> set (b64_encode s)"
proof
  assume "CHR ''.'' \<in> set (b64_encode s)"
  then obtain n where n: "n \<in> set (b64_digits (map byte_of s))" "b64_char n = CHR ''.''"
    by (auto simp: b64_encode_def)
  have "list_all (\<lambda>x. x < 256) (map byte_of s)" by (simp add: list_all_iff byte_of_less)
  then have "n < 64" using b64_digits_range n(1) by (fastforce simp: list_all_iff)
  then have "b64_val (CHR ''.'') = Some n" using b64_char_inverse n(2) by metis
  then show False by (simp add: b64_val_def byte_of_def)
qed

section \<open>Splitting at a separator\<close>

text \<open>\<open>strings.Split\<close> with a one-byte separator.\<close>

fun str_split :: "char \<Rightarrow> gostring \<Rightarrow> gostring list" where
  "str_split sep [] = [[]]"
| "str_split sep (c # s) =
     (if c = sep then [] # str_split sep s
      else case str_split sep s of [] \<Rightarrow> [[c]] | w # ws \<Rightarrow> (c # w) # ws)"

lemma str_split_not_Nil [simp]: "str_split sep s \<noteq> []"
  by (cases s) (auto split: list.split)

lemma str_split_word: "sep \<notin> set w \<Longrightarrow> str_split sep w = [w]"
  by (induction w) auto

lemma str_split_step: "sep \<notin> set w \<Longrightarrow> str_split sep (w @ sep # s) = w # str_split sep s"
  by (induction w) auto

lemma join_split: "join [sep] (str_split sep s) = s"
proof (induction s)
  case (Cons c s)
  then show ?case by (cases "str_split sep s") (auto, (case_tac list; simp)+)
qed simp

section \<open>Big-endian integers\<close>

text \<open>\<open>new(big.Int).SetBytes\<close>, and \<open>Int64\<close>, which keeps the low 64 bits.\<close>

definition be_nat :: "gostring \<Rightarrow> nat" where
  "be_nat s = fold (\<lambda>c n. n * 256 + byte_of c) s 0"

definition be_int64 :: "gostring \<Rightarrow> int" where
  "be_int64 s = wrap64 (int (be_nat s))"

text \<open>\<open>Bytes()\<close>: the big-endian bytes without leading zeros.\<close>

fun be_bytes :: "nat \<Rightarrow> gostring" where
  "be_bytes n = (if n = 0 then [] else be_bytes (n div 256) @ [char_of (n mod 256)])"

declare be_bytes.simps [simp del]

lemma be_nat_bytes: "be_nat (be_bytes n) = n"
proof (induction n rule: be_bytes.induct)
  case (1 n)
  then show ?case by (subst be_bytes.simps) (simp add: be_nat_def byte_of_char_of)
qed

lemma be_bytes_Nil: "be_bytes n = [] \<longleftrightarrow> n = 0"
  by (subst be_bytes.simps) simp

end
