(* ===== verification/JwtVerifier.thy ===== *)
theory JwtVerifier
  imports Base64 Domain
begin

text \<open>
  internal/platform/auth/jwtverifier/verifier.go and internal/platform/config/jwt.go: the
  configuration, parsing of a token and of a key set, the claims check, the cached key set with
  its refresh rules, and \<open>Verify\<close>. Each call of \<open>Verify\<close> here runs alone; theory JwtRefresh
  interleaves them.

  \<open>encoding/json\<close>, \<open>time.ParseDuration\<close> and the RSA signature check of \<open>crypto/rsa\<close> over a SHA-256
  digest are fields of \<open>jwt_env\<close>; the HTTP exchange with the key server is the argument \<open>fetch\<close>.
\<close>

section \<open>Configuration\<close>

record jwt_config =
  cfg_issuer :: gostring
  cfg_audience :: gostring
  cfg_jwks_url :: gostring
  cfg_clock_skew :: duration
  cfg_refresh_interval :: duration
  cfg_min_refresh_interval :: duration
  cfg_http_timeout :: duration

text \<open>\<open>v\<close> is the value of the variable; an empty one keeps the default.\<close>

definition duration_from_env ::
    "(gostring \<Rightarrow> gostring + duration) \<Rightarrow> gostring \<Rightarrow> gostring \<Rightarrow> gostring \<Rightarrow> duration \<Rightarrow> goerror + duration" where
  "duration_from_env parse name example v dflt =
     (if v = '''' then Inr dflt
      else case parse v of
             Inl err \<Rightarrow> Inl (OtherError (name @ '' must be a duration (e.g. '' @ example @ ''): '' @ err))
           | Inr d \<Rightarrow> Inr d)"

definition LoadJWTConfigFromEnv ::
    "(gostring \<Rightarrow> gostring + duration) \<Rightarrow> (gostring \<Rightarrow> gostring) \<Rightarrow> goerror + jwt_config" where
  "LoadJWTConfigFromEnv parse getenv =
     (let issuer = getenv ''JWT_ISSUER''; audience = getenv ''JWT_AUDIENCE''; url = getenv ''JWT_JWKS_URL'' in
      if issuer = '''' \<or> audience = '''' \<or> url = '''' then
        Inl (OtherError ''missing required env vars: JWT_ISSUER, JWT_AUDIENCE, JWT_JWKS_URL'')
      else
        and_then (duration_from_env parse ''JWT_CLOCK_SKEW'' ''30s'' (getenv ''JWT_CLOCK_SKEW'') (30 * second)) (\<lambda>skew.
        and_then (duration_from_env parse ''JWT_JWKS_REFRESH_INTERVAL'' ''5m''
                    (getenv ''JWT_JWKS_REFRESH_INTERVAL'') (5 * 60 * second)) (\<lambda>every.
        and_then (duration_from_env parse ''JWT_JWKS_MIN_REFRESH_INTERVAL'' ''10s''
                    (getenv ''JWT_JWKS_MIN_REFRESH_INTERVAL'') (10 * second)) (\<lambda>least.
          Inr \<lparr>cfg_issuer = issuer, cfg_audience = audience, cfg_jwks_url = url, cfg_clock_skew = skew,
               cfg_refresh_interval = every, cfg_min_refresh_interval = least,
               cfg_http_timeout = 5 * second\<rparr>))))"

section \<open>Tokens\<close>

record jwt_header =
  jh_alg :: gostring
  jh_kid :: gostring
  jh_typ :: gostring

text \<open>\<open>jc_aud\<close> is the raw JSON of the claim; \<open>Exp\<close> and \<open>Nbf\<close> are pointers to \<open>int64\<close>.\<close>

record jwt_claims =
  jc_iss :: gostring
  jc_sub :: gostring
  jc_aud :: gostring
  jc_exp :: "int option"
  jc_nbf :: "int option"

record rsa_key =
  rk_n :: nat
  rk_e :: int

record jwk =
  jk_kty :: gostring
  jk_kid :: gostring
  jk_alg :: gostring
  jk_use :: gostring
  jk_n :: gostring
  jk_e :: gostring

record jwt_env =
  je_header :: "gostring \<Rightarrow> jwt_header option"
  je_claims :: "gostring \<Rightarrow> jwt_claims option"
  je_string :: "gostring \<Rightarrow> gostring option"
  je_strings :: "gostring \<Rightarrow> gostring list option"
  je_keys :: "gostring \<Rightarrow> jwk list option"
  je_rsa :: "rsa_key \<Rightarrow> gostring \<Rightarrow> gostring \<Rightarrow> bool"   \<comment> \<open>key, signing input, signature\<close>

text \<open>Every failure of \<open>parseJWT\<close> is the same to its caller.\<close>

definition parseJWT :: "jwt_env \<Rightarrow> gostring \<Rightarrow> (jwt_header \<times> jwt_claims \<times> gostring \<times> gostring) option" where
  "parseJWT je token =
     (case str_split (CHR ''.'') token of
        [p0, p1, p2] \<Rightarrow>
          (case b64_decode p0 of None \<Rightarrow> None | Some hb \<Rightarrow>
          (case b64_decode p1 of None \<Rightarrow> None | Some cb \<Rightarrow>
          (case b64_decode p2 of None \<Rightarrow> None | Some sig \<Rightarrow>
          (case je_header je hb of None \<Rightarrow> None | Some h \<Rightarrow>
          (case je_claims je cb of None \<Rightarrow> None | Some c \<Rightarrow>
            Some (h, c, p0 @ ''.'' @ p1, sig))))))
      | _ \<Rightarrow> None)"

definition audMatches :: "jwt_env \<Rightarrow> gostring \<Rightarrow> gostring \<Rightarrow> bool" where
  "audMatches je raw expected =
     (if raw = '''' then False
      else case je_string je raw of
             Some s \<Rightarrow> s = expected
           | None \<Rightarrow>
               (case je_strings je raw of
                  Some arr \<Rightarrow> list_ex (\<lambda>v. v = expected) arr
                | None \<Rightarrow> False))"

datatype claim_error = IssMismatch | AudMismatch | MissingExp | TokenExpired | NotYetValid

definition validateClaims :: "jwt_env \<Rightarrow> jwt_config \<Rightarrow> gotime \<Rightarrow> jwt_claims \<Rightarrow> claim_error option" where
  "validateClaims je cfg now c =
     (let skew = cfg_clock_skew cfg in
      if jc_iss c \<noteq> cfg_issuer cfg then Some IssMismatch
      else if \<not> audMatches je (jc_aud c) (cfg_audience cfg) then Some AudMismatch
      else case jc_exp c of
             None \<Rightarrow> Some MissingExp
           | Some e \<Rightarrow>
               if now > time_add (time_unix e) skew then Some TokenExpired
               else (case jc_nbf c of
                       None \<Rightarrow> None
                     | Some n \<Rightarrow>
                         if now < time_add (time_unix n) (wrap64 (- skew)) then Some NotYetValid else None))"

section \<open>Key sets\<close>

fun jwks_keys :: "jwk list \<Rightarrow> (gostring, rsa_key) gomap \<Rightarrow> (gostring, rsa_key) gomap option" where
  "jwks_keys [] out = Some out"
| "jwks_keys (k # ks) out =
     (if jk_kty k \<noteq> ''RSA'' \<or> jk_kid k = '''' \<or> jk_n k = '''' \<or> jk_e k = '''' then jwks_keys ks out
      else case b64_decode (jk_n k) of None \<Rightarrow> None | Some nb \<Rightarrow>
          (case b64_decode (jk_e k) of None \<Rightarrow> None | Some eb \<Rightarrow>
             let e = be_int64 eb in
             if e \<le> 0 \<or> e > max_int64 then None
             else jwks_keys ks (AList.update (jk_kid k) \<lparr>rk_n = be_nat nb, rk_e = e\<rparr> out)))"

definition parseJWKS :: "jwt_env \<Rightarrow> gostring \<Rightarrow> (gostring, rsa_key) gomap option" where
  "parseJWKS je b =
     (case je_keys je b of None \<Rightarrow> None
      | Some ks \<Rightarrow>
          (case jwks_keys ks [] of None \<Rightarrow> None
           | Some out \<Rightarrow> if out = [] then None else Some out))"

section \<open>The verifier\<close>

record verifier =
  vf_cfg :: jwt_config
  vf_keys :: "(gostring, rsa_key) gomap"
  vf_last_refresh :: gotime

definition new_verifier :: "jwt_config \<Rightarrow> verifier" where
  "new_verifier cfg = \<lparr>vf_cfg = cfg, vf_keys = [], vf_last_refresh = 0\<rparr>"

definition getKey :: "verifier \<Rightarrow> gostring \<Rightarrow> rsa_key option" where
  "getKey v kid = map_of (vf_keys v) kid"

text \<open>The decision of \<open>maybeRefresh\<close>; the zero time stands for "never refreshed".\<close>

definition should_refresh :: "verifier \<Rightarrow> gotime \<Rightarrow> gostring \<Rightarrow> bool" where
  "should_refresh v now kid =
     (let last = vf_last_refresh v; cfg = vf_cfg v;
          interval = last \<noteq> 0 \<and> cfg_refresh_interval cfg > 0 \<and> time_sub now last \<ge> cfg_refresh_interval cfg;
          unknown = getKey v kid = None;
          allowed = last = 0 \<or> cfg_min_refresh_interval cfg \<le> 0 \<or>
                    time_sub now last \<ge> cfg_min_refresh_interval cfg
      in interval \<or> unknown \<and> allowed)"

text \<open>What the key server did: no response, or a status with a body that could be read or not.\<close>

datatype fetch = FetchFailed | Fetched int "gostring option"

definition refresh :: "jwt_env \<Rightarrow> fetch \<Rightarrow> gotime \<Rightarrow> verifier \<Rightarrow> bool \<times> verifier" where
  "refresh je f now v =
     (case f of
        FetchFailed \<Rightarrow> (False, v)
      | Fetched status body \<Rightarrow>
          if status < 200 \<or> status \<ge> 300 then (False, v)
          else (case body of None \<Rightarrow> (False, v)
                | Some b \<Rightarrow>
                    (case parseJWKS je b of
                       None \<Rightarrow> (False, v)
                     | Some ks \<Rightarrow> (True, v\<lparr>vf_keys := ks, vf_last_refresh := now\<rparr>))))"

text \<open>One call without contention: \<open>False\<close> is an error.\<close>

definition maybeRefresh ::
    "jwt_env \<Rightarrow> fetch \<Rightarrow> gotime \<Rightarrow> gotime \<Rightarrow> gostring \<Rightarrow> verifier \<Rightarrow> bool \<times> verifier" where
  "maybeRefresh je f now1 now2 kid v =
     (if should_refresh v now1 kid then refresh je f now2 v else (True, v))"

definition err_unauthorized :: goerror where
  "err_unauthorized = OtherError ''unauthorized''"

text \<open>What follows the refresh: the key of the (possibly new) cache, the signature, the claims.\<close>

definition check_token ::
    "jwt_env \<Rightarrow> verifier \<Rightarrow> gotime \<Rightarrow> jwt_header \<Rightarrow> jwt_claims \<Rightarrow> gostring \<Rightarrow> gostring \<Rightarrow> goerror + gostring" where
  "check_token je v now h c input sig =
     (case getKey v (jh_kid h) of
        None \<Rightarrow> Inl err_unauthorized
      | Some pub \<Rightarrow>
          if \<not> je_rsa je pub input sig then Inl err_unauthorized
          else if validateClaims je (vf_cfg v) now c \<noteq> None then Inl err_unauthorized
          else if jc_sub c = '''' then Inl err_unauthorized
          else Inr (jc_sub c))"

text \<open>The three clock readings of a call, in order.\<close>

definition Verify ::
    "jwt_env \<Rightarrow> fetch \<Rightarrow> gotime \<Rightarrow> gotime \<Rightarrow> gotime \<Rightarrow> gostring \<Rightarrow> verifier \<Rightarrow> (goerror + gostring) \<times> verifier" where
  "Verify je f now1 now2 now3 token v =
     (case parseJWT je token of
        None \<Rightarrow> (Inl err_unauthorized, v)
      | Some (h, c, input, sig) \<Rightarrow>
          if jh_alg h \<noteq> ''RS256'' \<or> jh_kid h = '''' then (Inl err_unauthorized, v)
          else
            let (ok, v') = maybeRefresh je f now1 now2 (jh_kid h) v in
            if \<not> ok then (Inl err_unauthorized, v') else (check_token je v' now3 h c input sig, v'))"

end
