(* ===== verification/JwtInv.thy ===== *)
theory JwtInv
  imports JwtVerifier
begin

text \<open>
  Library for the JWT verifier: what a parsed token looks like, the claims check without
  overflow, the cache invariant, and the verifiers reachable by calls of \<open>Verify\<close>.
\<close>

section \<open>Tokens\<close>

lemma parseJWT_Some:
  assumes "parseJWT je token = Some (h, c, input, sig)"
  obtains p0 p1 p2 hb cb where "token = p0 @ ''.'' @ p1 @ ''.'' @ p2" and "input = p0 @ ''.'' @ p1"
    and "b64_decode p0 = Some hb" "je_header je hb = Some h"
    and "b64_decode p1 = Some cb" "je_claims je cb = Some c" and "b64_decode p2 = Some sig"
proof -
  from assms obtain p0 p1 p2 hb cb where s: "str_split (CHR ''.'') token = [p0, p1, p2]"
    and "input = p0 @ ''.'' @ p1" "b64_decode p0 = Some hb" "je_header je hb = Some h"
    "b64_decode p1 = Some cb" "je_claims je cb = Some c" "b64_decode p2 = Some sig"
    by (auto simp: parseJWT_def split: list.splits option.splits)
  moreover have "token = p0 @ ''.'' @ p1 @ ''.'' @ p2"
    using join_split [of "CHR ''.''" token] by (simp add: s)
  ultimately show ?thesis using that by blast
qed

lemma parseJWT_tokens:
  assumes "CHR ''.'' \<notin> set p0" "CHR ''.'' \<notin> set p1" "CHR ''.'' \<notin> set p2"
    and "b64_decode p0 = Some hb" "je_header je hb = Some h"
    and "b64_decode p1 = Some cb" "je_claims je cb = Some c" and "b64_decode p2 = Some sig"
  shows "parseJWT je (p0 @ ''.'' @ p1 @ ''.'' @ p2) = Some (h, c, p0 @ ''.'' @ p1, sig)"
proof -
  have "str_split (CHR ''.'') (p0 @ ''.'' @ p1 @ ''.'' @ p2) = [p0, p1, p2]"
    using str_split_step [OF assms(1), of "p1 @ ''.'' @ p2"] str_split_step [OF assms(2), of p2] str_split_word [OF assms(3)]
    by simp
  then show ?thesis using assms(4-8) by (simp add: parseJWT_def)
qed

section \<open>Claims\<close>

lemma second_pos [simp]: "0 < second" "second \<noteq> 0"
  by (simp_all add: second_def)

text \<open>\<open>Add\<close> is plain addition as long as the second counter does not overflow.\<close>

lemma time_add_exact:
  assumes "- max_int64 * second \<le> t + d" and "t + d \<le> max_int64 * second"
  shows "time_add t d = t + d"
proof -
  have hi: "(t + d) div second \<le> max_int64" using assms(2) zdiv_mono1 [of "t + d" "max_int64 * second" second] by simp
  have "(- max_int64) * second div second \<le> (t + d) div second" using assms(1) by (intro zdiv_mono1) simp_all
  then have "- max_int64 \<le> (t + d) div second"
    unfolding nonzero_mult_div_cancel_right [OF second_pos(2)] .
  then show ?thesis using hi by (simp add: time_add_def Let_def)
qed

definition aud_ok :: "jwt_env \<Rightarrow> jwt_config \<Rightarrow> jwt_claims \<Rightarrow> bool" where
  "aud_ok je cfg c \<longleftrightarrow> jc_iss c = cfg_issuer cfg \<and> audMatches je (jc_aud c) (cfg_audience cfg)"

lemma validateClaims_None:
  "validateClaims je cfg now c = None \<longleftrightarrow>
     aud_ok je cfg c \<and> (\<exists>e. jc_exp c = Some e \<and> now \<le> time_add (time_unix e) (cfg_clock_skew cfg)) \<and>
     (\<forall>n. jc_nbf c = Some n \<longrightarrow> time_add (time_unix n) (wrap64 (- cfg_clock_skew cfg)) \<le> now)"
  by (auto simp: validateClaims_def aud_ok_def Let_def split: option.splits)

section \<open>The cache\<close>

lemma maybeRefresh_cases:
  assumes "maybeRefresh je f n1 n2 kid v = (ok, v')"
  obtains (cached) "\<not> should_refresh v n1 kid" "ok" "v' = v"
  | (failed) "should_refresh v n1 kid" "\<not> ok" "v' = v" "fst (refresh je f n2 v) = False"
  | (fetched) b ks where "should_refresh v n1 kid" "ok" "parseJWKS je b = Some ks" "\<exists>st. f = Fetched st (Some b)"
      "v' = v\<lparr>vf_keys := ks, vf_last_refresh := n2\<rparr>"
  using assms
  by (auto simp: maybeRefresh_def refresh_def split: if_splits fetch.splits option.splits)

lemma maybeRefresh_cfg: "maybeRefresh je f n1 n2 kid v = (ok, v') \<Longrightarrow> vf_cfg v' = vf_cfg v"
  by (erule maybeRefresh_cases) simp_all

definition cache_ok :: "verifier \<Rightarrow> bool" where
  "cache_ok v \<longleftrightarrow> (vf_keys v \<noteq> [] \<longrightarrow> vf_last_refresh v \<noteq> 0)"

lemma maybeRefresh_cache: "maybeRefresh je f n1 n2 kid v = (ok, v') \<Longrightarrow> n2 \<noteq> 0 \<Longrightarrow> cache_ok v \<Longrightarrow> cache_ok v'"
  by (erule maybeRefresh_cases) (simp_all add: cache_ok_def)

lemma Verify_state:
  "snd (Verify je f n1 n2 n3 token v) = v \<or>
   (\<exists>h c input sig. parseJWT je token = Some (h, c, input, sig) \<and> jh_alg h = ''RS256'' \<and> jh_kid h \<noteq> '''' \<and>
      snd (Verify je f n1 n2 n3 token v) = snd (maybeRefresh je f n1 n2 (jh_kid h) v))"
  by (auto simp: Verify_def case_prod_unfold Let_def split: option.split)

text \<open>An accepted token, step by step.\<close>

lemma Verify_Inr:
  assumes "Verify je f n1 n2 n3 token v = (Inr sub, v')"
  obtains h c input sig pub where "parseJWT je token = Some (h, c, input, sig)"
    and "jh_alg h = ''RS256''" "jh_kid h \<noteq> ''''" and "maybeRefresh je f n1 n2 (jh_kid h) v = (True, v')"
    and "getKey v' (jh_kid h) = Some pub" and "je_rsa je pub input sig"
    and "validateClaims je (vf_cfg v') n3 c = None" and "jc_sub c = sub" "sub \<noteq> ''''"
  using assms
  by (auto simp: Verify_def check_token_def Let_def split: option.splits if_splits prod.splits)

inductive verifier_reachable :: "jwt_env \<Rightarrow> jwt_config \<Rightarrow> verifier \<Rightarrow> bool" for je cfg where
  fresh: "verifier_reachable je cfg (new_verifier cfg)"
| verified: "verifier_reachable je cfg v \<Longrightarrow> n2 \<noteq> 0 \<Longrightarrow>
    verifier_reachable je cfg (snd (Verify je f n1 n2 n3 token v))"

lemma reachable_cache: "verifier_reachable je cfg v \<Longrightarrow> cache_ok v \<and> vf_cfg v = cfg"
proof (induction rule: verifier_reachable.induct)
  case fresh
  then show ?case by (simp add: new_verifier_def cache_ok_def)
next
  case (verified v n2 f n1 n3 token)
  from Verify_state [of je f n1 n2 n3 token v] show ?case
  proof (elim disjE exE conjE)
    fix h
    assume s: "snd (Verify je f n1 n2 n3 token v) = snd (maybeRefresh je f n1 n2 (jh_kid h) v)"
    obtain ok v' where m: "maybeRefresh je f n1 n2 (jh_kid h) v = (ok, v')" by fastforce
    show ?thesis using maybeRefresh_cache [OF m verified.hyps(2)] maybeRefresh_cfg [OF m] verified.IH by (simp add: s m)
  qed (use verified.IH in simp)
qed

text \<open>Without a refresh the cache is younger than the interval.\<close>

lemma not_refreshed_fresh:
  assumes "cache_ok v" and "getKey v kid = Some pub" and "\<not> should_refresh v now kid"
    and "0 < cfg_refresh_interval (vf_cfg v)"
  shows "time_sub now (vf_last_refresh v) < cfg_refresh_interval (vf_cfg v)"
  using assms by (auto simp: should_refresh_def cache_ok_def getKey_def Let_def)

text \<open>An instant and its whole seconds.\<close>

lemma whole_seconds:
  assumes "0 \<le> x" "x \<le> max_int64 * second"
  shows "0 \<le> x div second" and "x div second \<le> max_int64" and "x div second * second \<le> x"
    and "x < x div second * second + second"
proof -
  have "x div second * second + x mod second = x" "0 \<le> x mod second" "x mod second < second" by simp_all
  then show "x div second * second \<le> x" "x < x div second * second + second" by linarith+
  show "0 \<le> x div second" using assms(1) by (simp add: pos_imp_zdiv_nonneg_iff)
  show "x div second \<le> max_int64"
    using zdiv_mono1 [OF assms(2), of second] nonzero_mult_div_cancel_right [of second max_int64] by simp
qed

text \<open>A loaded configuration has the three required values; the durations may have any sign.\<close>

lemma loaded_config:
  assumes "LoadJWTConfigFromEnv parse getenv = Inr cfg"
  shows "cfg_issuer cfg = getenv ''JWT_ISSUER'' \<and> cfg_issuer cfg \<noteq> ''''"
    and "cfg_audience cfg = getenv ''JWT_AUDIENCE'' \<and> cfg_audience cfg \<noteq> ''''"
    and "cfg_jwks_url cfg = getenv ''JWT_JWKS_URL'' \<and> cfg_jwks_url cfg \<noteq> ''''"
  using assms by (auto simp: LoadJWTConfigFromEnv_def Let_def and_then_def split: if_splits sum.splits)

end
