(* ===== verification/DevJwt.thy ===== *)
theory DevJwt
  imports JwtVerifier
begin

text \<open>
  cmd/devjwt/main.go: the development issuer, as far as it produces data: the key set it serves
  and the tokens it mints. JSON encoding of the two maps and of the key set, and the RSA
  signature, are arguments (\<open>dev_env\<close>); the HTTP server around them is not modelled.
\<close>

record dev_env =
  de_header :: "gostring \<Rightarrow> gostring"                              \<comment> \<open>\<open>json.Marshal\<close> of alg, typ and this kid\<close>
  de_claims :: "gostring \<Rightarrow> gostring \<Rightarrow> gostring \<Rightarrow> int \<Rightarrow> int \<Rightarrow> gostring" \<comment> \<open>iss, aud, sub, exp, nbf\<close>
  de_keys :: "jwk list \<Rightarrow> gostring"
  de_sign :: "rsa_key \<Rightarrow> gostring \<Rightarrow> gostring"                     \<comment> \<open>by the private key of this public key\<close>

text \<open>\<open>t.Unix()\<close>.\<close>

definition unix_of :: "gotime \<Rightarrow> int" where
  "unix_of t = t div second - unix_to_internal"

definition marshalJWKS :: "dev_env \<Rightarrow> rsa_key \<Rightarrow> gostring \<Rightarrow> gostring" where
  "marshalJWKS de pub kid =
     de_keys de
       [\<lparr>jk_kty = ''RSA'', jk_kid = kid, jk_alg = ''RS256'', jk_use = ''sig'',
         jk_n = b64_encode (be_bytes (rk_n pub)), jk_e = b64_encode (be_bytes (nat (rk_e pub)))\<rparr>]"

definition mintRS256JWT ::
    "dev_env \<Rightarrow> rsa_key \<Rightarrow> gostring \<Rightarrow> gostring \<Rightarrow> gostring \<Rightarrow> gostring \<Rightarrow> gotime \<Rightarrow> duration \<Rightarrow> gostring" where
  "mintRS256JWT de pub kid iss aud sub now ttl =
     (let hb = de_header de kid;
          cb = de_claims de iss aud sub (unix_of (time_add now ttl)) (unix_of (time_add now (- 5 * second)));
          input = b64_encode hb @ ''.'' @ b64_encode cb
      in input @ ''.'' @ b64_encode (de_sign de pub input))"

text \<open>The environment helpers, on the value of the variable.\<close>

definition dev_getenv :: "gostring \<Rightarrow> gostring \<Rightarrow> gostring" where
  "dev_getenv value dflt = (let v = trim_space value in if v \<noteq> '''' then v else dflt)"

definition dev_getenvDuration :: "(gostring \<Rightarrow> gostring + duration) \<Rightarrow> gostring \<Rightarrow> duration \<Rightarrow> duration" where
  "dev_getenvDuration parse value dflt =
     (let v = trim_space value in
      if v = '''' then dflt else case parse v of Inl e \<Rightarrow> dflt | Inr d \<Rightarrow> d)"

text \<open>The handler of \<open>/token\<close>, on the query parameter \<open>sub\<close>: 400 or the fields of the answer.\<close>

record dev_answer =
  da_token :: gostring
  da_sub :: gostring
  da_iss :: gostring
  da_aud :: gostring
  da_exp :: int

definition dev_token ::
    "dev_env \<Rightarrow> rsa_key \<Rightarrow> gostring \<Rightarrow> gostring \<Rightarrow> gostring \<Rightarrow> duration \<Rightarrow> gotime \<Rightarrow> gostring \<Rightarrow> gostring + dev_answer" where
  "dev_token de pub kid issuer audience ttl now query =
     (let sub = trim_space query in
      if sub = '''' then Inl ''missing sub''
      else Inr \<lparr>da_token = mintRS256JWT de pub kid issuer audience sub now ttl, da_sub = sub, da_iss = issuer,
                da_aud = audience, da_exp = unix_of (time_add now ttl)\<rparr>)"

lemma dev_token_subject: "dev_token de pub kid iss aud ttl now q = Inr a \<Longrightarrow> da_sub a = trim_space q \<and> da_sub a \<noteq> ''''"
  by (auto simp: dev_token_def Let_def split: if_splits)

end
