(* ===== verification/JwtProperties.thy ===== *)
theory JwtProperties
  imports JwtInv DevJwt
begin

text \<open>
  The properties of the JWT verifier, one call at a time: what an accepted token guarantees, that
  the tokens of the development issuer are accepted, the exact arithmetic of the expiry checks
  and where it overflows, and how often the key server is asked.
\<close>

section \<open>Acceptance\<close>

text \<open>C31: A token is accepted only after every check: it consists of three base64url parts whose header
  names RS256 and a key of the cache, that key verifies the signature over the first two parts,
  issuer and audience are the configured ones, it has not expired and is already valid up to the
  clock skew, and the subject returned is its non-empty \<open>sub\<close>. With a positive refresh interval the
  cache used was fetched during the call or less than one interval before it.\<close>

theorem accepted_token_verified:
  assumes "verifier_reachable je cfg v" and "n2 \<noteq> 0" and "Verify je f n1 n2 n3 token v = (Inr sub, v')"
  shows "\<exists>p0 p1 p2 hb cb sig h c pub.
    token = p0 @ ''.'' @ p1 @ ''.'' @ p2 \<and> b64_decode p0 = Some hb \<and> b64_decode p1 = Some cb \<and>
    b64_decode p2 = Some sig \<and> je_header je hb = Some h \<and> je_claims je cb = Some c \<and>
    jh_alg h = ''RS256'' \<and> getKey v' (jh_kid h) = Some pub \<and> je_rsa je pub (p0 @ ''.'' @ p1) sig \<and>
    jc_iss c = cfg_issuer cfg \<and> audMatches je (jc_aud c) (cfg_audience cfg) \<and>
    (\<exists>e. jc_exp c = Some e \<and> n3 \<le> time_add (time_unix e) (cfg_clock_skew cfg)) \<and>
    (\<forall>n. jc_nbf c = Some n \<longrightarrow> time_add (time_unix n) (wrap64 (- cfg_clock_skew cfg)) \<le> n3) \<and>
    jc_sub c = sub \<and> sub \<noteq> '''' \<and>
    (0 < cfg_refresh_interval cfg \<longrightarrow> vf_last_refresh v' = n2 \<or>
       time_sub n1 (vf_last_refresh v') < cfg_refresh_interval cfg)"
proof -
  note cache = reachable_cache [OF assms(1)]
  obtain h c input sig pub where parse: "parseJWT je token = Some (h, c, input, sig)"
    and alg: "jh_alg h = ''RS256''" and m: "maybeRefresh je f n1 n2 (jh_kid h) v = (True, v')"
    and key: "getKey v' (jh_kid h) = Some pub" and rsa: "je_rsa je pub input sig"
    and claims: "validateClaims je (vf_cfg v') n3 c = None" and sub: "jc_sub c = sub" "sub \<noteq> ''''"
    using Verify_Inr [OF assms(3)] by metis
  have cfg: "vf_cfg v' = cfg" using maybeRefresh_cfg [OF m] cache by simp
  have fresh: "0 < cfg_refresh_interval cfg \<longrightarrow> vf_last_refresh v' = n2 \<or>
       time_sub n1 (vf_last_refresh v') < cfg_refresh_interval cfg"
    using m
  proof (cases rule: maybeRefresh_cases)
    case cached
    then show ?thesis using not_refreshed_fresh [of v "jh_kid h" pub n1] key cache by auto
  qed simp_all
  obtain p0 p1 p2 hb cb where parts: "token = p0 @ ''.'' @ p1 @ ''.'' @ p2" "b64_decode p0 = Some hb"
      "b64_decode p1 = Some cb" "b64_decode p2 = Some sig" "je_header je hb = Some h" "je_claims je cb = Some c"
    and input: "input = p0 @ ''.'' @ p1"
    by (rule parseJWT_Some [OF parse])
  note ok = claims [unfolded validateClaims_None aud_ok_def cfg]
  show ?thesis
    by (intro exI, (rule conjI, rule parts)+) (use alg key rsa [unfolded input] ok sub fresh in blast)
qed

section \<open>The development issuer\<close>

text \<open>JSON reads back the header, claims and key set that were written.\<close>

definition json_agrees ::
    "jwt_env \<Rightarrow> dev_env \<Rightarrow> gostring \<Rightarrow> gostring \<Rightarrow> gostring \<Rightarrow> gostring \<Rightarrow> gostring \<Rightarrow> int \<Rightarrow> int \<Rightarrow> jwk list \<Rightarrow> bool" where
  "json_agrees je de raw kid iss aud sub e n ks \<longleftrightarrow>
     je_header je (de_header de kid) = Some \<lparr>jh_alg = ''RS256'', jh_kid = kid, jh_typ = ''JWT''\<rparr> \<and>
     je_claims je (de_claims de iss aud sub e n) =
       Some \<lparr>jc_iss = iss, jc_sub = sub, jc_aud = raw, jc_exp = Some e, jc_nbf = Some n\<rparr> \<and>
     raw \<noteq> '''' \<and> je_string je raw = Some aud \<and> je_keys je (de_keys de ks) = Some ks"

definition dev_jwk :: "rsa_key \<Rightarrow> gostring \<Rightarrow> jwk" where
  "dev_jwk pub kid = \<lparr>jk_kty = ''RSA'', jk_kid = kid, jk_alg = ''RS256'', jk_use = ''sig'',
     jk_n = b64_encode (be_bytes (rk_n pub)), jk_e = b64_encode (be_bytes (nat (rk_e pub)))\<rparr>"


lemma dev_keys_parse:
  assumes "je_keys je (de_keys de [dev_jwk pub kid]) = Some [dev_jwk pub kid]" and "kid \<noteq> ''''"
    and "0 < rk_n pub" "0 < rk_e pub" "rk_e pub \<le> max_int64"
  shows "parseJWKS je (marshalJWKS de pub kid) = Some [(kid, pub)]"
proof -
  have e: "be_int64 (be_bytes (nat (rk_e pub))) = rk_e pub"
    using assms(4,5) by (simp add: be_int64_def be_nat_bytes wrap64_id max_int64_def)
  have "marshalJWKS de pub kid = de_keys de [dev_jwk pub kid]" by (simp add: marshalJWKS_def dev_jwk_def)
  then show ?thesis
    using assms by (simp add: parseJWKS_def dev_jwk_def b64_round_trip e be_nat_bytes b64_encode_Nil be_bytes_Nil)
qed

text \<open>The lifetime of a minted token, through the rounding to seconds.\<close>

lemma minted_times:
  assumes skew: "0 \<le> skew" "skew \<le> max_int64" and t: "unix_to_internal * second \<le> t" "0 \<le> ttl"
    and top: "t + ttl + max_int64 \<le> max_int64 * second"
    and n3: "t - 5 * second - skew \<le> n3" "n3 \<le> t + ttl - second + skew"
  shows "n3 \<le> time_add (time_unix (unix_of (time_add t ttl))) skew"
    and "time_add (time_unix (unix_of (time_add t (- 5 * second)))) (wrap64 (- skew)) \<le> n3"
proof -
  note bounds = whole_seconds
  have unix: "time_unix (unix_of x) = x div second * second" if "0 \<le> x" "x \<le> max_int64 * second" for x
    using bounds [OF that] by (simp add: time_unix_def unix_of_def wrap64_id max_int64_def)
  have pos: "5 * second \<le> unix_to_internal * second" "0 \<le> max_int64" "2 * second \<le> max_int64" "0 < second"
      "0 \<le> max_int64 * second" "max_int64 + 10 * second \<le> max_int64 * second"
    by (simp_all add: second_def unix_to_internal_def max_int64_def)
  have a1: "time_add t ttl = t + ttl" by (rule time_add_exact) (use pos t top in linarith)+
  have a2: "time_add t (- 5 * second) = t - 5 * second" by (rule trans [OF time_add_exact]) (use pos t top in linarith)+
  note b1 = bounds [of "t + ttl"] and b2 = bounds [of "t - 5 * second"]
  have r1: "0 \<le> t + ttl" "t + ttl \<le> max_int64 * second" and r2: "0 \<le> t - 5 * second" "t - 5 * second \<le> max_int64 * second"
    using pos t top by linarith+
  have big: "max_int64 \<le> max_int64 * second" by (simp add: second_def max_int64_def)
  have "time_add ((t + ttl) div second * second) skew = (t + ttl) div second * second + skew"
    by (rule time_add_exact) (use b1 [OF r1] r1 skew top pos in linarith)+
  then show "n3 \<le> time_add (time_unix (unix_of (time_add t ttl))) skew"
    unfolding a1 unix [OF r1] using b1 [OF r1] n3(2) by linarith
  have w: "wrap64 (- skew) = - skew" by (rule wrap64_id) (use skew pos in linarith)+
  have "time_add ((t - 5 * second) div second * second) (- skew) = (t - 5 * second) div second * second + - skew"
    by (rule time_add_exact) (use b2 [OF r2] skew t top pos r2 big in linarith)+
  then show "time_add (time_unix (unix_of (time_add t (- 5 * second)))) (wrap64 (- skew)) \<le> n3"
    unfolding a2 unix [OF r2] w using b2 [OF r2] n3(1) by linarith
qed

text \<open>C35: The verifier accepts what the development issuer mints: a fresh verifier configured for the
  issuer and its audience, served the issuer's key set, accepts a minted token at every moment from
  five seconds (and the clock skew) before it was minted until one second before its lifetime (and
  the skew) ends, and returns the subject it was minted for.\<close>

theorem minted_token_accepted:
  assumes "json_agrees je de raw kid iss aud sub (unix_of (time_add t ttl)) (unix_of (time_add t (- 5 * second)))
      [dev_jwk pub kid]"
    and "\<forall>m. je_rsa je pub m (de_sign de pub m)"
    and "kid \<noteq> ''''" and "sub \<noteq> ''''" and "0 < rk_n pub" "0 < rk_e pub" "rk_e pub \<le> max_int64"
    and "cfg_issuer cfg = iss" "cfg_audience cfg = aud" and "0 \<le> cfg_clock_skew cfg" "cfg_clock_skew cfg \<le> max_int64"
    and "unix_to_internal * second \<le> t" "0 \<le> ttl" "t + ttl + max_int64 \<le> max_int64 * second"
    and "t - 5 * second - cfg_clock_skew cfg \<le> n3" and "n3 \<le> t + ttl - second + cfg_clock_skew cfg"
  shows "fst (Verify je (Fetched 200 (Some (marshalJWKS de pub kid))) n1 n2 n3
    (mintRS256JWT de pub kid iss aud sub t ttl) (new_verifier cfg)) = Inr sub"
proof -
  let ?exp = "unix_of (time_add t ttl)" and ?nbf = "unix_of (time_add t (- 5 * second))"
  let ?h = "\<lparr>jh_alg = ''RS256'', jh_kid = kid, jh_typ = ''JWT''\<rparr>"
  let ?c = "\<lparr>jc_iss = iss, jc_sub = sub, jc_aud = raw, jc_exp = Some ?exp, jc_nbf = Some ?nbf\<rparr>"
  let ?input = "b64_encode (de_header de kid) @ ''.'' @ b64_encode (de_claims de iss aud sub ?exp ?nbf)"
  note json = assms(1) [unfolded json_agrees_def]
  have parse: "parseJWT je (mintRS256JWT de pub kid iss aud sub t ttl) = Some (?h, ?c, ?input, de_sign de pub ?input)"
  proof -
    have "mintRS256JWT de pub kid iss aud sub t ttl = b64_encode (de_header de kid) @ ''.'' @
        b64_encode (de_claims de iss aud sub ?exp ?nbf) @ ''.'' @ b64_encode (de_sign de pub ?input)"
      by (simp add: mintRS256JWT_def Let_def)
    moreover have "parseJWT je (b64_encode (de_header de kid) @ ''.'' @ b64_encode (de_claims de iss aud sub ?exp ?nbf)
        @ ''.'' @ b64_encode (de_sign de pub ?input)) = Some (?h, ?c, ?input, de_sign de pub ?input)"
      by (rule parseJWT_tokens [OF b64_encode_no_dot b64_encode_no_dot b64_encode_no_dot
            b64_round_trip _ b64_round_trip _ b64_round_trip]) (use json in simp_all)
    ultimately show ?thesis by (simp only:)
  qed
  have keys: "parseJWKS je (marshalJWKS de pub kid) = Some [(kid, pub)]"
    using dev_keys_parse assms(3,5-7) json by blast
  have times: "n3 \<le> time_add (time_unix ?exp) (cfg_clock_skew cfg)"
    "time_add (time_unix ?nbf) (wrap64 (- cfg_clock_skew cfg)) \<le> n3"
    using minted_times [OF assms(10-16)] by simp_all
  have claims: "validateClaims je cfg n3 ?c = None"
    using times json assms(8,9) by (simp add: validateClaims_None aud_ok_def audMatches_def)
  show ?thesis
    using parse keys claims assms(2-4)
    by (simp add: Verify_def maybeRefresh_def should_refresh_def new_verifier_def refresh_def check_token_def getKey_def Let_def)
qed

section \<open>The clock checks\<close>

text \<open>\<open>time.Unix\<close> and \<open>Add\<close> are exact for the second counts that occur.\<close>

lemma time_unix_add_exact:
  assumes "\<bar>s\<bar> \<le> 2 ^ 62" and "\<bar>d\<bar> \<le> max_int64"
  shows "time_add (time_unix s) d = (s + unix_to_internal) * second + d"
proof -
  have "time_unix s = (s + unix_to_internal) * second"
    by (rule time_unix_exact) (use assms(1) in \<open>simp_all add: max_int64_def unix_to_internal_def\<close>)
  moreover have "time_add ((s + unix_to_internal) * second) d = (s + unix_to_internal) * second + d"
    by (rule time_add_exact) (use assms in \<open>simp_all add: max_int64_def unix_to_internal_def second_def\<close>)
  ultimately show ?thesis by simp
qed

text \<open>C37: For second counts up to \<open>2 ^ 62\<close> the claims check computes what it means: a token passes
  exactly when issuer and audience are the configured ones, it has an \<open>exp\<close> and the current time is at
  most the skew after it, and, if there is an \<open>nbf\<close>, at most the skew before that, both bounds included, with no
  overflow in the conversion to nanoseconds or in the negated skew.\<close>

theorem claims_checked_exactly:
  assumes "0 \<le> cfg_clock_skew cfg" and "cfg_clock_skew cfg \<le> max_int64"
    and "\<And>e. jc_exp c = Some e \<Longrightarrow> \<bar>e\<bar> \<le> 2 ^ 62" and "\<And>n. jc_nbf c = Some n \<Longrightarrow> \<bar>n\<bar> \<le> 2 ^ 62"
  shows "validateClaims je cfg now c = None \<longleftrightarrow>
    jc_iss c = cfg_issuer cfg \<and> audMatches je (jc_aud c) (cfg_audience cfg) \<and>
    (\<exists>e. jc_exp c = Some e \<and> now - cfg_clock_skew cfg \<le> (e + unix_to_internal) * second) \<and>
    (\<forall>n. jc_nbf c = Some n \<longrightarrow> (n + unix_to_internal) * second \<le> now + cfg_clock_skew cfg)"
proof -
  have w: "wrap64 (- cfg_clock_skew cfg) = - cfg_clock_skew cfg"
    by (rule wrap64_id) (use assms(1,2) in linarith)+
  have "time_add (time_unix e) (cfg_clock_skew cfg) = (e + unix_to_internal) * second + cfg_clock_skew cfg"
    if "jc_exp c = Some e" for e
    by (rule time_unix_add_exact) (use assms that in simp_all)
  moreover have "time_add (time_unix n) (- cfg_clock_skew cfg) = (n + unix_to_internal) * second + - cfg_clock_skew cfg"
    if "jc_nbf c = Some n" for n
    by (rule time_unix_add_exact) (use assms that in simp_all)
  ultimately show ?thesis
    by (cases "jc_exp c"; cases "jc_nbf c") (auto simp: validateClaims_None aud_ok_def w)
qed

text \<open>Past the range of \<open>time.Unix\<close> the counter wraps into the distant past: such an \<open>exp\<close> has expired at
  every instant since year 1, and such an \<open>nbf\<close> never holds a token back.\<close>

lemma wrap64_mod: "wrap64 x = (x + 2 ^ 63) mod 2 ^ 64 - 2 ^ 63"
  by (simp add: wrap64_def int_word_sint)

lemma wrap64_minus: "wrap64 (x - 2 ^ 64) = wrap64 x"
proof -
  have "(x - 2 ^ 64 + 2 ^ 63) mod 2 ^ 64 = (x + 2 ^ 63) mod (2 ^ 64 :: int)"
    using minus_mod_self2 [of "x + 2 ^ 63" "2 ^ 64 :: int"] by (simp add: algebra_simps)
  then show ?thesis by (simp only: wrap64_mod)
qed

lemma time_unix_wraps:
  assumes "max_int64 - unix_to_internal < s" and "s \<le> max_int64"
  shows "time_unix s = (s + unix_to_internal - 2 ^ 64) * second"
proof -
  have "wrap64 (s + unix_to_internal - 2 ^ 64) = s + unix_to_internal - 2 ^ 64"
    by (rule wrap64_id) (use assms in \<open>simp_all add: max_int64_def unix_to_internal_def\<close>)
  then show ?thesis using wrap64_minus [of "s + unix_to_internal"] by (simp add: time_unix_def)
qed

lemma time_add_nonpos: "t \<le> 0 \<Longrightarrow> d \<le> 0 \<Longrightarrow> time_add t d \<le> 0"
  using pos_mod_bound [of second "t + d"] by (auto simp: time_add_def Let_def max_int64_def second_def)

lemma nbf_wraps:
  assumes "max_int64 - unix_to_internal < n" and "n \<le> max_int64" and "0 \<le> now" and "0 \<le> skew" "skew \<le> max_int64"
  shows "time_add (time_unix n) (wrap64 (- skew)) \<le> now"
proof -
  have "wrap64 (- skew) = - skew" by (rule wrap64_id) (use assms in linarith)+
  moreover have "time_unix n \<le> 0"
    using assms(1,2) by (simp add: time_unix_wraps max_int64_def unix_to_internal_def second_def)
  ultimately show ?thesis using time_add_nonpos [of "time_unix n" "- skew"] assms(3,4) by simp
qed

section \<open>How often the key server is asked\<close>

text \<open>A call of \<open>Verify\<close>: the token, what the server would answer, and the three clock readings.\<close>

record verify_call =
  vc_token :: gostring
  vc_fetch :: fetch
  vc_decide :: gotime
  vc_store :: gotime
  vc_check :: gotime

definition run_call :: "jwt_env \<Rightarrow> verify_call \<Rightarrow> verifier \<Rightarrow> (goerror + gostring) \<times> verifier" where
  "run_call je c v = Verify je (vc_fetch c) (vc_decide c) (vc_store c) (vc_check c) (vc_token c) v"

definition asks_server :: "jwt_env \<Rightarrow> verify_call \<Rightarrow> verifier \<Rightarrow> bool" where
  "asks_server je c v =
     (case parseJWT je (vc_token c) of
        None \<Rightarrow> False
      | Some (h, _) \<Rightarrow> jh_alg h = ''RS256'' \<and> jh_kid h \<noteq> '''' \<and> should_refresh v (vc_decide c) (jh_kid h))"

fun fetches :: "jwt_env \<Rightarrow> verify_call list \<Rightarrow> verifier \<Rightarrow> nat" where
  "fetches je [] v = 0"
| "fetches je (c # cs) v = (if asks_server je c v then 1 else 0) + fetches je cs (snd (run_call je c v))"

text \<open>The clock does not go back, and the last reading is at most \<open>b\<close>.\<close>

fun in_order :: "gotime \<Rightarrow> verify_call list \<Rightarrow> gotime \<Rightarrow> bool" where
  "in_order a [] b \<longleftrightarrow> a \<le> b"
| "in_order a (c # cs) b \<longleftrightarrow>
     a \<le> vc_decide c \<and> vc_decide c \<le> vc_store c \<and> vc_store c \<le> vc_check c \<and> in_order (vc_check c) cs b"

text \<open>The server answers with a key set that parses.\<close>

definition served :: "jwt_env \<Rightarrow> fetch \<Rightarrow> bool" where
  "served je f =
     (case f of
        Fetched st (Some b) \<Rightarrow> 200 \<le> st \<and> st < 300 \<and> parseJWKS je b \<noteq> None
      | _ \<Rightarrow> False)"

lemma served_refresh: "served je f \<Longrightarrow> \<exists>ks. refresh je f n v = (True, v\<lparr>vf_keys := ks, vf_last_refresh := n\<rparr>)"
  by (auto simp: served_def refresh_def split: fetch.splits option.splits)

lemma new_verifier_fields [simp]:
  "vf_cfg (new_verifier cfg) = cfg" "vf_keys (new_verifier cfg) = []" "vf_last_refresh (new_verifier cfg) = 0"
  by (simp_all add: new_verifier_def)

lemma not_asked: "\<not> asks_server je c v \<Longrightarrow> snd (run_call je c v) = v"
  by (auto simp: asks_server_def run_call_def Verify_def maybeRefresh_def Let_def split: option.splits)

lemma asked:
  "asks_server je c v \<Longrightarrow> served je (vc_fetch c) \<Longrightarrow>
   \<exists>ks. snd (run_call je c v) = v\<lparr>vf_keys := ks, vf_last_refresh := vc_store c\<rparr>"
  using served_refresh [of je "vc_fetch c" "vc_store c" v]
  by (auto simp: asks_server_def run_call_def Verify_def maybeRefresh_def Let_def split: option.splits)

lemma asked_late:
  assumes "asks_server je c v" and "vf_last_refresh v \<noteq> 0" and "0 < m"
    and "m \<le> cfg_refresh_interval (vf_cfg v)" "m \<le> cfg_min_refresh_interval (vf_cfg v)"
  shows "vf_last_refresh v + m \<le> vc_decide c"
  using assms
  by (auto simp: asks_server_def should_refresh_def time_sub_def Let_def max_int64_def split: option.splits)

lemma in_order_le: "in_order a cs b \<Longrightarrow> a \<le> b"
  by (induction cs arbitrary: a) force+

lemma fetches_after:
  assumes "0 < m" "m \<le> cfg_refresh_interval cfg" "m \<le> cfg_min_refresh_interval cfg"
    and "in_order a cs b" and "list_all (\<lambda>c. served je (vc_fetch c)) cs"
    and "vf_cfg v = cfg" and "0 < vf_last_refresh v" "vf_last_refresh v \<le> a"
  shows "m * int (fetches je cs v) \<le> b - vf_last_refresh v"
  using assms(4-)
proof (induction cs arbitrary: a v)
  case Nil
  then show ?case by simp
next
  case (Cons c cs)
  show ?case
  proof (cases "asks_server je c v")
    case True
    with Cons.prems obtain ks where k: "snd (run_call je c v) = v\<lparr>vf_keys := ks, vf_last_refresh := vc_store c\<rparr>"
      using asked [OF True] by auto
    have late: "vf_last_refresh v + m \<le> vc_decide c"
      by (rule asked_late [OF True]) (use Cons.prems assms(1-3) in simp_all)
    have "m * int (fetches je cs (snd (run_call je c v))) \<le> b - vc_store c"
      using Cons.IH [of "vc_check c" "snd (run_call je c v)"] Cons.prems late assms(1) by (simp add: k)
    then show ?thesis using True late Cons.prems(1) by (simp add: algebra_simps)
  next
    case False
    then show ?thesis using Cons.IH [of "vc_check c" v] Cons.prems by (simp add: not_asked)
  qed
qed

text \<open>C36: Key fetches are bounded while they succeed: however many calls of \<open>Verify\<close> a fresh verifier
  serves between two instants, with whatever tokens and key ids, it asks the key server at most
  once plus the number of times the smaller of the two configured refresh intervals fits between.\<close>

theorem fetches_bounded:
  assumes "0 < m" and "m \<le> cfg_refresh_interval cfg" and "m \<le> cfg_min_refresh_interval cfg"
    and "0 < a" and "in_order a cs b" and "list_all (\<lambda>c. served je (vc_fetch c)) cs"
  shows "int (fetches je cs (new_verifier cfg)) \<le> 1 + (b - a) div m"
proof -
  have "m * int (fetches je cs (new_verifier cfg)) \<le> m + (b - a)"
    using assms(4-)
  proof (induction cs arbitrary: a)
    case Nil
    then show ?case using assms(1) by simp
  next
    case (Cons c cs)
    show ?case
    proof (cases "asks_server je c (new_verifier cfg)")
      case True
      with Cons.prems obtain ks
        where k: "snd (run_call je c (new_verifier cfg)) = (new_verifier cfg)\<lparr>vf_keys := ks, vf_last_refresh := vc_store c\<rparr>"
        using asked [OF True] by auto
      have "m * int (fetches je cs (snd (run_call je c (new_verifier cfg)))) \<le> b - vc_store c"
        using fetches_after [OF assms(1-3), of "vc_check c" cs b je "snd (run_call je c (new_verifier cfg))", unfolded k]
          Cons.prems by (simp add: k)
      then show ?thesis using True Cons.prems by (simp add: algebra_simps)
    next
      case False
      then show ?thesis using Cons.IH [of "vc_check c"] Cons.prems by (simp add: not_asked)
    qed
  qed
  then have "m * (int (fetches je cs (new_verifier cfg)) - 1) \<le> b - a" by (simp add: algebra_simps)
  then have "int (fetches je cs (new_verifier cfg)) - 1 \<le> (b - a) div m"
    using assms(1) zdiv_mono1 [of "m * (int (fetches je cs (new_verifier cfg)) - 1)" "b - a" m] by simp
  then show ?thesis by simp
qed

text \<open>A failed fetch leaves \<open>lastRefresh\<close> alone, so while the server is down every call that wants a
  refresh asks it again, and is rejected even if its key is in the cache.\<close>

lemma failing_fetches_unbounded:
  assumes "list_all (\<lambda>c. asks_server je c v \<and> vc_fetch c = FetchFailed) cs"
  shows "fetches je cs v = length cs"
  using assms
proof (induction cs)
  case (Cons c cs)
  then have "snd (run_call je c v) = v"
    by (auto simp: run_call_def asks_server_def Verify_def maybeRefresh_def refresh_def Let_def split: option.splits)
  then show ?case using Cons by simp
qed simp

lemma failing_fetch_rejects:
  "asks_server je c v \<Longrightarrow> vc_fetch c = FetchFailed \<Longrightarrow> run_call je c v = (Inl err_unauthorized, v)"
  by (auto simp: run_call_def asks_server_def Verify_def maybeRefresh_def refresh_def split: option.splits)

section \<open>A concrete issuer and verifier\<close>

definition demo_pub :: rsa_key where
  "demo_pub = \<lparr>rk_n = 35, rk_e = 5\<rparr>"

definition demo_time :: gotime where
  "demo_time = (unix_to_internal + 1700000000) * second"

definition demo_jwt_claims :: jwt_claims where
  "demo_jwt_claims = \<lparr>jc_iss = ''iss'', jc_sub = ''kim'', jc_aud = ''R'', jc_exp = Some 1700003600, jc_nbf = Some 1699999995\<rparr>"

text \<open>A JSON that writes and reads one header shape, one claims object and one key set, and a signature
  that is the message itself.\<close>

definition demo_je :: jwt_env where
  "demo_je = \<lparr>je_header = (\<lambda>s. if hd s = CHR ''H'' then Some \<lparr>jh_alg = ''RS256'', jh_kid = tl s, jh_typ = ''JWT''\<rparr> else None),
     je_claims = (\<lambda>s. if s = ''C'' then Some demo_jwt_claims else None),
     je_string = (\<lambda>s. if s = ''R'' then Some ''aud'' else None), je_strings = (\<lambda>s. None),
     je_keys = (\<lambda>s. if s = ''K'' then Some [dev_jwk demo_pub ''k1''] else None),
     je_rsa = (\<lambda>k m s. k = demo_pub \<and> m = s)\<rparr>"

definition demo_de :: dev_env where
  "demo_de = \<lparr>de_header = (\<lambda>kid. CHR ''H'' # kid), de_claims = (\<lambda>iss aud sub e n. ''C''), de_keys = (\<lambda>ks. ''K''),
     de_sign = (\<lambda>k m. m)\<rparr>"

definition demo_jwt_config :: jwt_config where
  "demo_jwt_config = \<lparr>cfg_issuer = ''iss'', cfg_audience = ''aud'', cfg_jwks_url = ''url'', cfg_clock_skew = 30 * second,
     cfg_refresh_interval = 300 * second, cfg_min_refresh_interval = 10 * second, cfg_http_timeout = 5 * second\<rparr>"

definition demo_token :: gostring where
  "demo_token = mintRS256JWT demo_de demo_pub ''k1'' ''iss'' ''aud'' ''kim'' demo_time (3600 * second)"

definition demo_verifier :: verifier where
  "demo_verifier = (new_verifier demo_jwt_config)\<lparr>vf_keys := [(''k1'', demo_pub)], vf_last_refresh := demo_time\<rparr>"

lemma demo_json:
  "json_agrees demo_je demo_de ''R'' ''k1'' ''iss'' ''aud'' ''kim'' (unix_of (time_add demo_time (3600 * second)))
     (unix_of (time_add demo_time (- 5 * second))) [dev_jwk demo_pub ''k1'']"
  by code_simp

lemma demo_verify:
  "Verify demo_je (Fetched 200 (Some ''K'')) demo_time demo_time demo_time demo_token (new_verifier demo_jwt_config)
     = (Inr ''kim'', demo_verifier)"
  by code_simp

theorem minted_token_accepted_witness:
  "fst (Verify demo_je (Fetched 200 (Some (marshalJWKS demo_de demo_pub ''k1''))) demo_time demo_time (demo_time + 3629 * second)
    (mintRS256JWT demo_de demo_pub ''k1'' ''iss'' ''aud'' ''kim'' demo_time (3600 * second)) (new_verifier demo_jwt_config))
   = Inr ''kim''"
  by (rule minted_token_accepted [OF demo_json])
    (simp_all add: demo_je_def demo_de_def demo_pub_def demo_jwt_config_def demo_time_def unix_to_internal_def second_def
      max_int64_def)

theorem accepted_token_verified_witness:
  "\<exists>p0 p1 p2. \<exists>c :: jwt_claims. demo_token = p0 @ ''.'' @ p1 @ ''.'' @ p2 \<and> jc_sub c = ''kim'' \<and> jc_iss c = ''iss''"
proof -
  have "demo_time \<noteq> 0" by code_simp
  from accepted_token_verified [OF verifier_reachable.fresh this demo_verify]
  obtain p0 p1 p2 and c :: jwt_claims where "demo_token = p0 @ ''.'' @ p1 @ ''.'' @ p2" "jc_sub c = ''kim''"
    "jc_iss c = cfg_issuer demo_jwt_config" by blast
  moreover have "cfg_issuer demo_jwt_config = ''iss''" by (simp add: demo_jwt_config_def)
  ultimately show ?thesis by metis
qed

theorem claims_checked_exactly_witness:
  "validateClaims demo_je demo_jwt_config (demo_time + 3630 * second) demo_jwt_claims = None \<and>
   validateClaims demo_je demo_jwt_config (demo_time + 3630 * second + 1) demo_jwt_claims \<noteq> None \<and>
   validateClaims demo_je demo_jwt_config (demo_time + 3630 * second) (demo_jwt_claims\<lparr>jc_nbf := None\<rparr>) = None \<and>
   validateClaims demo_je demo_jwt_config (demo_time + 3630 * second) (demo_jwt_claims\<lparr>jc_exp := None\<rparr>) \<noteq> None"
proof -
  have sk: "0 \<le> cfg_clock_skew demo_jwt_config" "cfg_clock_skew demo_jwt_config \<le> max_int64" by code_simp+
  let ?S = "{demo_jwt_claims, demo_jwt_claims\<lparr>jc_nbf := None\<rparr>, demo_jwt_claims\<lparr>jc_exp := None\<rparr>}"
  have small: "jc_exp c = Some e \<Longrightarrow> \<bar>e\<bar> \<le> 2 ^ 62" "jc_nbf c = Some e \<Longrightarrow> \<bar>e\<bar> \<le> 2 ^ 62" if "c \<in> ?S" for c e
    using that by (auto simp: demo_jwt_claims_def)
  have exact: "validateClaims demo_je demo_jwt_config now c = None \<longleftrightarrow>
      jc_iss c = cfg_issuer demo_jwt_config \<and> audMatches demo_je (jc_aud c) (cfg_audience demo_jwt_config) \<and>
      (\<exists>e. jc_exp c = Some e \<and> now - cfg_clock_skew demo_jwt_config \<le> (e + unix_to_internal) * second) \<and>
      (\<forall>n. jc_nbf c = Some n \<longrightarrow> (n + unix_to_internal) * second \<le> now + cfg_clock_skew demo_jwt_config)"
    if "c \<in> ?S" for now c
    by (rule claims_checked_exactly [OF sk small [OF that]])
  have S: "demo_jwt_claims \<in> ?S" "demo_jwt_claims\<lparr>jc_nbf := None\<rparr> \<in> ?S" "demo_jwt_claims\<lparr>jc_exp := None\<rparr> \<in> ?S"
    by simp_all
  show ?thesis
    unfolding exact [OF S(1)] exact [OF S(2)] exact [OF S(3)]
    by (simp add: demo_jwt_claims_def demo_jwt_config_def demo_time_def unix_to_internal_def second_def audMatches_def demo_je_def)
qed

text \<open>Three calls: the first fetches, the second finds its key, the third comes five minutes later.\<close>

definition demo_call :: "gotime \<Rightarrow> verify_call" where
  "demo_call t = \<lparr>vc_token = demo_token, vc_fetch = Fetched 200 (Some ''K''), vc_decide = t, vc_store = t, vc_check = t\<rparr>"

definition demo_calls :: "verify_call list" where
  "demo_calls = [demo_call demo_time, demo_call (demo_time + 9 * second), demo_call (demo_time + 300 * second)]"

lemma demo_fetches: "fetches demo_je demo_calls (new_verifier demo_jwt_config) = 2"
  by code_simp

theorem fetches_bounded_witness:
  "int (fetches demo_je demo_calls (new_verifier demo_jwt_config)) \<le> 1 + (demo_time + 300 * second - demo_time) div (10 * second)"
  by (rule fetches_bounded) code_simp+

end
