(* ===== verification/AuthMiddleware.thy ===== *)
theory AuthMiddleware
  imports HttpProperties JwtProperties
begin

text \<open>
  internal/adapters/httpapi/auth_middleware.go, errors.go, context.go and the error functions of
  router.go: how a request gets its subject, and the handlers of theory HttpServer behind the
  middleware with the verifier of theory JwtVerifier. Routing and the decoding of path, query
  and body are the generated layer's; a request is given here with its \<open>api_request\<close>.
\<close>

record http_request =
  hr_path :: gostring
  hr_authorization :: gostring   \<comment> \<open>\<open>Header.Get("Authorization")\<close>\<close>
  hr_debug_subject :: gostring   \<comment> \<open>\<open>Header.Get("X-Debug-Subject")\<close>\<close>
  hr_request_id :: gostring      \<comment> \<open>set by chi's RequestID middleware\<close>

definition writeOASError ::
    "gostring \<Rightarrow> nat \<Rightarrow> gostring \<Rightarrow> gostring \<Rightarrow> (gostring \<times> detail) list option \<Rightarrow> nat \<times> error_response" where
  "writeOASError rid status code message details =
     (status,
      \<lparr>er_code = code, er_message = message,
       er_details = (case details of None \<Rightarrow> Unspecified | Some ds \<Rightarrow> Specified ds),
       er_request_id = (if rid \<noteq> '''' then Specified rid else Unspecified)\<rparr>)"

definition request_context :: "http_request \<Rightarrow> req_context" where
  "request_context r = \<lparr>cx_subject = None, cx_request_id = hr_request_id r\<rparr>"

definition WithSubject :: "req_context \<Rightarrow> gostring \<Rightarrow> req_context" where
  "WithSubject cx sub = cx\<lparr>cx_subject := Some sub\<rparr>"

text \<open>A middleware writes a response itself or calls the next handler with a context.\<close>

datatype passage = Rejected "nat \<times> error_response" | Next req_context

definition NewAuthMiddleware ::
    "jwt_env \<Rightarrow> fetch \<Rightarrow> gotime \<Rightarrow> gotime \<Rightarrow> gotime \<Rightarrow> http_request \<Rightarrow> verifier \<Rightarrow> passage \<times> verifier" where
  "NewAuthMiddleware je f n1 n2 n3 r v =
     (let deny = (\<lambda>msg. Rejected (writeOASError (hr_request_id r) 401 ''UNAUTHORIZED'' msg None)) in
      if hr_path r = ''/healthz'' then (Next (request_context r), v)
      else if hr_authorization r = '''' then (deny ''missing Authorization header'', v)
      else if \<not> has_prefix (hr_authorization r) ''Bearer '' then (deny ''malformed Authorization header'', v)
      else
        let raw = trim_space (drop (length ''Bearer '') (hr_authorization r)) in
        if raw = '''' then (deny ''missing bearer token'', v)
        else case Verify je f n1 n2 n3 raw v of
               (Inl e, v') \<Rightarrow> (deny ''invalid token'', v')
             | (Inr sub, v') \<Rightarrow> (Next (WithSubject (request_context r) sub), v'))"

definition NewDevAuthMiddleware :: "gostring \<Rightarrow> http_request \<Rightarrow> passage" where
  "NewDevAuthMiddleware dflt r =
     (if hr_path r = ''/healthz'' then Next (request_context r)
      else
        let given = trim_space (hr_debug_subject r);
            sub = (if given = '''' then trim_space dflt else given) in
        if sub = '''' then
          Rejected (writeOASError (hr_request_id r) 401 ''UNAUTHORIZED'' ''missing subject (set X-Debug-Subject)'' None)
        else Next (WithSubject (request_context r) sub))"

text \<open>\<open>ResponseErrorHandlerFunc\<close> of router.go: what a handler's bare error becomes.\<close>

definition response_error :: "gostring \<Rightarrow> goerror \<Rightarrow> nat \<times> error_response" where
  "response_error rid e =
     writeOASError rid 500 ''INTERNAL_ERROR'' ''internal error'' (Some [(''cause'', DString (error_text e))])"

text \<open>A decoded request through a middleware's verdict and its handler, to the response written.\<close>

datatype response = Written nat payload | ErrorWritten nat error_response

definition respond :: "gostring \<Rightarrow> reply \<Rightarrow> response" where
  "respond rid rep =
     (case rep of
        Reply st p \<Rightarrow> Written st p
      | Failure st er \<Rightarrow> ErrorWritten st er
      | RawError e \<Rightarrow> (case response_error rid e of (st, er) \<Rightarrow> ErrorWritten st er))"

text \<open>What lies behind the middleware: on /healthz the router answers itself (200 ok to a GET, chi's own
  error to another method), on any other path the handler of the request decoded from it.\<close>

datatype served = RouterAnswer | Answer response

definition serve :: "go_env \<Rightarrow> json_env \<Rightarrow> http_request \<Rightarrow> passage \<Rightarrow> readings \<Rightarrow> api_request \<Rightarrow> server \<Rightarrow> served \<times> server" where
  "serve env js r verdict rd req sv =
     (case verdict of
        Rejected (st, er) \<Rightarrow> (Answer (ErrorWritten st er), sv)
      | Next cx \<Rightarrow>
          if hr_path r = ''/healthz'' then (RouterAnswer, sv)
          else (case handle env js cx rd req sv of (rep, sv') \<Rightarrow> (Answer (respond (hr_request_id r) rep), sv')))"

lemma middleware_cases:
  assumes "NewAuthMiddleware je f n1 n2 n3 r v = (verdict, v')"
  obtains (health) "hr_path r = ''/healthz''" "verdict = Next (request_context r)" "v' = v"
  | (denied) er where "verdict = Rejected (401, er)"
      "v' = v \<or> (\<exists>token. v' = snd (Verify je f n1 n2 n3 token v))"
  | (verified) rest sub where "hr_authorization r = ''Bearer '' @ rest"
      "Verify je f n1 n2 n3 (trim_space rest) v = (Inr sub, v')"
      "verdict = Next (WithSubject (request_context r) sub)"
proof (cases "hr_path r = ''/healthz''")
  case True
  then show ?thesis using assms health by (simp add: NewAuthMiddleware_def)
next
  case path: False
  show ?thesis
  proof (cases "has_prefix (hr_authorization r) ''Bearer ''")
    case False
    then show ?thesis using assms path denied by (auto simp: NewAuthMiddleware_def writeOASError_def split: if_splits)
  next
    case True
    then obtain rest where rest: "hr_authorization r = ''Bearer '' @ rest" by (auto simp: has_prefix_iff)
    obtain out w where out: "Verify je f n1 n2 n3 (trim_space rest) v = (out, w)" by fastforce
    show ?thesis
      using assms path denied [OF _ disjI1] denied [OF _ disjI2 [OF exI [of _ "trim_space rest"]]] verified [OF rest] out
      by (cases out) (auto simp: NewAuthMiddleware_def writeOASError_def rest Let_def split: if_splits)
  qed
qed

lemma reachable_after: 
  "verifier_reachable je cfg v \<Longrightarrow> n2 \<noteq> 0 \<Longrightarrow> NewAuthMiddleware je f n1 n2 n3 r v = (verdict, v') \<Longrightarrow>
   verifier_reachable je cfg v'"
  by (erule middleware_cases) (use verifier_reachable.verified in \<open>fastforce simp: prod_eq_iff\<close>)+

text \<open>C28: Every request but one for /healthz is authenticated: behind the middleware it either is
  answered 401 and leaves the server as it was, or carries a bearer token the verifier has accepted,
  and is then handled as a request of that token's subject, which is not empty. On /healthz no token
  is looked at, no handler runs and nothing changes. The verifier stays reachable.\<close>

theorem requests_authenticated:
  assumes "verifier_reachable je cfg v" and "n2 \<noteq> 0" and "NewAuthMiddleware je f n1 n2 n3 r v = (verdict, v')"
  shows "verifier_reachable je cfg v' \<and>
    (if hr_path r = ''/healthz'' then v' = v \<and> serve env js r verdict rd req sv = (RouterAnswer, sv)
     else (\<exists>er. serve env js r verdict rd req sv = (Answer (ErrorWritten 401 er), sv)) \<or>
     (\<exists>rest sub. hr_authorization r = ''Bearer '' @ rest \<and> Verify je f n1 n2 n3 (trim_space rest) v = (Inr sub, v') \<and>
        sub \<noteq> '''' \<and>
        serve env js r verdict rd req sv =
          (Answer (respond (hr_request_id r) (fst (handle env js \<lparr>cx_subject = Some sub, cx_request_id = hr_request_id r\<rparr> rd req sv))),
           snd (handle env js \<lparr>cx_subject = Some sub, cx_request_id = hr_request_id r\<rparr> rd req sv))))"
proof (cases "hr_path r = ''/healthz''")
  case True
  then have "verdict = Next (request_context r) \<and> v' = v" using assms(3) by (simp add: NewAuthMiddleware_def)
  then show ?thesis using True assms(1) by (simp add: serve_def)
next
  case path: False
  note v' = reachable_after [OF assms]
  from assms(3) show ?thesis
  proof (cases rule: middleware_cases)
    case (denied er)
    then show ?thesis using v' path by (simp add: serve_def)
  next
    case (verified rest sub)
    have "sub \<noteq> ''''" using Verify_Inr [OF verified(2)] by metis
    then show ?thesis
      using verified v' path by (auto simp: serve_def WithSubject_def request_context_def split: prod.split)
  qed (use path in simp)
qed

text \<open>The development middleware hands on a non-empty subject, from the header or the default.\<close>

lemma dev_middleware_subject:
  "hr_path r \<noteq> ''/healthz'' \<Longrightarrow> NewDevAuthMiddleware dflt r = Next cx \<Longrightarrow>
   \<exists>sub. SubjectFromContext cx = Some sub \<and> (sub = trim_space (hr_debug_subject r) \<or> sub = trim_space dflt)"
  by (auto simp: NewDevAuthMiddleware_def WithSubject_def SubjectFromContext_def Let_def split: if_splits)

definition demo_request :: http_request where
  "demo_request = \<lparr>hr_path = ''/trips'', hr_authorization = ''Bearer '' @ demo_token, hr_debug_subject = '''', hr_request_id = ''r1''\<rparr>"

lemma demo_middleware:
  "NewAuthMiddleware demo_je (Fetched 200 (Some ''K'')) demo_time demo_time demo_time demo_request (new_verifier demo_jwt_config)
     = (Next (demo_cx ''kim''), demo_verifier)"
  by code_simp

theorem requests_authenticated_witness:
  "\<exists>rest sub. hr_authorization demo_request = ''Bearer '' @ rest \<and>
     Verify demo_je (Fetched 200 (Some ''K'')) demo_time demo_time demo_time (trim_space rest) (new_verifier demo_jwt_config)
       = (Inr sub, demo_verifier) \<and> sub \<noteq> ''''"
proof -
  have "case fst (serve demo_env demo_js demo_request (Next (demo_cx ''kim'')) (demo_rd 2 ''b'') (demo_join ''Kim'') demo_server)
      of Answer (Written st p) \<Rightarrow> st = 201 | _ \<Rightarrow> False" by code_simp
  moreover have "demo_time \<noteq> 0" by code_simp
  note requests_authenticated [OF verifier_reachable.fresh this demo_middleware,
      of demo_env demo_js "demo_rd 2 ''b''" "demo_join ''Kim''" demo_server]
  moreover have "hr_path demo_request \<noteq> ''/healthz''" by (simp add: demo_request_def)
  ultimately show ?thesis by auto
qed

end
