(* ===== verification/OasServer.thy ===== *)
theory OasServer
  imports AuthMiddleware
begin

text \<open>
  The generated server of internal/adapters/httpapi/oas/api.gen.go and its wiring in router.go: the
  routing table, the binding of path, header and query parameters (\<open>ServerInterfaceWrapper\<close>), the
  decoding of bodies (\<open>strictHandler\<close>) and the way from a raw request to the response. The model's
  functions for the wrapper's and the strict handler's methods are called \<open>siw_...\<close> and \<open>sh_...\<close>.

  Both layers' middleware lists are empty in this wiring. Writing a response (the \<open>Visit...\<close> methods)
  sets the content type and the status and encodes the value; a response here is the status and the
  value.

  chi's matching of a path against the table, the parameter binders of oapi-codegen's runtime and
  \<open>encoding/json\<close> are third-party or library code: they are the fields of \<open>glue_env\<close>, and what is
  relied on of chi is \<open>routes_like_chi\<close> in theory OasProperties.
\<close>

section \<open>Requests and third-party functions\<close>

record raw_request = http_request +
  rq_method :: gostring
  rq_raw_path :: gostring                              \<comment> \<open>\<open>URL.RawPath\<close>, empty when \<open>URL.Path\<close> says it all\<close>
  rq_query :: "(gostring \<times> gostring list) list"
  rq_idempotency_key :: "gostring list option"         \<comment> \<open>the values of that header, if present\<close>
  rq_body :: gostring

text \<open>A binder or decoder returns the text of its error or the value.\<close>

record glue_env =
  ge_route :: "(gostring \<times> gostring) list \<Rightarrow> gostring \<Rightarrow> gostring \<Rightarrow> (nat \<times> (gostring \<times> gostring) list) option"
  ge_bind_path :: "gostring \<Rightarrow> gostring + gostring"
  ge_bind_header :: "bool \<Rightarrow> gostring \<Rightarrow> gostring + gostring"    \<comment> \<open>the flag is \<open>Required\<close>\<close>
  ge_bind_bool :: "gostring \<Rightarrow> (gostring \<times> gostring list) list \<Rightarrow> gostring + bool option"
  ge_bind_query :: "gostring \<Rightarrow> (gostring \<times> gostring list) list \<Rightarrow> gostring + gostring"
  ge_create_member :: "gostring \<Rightarrow> gostring + oas_create_member"
  ge_update_member :: "gostring \<Rightarrow> gostring + oas_update_member"
  ge_trip_draft :: "gostring \<Rightarrow> gostring + gostring"
  ge_update_trip :: "gostring \<Rightarrow> gostring + oas_update_trip"
  ge_visibility :: "gostring \<Rightarrow> gostring + draft_visibility"
  ge_organizer :: "gostring \<Rightarrow> gostring + MemberID"
  ge_rsvp :: "gostring \<Rightarrow> gostring + rsvp_response"

text \<open>The path chi routes on, \<open>chi.URLParam\<close> and \<open>url.Values.Get\<close>.\<close>

definition route_path :: "raw_request \<Rightarrow> gostring" where
  "route_path r = (if rq_raw_path r \<noteq> '''' then rq_raw_path r else hr_path r)"

definition url_param :: "(gostring \<times> gostring) list \<Rightarrow> gostring \<Rightarrow> gostring" where
  "url_param vs k = (case map_of vs k of None \<Rightarrow> '''' | Some v \<Rightarrow> v)"

definition query_get :: "raw_request \<Rightarrow> gostring \<Rightarrow> gostring" where
  "query_get r k = (case map_of (rq_query r) k of Some (v # _) \<Rightarrow> v | _ \<Rightarrow> '''')"

section \<open>Parameter errors\<close>

datatype param_error =
    RequiredParamError gostring
  | RequiredHeaderError gostring
  | InvalidParamFormatError gostring gostring
  | TooManyValuesForParamError gostring nat

fun param_error_text :: "param_error \<Rightarrow> gostring" where
  "param_error_text (RequiredParamError p) = ''Query argument '' @ p @ '' is required, but not found''"
| "param_error_text (RequiredHeaderError p) = ''Header parameter '' @ p @ '' is required, but not found''"
| "param_error_text (InvalidParamFormatError p e) = ''Invalid format for parameter '' @ p @ '': '' @ e"
| "param_error_text (TooManyValuesForParamError p n) = ''Expected one value for '' @ p @ '', got '' @ show_int (int n)"

text \<open>What becomes of a request before the handler is called.\<close>

datatype parsed = BadParam param_error | BadBody gostring | Parsed api_request

definition bind_path_param ::
    "glue_env \<Rightarrow> (gostring \<times> gostring) list \<Rightarrow> gostring \<Rightarrow> (gostring \<Rightarrow> parsed) \<Rightarrow> parsed" where
  "bind_path_param ge vs name f =
     (case ge_bind_path ge (url_param vs name) of
        Inl e \<Rightarrow> BadParam (InvalidParamFormatError name e)
      | Inr v \<Rightarrow> f v)"

definition bind_required_key :: "glue_env \<Rightarrow> raw_request \<Rightarrow> (gostring \<Rightarrow> parsed) \<Rightarrow> parsed" where
  "bind_required_key ge r f =
     (case rq_idempotency_key r of
        None \<Rightarrow> BadParam (RequiredHeaderError ''Idempotency-Key'')
      | Some vs \<Rightarrow>
          if length vs \<noteq> 1 then BadParam (TooManyValuesForParamError ''Idempotency-Key'' (length vs))
          else case ge_bind_header ge True (hd vs) of
                 Inl e \<Rightarrow> BadParam (InvalidParamFormatError ''Idempotency-Key'' e)
               | Inr k \<Rightarrow> f k)"

definition bind_optional_key :: "glue_env \<Rightarrow> raw_request \<Rightarrow> (gostring option \<Rightarrow> parsed) \<Rightarrow> parsed" where
  "bind_optional_key ge r f =
     (case rq_idempotency_key r of
        None \<Rightarrow> f None
      | Some vs \<Rightarrow>
          if length vs \<noteq> 1 then BadParam (TooManyValuesForParamError ''Idempotency-Key'' (length vs))
          else case ge_bind_header ge False (hd vs) of
                 Inl e \<Rightarrow> BadParam (InvalidParamFormatError ''Idempotency-Key'' e)
               | Inr k \<Rightarrow> f (Some k))"

definition decode_body :: "(gostring \<Rightarrow> gostring + 'a) \<Rightarrow> raw_request \<Rightarrow> ('a \<Rightarrow> parsed) \<Rightarrow> parsed" where
  "decode_body dec r f =
     (case dec (rq_body r) of
        Inl e \<Rightarrow> BadBody (''can'' @ [CHR 0x27] @ ''t decode JSON body: '' @ e)
      | Inr b \<Rightarrow> f b)"

section \<open>strictHandler\<close>

definition sh_ListMembers :: "bool option \<Rightarrow> parsed" where
  "sh_ListMembers inactive = Parsed (ReqListMembers inactive)"

definition sh_CreateMyMember :: "glue_env \<Rightarrow> raw_request \<Rightarrow> parsed" where
  "sh_CreateMyMember ge r = decode_body (ge_create_member ge) r (\<lambda>b. Parsed (ReqCreateMyMember (Some b)))"

definition sh_GetMyMemberProfile :: parsed where
  "sh_GetMyMemberProfile = Parsed ReqGetMyMemberProfile"

definition sh_UpdateMyMemberProfile :: "glue_env \<Rightarrow> raw_request \<Rightarrow> gostring \<Rightarrow> parsed" where
  "sh_UpdateMyMemberProfile ge r k =
     decode_body (ge_update_member ge) r (\<lambda>b. Parsed (ReqUpdateMyMemberProfile k (Some b)))"

definition sh_SearchMembers :: "gostring \<Rightarrow> parsed" where
  "sh_SearchMembers q = Parsed (ReqSearchMembers q)"

definition sh_ListVisibleTripsForMember :: parsed where
  "sh_ListVisibleTripsForMember = Parsed ReqListVisibleTrips"

definition sh_CreateTripDraft :: "glue_env \<Rightarrow> raw_request \<Rightarrow> gostring \<Rightarrow> parsed" where
  "sh_CreateTripDraft ge r k = decode_body (ge_trip_draft ge) r (\<lambda>b. Parsed (ReqCreateTripDraft k (Some b)))"

definition sh_ListMyDraftTrips :: parsed where
  "sh_ListMyDraftTrips = Parsed ReqListMyDraftTrips"

definition sh_GetTripDetails :: "TripID \<Rightarrow> parsed" where
  "sh_GetTripDetails t = Parsed (ReqGetTripDetails t)"

definition sh_UpdateTrip :: "glue_env \<Rightarrow> raw_request \<Rightarrow> TripID \<Rightarrow> gostring \<Rightarrow> parsed" where
  "sh_UpdateTrip ge r t k = decode_body (ge_update_trip ge) r (\<lambda>b. Parsed (ReqUpdateTrip k t (Some b)))"

definition sh_CancelTrip :: "TripID \<Rightarrow> gostring option \<Rightarrow> parsed" where
  "sh_CancelTrip t k = Parsed (ReqCancelTrip k t)"

definition sh_SetTripDraftVisibility :: "glue_env \<Rightarrow> raw_request \<Rightarrow> TripID \<Rightarrow> gostring \<Rightarrow> parsed" where
  "sh_SetTripDraftVisibility ge r t k =
     decode_body (ge_visibility ge) r (\<lambda>b. Parsed (ReqSetVisibility k t (Some b)))"

definition sh_AddTripOrganizer :: "glue_env \<Rightarrow> raw_request \<Rightarrow> TripID \<Rightarrow> gostring \<Rightarrow> parsed" where
  "sh_AddTripOrganizer ge r t k = decode_body (ge_organizer ge) r (\<lambda>b. Parsed (ReqAddOrganizer k t (Some b)))"

definition sh_RemoveTripOrganizer :: "TripID \<Rightarrow> MemberID \<Rightarrow> gostring \<Rightarrow> parsed" where
  "sh_RemoveTripOrganizer t m k = Parsed (ReqRemoveOrganizer k t m)"

definition sh_PublishTrip :: "TripID \<Rightarrow> parsed" where
  "sh_PublishTrip t = Parsed (ReqPublishTrip t)"

definition sh_SetMyRSVP :: "glue_env \<Rightarrow> raw_request \<Rightarrow> TripID \<Rightarrow> gostring \<Rightarrow> parsed" where
  "sh_SetMyRSVP ge r t k = decode_body (ge_rsvp ge) r (\<lambda>b. Parsed (ReqSetMyRSVP k t (Some b)))"

definition sh_GetMyRSVPForTrip :: "TripID \<Rightarrow> parsed" where
  "sh_GetMyRSVPForTrip t = Parsed (ReqGetMyRSVP t)"

definition sh_GetTripRSVPSummary :: "TripID \<Rightarrow> parsed" where
  "sh_GetTripRSVPSummary t = Parsed (ReqGetRSVPSummary t)"

section \<open>ServerInterfaceWrapper\<close>

type_synonym wrapper = "glue_env \<Rightarrow> raw_request \<Rightarrow> (gostring \<times> gostring) list \<Rightarrow> parsed"

definition siw_ListMembers :: wrapper where
  "siw_ListMembers ge r vs =
     (case ge_bind_bool ge ''includeInactive'' (rq_query r) of
        Inl e \<Rightarrow> BadParam (InvalidParamFormatError ''includeInactive'' e)
      | Inr inactive \<Rightarrow> sh_ListMembers inactive)"

definition siw_CreateMyMember :: wrapper where
  "siw_CreateMyMember ge r vs = sh_CreateMyMember ge r"

definition siw_GetMyMemberProfile :: wrapper where
  "siw_GetMyMemberProfile ge r vs = sh_GetMyMemberProfile"

definition siw_UpdateMyMemberProfile :: wrapper where
  "siw_UpdateMyMemberProfile ge r vs = bind_required_key ge r (sh_UpdateMyMemberProfile ge r)"

definition siw_SearchMembers :: wrapper where
  "siw_SearchMembers ge r vs =
     (if query_get r ''q'' = '''' then BadParam (RequiredParamError ''q'')
      else case ge_bind_query ge ''q'' (rq_query r) of
             Inl e \<Rightarrow> BadParam (InvalidParamFormatError ''q'' e)
           | Inr q \<Rightarrow> sh_SearchMembers q)"

definition siw_ListVisibleTripsForMember :: wrapper where
  "siw_ListVisibleTripsForMember ge r vs = sh_ListVisibleTripsForMember"

definition siw_CreateTripDraft :: wrapper where
  "siw_CreateTripDraft ge r vs = bind_required_key ge r (sh_CreateTripDraft ge r)"

definition siw_ListMyDraftTrips :: wrapper where
  "siw_ListMyDraftTrips ge r vs = sh_ListMyDraftTrips"

definition siw_GetTripDetails :: wrapper where
  "siw_GetTripDetails ge r vs = bind_path_param ge vs ''tripId'' sh_GetTripDetails"

definition siw_UpdateTrip :: wrapper where
  "siw_UpdateTrip ge r vs =
     bind_path_param ge vs ''tripId'' (\<lambda>t. bind_required_key ge r (sh_UpdateTrip ge r t))"

definition siw_CancelTrip :: wrapper where
  "siw_CancelTrip ge r vs =
     bind_path_param ge vs ''tripId'' (\<lambda>t. bind_optional_key ge r (sh_CancelTrip t))"

definition siw_SetTripDraftVisibility :: wrapper where
  "siw_SetTripDraftVisibility ge r vs =
     bind_path_param ge vs ''tripId'' (\<lambda>t. bind_required_key ge r (sh_SetTripDraftVisibility ge r t))"

definition siw_AddTripOrganizer :: wrapper where
  "siw_AddTripOrganizer ge r vs =
     bind_path_param ge vs ''tripId'' (\<lambda>t. bind_required_key ge r (sh_AddTripOrganizer ge r t))"

definition siw_RemoveTripOrganizer :: wrapper where
  "siw_RemoveTripOrganizer ge r vs =
     bind_path_param ge vs ''tripId'' (\<lambda>t.
     bind_path_param ge vs ''memberId'' (\<lambda>m.
     bind_required_key ge r (sh_RemoveTripOrganizer t m)))"

definition siw_PublishTrip :: wrapper where
  "siw_PublishTrip ge r vs = bind_path_param ge vs ''tripId'' sh_PublishTrip"

definition siw_SetMyRSVP :: wrapper where
  "siw_SetMyRSVP ge r vs =
     bind_path_param ge vs ''tripId'' (\<lambda>t. bind_required_key ge r (sh_SetMyRSVP ge r t))"

definition siw_GetMyRSVPForTrip :: wrapper where
  "siw_GetMyRSVPForTrip ge r vs = bind_path_param ge vs ''tripId'' sh_GetMyRSVPForTrip"

definition siw_GetTripRSVPSummary :: wrapper where
  "siw_GetTripRSVPSummary ge r vs = bind_path_param ge vs ''tripId'' sh_GetTripRSVPSummary"

section \<open>Routing\<close>

text \<open>The table of \<open>HandlerWithOptions\<close>.\<close>

definition api_routes :: "(gostring \<times> gostring \<times> wrapper) list" where
  "api_routes =
     [(''GET'', ''/members'', siw_ListMembers),
      (''POST'', ''/members'', siw_CreateMyMember),
      (''GET'', ''/members/me'', siw_GetMyMemberProfile),
      (''PATCH'', ''/members/me'', siw_UpdateMyMemberProfile),
      (''GET'', ''/members/search'', siw_SearchMembers),
      (''GET'', ''/trips'', siw_ListVisibleTripsForMember),
      (''POST'', ''/trips'', siw_CreateTripDraft),
      (''GET'', ''/trips/drafts'', siw_ListMyDraftTrips),
      (''GET'', ''/trips/{tripId}'', siw_GetTripDetails),
      (''PATCH'', ''/trips/{tripId}'', siw_UpdateTrip),
      (''POST'', ''/trips/{tripId}/cancel'', siw_CancelTrip),
      (''PUT'', ''/trips/{tripId}/draft-visibility'', siw_SetTripDraftVisibility),
      (''POST'', ''/trips/{tripId}/organizers'', siw_AddTripOrganizer),
      (''DELETE'', ''/trips/{tripId}/organizers/{memberId}'', siw_RemoveTripOrganizer),
      (''POST'', ''/trips/{tripId}/publish'', siw_PublishTrip),
      (''PUT'', ''/trips/{tripId}/rsvp'', siw_SetMyRSVP),
      (''GET'', ''/trips/{tripId}/rsvp/me'', siw_GetMyRSVPForTrip),
      (''GET'', ''/trips/{tripId}/rsvps'', siw_GetTripRSVPSummary)]"

text \<open>With the health route of \<open>NewRouterWithOptions\<close> in front.\<close>

definition route_table :: "(gostring \<times> gostring) list" where
  "route_table = (''GET'', ''/healthz'') # map (\<lambda>(m, p, _). (m, p)) api_routes"

datatype target = NoRoute | Health | Api wrapper "(gostring \<times> gostring) list"

definition route :: "glue_env \<Rightarrow> raw_request \<Rightarrow> target" where
  "route ge r =
     (case ge_route ge route_table (rq_method r) (route_path r) of
        None \<Rightarrow> NoRoute
      | Some (i, vs) \<Rightarrow> (case i of 0 \<Rightarrow> Health | Suc j \<Rightarrow> Api (snd (snd (api_routes ! j))) vs))"

section \<open>From the raw request to the response\<close>

text \<open>\<open>NotRouted\<close> is chi's own 404 or 405.\<close>

datatype http_response = Json nat payload | JsonError nat error_response | PlainText nat gostring | NotRouted

fun write_response :: "response \<Rightarrow> http_response" where
  "write_response (Written st p) = Json st p"
| "write_response (ErrorWritten st er) = JsonError st er"

definition dispatch ::
    "go_env \<Rightarrow> json_env \<Rightarrow> glue_env \<Rightarrow> req_context \<Rightarrow> readings \<Rightarrow> raw_request \<Rightarrow> server \<Rightarrow> http_response \<times> server" where
  "dispatch env js ge cx rd r sv =
     (case route ge r of
        NoRoute \<Rightarrow> (NotRouted, sv)
      | Health \<Rightarrow> (PlainText 200 ''ok'', sv)
      | Api w vs \<Rightarrow>
          (case w ge r vs of
             BadParam e \<Rightarrow> (PlainText 400 (param_error_text e @ [CHR 0x0A]), sv)
           | BadBody msg \<Rightarrow>
               (case writeOASError (hr_request_id r) 422 ''VALIDATION_ERROR'' msg None of
                  (st, er) \<Rightarrow> (JsonError st er, sv))
           | Parsed req \<Rightarrow>
               (case handle env js cx rd req sv of
                  (rep, sv') \<Rightarrow> (write_response (respond (hr_request_id r) rep), sv'))))"

text \<open>The middleware runs before the router looks for a route.\<close>

definition ServeHTTP ::
    "go_env \<Rightarrow> json_env \<Rightarrow> glue_env \<Rightarrow> jwt_env \<Rightarrow> fetch \<Rightarrow> gotime \<Rightarrow> gotime \<Rightarrow> gotime \<Rightarrow> readings \<Rightarrow> raw_request \<Rightarrow>
     verifier \<Rightarrow> server \<Rightarrow> http_response \<times> verifier \<times> server" where
  "ServeHTTP env js ge je f n1 n2 n3 rd r v sv =
     (case NewAuthMiddleware je f n1 n2 n3 (http_request.truncate r) v of
        (Rejected (st, er), v') \<Rightarrow> (JsonError st er, v', sv)
      | (Next cx, v') \<Rightarrow>
          (case dispatch env js ge cx rd r sv of (resp, sv') \<Rightarrow> (resp, v', sv')))"

end
