(* ===== verification/OasResponses.thy ===== *)
theory OasResponses
  imports OasServer HttpProperties
begin

text \<open>
  The response objects of internal/adapters/httpapi/oas/api.gen.go: for each operation the type of
  its responses, with one constructor per documented status, and its \<open>Visit...\<close> method, which
  writes the content type, the status and the value. The model's handlers answer with a status and
  a value; here each of their answers is shown to be written by a response object of the operation.
  \<open>UnauthorizedJSONResponse\<close> and its four siblings are the error response.
\<close>

section \<open>Response objects\<close>

datatype ListMembersResponseObject =
    ListMembers200JSONResponse "oas_directory_entry list"
  | ListMembers401JSONResponse error_response
  | ListMembers500JSONResponse error_response

fun VisitListMembersResponse :: "ListMembersResponseObject \<Rightarrow> http_response" where
  "VisitListMembersResponse (ListMembers200JSONResponse ms) = Json 200 (PMembers ms)"
| "VisitListMembersResponse (ListMembers401JSONResponse er) = JsonError 401 er"
| "VisitListMembersResponse (ListMembers500JSONResponse er) = JsonError 500 er"

datatype CreateMyMemberResponseObject =
    CreateMyMember201JSONResponse oas_member_profile
  | CreateMyMember401JSONResponse error_response
  | CreateMyMember409JSONResponse error_response
  | CreateMyMember422JSONResponse error_response
  | CreateMyMember500JSONResponse error_response

fun VisitCreateMyMemberResponse :: "CreateMyMemberResponseObject \<Rightarrow> http_response" where
  "VisitCreateMyMemberResponse (CreateMyMember201JSONResponse m) = Json 201 (PProfile m)"
| "VisitCreateMyMemberResponse (CreateMyMember401JSONResponse er) = JsonError 401 er"
| "VisitCreateMyMemberResponse (CreateMyMember409JSONResponse er) = JsonError 409 er"
| "VisitCreateMyMemberResponse (CreateMyMember422JSONResponse er) = JsonError 422 er"
| "VisitCreateMyMemberResponse (CreateMyMember500JSONResponse er) = JsonError 500 er"

datatype GetMyMemberProfileResponseObject =
    GetMyMemberProfile200JSONResponse oas_member_profile
  | GetMyMemberProfile401JSONResponse error_response
  | GetMyMemberProfile404JSONResponse error_response
  | GetMyMemberProfile500JSONResponse error_response

fun VisitGetMyMemberProfileResponse :: "GetMyMemberProfileResponseObject \<Rightarrow> http_response" where
  "VisitGetMyMemberProfileResponse (GetMyMemberProfile200JSONResponse m) = Json 200 (PProfile m)"
| "VisitGetMyMemberProfileResponse (GetMyMemberProfile401JSONResponse er) = JsonError 401 er"
| "VisitGetMyMemberProfileResponse (GetMyMemberProfile404JSONResponse er) = JsonError 404 er"
| "VisitGetMyMemberProfileResponse (GetMyMemberProfile500JSONResponse er) = JsonError 500 er"

datatype UpdateMyMemberProfileResponseObject =
    UpdateMyMemberProfile200JSONResponse oas_member_profile
  | UpdateMyMemberProfile401JSONResponse error_response
  | UpdateMyMemberProfile404JSONResponse error_response
  | UpdateMyMemberProfile409JSONResponse error_response
  | UpdateMyMemberProfile422JSONResponse error_response
  | UpdateMyMemberProfile500JSONResponse error_response

fun VisitUpdateMyMemberProfileResponse :: "UpdateMyMemberProfileResponseObject \<Rightarrow> http_response" where
  "VisitUpdateMyMemberProfileResponse (UpdateMyMemberProfile200JSONResponse m) = Json 200 (PProfile m)"
| "VisitUpdateMyMemberProfileResponse (UpdateMyMemberProfile401JSONResponse er) = JsonError 401 er"
| "VisitUpdateMyMemberProfileResponse (UpdateMyMemberProfile404JSONResponse er) = JsonError 404 er"
| "VisitUpdateMyMemberProfileResponse (UpdateMyMemberProfile409JSONResponse er) = JsonError 409 er"
| "VisitUpdateMyMemberProfileResponse (UpdateMyMemberProfile422JSONResponse er) = JsonError 422 er"
| "VisitUpdateMyMemberProfileResponse (UpdateMyMemberProfile500JSONResponse er) = JsonError 500 er"

datatype SearchMembersResponseObject =
    SearchMembers200JSONResponse "oas_directory_entry list"
  | SearchMembers401JSONResponse error_response
  | SearchMembers422JSONResponse error_response
  | SearchMembers500JSONResponse error_response

fun VisitSearchMembersResponse :: "SearchMembersResponseObject \<Rightarrow> http_response" where
  "VisitSearchMembersResponse (SearchMembers200JSONResponse ms) = Json 200 (PMembers ms)"
| "VisitSearchMembersResponse (SearchMembers401JSONResponse er) = JsonError 401 er"
| "VisitSearchMembersResponse (SearchMembers422JSONResponse er) = JsonError 422 er"
| "VisitSearchMembersResponse (SearchMembers500JSONResponse er) = JsonError 500 er"

datatype ListVisibleTripsForMemberResponseObject =
    ListVisibleTripsForMember200JSONResponse "oas_trip_summary list"
  | ListVisibleTripsForMember401JSONResponse error_response
  | ListVisibleTripsForMember500JSONResponse error_response

fun VisitListVisibleTripsForMemberResponse :: "ListVisibleTripsForMemberResponseObject \<Rightarrow> http_response" where
  "VisitListVisibleTripsForMemberResponse (ListVisibleTripsForMember200JSONResponse ts) = Json 200 (PTrips ts)"
| "VisitListVisibleTripsForMemberResponse (ListVisibleTripsForMember401JSONResponse er) = JsonError 401 er"
| "VisitListVisibleTripsForMemberResponse (ListVisibleTripsForMember500JSONResponse er) = JsonError 500 er"

datatype CreateTripDraftResponseObject =
    CreateTripDraft201JSONResponse oas_trip_created
  | CreateTripDraft401JSONResponse error_response
  | CreateTripDraft409JSONResponse error_response
  | CreateTripDraft422JSONResponse error_response
  | CreateTripDraft500JSONResponse error_response

fun VisitCreateTripDraftResponse :: "CreateTripDraftResponseObject \<Rightarrow> http_response" where
  "VisitCreateTripDraftResponse (CreateTripDraft201JSONResponse t) = Json 201 (PCreated t)"
| "VisitCreateTripDraftResponse (CreateTripDraft401JSONResponse er) = JsonError 401 er"
| "VisitCreateTripDraftResponse (CreateTripDraft409JSONResponse er) = JsonError 409 er"
| "VisitCreateTripDraftResponse (CreateTripDraft422JSONResponse er) = JsonError 422 er"
| "VisitCreateTripDraftResponse (CreateTripDraft500JSONResponse er) = JsonError 500 er"

datatype ListMyDraftTripsResponseObject =
    ListMyDraftTrips200JSONResponse "oas_trip_summary list"
  | ListMyDraftTrips401JSONResponse error_response
  | ListMyDraftTrips500JSONResponse error_response

fun VisitListMyDraftTripsResponse :: "ListMyDraftTripsResponseObject \<Rightarrow> http_response" where
  "VisitListMyDraftTripsResponse (ListMyDraftTrips200JSONResponse ts) = Json 200 (PTrips ts)"
| "VisitListMyDraftTripsResponse (ListMyDraftTrips401JSONResponse er) = JsonError 401 er"
| "VisitListMyDraftTripsResponse (ListMyDraftTrips500JSONResponse er) = JsonError 500 er"

datatype GetTripDetailsResponseObject =
    GetTripDetails200JSONResponse oas_trip_details
  | GetTripDetails401JSONResponse error_response
  | GetTripDetails404JSONResponse error_response
  | GetTripDetails500JSONResponse error_response

fun VisitGetTripDetailsResponse :: "GetTripDetailsResponseObject \<Rightarrow> http_response" where
  "VisitGetTripDetailsResponse (GetTripDetails200JSONResponse t) = Json 200 (PTrip t)"
| "VisitGetTripDetailsResponse (GetTripDetails401JSONResponse er) = JsonError 401 er"
| "VisitGetTripDetailsResponse (GetTripDetails404JSONResponse er) = JsonError 404 er"
| "VisitGetTripDetailsResponse (GetTripDetails500JSONResponse er) = JsonError 500 er"

datatype UpdateTripResponseObject =
    UpdateTrip200JSONResponse oas_trip_details
  | UpdateTrip401JSONResponse error_response
  | UpdateTrip404JSONResponse error_response
  | UpdateTrip409JSONResponse error_response
  | UpdateTrip422JSONResponse error_response
  | UpdateTrip500JSONResponse error_response

fun VisitUpdateTripResponse :: "UpdateTripResponseObject \<Rightarrow> http_response" where
  "VisitUpdateTripResponse (UpdateTrip200JSONResponse t) = Json 200 (PTrip t)"
| "VisitUpdateTripResponse (UpdateTrip401JSONResponse er) = JsonError 401 er"
| "VisitUpdateTripResponse (UpdateTrip404JSONResponse er) = JsonError 404 er"
| "VisitUpdateTripResponse (UpdateTrip409JSONResponse er) = JsonError 409 er"
| "VisitUpdateTripResponse (UpdateTrip422JSONResponse er) = JsonError 422 er"
| "VisitUpdateTripResponse (UpdateTrip500JSONResponse er) = JsonError 500 er"

datatype CancelTripResponseObject =
    CancelTrip200JSONResponse oas_trip_details
  | CancelTrip401JSONResponse error_response
  | CancelTrip404JSONResponse error_response
  | CancelTrip409JSONResponse error_response
  | CancelTrip422JSONResponse error_response
  | CancelTrip500JSONResponse error_response

fun VisitCancelTripResponse :: "CancelTripResponseObject \<Rightarrow> http_response" where
  "VisitCancelTripResponse (CancelTrip200JSONResponse t) = Json 200 (PTrip t)"
| "VisitCancelTripResponse (CancelTrip401JSONResponse er) = JsonError 401 er"
| "VisitCancelTripResponse (CancelTrip404JSONResponse er) = JsonError 404 er"
| "VisitCancelTripResponse (CancelTrip409JSONResponse er) = JsonError 409 er"
| "VisitCancelTripResponse (CancelTrip422JSONResponse er) = JsonError 422 er"
| "VisitCancelTripResponse (CancelTrip500JSONResponse er) = JsonError 500 er"

datatype SetTripDraftVisibilityResponseObject =
    SetTripDraftVisibility200JSONResponse oas_trip_details
  | SetTripDraftVisibility401JSONResponse error_response
  | SetTripDraftVisibility404JSONResponse error_response
  | SetTripDraftVisibility409JSONResponse error_response
  | SetTripDraftVisibility422JSONResponse error_response
  | SetTripDraftVisibility500JSONResponse error_response

fun VisitSetTripDraftVisibilityResponse :: "SetTripDraftVisibilityResponseObject \<Rightarrow> http_response" where
  "VisitSetTripDraftVisibilityResponse (SetTripDraftVisibility200JSONResponse t) = Json 200 (PTrip t)"
| "VisitSetTripDraftVisibilityResponse (SetTripDraftVisibility401JSONResponse er) = JsonError 401 er"
| "VisitSetTripDraftVisibilityResponse (SetTripDraftVisibility404JSONResponse er) = JsonError 404 er"
| "VisitSetTripDraftVisibilityResponse (SetTripDraftVisibility409JSONResponse er) = JsonError 409 er"
| "VisitSetTripDraftVisibilityResponse (SetTripDraftVisibility422JSONResponse er) = JsonError 422 er"
| "VisitSetTripDraftVisibilityResponse (SetTripDraftVisibility500JSONResponse er) = JsonError 500 er"

datatype AddTripOrganizerResponseObject =
    AddTripOrganizer200JSONResponse oas_trip_details
  | AddTripOrganizer401JSONResponse error_response
  | AddTripOrganizer404JSONResponse error_response
  | AddTripOrganizer409JSONResponse error_response
  | AddTripOrganizer422JSONResponse error_response
  | AddTripOrganizer500JSONResponse error_response

fun VisitAddTripOrganizerResponse :: "AddTripOrganizerResponseObject \<Rightarrow> http_response" where
  "VisitAddTripOrganizerResponse (AddTripOrganizer200JSONResponse t) = Json 200 (PTrip t)"
| "VisitAddTripOrganizerResponse (AddTripOrganizer401JSONResponse er) = JsonError 401 er"
| "VisitAddTripOrganizerResponse (AddTripOrganizer404JSONResponse er) = JsonError 404 er"
| "VisitAddTripOrganizerResponse (AddTripOrganizer409JSONResponse er) = JsonError 409 er"
| "VisitAddTripOrganizerResponse (AddTripOrganizer422JSONResponse er) = JsonError 422 er"
| "VisitAddTripOrganizerResponse (AddTripOrganizer500JSONResponse er) = JsonError 500 er"

datatype RemoveTripOrganizerResponseObject =
    RemoveTripOrganizer200JSONResponse oas_trip_details
  | RemoveTripOrganizer401JSONResponse error_response
  | RemoveTripOrganizer404JSONResponse error_response
  | RemoveTripOrganizer409JSONResponse error_response
  | RemoveTripOrganizer422JSONResponse error_response
  | RemoveTripOrganizer500JSONResponse error_response

fun VisitRemoveTripOrganizerResponse :: "RemoveTripOrganizerResponseObject \<Rightarrow> http_response" where
  "VisitRemoveTripOrganizerResponse (RemoveTripOrganizer200JSONResponse t) = Json 200 (PTrip t)"
| "VisitRemoveTripOrganizerResponse (RemoveTripOrganizer401JSONResponse er) = JsonError 401 er"
| "VisitRemoveTripOrganizerResponse (RemoveTripOrganizer404JSONResponse er) = JsonError 404 er"
| "VisitRemoveTripOrganizerResponse (RemoveTripOrganizer409JSONResponse er) = JsonError 409 er"
| "VisitRemoveTripOrganizerResponse (RemoveTripOrganizer422JSONResponse er) = JsonError 422 er"
| "VisitRemoveTripOrganizerResponse (RemoveTripOrganizer500JSONResponse er) = JsonError 500 er"

datatype PublishTripResponseObject =
    PublishTrip200JSONResponse gostring oas_trip_details
  | PublishTrip401JSONResponse error_response
  | PublishTrip404JSONResponse error_response
  | PublishTrip409JSONResponse error_response
  | PublishTrip422JSONResponse error_response
  | PublishTrip500JSONResponse error_response

fun VisitPublishTripResponse :: "PublishTripResponseObject \<Rightarrow> http_response" where
  "VisitPublishTripResponse (PublishTrip200JSONResponse s t) = Json 200 (PPublished t s)"
| "VisitPublishTripResponse (PublishTrip401JSONResponse er) = JsonError 401 er"
| "VisitPublishTripResponse (PublishTrip404JSONResponse er) = JsonError 404 er"
| "VisitPublishTripResponse (PublishTrip409JSONResponse er) = JsonError 409 er"
| "VisitPublishTripResponse (PublishTrip422JSONResponse er) = JsonError 422 er"
| "VisitPublishTripResponse (PublishTrip500JSONResponse er) = JsonError 500 er"

datatype SetMyRSVPResponseObject =
    SetMyRSVP200JSONResponse oas_my_rsvp
  | SetMyRSVP401JSONResponse error_response
  | SetMyRSVP404JSONResponse error_response
  | SetMyRSVP409JSONResponse error_response
  | SetMyRSVP422JSONResponse error_response
  | SetMyRSVP500JSONResponse error_response

fun VisitSetMyRSVPResponse :: "SetMyRSVPResponseObject \<Rightarrow> http_response" where
  "VisitSetMyRSVPResponse (SetMyRSVP200JSONResponse r) = Json 200 (PRsvp r)"
| "VisitSetMyRSVPResponse (SetMyRSVP401JSONResponse er) = JsonError 401 er"
| "VisitSetMyRSVPResponse (SetMyRSVP404JSONResponse er) = JsonError 404 er"
| "VisitSetMyRSVPResponse (SetMyRSVP409JSONResponse er) = JsonError 409 er"
| "VisitSetMyRSVPResponse (SetMyRSVP422JSONResponse er) = JsonError 422 er"
| "VisitSetMyRSVPResponse (SetMyRSVP500JSONResponse er) = JsonError 500 er"

datatype GetMyRSVPForTripResponseObject =
    GetMyRSVPForTrip200JSONResponse oas_my_rsvp
  | GetMyRSVPForTrip401JSONResponse error_response
  | GetMyRSVPForTrip404JSONResponse error_response
  | GetMyRSVPForTrip409JSONResponse error_response
  | GetMyRSVPForTrip500JSONResponse error_response

fun VisitGetMyRSVPForTripResponse :: "GetMyRSVPForTripResponseObject \<Rightarrow> http_response" where
  "VisitGetMyRSVPForTripResponse (GetMyRSVPForTrip200JSONResponse r) = Json 200 (PRsvp r)"
| "VisitGetMyRSVPForTripResponse (GetMyRSVPForTrip401JSONResponse er) = JsonError 401 er"
| "VisitGetMyRSVPForTripResponse (GetMyRSVPForTrip404JSONResponse er) = JsonError 404 er"
| "VisitGetMyRSVPForTripResponse (GetMyRSVPForTrip409JSONResponse er) = JsonError 409 er"
| "VisitGetMyRSVPForTripResponse (GetMyRSVPForTrip500JSONResponse er) = JsonError 500 er"

datatype GetTripRSVPSummaryResponseObject =
    GetTripRSVPSummary200JSONResponse oas_rsvp_summary
  | GetTripRSVPSummary401JSONResponse error_response
  | GetTripRSVPSummary404JSONResponse error_response
  | GetTripRSVPSummary409JSONResponse error_response
  | GetTripRSVPSummary500JSONResponse error_response

fun VisitGetTripRSVPSummaryResponse :: "GetTripRSVPSummaryResponseObject \<Rightarrow> http_response" where
  "VisitGetTripRSVPSummaryResponse (GetTripRSVPSummary200JSONResponse s) = Json 200 (PSummary s)"
| "VisitGetTripRSVPSummaryResponse (GetTripRSVPSummary401JSONResponse er) = JsonError 401 er"
| "VisitGetTripRSVPSummaryResponse (GetTripRSVPSummary404JSONResponse er) = JsonError 404 er"
| "VisitGetTripRSVPSummaryResponse (GetTripRSVPSummary409JSONResponse er) = JsonError 409 er"
| "VisitGetTripRSVPSummaryResponse (GetTripRSVPSummary500JSONResponse er) = JsonError 500 er"

section \<open>What the handlers answer\<close>

text \<open>A response object of the operation writes the response.\<close>

fun visited :: "api_request \<Rightarrow> http_response \<Rightarrow> bool" where
  "visited (ReqListMembers i) resp \<longleftrightarrow> (\<exists>x. resp = VisitListMembersResponse x)"
| "visited (ReqCreateMyMember b) resp \<longleftrightarrow> (\<exists>x. resp = VisitCreateMyMemberResponse x)"
| "visited ReqGetMyMemberProfile resp \<longleftrightarrow> (\<exists>x. resp = VisitGetMyMemberProfileResponse x)"
| "visited (ReqUpdateMyMemberProfile k b) resp \<longleftrightarrow> (\<exists>x. resp = VisitUpdateMyMemberProfileResponse x)"
| "visited (ReqSearchMembers q) resp \<longleftrightarrow> (\<exists>x. resp = VisitSearchMembersResponse x)"
| "visited ReqListVisibleTrips resp \<longleftrightarrow> (\<exists>x. resp = VisitListVisibleTripsForMemberResponse x)"
| "visited (ReqCreateTripDraft k b) resp \<longleftrightarrow> (\<exists>x. resp = VisitCreateTripDraftResponse x)"
| "visited ReqListMyDraftTrips resp \<longleftrightarrow> (\<exists>x. resp = VisitListMyDraftTripsResponse x)"
| "visited (ReqGetTripDetails t) resp \<longleftrightarrow> (\<exists>x. resp = VisitGetTripDetailsResponse x)"
| "visited (ReqUpdateTrip k t b) resp \<longleftrightarrow> (\<exists>x. resp = VisitUpdateTripResponse x)"
| "visited (ReqCancelTrip c t) resp \<longleftrightarrow> (\<exists>x. resp = VisitCancelTripResponse x)"
| "visited (ReqSetVisibility k t b) resp \<longleftrightarrow> (\<exists>x. resp = VisitSetTripDraftVisibilityResponse x)"
| "visited (ReqAddOrganizer k t b) resp \<longleftrightarrow> (\<exists>x. resp = VisitAddTripOrganizerResponse x)"
| "visited (ReqRemoveOrganizer k t m) resp \<longleftrightarrow> (\<exists>x. resp = VisitRemoveTripOrganizerResponse x)"
| "visited (ReqPublishTrip t) resp \<longleftrightarrow> (\<exists>x. resp = VisitPublishTripResponse x)"
| "visited (ReqSetMyRSVP k t b) resp \<longleftrightarrow> (\<exists>x. resp = VisitSetMyRSVPResponse x)"
| "visited (ReqGetMyRSVP t) resp \<longleftrightarrow> (\<exists>x. resp = VisitGetMyRSVPForTripResponse x)"
| "visited (ReqGetRSVPSummary t) resp \<longleftrightarrow> (\<exists>x. resp = VisitGetTripRSVPSummaryResponse x)"

text \<open>The error statuses of an operation but 500, and the value of its success.\<close>

fun error_statuses :: "api_request \<Rightarrow> nat list" where
  "error_statuses (ReqListMembers i) = [401]"
| "error_statuses (ReqCreateMyMember b) = [401, 409, 422]"
| "error_statuses ReqGetMyMemberProfile = [401, 404]"
| "error_statuses (ReqUpdateMyMemberProfile k b) = [401, 404, 409, 422]"
| "error_statuses (ReqSearchMembers q) = [401, 422]"
| "error_statuses ReqListVisibleTrips = [401]"
| "error_statuses (ReqCreateTripDraft k b) = [401, 409, 422]"
| "error_statuses ReqListMyDraftTrips = [401]"
| "error_statuses (ReqGetTripDetails t) = [401, 404]"
| "error_statuses (ReqUpdateTrip k t b) = [401, 404, 409, 422]"
| "error_statuses (ReqCancelTrip c t) = [401, 404, 409, 422]"
| "error_statuses (ReqSetVisibility k t b) = [401, 404, 409, 422]"
| "error_statuses (ReqAddOrganizer k t b) = [401, 404, 409, 422]"
| "error_statuses (ReqRemoveOrganizer k t m) = [401, 404, 409, 422]"
| "error_statuses (ReqPublishTrip t) = [401, 404, 409, 422]"
| "error_statuses (ReqSetMyRSVP k t b) = [401, 404, 409, 422]"
| "error_statuses (ReqGetMyRSVP t) = [401, 404, 409]"
| "error_statuses (ReqGetRSVPSummary t) = [401, 404, 409]"

fun payload_fits :: "api_request \<Rightarrow> payload \<Rightarrow> bool" where
  "payload_fits (ReqListMembers i) p \<longleftrightarrow> (\<exists>ms. p = PMembers ms)"
| "payload_fits (ReqCreateMyMember b) p \<longleftrightarrow> (\<exists>m. p = PProfile m)"
| "payload_fits ReqGetMyMemberProfile p \<longleftrightarrow> (\<exists>m. p = PProfile m)"
| "payload_fits (ReqUpdateMyMemberProfile k b) p \<longleftrightarrow> (\<exists>m. p = PProfile m)"
| "payload_fits (ReqSearchMembers q) p \<longleftrightarrow> (\<exists>ms. p = PMembers ms)"
| "payload_fits ReqListVisibleTrips p \<longleftrightarrow> (\<exists>ts. p = PTrips ts)"
| "payload_fits (ReqCreateTripDraft k b) p \<longleftrightarrow> (\<exists>t. p = PCreated t)"
| "payload_fits ReqListMyDraftTrips p \<longleftrightarrow> (\<exists>ts. p = PTrips ts)"
| "payload_fits (ReqGetTripDetails t) p \<longleftrightarrow> (\<exists>t'. p = PTrip t')"
| "payload_fits (ReqUpdateTrip k t b) p \<longleftrightarrow> (\<exists>t'. p = PTrip t')"
| "payload_fits (ReqCancelTrip c t) p \<longleftrightarrow> (\<exists>t'. p = PTrip t')"
| "payload_fits (ReqSetVisibility k t b) p \<longleftrightarrow> (\<exists>t'. p = PTrip t')"
| "payload_fits (ReqAddOrganizer k t b) p \<longleftrightarrow> (\<exists>t'. p = PTrip t')"
| "payload_fits (ReqRemoveOrganizer k t m) p \<longleftrightarrow> (\<exists>t'. p = PTrip t')"
| "payload_fits (ReqPublishTrip t) p \<longleftrightarrow> (\<exists>t' s. p = PPublished t' s)"
| "payload_fits (ReqSetMyRSVP k t b) p \<longleftrightarrow> (\<exists>r. p = PRsvp r)"
| "payload_fits (ReqGetMyRSVP t) p \<longleftrightarrow> (\<exists>r. p = PRsvp r)"
| "payload_fits (ReqGetRSVPSummary t) p \<longleftrightarrow> (\<exists>s. p = PSummary s)"

text \<open>Unmarshalling into a type yields a value of it.\<close>

fun typed_payload :: "payload_type \<Rightarrow> payload \<Rightarrow> bool" where
  "typed_payload TProfile p \<longleftrightarrow> (\<exists>m. p = PProfile m)"
| "typed_payload TTrip p \<longleftrightarrow> (\<exists>t. p = PTrip t)"
| "typed_payload TCreated p \<longleftrightarrow> (\<exists>t. p = PCreated t)"
| "typed_payload TRsvp p \<longleftrightarrow> (\<exists>r. p = PRsvp r)"

definition decodes_typed :: "json_env \<Rightarrow> bool" where
  "decodes_typed js \<longleftrightarrow> (\<forall>ty b p. js_decode js ty b = Some p \<longrightarrow> typed_payload ty p)"

fun reply_fits :: "api_request \<Rightarrow> reply \<Rightarrow> bool" where
  "reply_fits req (Reply st p) = payload_fits req p"
| "reply_fits req (Failure st er) = (st \<in> set (error_statuses req))"
| "reply_fits req (RawError e) = True"

lemma fits_401 [simp]: "401 \<in> set (error_statuses req)"
  by (cases req) simp_all

lemma fits_409: "idem_fp sub req = Some fp \<Longrightarrow> 409 \<in> set (error_statuses req)"
  by (cases "(sub, req)" rule: idem_fp.cases) simp_all

lemma fits_replay: "idem_fp sub req = Some fp \<Longrightarrow> typed_payload (stored_type req) p \<Longrightarrow> payload_fits req p"
  by (cases "(sub, req)" rule: idem_fp.cases) simp_all

lemma trips_failure_fits:
  assumes "\<And>st st'. status st = Some st' \<Longrightarrow> st' \<in> set (error_statuses req)"
  shows "reply_fits req (trips_failure cx status e)"
  using assms by (cases e) (auto simp: app_failure_def split: option.split)

lemma members_failure_fits:
  assumes "set sts \<subseteq> set (error_statuses req)"
  shows "reply_fits req (members_failure cx (same_status sts) e)"
  using assms by (cases e) (auto simp: app_failure_def same_status_def split: option.split)

lemma trips_call_fits:
  assumes "\<And>st st'. status st = Some st' \<Longrightarrow> st' \<in> set (error_statuses req)"
    and "\<And>x. payload_fits req (render x)"
  shows "reply_fits req (fst (trips_call cx status want render r))"
  using assms trips_failure_fits by (auto simp: trips_call_def split: prod.split sum.split)

lemma members_reply_fits:
  assumes "set sts \<subseteq> set (error_statuses req)" and "\<And>m. payload_fits req (PProfile m)"
  shows "reply_fits req (fst (members_reply cx sts want w r))"
  using assms members_failure_fits by (auto simp: members_reply_def split: sum.split)

lemma service_call_fits: "reply_fits req (fst (service_call env cx rd sub me req w))"
  by (cases "(env, cx, rd, sub, me, req)" rule: service_call.cases)
     (auto simp: missing_body_def render_trip_def render_created_def render_published_def same_status_def
        create_status_def split: sum.split if_splits
        intro!: trips_call_fits members_reply_fits members_failure_fits)

lemma handle_fits:
  assumes js: "decodes_typed js"
  shows "reply_fits req (fst (handle env js cx rd req sv))"
proof -
  have idem: "reply_fits req (fst (idempotent js cx rd want (stored_type req) storing fp h sv
      (service_call env cx rd sub me req)))" if fp: "idem_fp sub req = Some fp" for sub me want storing fp h
  proof -
    have replay: "payload_fits req p"
      if r: "idem_begin idem_get idem_put (js_decode js (stored_type req)) want fp h t st = (IdemReplay p, st')" for t st st' p
    proof -
      obtain b where "js_decode js (stored_type req) b = Some p"
        using istore.replay_recorded [OF r] by (auto simp: istore.records_def)
      then show ?thesis using fits_replay [OF fp] js by (auto simp: decodes_typed_def)
    qed
    have "service_call env cx rd sub me req w = (rep, w') \<Longrightarrow> reply_fits req rep" for w rep w'
      using service_call_fits [of req env cx rd sub me w] by simp
    then show ?thesis
      using fits_409 [OF fp] replay
      by (auto simp: idempotent_def Let_def key_reuse_def split: option.split prod.split idem_outcome.split)
  qed
  have after: "reply_fits req (fst (after_guards env js cx rd sub me req sv))" for sub me
    by (cases rule: after_guards_cases [of sub req env js cx rd me sv])
       (use service_call_fits idem in \<open>simp_all add: run_plain_def\<close>)
  show ?thesis
    by (auto simp: handle_pipeline pipeline_def with_member_def with_subject_def unauthorized_def not_provisioned_def
        after split: option.split sum.split)
qed

lemmas visit_simps = VisitListMembersResponse.simps VisitCreateMyMemberResponse.simps
  VisitGetMyMemberProfileResponse.simps VisitUpdateMyMemberProfileResponse.simps
  VisitSearchMembersResponse.simps VisitListVisibleTripsForMemberResponse.simps
  VisitCreateTripDraftResponse.simps VisitListMyDraftTripsResponse.simps VisitGetTripDetailsResponse.simps
  VisitUpdateTripResponse.simps VisitCancelTripResponse.simps VisitSetTripDraftVisibilityResponse.simps
  VisitAddTripOrganizerResponse.simps VisitRemoveTripOrganizerResponse.simps VisitPublishTripResponse.simps
  VisitSetMyRSVPResponse.simps VisitGetMyRSVPForTripResponse.simps VisitGetTripRSVPSummaryResponse.simps

lemma error_visited: "st \<in> set (error_statuses req) \<Longrightarrow> visited req (JsonError st er)"
  by (cases req; simp; metis visit_simps)

lemma success_visited: "payload_fits req p \<Longrightarrow> visited req (Json (success_status req) p)"
  by (cases req; simp; metis visit_simps)

lemma fitting_visited:
  assumes "reply_fits req rep" and "answer_ok req rep" and "\<forall>e. rep \<noteq> RawError e"
  shows "visited req (write_response (respond rid rep))"
  using assms error_visited success_visited by (cases rep) (simp_all add: respond_def)

lemma internal_error_visited: "visited req (JsonError 500 er)"
  by (cases req; simp; metis visit_simps)

text \<open>C32: Over the in-memory stores every answer of a handler is one the API documents for its
  operation: it is written by one of the operation's response objects, a success with the operation's
  own status and type of value and an error with one of its statuses. The only way from a handler to
  the generic internal error is then a generated member ID that is already taken when a profile is
  created. (Requests whose parameters do not bind reach no handler, and over Postgres there are
  other internal errors.)\<close>

theorem responses_documented:
  assumes "server_reachable env js sv" and "\<forall>x. \<exists>h. js_digest js x = Inr h" and "decodes_typed js"
  shows "case fst (handle env js cx rd req sv) of
      RawError e \<Rightarrow> e = MemberAlreadyExists \<and> (\<exists>b. req = ReqCreateMyMember (Some b))
    | rep \<Rightarrow> visited req (write_response (respond rid rep))"
  using handle_answer [OF assms(1,2), of req cx rd] handle_fits [OF assms(3), of req env cx rd sv]
    fitting_visited [of req "fst (handle env js cx rd req sv)" rid]
  by (auto split: reply.split)

text \<open>A trip that is not there: the answer is the 404 object of \<open>GetTripDetails\<close> or one of the others.\<close>

theorem responses_documented_witness:
  "visited (ReqGetTripDetails ''t'') (write_response (respond ''r1''
     (fst (handle demo_env demo_js (demo_cx ''sa'') (demo_rd 2 ''b'') (ReqGetTripDetails ''t'') demo_server))))"
proof -
  have "decodes_typed demo_js" by (simp add: decodes_typed_def demo_js_def demo_created_def)
  from responses_documented [OF demo_server_reachable _ this, where cx = "demo_cx ''sa''"
      and rd = "demo_rd 2 ''b''" and req = "ReqGetTripDetails ''t''" and rid = "''r1''"]
  show ?thesis
    using demo_digests(2) by (cases "fst (handle demo_env demo_js (demo_cx ''sa'') (demo_rd 2 ''b'')
        (ReqGetTripDetails ''t'') demo_server)") simp_all
qed

end
