(* ===== verification/OasProperties.thy ===== *)
theory OasProperties
  imports OasResponses
begin

text \<open>
  The properties of the generated server: every operation is reachable by the request the API
  document describes for it, and no raw request gets past authentication or changes anything
  unless it is answered with success.
\<close>

section \<open>What is relied on of chi\<close>

text \<open>A pattern and a path, split at the slashes; a segment in braces matches any segment.\<close>

definition is_param :: "gostring \<Rightarrow> bool" where
  "is_param p \<longleftrightarrow> has_prefix p ''{''"

fun match_segments :: "gostring list \<Rightarrow> gostring list \<Rightarrow> (gostring \<times> gostring) list option" where
  "match_segments [] [] = Some []"
| "match_segments (p # ps) (s # ss) =
     (if is_param p then map_option ((#) (butlast (tl p), s)) (match_segments ps ss)
      else if p = s then match_segments ps ss else None)"
| "match_segments _ _ = None"

definition segments :: "gostring \<Rightarrow> gostring list" where
  "segments = str_split (CHR ''/'')"

text \<open>At the first difference, the first pattern has a literal and the second a parameter.\<close>

fun more_static :: "gostring list \<Rightarrow> gostring list \<Rightarrow> bool" where
  "more_static (p # ps) (q # qs) = (if is_param p = is_param q then more_static ps qs else \<not> is_param p)"
| "more_static _ _ = False"

text \<open>The documented behaviour of the router: a route it finds has the method and matches the path,
  literals take precedence, and it finds a route when one matches with non-empty parameters.\<close>

definition routes_like_chi :: "glue_env \<Rightarrow> bool" where
  "routes_like_chi ge \<longleftrightarrow>
     (\<forall>tbl m path i vs. ge_route ge tbl m path = Some (i, vs) \<longrightarrow>
        i < length tbl \<and> fst (tbl ! i) = m \<and> match_segments (segments (snd (tbl ! i))) (segments path) = Some vs \<and>
        (\<forall>j < length tbl. fst (tbl ! j) = m \<and> match_segments (segments (snd (tbl ! j))) (segments path) \<noteq> None \<longrightarrow>
           \<not> more_static (segments (snd (tbl ! j))) (segments (snd (tbl ! i))))) \<and>
     (\<forall>tbl m path j vs. j < length tbl \<and> fst (tbl ! j) = m \<and>
        match_segments (segments (snd (tbl ! j))) (segments path) = Some vs \<and> (\<forall>v \<in> snd ` set vs. v \<noteq> '''') \<longrightarrow>
        ge_route ge tbl m path \<noteq> None)"

text \<open>The segments of the table.\<close>

definition table_segments :: "(gostring \<times> gostring list) list" where
  "table_segments =
     [(''GET'', ['''', ''healthz'']),
      (''GET'', ['''', ''members'']), (''POST'', ['''', ''members'']),
      (''GET'', ['''', ''members'', ''me'']), (''PATCH'', ['''', ''members'', ''me'']),
      (''GET'', ['''', ''members'', ''search'']),
      (''GET'', ['''', ''trips'']), (''POST'', ['''', ''trips'']), (''GET'', ['''', ''trips'', ''drafts'']),
      (''GET'', ['''', ''trips'', ''{tripId}'']), (''PATCH'', ['''', ''trips'', ''{tripId}'']),
      (''POST'', ['''', ''trips'', ''{tripId}'', ''cancel'']),
      (''PUT'', ['''', ''trips'', ''{tripId}'', ''draft-visibility'']),
      (''POST'', ['''', ''trips'', ''{tripId}'', ''organizers'']),
      (''DELETE'', ['''', ''trips'', ''{tripId}'', ''organizers'', ''{memberId}'']),
      (''POST'', ['''', ''trips'', ''{tripId}'', ''publish'']),
      (''PUT'', ['''', ''trips'', ''{tripId}'', ''rsvp'']),
      (''GET'', ['''', ''trips'', ''{tripId}'', ''rsvp'', ''me'']),
      (''GET'', ['''', ''trips'', ''{tripId}'', ''rsvps''])]"

lemma route_table_segments: "map (\<lambda>(m, p). (m, segments p)) route_table = table_segments"
  by code_simp

lemma length_route_table: "length route_table = 19"
  by (simp add: route_table_def api_routes_def)

lemma route_table_nth:
  "i < 19 \<Longrightarrow> fst (route_table ! i) = fst (table_segments ! i) \<and> segments (snd (route_table ! i)) = snd (table_segments ! i)"
  by (simp add: route_table_segments [symmetric] length_route_table split_beta)

text \<open>A path made of its segments.\<close>

definition path_of :: "gostring list \<Rightarrow> gostring" where
  "path_of ss = concat (map ((#) (CHR ''/'')) ss)"

lemma segments_path_of: "list_all (\<lambda>s. CHR ''/'' \<notin> set s) ss \<Longrightarrow> ss \<noteq> [] \<Longrightarrow> segments (path_of ss) = '''' # ss"
proof -
  have tail: "list_all (\<lambda>s. CHR ''/'' \<notin> set s) (s # ss) \<Longrightarrow>
      str_split (CHR ''/'') (s @ concat (map ((#) (CHR ''/'')) ss)) = s # ss" for s ss
    by (induction ss arbitrary: s) (simp_all add: str_split_word str_split_step)
  show "list_all (\<lambda>s. CHR ''/'' \<notin> set s) ss \<Longrightarrow> ss \<noteq> [] \<Longrightarrow> ?thesis"
    using tail by (cases ss) (simp_all add: segments_def path_of_def)
qed

text \<open>The router finds the entry that matches, if no other entry does better.\<close>

lemma routed:
  assumes chi: "routes_like_chi ge" and k: "k < 19" "fst (table_segments ! k) = m"
    and ss: "segments path = ss" "match_segments (snd (table_segments ! k)) ss = Some vs" "\<forall>v \<in> snd ` set vs. v \<noteq> ''''"
    and others: "\<forall>i < 19. i \<noteq> k \<longrightarrow> fst (table_segments ! i) = m \<longrightarrow>
      match_segments (snd (table_segments ! i)) ss = None \<or> more_static (snd (table_segments ! k)) (snd (table_segments ! i))"
  shows "ge_route ge route_table m path = Some (k, vs)"
proof -
  note nth = route_table_nth
  have "ge_route ge route_table m path \<noteq> None"
    using chi k ss nth [OF k(1)] length_route_table unfolding routes_like_chi_def by metis
  then obtain i ws where i: "ge_route ge route_table m path = Some (i, ws)" by fastforce
  note found = conjunct1 [OF chi [unfolded routes_like_chi_def], rule_format, OF i, unfolded length_route_table]
  have i19: "i < 19" using found by blast
  have "i = k"
  proof (rule ccontr)
    assume "i \<noteq> k"
    then have "more_static (snd (table_segments ! k)) (snd (table_segments ! i))"
      using others i19 found nth [OF i19] ss(1) by fastforce
    moreover have "\<not> more_static (segments (snd (route_table ! k))) (segments (snd (route_table ! i)))"
      using found k nth [OF k(1)] ss by auto
    ultimately show False using nth k(1) i19 by simp
  qed
  then show ?thesis using i found nth [OF i19] ss by auto
qed

text \<open>An executable form of the side conditions.\<close>

definition best_route :: "nat \<Rightarrow> gostring \<Rightarrow> gostring list \<Rightarrow> (gostring \<times> gostring) list \<Rightarrow> bool" where
  "best_route k m ss vs \<longleftrightarrow>
     fst (table_segments ! k) = m \<and> match_segments (snd (table_segments ! k)) ss = Some vs \<and>
     list_all (\<lambda>i. i = k \<or> fst (table_segments ! i) \<noteq> m \<or> match_segments (snd (table_segments ! i)) ss = None \<or>
       more_static (snd (table_segments ! k)) (snd (table_segments ! i))) [0..<19]"

lemma route_best:
  assumes "routes_like_chi ge" and "rq_method r = m" "route_path r = path_of ss" and "k < 18"
    and "list_all (\<lambda>s. CHR ''/'' \<notin> set s) ss" "ss \<noteq> []"
    and "best_route (Suc k) m ('''' # ss) vs" and "\<forall>v \<in> snd ` set vs. v \<noteq> ''''"
  shows "route ge r = Api (snd (snd (api_routes ! k))) vs"
proof -
  have "ge_route ge route_table m (path_of ss) = Some (Suc k, vs)"
    by (rule routed [OF assms(1) _ _ segments_path_of [OF assms(5,6)]])
      (use assms(4,7,8) in \<open>auto simp: best_route_def list_all_iff\<close>)
  then show ?thesis using assms(2,3) by (simp add: route_def)
qed

section \<open>Requests as the API documents them\<close>

definition sends :: "raw_request \<Rightarrow> gostring \<Rightarrow> gostring list \<Rightarrow> bool" where
  "sends r m ss \<longleftrightarrow> rq_method r = m \<and> route_path r = path_of ss"

definition names :: "glue_env \<Rightarrow> gostring \<Rightarrow> gostring \<Rightarrow> bool" where
  "names ge seg v \<longleftrightarrow> seg \<noteq> '''' \<and> CHR ''/'' \<notin> set seg \<and> ge_bind_path ge seg = Inr v"

definition keyed :: "glue_env \<Rightarrow> raw_request \<Rightarrow> gostring \<Rightarrow> bool" where
  "keyed ge r k \<longleftrightarrow> (\<exists>raw. rq_idempotency_key r = Some [raw] \<and> ge_bind_header ge True raw = Inr k)"

definition carries :: "(gostring \<Rightarrow> gostring + 'a) \<Rightarrow> raw_request \<Rightarrow> 'a option \<Rightarrow> bool" where
  "carries dec r b \<longleftrightarrow> (\<exists>x. b = Some x \<and> dec (rq_body r) = Inr x)"


fun sent_as :: "glue_env \<Rightarrow> raw_request \<Rightarrow> api_request \<Rightarrow> bool" where
  "sent_as ge r (ReqListMembers b) \<longleftrightarrow>
     sends r ''GET'' [''members''] \<and> ge_bind_bool ge ''includeInactive'' (rq_query r) = Inr b"
| "sent_as ge r (ReqSearchMembers q) \<longleftrightarrow>
     sends r ''GET'' [''members'', ''search''] \<and> query_get r ''q'' \<noteq> '''' \<and> ge_bind_query ge ''q'' (rq_query r) = Inr q"
| "sent_as ge r (ReqCreateMyMember b) \<longleftrightarrow> sends r ''POST'' [''members''] \<and> carries (ge_create_member ge) r b"
| "sent_as ge r ReqGetMyMemberProfile \<longleftrightarrow> sends r ''GET'' [''members'', ''me'']"
| "sent_as ge r (ReqUpdateMyMemberProfile k b) \<longleftrightarrow>
     sends r ''PATCH'' [''members'', ''me''] \<and> keyed ge r k \<and> carries (ge_update_member ge) r b"
| "sent_as ge r ReqListVisibleTrips \<longleftrightarrow> sends r ''GET'' [''trips'']"
| "sent_as ge r ReqListMyDraftTrips \<longleftrightarrow> sends r ''GET'' [''trips'', ''drafts'']"
| "sent_as ge r (ReqGetTripDetails t) \<longleftrightarrow>
     (\<exists>seg. sends r ''GET'' [''trips'', seg] \<and> names ge seg t \<and> seg \<noteq> ''drafts'')"
| "sent_as ge r (ReqCreateTripDraft k b) \<longleftrightarrow>
     sends r ''POST'' [''trips''] \<and> keyed ge r k \<and> carries (ge_trip_draft ge) r b"
| "sent_as ge r (ReqUpdateTrip k t b) \<longleftrightarrow>
     (\<exists>seg. sends r ''PATCH'' [''trips'', seg] \<and> names ge seg t) \<and> keyed ge r k \<and> carries (ge_update_trip ge) r b"
| "sent_as ge r (ReqSetVisibility k t b) \<longleftrightarrow>
     (\<exists>seg. sends r ''PUT'' [''trips'', seg, ''draft-visibility''] \<and> names ge seg t) \<and> keyed ge r k \<and>
     carries (ge_visibility ge) r b"
| "sent_as ge r (ReqPublishTrip t) \<longleftrightarrow> (\<exists>seg. sends r ''POST'' [''trips'', seg, ''publish''] \<and> names ge seg t)"
| "sent_as ge r (ReqCancelTrip k t) \<longleftrightarrow>
     (\<exists>seg. sends r ''POST'' [''trips'', seg, ''cancel''] \<and> names ge seg t) \<and>
     (case k of None \<Rightarrow> rq_idempotency_key r = None
      | Some v \<Rightarrow> \<exists>raw. rq_idempotency_key r = Some [raw] \<and> ge_bind_header ge False raw = Inr v)"
| "sent_as ge r (ReqAddOrganizer k t b) \<longleftrightarrow>
     (\<exists>seg. sends r ''POST'' [''trips'', seg, ''organizers''] \<and> names ge seg t) \<and> keyed ge r k \<and>
     carries (ge_organizer ge) r b"
| "sent_as ge r (ReqRemoveOrganizer k t m) \<longleftrightarrow>
     (\<exists>seg who. sends r ''DELETE'' [''trips'', seg, ''organizers'', who] \<and> names ge seg t \<and> names ge who m) \<and> keyed ge r k"
| "sent_as ge r (ReqSetMyRSVP k t b) \<longleftrightarrow>
     (\<exists>seg. sends r ''PUT'' [''trips'', seg, ''rsvp''] \<and> names ge seg t) \<and> keyed ge r k \<and> carries (ge_rsvp ge) r b"
| "sent_as ge r (ReqGetMyRSVP t) \<longleftrightarrow> (\<exists>seg. sends r ''GET'' [''trips'', seg, ''rsvp'', ''me''] \<and> names ge seg t)"
| "sent_as ge r (ReqGetRSVPSummary t) \<longleftrightarrow> (\<exists>seg. sends r ''GET'' [''trips'', seg, ''rsvps''] \<and> names ge seg t)"

text \<open>Where each request's route leads, with its path parameters.\<close>

lemma best_routes:
  "best_route 1 ''GET'' ['''', ''members''] []"
  "best_route 2 ''POST'' ['''', ''members''] []"
  "best_route 3 ''GET'' ['''', ''members'', ''me''] []"
  "best_route 4 ''PATCH'' ['''', ''members'', ''me''] []"
  "best_route 5 ''GET'' ['''', ''members'', ''search''] []"
  "best_route 6 ''GET'' ['''', ''trips''] []"
  "best_route 7 ''POST'' ['''', ''trips''] []"
  "best_route 8 ''GET'' ['''', ''trips'', ''drafts''] []"
  by code_simp+

named_theorems route_simps

lemmas [route_simps] = best_route_def table_segments_def is_param_def upt_rec numeral_eq_Suc

lemma best_trip_routes:
  "seg \<noteq> ''drafts'' \<Longrightarrow> best_route 9 ''GET'' ['''', ''trips'', seg] [(''tripId'', seg)]"
  "best_route 10 ''PATCH'' ['''', ''trips'', seg] [(''tripId'', seg)]"
  "best_route 11 ''POST'' ['''', ''trips'', seg, ''cancel''] [(''tripId'', seg)]"
  "best_route 12 ''PUT'' ['''', ''trips'', seg, ''draft-visibility''] [(''tripId'', seg)]"
  "best_route 13 ''POST'' ['''', ''trips'', seg, ''organizers''] [(''tripId'', seg)]"
  "best_route 14 ''DELETE'' ['''', ''trips'', seg, ''organizers'', who] [(''tripId'', seg), (''memberId'', who)]"
  "best_route 15 ''POST'' ['''', ''trips'', seg, ''publish''] [(''tripId'', seg)]"
  "best_route 16 ''PUT'' ['''', ''trips'', seg, ''rsvp''] [(''tripId'', seg)]"
  "best_route 17 ''GET'' ['''', ''trips'', seg, ''rsvp'', ''me''] [(''tripId'', seg)]"
  "best_route 18 ''GET'' ['''', ''trips'', seg, ''rsvps''] [(''tripId'', seg)]"
  by (simp_all add: route_simps)

text \<open>The wrapper and the strict handler, unfolded together.\<close>

named_theorems glue_simps

lemmas [glue_simps] =
  siw_ListMembers_def sh_ListMembers_def siw_CreateMyMember_def sh_CreateMyMember_def
  siw_GetMyMemberProfile_def sh_GetMyMemberProfile_def siw_UpdateMyMemberProfile_def
  sh_UpdateMyMemberProfile_def siw_SearchMembers_def sh_SearchMembers_def
  siw_ListVisibleTripsForMember_def sh_ListVisibleTripsForMember_def siw_CreateTripDraft_def
  sh_CreateTripDraft_def siw_ListMyDraftTrips_def sh_ListMyDraftTrips_def siw_GetTripDetails_def
  sh_GetTripDetails_def siw_UpdateTrip_def sh_UpdateTrip_def siw_CancelTrip_def sh_CancelTrip_def
  siw_SetTripDraftVisibility_def sh_SetTripDraftVisibility_def siw_AddTripOrganizer_def
  sh_AddTripOrganizer_def siw_RemoveTripOrganizer_def sh_RemoveTripOrganizer_def siw_PublishTrip_def
  sh_PublishTrip_def siw_SetMyRSVP_def sh_SetMyRSVP_def siw_GetMyRSVPForTrip_def
  sh_GetMyRSVPForTrip_def siw_GetTripRSVPSummary_def sh_GetTripRSVPSummary_def
  bind_path_param_def bind_required_key_def bind_optional_key_def decode_body_def url_param_def

lemmas sent_simps = glue_simps names_def keyed_def carries_def api_routes_def numeral_eq_Suc

lemma sent_parsed:
  assumes "routes_like_chi ge" and "sent_as ge r req"
  shows "\<exists>w vs. route ge r = Api w vs \<and> w ge r vs = Parsed req"
proof -
  have to: "sends r m ss \<Longrightarrow> best_route j m ('''' # ss) vs \<Longrightarrow> 0 < j \<Longrightarrow> j < 19 \<Longrightarrow>
      list_all (\<lambda>s. CHR ''/'' \<notin> set s) ss \<Longrightarrow> ss \<noteq> [] \<Longrightarrow> \<forall>v \<in> snd ` set vs. v \<noteq> '''' \<Longrightarrow>
      route ge r = Api (snd (snd (api_routes ! (j - 1)))) vs" for m ss j vs
    using route_best [OF assms(1), of r m ss "j - 1" vs] by (simp add: sends_def)
  show ?thesis
  proof (cases req)
    case (ReqListMembers b)
    then show ?thesis using assms(2) to [OF _ best_routes(1)]
      by (auto simp: sent_simps split: option.splits)
  next
    case (ReqSearchMembers q)
    then show ?thesis using assms(2) to [OF _ best_routes(5)]
      by (auto simp: sent_simps split: option.splits)
  next
    case (ReqCreateMyMember b)
    then show ?thesis using assms(2) to [OF _ best_routes(2)]
      by (auto simp: sent_simps split: option.splits)
  next
    case (ReqGetMyMemberProfile)
    then show ?thesis using assms(2) to [OF _ best_routes(3)]
      by (auto simp: sent_simps split: option.splits)
  next
    case (ReqUpdateMyMemberProfile k b)
    then show ?thesis using assms(2) to [OF _ best_routes(4)]
      by (auto simp: sent_simps split: option.splits)
  next
    case (ReqListVisibleTrips)
    then show ?thesis using assms(2) to [OF _ best_routes(6)]
      by (auto simp: sent_simps split: option.splits)
  next
    case (ReqListMyDraftTrips)
    then show ?thesis using assms(2) to [OF _ best_routes(8)]
      by (auto simp: sent_simps split: option.splits)
  next
    case (ReqGetTripDetails t)
    then show ?thesis using assms(2) to [OF _ best_trip_routes(1)]
      by (auto simp: sent_simps split: option.splits)
  next
    case (ReqCreateTripDraft k b)
    then show ?thesis using assms(2) to [OF _ best_routes(7)]
      by (auto simp: sent_simps split: option.splits)
  next
    case (ReqUpdateTrip k t b)
    then show ?thesis using assms(2) to [OF _ best_trip_routes(2)]
      by (auto simp: sent_simps split: option.splits)
  next
    case (ReqSetVisibility k t b)
    then show ?thesis using assms(2) to [OF _ best_trip_routes(4)]
      by (auto simp: sent_simps split: option.splits)
  next
    case (ReqPublishTrip t)
    then show ?thesis using assms(2) to [OF _ best_trip_routes(7)]
      by (auto simp: sent_simps split: option.splits)
  next
    case (ReqCancelTrip k t)
    then show ?thesis using assms(2) to [OF _ best_trip_routes(3)]
      by (auto simp: sent_simps split: option.splits)
  next
    case (ReqAddOrganizer k t b)
    then show ?thesis using assms(2) to [OF _ best_trip_routes(5)]
      by (auto simp: sent_simps split: option.splits)
  next
    case (ReqRemoveOrganizer k t m)
    then show ?thesis using assms(2) to [OF _ best_trip_routes(6)]
      by (auto simp: sent_simps split: option.splits)
  next
    case (ReqSetMyRSVP k t b)
    then show ?thesis using assms(2) to [OF _ best_trip_routes(8)]
      by (auto simp: sent_simps split: option.splits)
  next
    case (ReqGetMyRSVP t)
    then show ?thesis using assms(2) to [OF _ best_trip_routes(9)]
      by (auto simp: sent_simps split: option.splits)
  next
    case (ReqGetRSVPSummary t)
    then show ?thesis using assms(2) to [OF _ best_trip_routes(10)]
      by (auto simp: sent_simps split: option.splits)
  qed
qed

section \<open>Properties\<close>

text \<open>C38: Every operation of the API is served: a request with the documented method, path, parameters,
  idempotency header and body of an operation is answered by that operation's handler on exactly
  those values, and by nothing else, whatever the router does beyond its documented rules.\<close>

theorem documented_requests_served:
  assumes "routes_like_chi ge" and "sent_as ge r req"
  shows "dispatch env js ge cx rd r sv =
    (write_response (respond (hr_request_id r) (fst (handle env js cx rd req sv))), snd (handle env js cx rd req sv))"
  using sent_parsed [OF assms] by (auto simp: dispatch_def split: prod.split)

lemma dispatch_cases:
  assumes "dispatch env js ge cx rd r sv = (resp, sv')"
  obtains (idle) "sv' = sv" "case resp of Json st p \<Rightarrow> False | JsonError st er \<Rightarrow> st = 422 | PlainText st s \<Rightarrow> st \<in> {200, 400} | NotRouted \<Rightarrow> True"
  | (handled) req where "resp = write_response (respond (hr_request_id r) (fst (handle env js cx rd req sv)))"
      "sv' = snd (handle env js cx rd req sv)"
proof (cases "route ge r")
  case NoRoute
  then show ?thesis using assms idle by (simp add: dispatch_def)
next
  case Health
  then show ?thesis using assms idle by (auto simp: dispatch_def)
next
  case (Api w vs)
  show ?thesis
  proof (cases "w ge r vs")
    case (Parsed req)
    then show ?thesis using assms Api handled [of req] by (simp add: dispatch_def split: prod.splits)
  qed (use assms Api idle in \<open>auto simp: dispatch_def writeOASError_def\<close>)
qed

text \<open>A parameter that does not bind, the idempotency header included, is answered by the default error
  function of the generated layer: 400 in plain text, not the API's error object.\<close>

lemma bad_parameter_plain_text:
  "route ge r = Api w vs \<Longrightarrow> w ge r vs = BadParam e \<Longrightarrow>
   dispatch env js ge cx rd r sv = (PlainText 400 (param_error_text e @ [CHR 0x0A]), sv)"
  by (simp add: dispatch_def)

text \<open>The answer to a request the middleware has let through, by where the router and the parameter layer
  take it. Only the last case is one the API documents in full.\<close>

definition answered_as :: "glue_env \<Rightarrow> raw_request \<Rightarrow> http_response \<Rightarrow> bool" where
  "answered_as ge r resp \<longleftrightarrow>
     (case route ge r of
        NoRoute \<Rightarrow> resp = NotRouted
      | Health \<Rightarrow> resp = PlainText 200 ''ok''
      | Api w vs \<Rightarrow>
          (case w ge r vs of
             BadParam e \<Rightarrow> resp = PlainText 400 (param_error_text e @ [CHR 0x0A])
           | BadBody msg \<Rightarrow> (\<exists>er. resp = JsonError 422 er \<and> er_code er = ''VALIDATION_ERROR'')
           | Parsed req \<Rightarrow> visited req resp))"

lemma handled_visited:
  assumes "server_reachable env js sv" and "\<forall>x. \<exists>h. js_digest js x = Inr h" and "decodes_typed js"
  shows "visited req (write_response (respond rid (fst (handle env js cx rd req sv))))"
proof (cases "\<exists>e. fst (handle env js cx rd req sv) = RawError e")
  case True
  then show ?thesis by (auto simp: respond_def response_error_def writeOASError_def internal_error_visited)
next
  case False
  then show ?thesis
    using fitting_visited [of req "fst (handle env js cx rd req sv)" rid] handle_fits [OF assms(3), of req env cx rd sv]
      handle_answer [OF assms(1,2), of req cx rd] by simp
qed

lemma dispatch_answered:
  assumes "server_reachable env js sv" and "\<forall>x. \<exists>h. js_digest js x = Inr h" and "decodes_typed js"
    and "dispatch env js ge cx rd r sv = (resp, sv')"
  shows "answered_as ge r resp"
proof (cases "route ge r")
  case (Api w vs)
  then show ?thesis
    using assms(4) handled_visited [OF assms(1-3), of _ "hr_request_id r" cx rd]
    by (cases "w ge r vs") (auto simp: dispatch_def answered_as_def writeOASError_def case_prod_unfold)
qed (use assms(4) in \<open>simp_all add: dispatch_def answered_as_def\<close>)

lemma written_success: "write_response (respond rid rep) = Json st p \<Longrightarrow> is_success rep"
  by (cases rep) (auto simp: respond_def response_error_def writeOASError_def)

lemma written_failure: "\<nexists>st p. write_response (respond rid rep) = Json st p \<Longrightarrow> \<not> is_success rep"
  by (cases rep) (auto simp: respond_def)

text \<open>The subject a raw request has proved.\<close>

definition proves ::
    "jwt_env \<Rightarrow> fetch \<Rightarrow> gotime \<Rightarrow> gotime \<Rightarrow> gotime \<Rightarrow> raw_request \<Rightarrow> verifier \<Rightarrow> SubjectID \<Rightarrow> bool" where
  "proves je f n1 n2 n3 r v sub \<longleftrightarrow>
     (\<exists>rest. hr_authorization r = ''Bearer '' @ rest \<and> fst (Verify je f n1 n2 n3 (trim_space rest) v) = Inr sub)"

lemma middleware_context:
  assumes "NewAuthMiddleware je f n1 n2 n3 (http_request.truncate r) v = (Next cx, v')"
    and "SubjectFromContext cx = Some sub"
  shows "proves je f n1 n2 n3 r v sub"
  using assms(1)
proof (cases rule: middleware_cases)
  case health
  then show ?thesis using assms(2) by (simp add: request_context_def SubjectFromContext_def)
next
  case (verified rest sub')
  then have "sub = sub'"
    using assms(2) by (auto simp: SubjectFromContext_def WithSubject_def split: if_splits)
  then show ?thesis using verified unfolding proves_def by (intro exI [of _ rest]) (simp add: http_request.truncate_def)
qed simp

text \<open>C30: End to end, from the raw request, over the in-memory stores: whatever is sent, the answer is the
  401 of the middleware, with nothing changed, or what its route says: chi's own error where there
  is none, ok on the health route, 422 for a body that does not decode, 400 in plain text for a
  parameter that does not bind (which the API does not document), and for a request that is decoded
  one of the response objects of its operation. The planner's data changes only if the answer is a
  success and the request carried a bearer token the verifier accepted; it then performs exactly one
  operation of the planner, on behalf of the member of that token's subject. Nothing is assumed of
  the router or the parameter binders, and of JSON only that decoding into a type gives a value of
  it.\<close>

theorem raw_requests_safe:
  assumes "verifier_reachable je cfg v" and "n2 \<noteq> 0" and "server_reachable env js sv"
    and "\<forall>x. \<exists>h. js_digest js x = Inr h"
    and "ServeHTTP env js ge je f n1 n2 n3 rd r v sv = (resp, v', sv')" and "decodes_typed js"
  shows "verifier_reachable je cfg v' \<and> server_reachable env js sv' \<and>
    (sv' = sv \<and> (\<exists>er. resp = JsonError 401 er) \<or> answered_as ge r resp) \<and>
    (sv_world sv' \<noteq> sv_world sv \<longrightarrow>
       (\<exists>st p. resp = Json st p) \<and>
       (\<exists>sub mid req p. proves je f n1 n2 n3 r v sub \<and> acts_as (w_members (sv_world sv)) sub req mid \<and>
          request_op rd sub mid req = Some p \<and> step env (sv_world sv) p (sv_world sv')))"
proof -
  obtain verdict where m: "NewAuthMiddleware je f n1 n2 n3 (http_request.truncate r) v = (verdict, v')"
    using assms(5) by (auto simp: ServeHTTP_def split: prod.splits passage.splits)
  note v' = reachable_after [OF assms(1,2) m]
  show ?thesis
  proof (cases verdict)
    case (Rejected e)
    have "fst e = 401" using m Rejected by (cases rule: middleware_cases) auto
    then show ?thesis
      using assms(3,5) v' m Rejected by (cases e) (auto simp: ServeHTTP_def)
  next
    case (Next cx)
    then have d: "dispatch env js ge cx rd r sv = (resp, sv')"
      using assms(5) m by (auto simp: ServeHTTP_def split: prod.splits)
    note ok = dispatch_answered [OF assms(3,4,6) d]
    from d show ?thesis
    proof (cases rule: dispatch_cases)
      case idle
      then show ?thesis using assms(3) v' ok by (auto split: http_response.splits)
    next
      case (handled req)
      have reach: "server_reachable env js sv'"
        unfolding handled(2) by (rule server_reachable.request [OF assms(3)])
      have wfm: "wf_member_repo (w_members (sv_world sv))" by (rule server_members_wf [OF assms(3)])
      have changed: "(\<exists>st p. resp = Json st p) \<and>
         (\<exists>sub mid req p. proves je f n1 n2 n3 r v sub \<and> acts_as (w_members (sv_world sv)) sub req mid \<and>
            request_op rd sub mid req = Some p \<and> step env (sv_world sv) p (sv_world sv'))"
        if ne: "sv_world sv' \<noteq> sv_world sv"
      proof
        show "\<exists>st p. resp = Json st p"
        proof (rule ccontr)
          assume "\<nexists>st p. resp = Json st p"
          then have "\<not> is_success (fst (handle env js cx rd req sv))"
            unfolding handled(1) by (rule written_failure)
          then show False using failed_world [OF assms(3)] ne by (simp add: handled(2))
        qed
        from handle_world [OF wfm, of env js cx rd req] ne obtain sub mid p
          where s: "SubjectFromContext cx = Some sub" and a: "acts_as (w_members (sv_world sv)) sub req mid"
            and p: "request_op rd sub mid req = Some p" "sv_world sv' = snd (exec env p (sv_world sv))"
          unfolding handled(2) by blast
        have "step env (sv_world sv) p (sv_world sv')"
          unfolding p(2) by (rule step.run) (use request_op_caller [OF wfm a p(1)] in \<open>auto split: option.split\<close>)
        then show "\<exists>sub mid req p. proves je f n1 n2 n3 r v sub \<and> acts_as (w_members (sv_world sv)) sub req mid \<and>
            request_op rd sub mid req = Some p \<and> step env (sv_world sv) p (sv_world sv')"
          using middleware_context [OF m [unfolded Next] s] a p(1) by blast
      qed
      show ?thesis using v' reach ok changed by blast
    qed
  qed
qed

section \<open>A concrete router for the witnesses\<close>

text \<open>Of the entries that match, one whose parameters come latest.\<close>

fun weight :: "gostring list \<Rightarrow> nat" where
  "weight [] = 0"
| "weight (p # ps) = (if is_param p then 2 ^ length ps else 0) + weight ps"

lemma weight_less: "weight ps < 2 ^ length ps"
  by (induction ps) auto

lemma more_static_weight: "more_static ps qs \<Longrightarrow> length ps = length qs \<Longrightarrow> weight ps < weight qs"
proof (induction ps qs rule: more_static.induct)
  case (1 p ps q qs)
  then show ?case using weight_less [of ps] by (auto split: if_splits)
qed simp_all

lemma match_segments_length: "match_segments ps ss = Some vs \<Longrightarrow> length ps = length ss"
  by (induction ps ss arbitrary: vs rule: match_segments.induct) (auto split: if_splits)

lemma find_Some_in: "find P xs = Some x \<Longrightarrow> x \<in> set xs"
  and find_Some_holds: "find P xs = Some x \<Longrightarrow> P x"
  by (auto simp: find_Some_iff)

lemma least_member:
  fixes w :: "'a \<Rightarrow> nat"
  assumes "x \<in> set xs"
  obtains i where "i \<in> set xs" "\<forall>k \<in> set xs. w i \<le> w k"
  using ex_has_least_nat [of "\<lambda>x. x \<in> set xs" x w] assms by blast

definition demo_route ::
    "(gostring \<times> gostring) list \<Rightarrow> gostring \<Rightarrow> gostring \<Rightarrow> (nat \<times> (gostring \<times> gostring) list) option" where
  "demo_route tbl m path =
     (let pat = (\<lambda>i. segments (snd (tbl ! i)));
          found = filter (\<lambda>i. fst (tbl ! i) = m \<and> match_segments (pat i) (segments path) \<noteq> None) [0..<length tbl]
      in map_option (\<lambda>i. (i, the (match_segments (pat i) (segments path))))
           (find (\<lambda>i. list_all (\<lambda>j. weight (pat i) \<le> weight (pat j)) found) found))"

lemma demo_route_chi:
  assumes "ge_route ge = demo_route"
  shows "routes_like_chi ge"
proof -
  let ?pat = "\<lambda>tbl i. segments (snd (tbl ! i))"
  let ?found = "\<lambda>tbl m path. filter (\<lambda>i. fst (tbl ! i) = m \<and> match_segments (?pat tbl i) (segments path) \<noteq> None) [0..<length tbl]"
  have sound: "i < length tbl \<and> fst (tbl ! i) = m \<and> match_segments (?pat tbl i) (segments path) = Some vs \<and>
        (\<forall>j < length tbl. fst (tbl ! j) = m \<and> match_segments (?pat tbl j) (segments path) \<noteq> None \<longrightarrow>
           \<not> more_static (?pat tbl j) (?pat tbl i))"
    if r: "demo_route tbl m path = Some (i, vs)" for tbl m path i vs
  proof -
    from r have f: "find (\<lambda>i. list_all (\<lambda>j. weight (?pat tbl i) \<le> weight (?pat tbl j)) (?found tbl m path)) (?found tbl m path) = Some i"
      and vs: "vs = the (match_segments (?pat tbl i) (segments path))"
      by (auto simp: demo_route_def Let_def)
    from f have i: "i \<in> set (?found tbl m path)" and least: "list_all (\<lambda>j. weight (?pat tbl i) \<le> weight (?pat tbl j)) (?found tbl m path)"
      by (rule find_Some_in, rule find_Some_holds)
    have "\<not> more_static (?pat tbl j) (?pat tbl i)"
      if j: "j < length tbl" "fst (tbl ! j) = m" "match_segments (?pat tbl j) (segments path) \<noteq> None" for j
    proof
      assume s: "more_static (?pat tbl j) (?pat tbl i)"
      have "length (?pat tbl j) = length (?pat tbl i)"
        using i j(3) by (auto dest!: match_segments_length)
      then have "weight (?pat tbl j) < weight (?pat tbl i)" using more_static_weight [OF s] by blast
      moreover have "j \<in> set (?found tbl m path)" using j by simp
      ultimately show False using least by (fastforce simp: list_all_iff)
    qed
    then show ?thesis using i vs by auto
  qed
  have complete: "demo_route tbl m path \<noteq> None"
    if j: "j < length tbl" "fst (tbl ! j) = m" "match_segments (?pat tbl j) (segments path) = Some vs" for tbl m path j vs
  proof -
    define w where "w = (\<lambda>i. weight (?pat tbl i))"
    have "j \<in> set (?found tbl m path)" using j by simp
    then obtain i where "i \<in> set (?found tbl m path)" "\<forall>k \<in> set (?found tbl m path). w i \<le> w k"
      by (rule least_member)
    then have "find (\<lambda>i. list_all (\<lambda>j. w i \<le> w j) (?found tbl m path)) (?found tbl m path) \<noteq> None"
      unfolding find_None_iff list_all_iff by blast
    then show ?thesis by (auto simp: demo_route_def Let_def w_def)
  qed
  show ?thesis
    unfolding routes_like_chi_def assms
  proof (rule conjI; intro allI impI)
    fix tbl :: "(gostring \<times> gostring) list" and m path i vs
    assume "demo_route tbl m path = Some (i, vs)"
    from sound [OF this] show "i < length tbl \<and> fst (tbl ! i) = m \<and>
        match_segments (?pat tbl i) (segments path) = Some vs \<and>
        (\<forall>j < length tbl. fst (tbl ! j) = m \<and> match_segments (?pat tbl j) (segments path) \<noteq> None \<longrightarrow>
           \<not> more_static (?pat tbl j) (?pat tbl i))" .
  next
    fix tbl :: "(gostring \<times> gostring) list" and m path j vs
    assume "j < length tbl \<and> fst (tbl ! j) = m \<and> match_segments (?pat tbl j) (segments path) = Some vs \<and>
        (\<forall>v \<in> snd ` set vs. v \<noteq> '''')"
    then show "demo_route tbl m path \<noteq> None" by (elim conjE) (rule complete)
  qed
qed

definition demo_ge :: glue_env where
  "demo_ge = \<lparr>ge_route = demo_route, ge_bind_path = Inr, ge_bind_header = (\<lambda>b. Inr),
     ge_bind_bool = (\<lambda>n q. Inr None), ge_bind_query = (\<lambda>n q. Inr ''q''),
     ge_create_member = (\<lambda>b. Inr \<lparr>ocm_display_name = b, ocm_email = b @ ''@x'', ocm_group_alias_email = Unspecified,
       ocm_vehicle_profile = None\<rparr>),
     ge_update_member = (\<lambda>b. Inl ''no''), ge_trip_draft = Inr, ge_update_trip = (\<lambda>b. Inl ''no''),
     ge_visibility = (\<lambda>b. Inr Public), ge_organizer = Inr, ge_rsvp = (\<lambda>b. Inr Yes)\<rparr>"

definition demo_raw :: "gostring \<Rightarrow> gostring list \<Rightarrow> gostring \<Rightarrow> raw_request" where
  "demo_raw m ss body = \<lparr>hr_path = path_of ss, hr_authorization = ''Bearer '' @ demo_token, hr_debug_subject = '''',
     hr_request_id = ''r1'', rq_method = m, rq_raw_path = '''', rq_query = [], rq_idempotency_key = Some [''k''],
     rq_body = body\<rparr>"

theorem documented_requests_served_witness:
  "snd (dispatch demo_env demo_js demo_ge (demo_cx ''sa'') (demo_rd 2 ''t9'') (demo_raw ''PUT'' [''trips'', ''t9'', ''rsvp''] '''') demo_server) =
   snd (handle demo_env demo_js (demo_cx ''sa'') (demo_rd 2 ''t9'') (ReqSetMyRSVP ''k'' ''t9'' (Some Yes)) demo_server)"
proof -
  have "sent_as demo_ge (demo_raw ''PUT'' [''trips'', ''t9'', ''rsvp''] '''') (ReqSetMyRSVP ''k'' ''t9'' (Some Yes))"
    by (simp add: demo_ge_def demo_raw_def sends_def names_def keyed_def carries_def route_path_def)
  from documented_requests_served [OF demo_route_chi this] show ?thesis by (simp add: demo_ge_def)
qed

theorem raw_requests_safe_witness:
  "\<exists>resp v' sv'. ServeHTTP demo_env demo_js demo_ge demo_je (Fetched 200 (Some ''K'')) demo_time demo_time demo_time (demo_rd 2 ''b'')
     (demo_raw ''POST'' [''members''] ''Kim'') (new_verifier demo_jwt_config) demo_server = (resp, v', sv') \<and>
     sv_world sv' \<noteq> sv_world demo_server \<and> (\<exists>st p. resp = Json st p)"
proof -
  obtain resp v' sv' where s: "ServeHTTP demo_env demo_js demo_ge demo_je (Fetched 200 (Some ''K'')) demo_time demo_time demo_time
      (demo_rd 2 ''b'') (demo_raw ''POST'' [''members''] ''Kim'') (new_verifier demo_jwt_config) demo_server = (resp, v', sv')"
    by (metis prod.exhaust)
  have "length (mb_by_id (w_members (sv_world (snd (snd (ServeHTTP demo_env demo_js demo_ge demo_je (Fetched 200 (Some ''K''))
      demo_time demo_time demo_time (demo_rd 2 ''b'') (demo_raw ''POST'' [''members''] ''Kim'') (new_verifier demo_jwt_config)
      demo_server)))))) = 2 \<and> length (mb_by_id (w_members (sv_world demo_server))) = 1"
    by code_simp
  then have ne: "sv_world sv' \<noteq> sv_world demo_server" by (auto simp: s)
  have "decodes_typed demo_js" by (simp add: decodes_typed_def demo_js_def demo_created_def)
  moreover have "demo_time \<noteq> 0" by code_simp
  note raw_requests_safe [OF verifier_reachable.fresh this demo_server_reachable _ s]
  ultimately show ?thesis using ne s demo_digests(2) by blast
qed

end
