(* ===== verification/JwtRefresh.thy ===== *)
theory JwtRefresh
  imports JwtInv
begin

text \<open>
  \<open>maybeRefresh\<close> of internal/platform/auth/jwtverifier/verifier.go under concurrency. The mutex is
  held for single sections of the function, and the goroutine that fetches does so without it, so
  calls interleave at the sections: a step of one goroutine is one locked section, one clock
  reading, or one communication (the response of the key server, a receive from \<open>refreshDone\<close>, the
  cancellation of the context). Channels are numbered in the order they are made; 0 is the nil
  channel. Run alone, a goroutine is \<open>maybeRefresh\<close> of theory JwtVerifier.
\<close>

datatype refresh_pc =
    Calling gostring           \<comment> \<open>before \<open>clock.Now()\<close>\<close>
  | Deciding gostring gotime   \<comment> \<open>before the first \<open>Lock\<close>\<close>
  | Waiting nat                \<comment> \<open>in the \<open>select\<close> on this channel\<close>
  | Fetching nat               \<comment> \<open>in \<open>refresh\<close>; this channel will be closed\<close>
  | Closing nat bool           \<comment> \<open>before the last \<open>Lock\<close>, with the outcome of \<open>refresh\<close>\<close>
  | Returned bool
  | Panicked                   \<comment> \<open>close of a closed channel\<close>

record refresh_state =
  rf_verifier :: verifier
  rf_refreshing :: bool
  rf_done :: nat
  rf_closed :: "nat list"
  rf_next :: nat

datatype refresh_event = Clock gotime | Lock | Wake | Cancel | Answer fetch gotime | Finish

fun refresh_step :: "jwt_env \<Rightarrow> refresh_event \<Rightarrow> refresh_state \<Rightarrow> refresh_pc \<Rightarrow> (refresh_state \<times> refresh_pc) option" where
  "refresh_step je (Clock t) s (Calling kid) = Some (s, Deciding kid t)"
| "refresh_step je Lock s (Deciding kid now) =
     Some (if \<not> should_refresh (rf_verifier s) now kid then (s, Returned True)
           else if rf_refreshing s then (s, Waiting (rf_done s))
           else (s\<lparr>rf_refreshing := True, rf_done := rf_next s, rf_next := Suc (rf_next s)\<rparr>, Fetching (rf_next s)))"
| "refresh_step je Wake s (Waiting ch) = (if List.member (rf_closed s) ch then Some (s, Returned True) else None)"
| "refresh_step je Cancel s (Waiting ch) = Some (s, Returned False)"
| "refresh_step je (Answer f t) s (Fetching ch) =
     (let (ok, v) = refresh je f t (rf_verifier s) in Some (s\<lparr>rf_verifier := v\<rparr>, Closing ch ok))"
| "refresh_step je Finish s (Closing ch ok) =
     Some (if List.member (rf_closed s) ch then (s, Panicked)
           else (s\<lparr>rf_refreshing := False, rf_closed := ch # rf_closed s\<rparr>, Returned ok))"
| "refresh_step je ev s pc = None"

type_synonym refresh_system = "refresh_state \<times> refresh_pc list"

definition sys_step :: "jwt_env \<Rightarrow> nat \<times> refresh_event \<Rightarrow> refresh_system \<Rightarrow> refresh_system option" where
  "sys_step je = (\<lambda>(i, ev) (s, ps).
     if i < length ps
     then (case refresh_step je ev s (ps ! i) of None \<Rightarrow> None | Some (s', p) \<Rightarrow> Some (s', ps[i := p]))
     else None)"

fun sys_run :: "jwt_env \<Rightarrow> (nat \<times> refresh_event) list \<Rightarrow> refresh_system \<Rightarrow> refresh_system option" where
  "sys_run je [] x = Some x"
| "sys_run je (e # es) x = (case sys_step je e x of None \<Rightarrow> None | Some y \<Rightarrow> sys_run je es y)"

text \<open>One call per key id, nobody refreshing.\<close>

definition sys_start :: "verifier \<Rightarrow> gostring list \<Rightarrow> refresh_system" where
  "sys_start v kids =
     (\<lparr>rf_verifier = v, rf_refreshing = False, rf_done = 0, rf_closed = [], rf_next = 1\<rparr>, map Calling kids)"

section \<open>The invariant\<close>

text \<open>The steps, by what they do to the shared state.\<close>

inductive refresh_trans :: "refresh_state \<Rightarrow> refresh_pc \<Rightarrow> refresh_state \<Rightarrow> refresh_pc \<Rightarrow> bool" for s where
  read: "refresh_trans s (Calling kid) s (Deciding kid t)"
| skip: "\<not> should_refresh (rf_verifier s) now kid \<Longrightarrow> refresh_trans s (Deciding kid now) s (Returned True)"
| wait: "rf_refreshing s \<Longrightarrow> refresh_trans s (Deciding kid now) s (Waiting (rf_done s))"
| lead: "\<not> rf_refreshing s \<Longrightarrow> refresh_trans s (Deciding kid now)
    (s\<lparr>rf_refreshing := True, rf_done := rf_next s, rf_next := Suc (rf_next s)\<rparr>) (Fetching (rf_next s))"
| leave: "refresh_trans s (Waiting ch) s (Returned ok)"
| answer: "refresh_trans s (Fetching ch) (s\<lparr>rf_verifier := v\<rparr>) (Closing ch ok)"
| panic: "ch \<in> set (rf_closed s) \<Longrightarrow> refresh_trans s (Closing ch ok) s Panicked"
| finish: "ch \<notin> set (rf_closed s) \<Longrightarrow> refresh_trans s (Closing ch ok)
    (s\<lparr>rf_refreshing := False, rf_closed := ch # rf_closed s\<rparr>) (Returned ok)"

lemma refresh_step_trans: "refresh_step je ev s p = Some (s', p') \<Longrightarrow> refresh_trans s p s' p'"
  by (cases ev; cases p)
    (auto intro: refresh_trans.intros split: if_splits prod.splits)

text \<open>What holds of a goroutine other than the one that refreshes.\<close>

fun bystander :: "refresh_state \<Rightarrow> refresh_pc \<Rightarrow> bool" where
  "bystander s (Waiting ch) \<longleftrightarrow> ch \<in> set (rf_closed s) \<or> rf_refreshing s \<and> ch = rf_done s"
| "bystander s (Fetching ch) \<longleftrightarrow> False"
| "bystander s (Closing ch ok) \<longleftrightarrow> False"
| "bystander s Panicked \<longleftrightarrow> False"
| "bystander s _ \<longleftrightarrow> True"

text \<open>The channel a goroutine has to close.\<close>

fun holds :: "refresh_pc \<Rightarrow> nat option" where
  "holds (Fetching ch) = Some ch"
| "holds (Closing ch ok) = Some ch"
| "holds _ = None"

definition refresh_inv :: "nat option \<Rightarrow> refresh_system \<Rightarrow> bool" where
  "refresh_inv leader = (\<lambda>(s, ps).
     (rf_refreshing s \<longleftrightarrow> leader \<noteq> None) \<and> list_all (\<lambda>ch. ch < rf_next s) (rf_closed s) \<and>
     (\<forall>l. leader = Some l \<longrightarrow> l < length ps \<and> holds (ps ! l) = Some (rf_done s) \<and>
        rf_done s < rf_next s \<and> rf_done s \<notin> set (rf_closed s)) \<and>
     (\<forall>j < length ps. leader \<noteq> Some j \<longrightarrow> bystander s (ps ! j)))"

lemma bystander_holds: "bystander s p \<Longrightarrow> holds p = None"
  by (cases p) simp_all

lemma bystander_mono:
  "bystander s p \<Longrightarrow> set (rf_closed s) \<subseteq> set (rf_closed s') \<Longrightarrow>
   (rf_refreshing s \<Longrightarrow> rf_refreshing s' \<and> rf_done s' = rf_done s \<or> rf_done s \<in> set (rf_closed s')) \<Longrightarrow> bystander s' p"
  by (cases p) auto

lemma bystander_verifier [simp]: "bystander (s\<lparr>rf_verifier := v\<rparr>) p = bystander s p"
  by (cases p) simp_all

lemma in_flight_leader: "refresh_inv leader (s, ps) \<Longrightarrow> i < length ps \<Longrightarrow> holds (ps ! i) \<noteq> None \<Longrightarrow> leader = Some i"
  using bystander_holds [of s "ps ! i"] by (auto simp: refresh_inv_def)

lemma refresh_inv_start: "refresh_inv None (sys_start v kids)"
  by (simp add: refresh_inv_def sys_start_def)

lemma refresh_inv_trans:
  assumes "refresh_inv leader (s, ps)" and "i < length ps" and "refresh_trans s (ps ! i) s' p"
  shows "\<exists>leader'. refresh_inv leader' (s', ps[i := p])"
  using assms(3)
proof cases
  case (read kid t)
  then have "refresh_inv leader (s', ps[i := p])"
    using assms(1,2) by (auto simp: refresh_inv_def nth_list_update)
  then show ?thesis ..
next
  case (skip now kid)
  then have "refresh_inv leader (s', ps[i := p])"
    using assms(1,2) by (auto simp: refresh_inv_def nth_list_update)
  then show ?thesis ..
next
  case (wait now kid)
  then have "refresh_inv leader (s', ps[i := p])"
    using assms(1,2) by (auto simp: refresh_inv_def nth_list_update)
  then show ?thesis ..
next
  case (lead now kid)
  then have "refresh_inv (Some i) (s', ps[i := p])"
    using assms(1,2) by (auto simp: refresh_inv_def nth_list_update list_all_iff elim!: bystander_mono intro: less_SucI)
  then show ?thesis ..
next
  case (leave ch ok)
  then have "refresh_inv leader (s', ps[i := p])"
    using assms(1,2) by (auto simp: refresh_inv_def nth_list_update)
  then show ?thesis ..
next
  case (answer ch v ok)
  then have "leader = Some i" using in_flight_leader [OF assms(1,2)] by simp
  with answer have "refresh_inv leader (s', ps[i := p])"
    using assms(1,2) by (auto simp: refresh_inv_def nth_list_update)
  then show ?thesis ..
next
  case (panic ch ok)
  then show ?thesis using assms(1,2) by (auto simp: refresh_inv_def)
next
  case (finish ch ok)
  then have "leader = Some i" using in_flight_leader [OF assms(1,2)] by simp
  with finish have "refresh_inv None (s', ps[i := p])"
    using assms(1,2) by (auto simp: refresh_inv_def nth_list_update list_all_iff elim!: bystander_mono)
  then show ?thesis ..
qed

lemma sys_step_cases:
  assumes "sys_step je e (s, ps) = Some (s', ps')"
  obtains p where "fst e < length ps" "refresh_step je (snd e) s (ps ! fst e) = Some (s', p)" "ps' = ps[fst e := p]"
  using assms by (auto simp: sys_step_def split: prod.splits if_splits option.splits)

lemma sys_run_step:
  "sys_run je (e # es) x = Some y \<Longrightarrow> (\<And>z. sys_step je e x = Some z \<Longrightarrow> sys_run je es z = Some y \<Longrightarrow> P) \<Longrightarrow> P"
  by (auto split: option.splits)

lemma sys_run_append:
  "sys_run je (es @ fs) x = (case sys_run je es x of None \<Rightarrow> None | Some y \<Rightarrow> sys_run je fs y)"
  by (induction es arbitrary: x) (auto split: option.splits)

lemma refresh_inv_run: "refresh_inv leader x \<Longrightarrow> sys_run je es x = Some y \<Longrightarrow> \<exists>leader'. refresh_inv leader' y"
proof (induction es arbitrary: x leader)
  case (Cons e es)
  from Cons.prems(2) obtain z where z: "sys_step je e x = Some z" and rest: "sys_run je es z = Some y"
    by (rule sys_run_step)
  obtain s ps s' ps' where x: "x = (s, ps)" and zz: "z = (s', ps')" by fastforce
  from z [unfolded x zz] obtain p where p: "fst e < length ps" "refresh_step je (snd e) s (ps ! fst e) = Some (s', p)"
    "ps' = ps[fst e := p]" by (rule sys_step_cases)
  have "\<exists>leader'. refresh_inv leader' z"
    using refresh_inv_trans [OF Cons.prems(1) [unfolded x] p(1) refresh_step_trans [OF p(2)]] by (simp add: zz p(3))
  then show ?case using Cons.IH rest by blast
qed auto

section \<open>Progress\<close>

text \<open>The steps a goroutine can still make.\<close>

fun rank :: "refresh_pc \<Rightarrow> nat" where
  "rank (Calling kid) = 4"
| "rank (Deciding kid t) = 3"
| "rank (Fetching ch) = 2"
| "rank (Closing ch ok) = 1"
| "rank (Waiting ch) = 1"
| "rank _ = 0"

fun returned :: "refresh_pc \<Rightarrow> bool" where
  "returned (Returned ok) = True"
| "returned _ = False"

lemma rank_trans: "refresh_trans s p s' p' \<Longrightarrow> rank p' < rank p"
  by (induction rule: refresh_trans.induct) simp_all

lemma sum_ranks_update:
  "i < length ps \<Longrightarrow> rank p < rank (ps ! i) \<Longrightarrow> sum_list (map rank (ps[i := p])) < sum_list (map rank ps)"
proof (induction ps arbitrary: i)
  case (Cons q ps)
  then show ?case by (cases i) auto
qed simp

lemma rank_step: "sys_step je e (s, ps) = Some (s', ps') \<Longrightarrow> sum_list (map rank ps') < sum_list (map rank ps)"
  by (erule sys_step_cases) (use sum_ranks_update rank_trans [OF refresh_step_trans] in blast)

lemma rank_run: "sys_run je es x = Some y \<Longrightarrow> length es + sum_list (map rank (snd y)) \<le> sum_list (map rank (snd x))"
proof (induction es arbitrary: x)
  case (Cons e es)
  from Cons.prems obtain z where z: "sys_step je e x = Some z" and rest: "sys_run je es z = Some y"
    by (rule sys_run_step)
  have "sum_list (map rank (snd z)) < sum_list (map rank (snd x))"
    using rank_step [of je e "fst x" "snd x" "fst z" "snd z"] z by simp
  then show ?case using Cons.IH [OF rest] by simp
qed simp

text \<open>The events of a scheduler that never cancels a context, with one clock and one server answer.\<close>

definition regular :: "fetch \<Rightarrow> gotime \<Rightarrow> nat \<times> refresh_event \<Rightarrow> bool" where
  "regular f t e \<longleftrightarrow> snd e \<in> {Clock t, Lock, Wake, Answer f t, Finish}"

lemma refresh_progress:
  assumes "refresh_inv leader (s, ps)" and "\<not> list_all returned ps"
  shows "\<exists>e y. regular f t e \<and> sys_step je e (s, ps) = Some y"
proof (cases leader)
  case (Some l)
  then have l: "l < length ps" "holds (ps ! l) = Some (rf_done s)" using assms(1) by (simp_all add: refresh_inv_def)
  then consider "ps ! l = Fetching (rf_done s)" | ok where "ps ! l = Closing (rf_done s) ok"
    by (cases "ps ! l") simp_all
  then show ?thesis
  proof cases
    case 1
    then have "\<exists>y. sys_step je (l, Answer f t) (s, ps) = Some y"
      using l(1) by (simp add: sys_step_def split: prod.split)
    then show ?thesis unfolding regular_def by (metis insertI1 insertI2 snd_conv)
  next
    case 2
    then have "\<exists>y. sys_step je (l, Finish) (s, ps) = Some y" using l(1) by (simp add: sys_step_def)
    then show ?thesis unfolding regular_def by (metis insertI1 insertI2 snd_conv)
  qed
next
  case None
  obtain i where i: "i < length ps" "\<not> returned (ps ! i)" using assms(2) by (auto simp: list_all_length)
  have b: "bystander s (ps ! i)" and r: "\<not> rf_refreshing s" using assms(1) i(1) None by (simp_all add: refresh_inv_def)
  have "\<exists>ev. ev \<in> {Clock t, Lock, Wake} \<and> (\<exists>y. sys_step je (i, ev) (s, ps) = Some y)"
    using i b r by (cases "ps ! i") (auto simp: sys_step_def)
  then show ?thesis unfolding regular_def by force
qed

lemma refresh_completes:
  assumes "refresh_inv leader x"
  shows "\<exists>es y. sys_run je es x = Some y \<and> list_all returned (snd y) \<and> list_all (regular f t) es"
  using assms
proof (induction "sum_list (map rank (snd x))" arbitrary: x leader rule: less_induct)
  case less
  show ?case
  proof (cases "list_all returned (snd x)")
    case True
    then show ?thesis by (intro exI [of _ "[]"]) simp
  next
    case False
    then obtain e y where e: "regular f t e" "sys_step je e x = Some y"
      using refresh_progress [of leader "fst x" "snd x"] less.prems by fastforce
    then have "sys_run je [e] x = Some y" by simp
    then obtain leader' where "refresh_inv leader' y" using refresh_inv_run [OF less.prems] by blast
    moreover have "sum_list (map rank (snd y)) < sum_list (map rank (snd x))"
      using rank_step [of je e "fst x" "snd x" "fst y" "snd y"] e(2) by simp
    ultimately obtain es z where "sys_run je es y = Some z" "list_all returned (snd z)" "list_all (regular f t) es"
      using less.hyps by blast
    then show ?thesis using e by (intro exI [of _ "e # es"] exI [of _ z]) simp
  qed
qed

section \<open>Properties\<close>

text \<open>C33: Refreshes are never concurrent: in every interleaving of any number of calls, at most one
  goroutine is between setting \<open>refreshing\<close> and clearing it, no channel is closed twice, and a
  goroutine that waits does so on a channel that is already closed or that the refreshing goroutine
  is going to close.\<close>

theorem refresh_single_flight:
  assumes "sys_run je es (sys_start v kids) = Some (s, ps)"
  shows "\<forall>i < length ps. ps ! i \<noteq> Panicked \<and>
    (\<forall>j < length ps. holds (ps ! i) \<noteq> None \<and> holds (ps ! j) \<noteq> None \<longrightarrow> i = j) \<and>
    (\<forall>ch. ps ! i = Waiting ch \<longrightarrow> ch \<in> set (rf_closed s) \<or> (\<exists>j < length ps. holds (ps ! j) = Some ch))"
proof -
  obtain leader where inv: "refresh_inv leader (s, ps)"
    using refresh_inv_run [OF refresh_inv_start assms] ..
  have b: "bystander s (ps ! i) \<or> leader = Some i" if "i < length ps" for i
    using inv that by (auto simp: refresh_inv_def)
  show ?thesis
  proof (intro allI impI conjI)
    fix i assume i: "i < length ps"
    show "ps ! i \<noteq> Panicked" using b [OF i] inv by (auto simp: refresh_inv_def)
    show "i = j" if "j < length ps" "holds (ps ! i) \<noteq> None \<and> holds (ps ! j) \<noteq> None" for j
      using in_flight_leader [OF inv] i that by (metis option.inject)
    show "ch \<in> set (rf_closed s) \<or> (\<exists>j < length ps. holds (ps ! j) = Some ch)" if "ps ! i = Waiting ch" for ch
      using b [OF i] inv that by (auto simp: refresh_inv_def)
  qed
qed

text \<open>C34: No call of \<open>maybeRefresh\<close> hangs: every interleaving of \<open>n\<close> calls is over after at most \<open>4 n\<close>
  steps, and whatever has happened, there are steps that bring all of them to return, even if no
  context is ever cancelled and whatever the key server answers.\<close>

theorem refresh_finishes:
  assumes "sys_run je es (sys_start v kids) = Some x"
  shows "length es \<le> 4 * length kids \<and>
    (\<exists>rest y. sys_run je (es @ rest) (sys_start v kids) = Some y \<and> list_all returned (snd y) \<and>
       list_all (regular f t) rest)"
proof
  have "sum_list (map rank (map Calling kids)) = 4 * length kids" by (induction kids) simp_all
  then show "length es \<le> 4 * length kids" using rank_run [OF assms] by (simp add: sys_start_def)
  obtain leader where "refresh_inv leader x" using refresh_inv_run [OF refresh_inv_start assms] ..
  from refresh_completes [OF this] obtain rest y
    where "sys_run je rest x = Some y" "list_all returned (snd y)" "list_all (regular f t) rest" by blast
  then show "\<exists>rest y. sys_run je (es @ rest) (sys_start v kids) = Some y \<and> list_all returned (snd y) \<and>
       list_all (regular f t) rest"
    using assms by (intro exI [of _ rest] exI [of _ y]) (simp add: sys_run_append)
qed

text \<open>Run alone, a goroutine is \<open>maybeRefresh\<close>.\<close>

lemma maybeRefresh_alone:
  assumes "maybeRefresh je f now1 now2 kid v = (ok, v')"
  shows "\<exists>s. sys_run je (map (Pair 0) (if should_refresh v now1 kid then [Clock now1, Lock, Answer f now2, Finish]
      else [Clock now1, Lock])) (sys_start v [kid]) = Some (s, [Returned ok]) \<and> rf_verifier s = v'"
  using assms by (auto simp: maybeRefresh_def sys_start_def sys_step_def split: if_splits prod.splits)

text \<open>Goroutines that waited are not told how the refresh ended: of two calls with a cached key whose
  interval has passed, the one that fetches fails with the server, the one that waits goes on.\<close>

lemma waiter_ignores_failure:
  assumes "should_refresh v t kid"
  shows "\<exists>s. sys_run je [(0, Clock t), (1, Clock t), (0, Lock), (1, Lock), (0, Answer FetchFailed t), (0, Finish), (1, Wake)]
      (sys_start v [kid, kid]) = Some (s, [Returned False, Returned True]) \<and> rf_verifier s = v"
  using assms by (simp add: sys_start_def sys_step_def refresh_def)

section \<open>A concrete interleaving\<close>

definition race_verifier :: verifier where
  "race_verifier = new_verifier \<lparr>cfg_issuer = ''iss'', cfg_audience = ''aud'', cfg_jwks_url = ''url'', cfg_clock_skew = 0,
     cfg_refresh_interval = 300 * second, cfg_min_refresh_interval = 10 * second, cfg_http_timeout = 5 * second\<rparr>"

definition race_env :: jwt_env where
  "race_env = \<lparr>je_header = \<lambda>s. None, je_claims = \<lambda>s. None, je_string = \<lambda>s. None, je_strings = \<lambda>s. None,
     je_keys = \<lambda>s. None, je_rsa = \<lambda>k m s. False\<rparr>"

definition race_events :: "(nat \<times> refresh_event) list" where
  "race_events = [(0, Clock 7), (1, Clock 7), (1, Lock), (0, Lock)]"

definition race_state :: refresh_state where
  "race_state = \<lparr>rf_verifier = race_verifier, rf_refreshing = True, rf_done = 1, rf_closed = [], rf_next = 2\<rparr>"

lemma race_run: "sys_run race_env race_events (sys_start race_verifier [''k'', ''l'']) = Some (race_state, [Waiting 1, Fetching 1])"
  by code_simp

theorem refresh_single_flight_witness: "\<exists>j < 2. holds ([Waiting 1, Fetching 1] ! j) = Some 1"
proof -
  have "\<forall>ch. [Waiting 1, Fetching 1] ! 0 = Waiting ch \<longrightarrow>
      ch \<in> set (rf_closed race_state) \<or> (\<exists>j < length [Waiting 1, Fetching 1]. holds ([Waiting 1, Fetching 1] ! j) = Some ch)"
    using refresh_single_flight [OF race_run, THEN spec, of 0] by simp
  then show ?thesis by (simp add: race_state_def numeral_2_eq_2)
qed

theorem refresh_finishes_witness:
  "\<exists>rest y. sys_run race_env (race_events @ rest) (sys_start race_verifier [''k'', ''l'']) = Some y \<and>
     list_all returned (snd y) \<and> list_all (regular FetchFailed 8) rest"
  using refresh_finishes [OF race_run] by blast

end
