(* ===== verification/PgTables.thy ===== *)
theory PgTables
  imports TripRepo RsvpRepo IdemStore
begin

text \<open>
  The Postgres adapters (internal/adapters/postgres) run SQL statements, which are part of the
  source, against the schema of the migrations (src/migrations), which is too: tables with
  unique, not-null, check and foreign-key constraints and triggers. This theory holds the
  tables as lists of records, one field per column the adapters use, and the shape of a
  statement: a function of the database that returns the error the server reports or the
  result. The adapters' own theories translate the statements and the Go code around them.

  Parameters (\<open>pg_env\<close>): the package google/uuid, the instant a \<open>timestamptz\<close> column keeps of a
  Go time (microseconds), the server's \<open>lower()\<close>, its collation (as a sort key), the case
  folding of \<open>citext\<close>, the text of a server error and which of several violated unique
  constraints the server reports. \<open>pg_env_ok\<close> states what the adapters rely on of them.

  A statement reads and writes one state: the adapters' writes are single statements or
  transactions (\<open>pgx.BeginFunc\<close>), which commit as a whole or leave the database as it was.
  Text is valid UTF-8 without NUL, and connection failures are not modelled.
\<close>

section \<open>Parameters\<close>

type_synonym uuid = "128 word"

record pg_error =
  pge_code :: gostring
  pge_constraint :: gostring

record pg_env =
  pe_uuid_parse :: "gostring \<Rightarrow> gostring + uuid"       \<comment> \<open>\<open>uuid.Parse\<close>: error text or UUID\<close>
  pe_uuid_string :: "uuid \<Rightarrow> gostring"                \<comment> \<open>\<open>UUID.String\<close>\<close>
  pe_timestamp :: "gotime \<Rightarrow> gotime"                  \<comment> \<open>what a \<open>timestamptz\<close> keeps of an instant\<close>
  pe_lower :: "gostring \<Rightarrow> gostring"                  \<comment> \<open>SQL \<open>lower\<close>\<close>
  pe_collate :: "gostring \<Rightarrow> gostring"                \<comment> \<open>sort key of the database's collation\<close>
  pe_citext :: "gostring \<Rightarrow> gostring"                 \<comment> \<open>what \<open>citext\<close> compares\<close>
  pe_error_text :: "pg_error \<Rightarrow> gostring"             \<comment> \<open>\<open>PgError.Error()\<close>\<close>
  pe_reported :: "gostring list \<Rightarrow> gostring"          \<comment> \<open>the violated constraint that is reported\<close>

definition pg_env_ok :: "pg_env \<Rightarrow> bool" where
  "pg_env_ok pe \<longleftrightarrow>
     (\<forall>u. pe_uuid_parse pe (pe_uuid_string pe u) = Inr u) \<and>
     (\<forall>u. pe_uuid_string pe u \<noteq> '''') \<and>
     (\<forall>u v. pe_uuid_string pe u < pe_uuid_string pe v \<longleftrightarrow> u < v) \<and>
     (\<forall>t. pe_timestamp pe (pe_timestamp pe t) = pe_timestamp pe t) \<and>
     (\<forall>cs. cs \<noteq> [] \<longrightarrow> pe_reported pe cs \<in> set cs)"

lemma pg_env_okD:
  assumes "pg_env_ok pe"
  shows "pe_uuid_parse pe (pe_uuid_string pe u) = Inr u"
    and "pe_uuid_string pe u \<noteq> ''''"
    and "pe_uuid_string pe u < pe_uuid_string pe v \<longleftrightarrow> u < v"
    and "pe_timestamp pe (pe_timestamp pe t) = pe_timestamp pe t"
    and "cs \<noteq> [] \<Longrightarrow> pe_reported pe cs \<in> set cs"
  using assms by (simp_all add: pg_env_ok_def)

lemma uuid_string_eq_iff:
  "pg_env_ok pe \<Longrightarrow> pe_uuid_string pe u = pe_uuid_string pe v \<longleftrightarrow> u = v"
  by (metis Inr_inject pg_env_okD(1))

text \<open>The string form of an ID as the database gives it back.\<close>

definition canonical_id :: "pg_env \<Rightarrow> gostring \<Rightarrow> gostring" where
  "canonical_id pe s = (case pe_uuid_parse pe s of Inr u \<Rightarrow> pe_uuid_string pe u | Inl _ \<Rightarrow> s)"

section \<open>Server errors\<close>

definition UniqueViolationCode :: gostring where "UniqueViolationCode = ''23505''"
definition ForeignKeyViolationCode :: gostring where "ForeignKeyViolationCode = ''23503''"
definition CheckViolationCode :: gostring where "CheckViolationCode = ''23514''"
definition NotNullViolationCode :: gostring where "NotNullViolationCode = ''23502''"
definition InvalidTextCode :: gostring where "InvalidTextCode = ''22P02''"
definition NumericRangeCode :: gostring where "NumericRangeCode = ''22003''"

definition raise :: "gostring \<Rightarrow> gostring \<Rightarrow> pg_error + 'a" where
  "raise code constraint = Inl \<lparr>pge_code = code, pge_constraint = constraint\<rparr>"

text \<open>An error of the server as the adapters return it when they do not translate it.\<close>

definition server_error :: "pg_env \<Rightarrow> pg_error \<Rightarrow> goerror" where
  "server_error pe e = OtherError (pe_error_text pe e)"

definition with_pool :: "'d option \<Rightarrow> ('d \<Rightarrow> goerror + 'a) \<Rightarrow> goerror + 'a" where
  "with_pool pool f = (case pool of None \<Rightarrow> Inl (OtherError ''nil postgres pool'') | Some db \<Rightarrow> f db)"

lemma with_pool_simps [simp]:
  "with_pool None f = Inl (OtherError ''nil postgres pool'')" "with_pool (Some db) f = f db"
  by (simp_all add: with_pool_def)

text \<open>\<open>if err != nil { return handler(err) }\<close> after a statement.\<close>

definition on_error :: "('e \<Rightarrow> 'f) \<Rightarrow> 'e + 'a \<Rightarrow> 'f + 'a" where
  "on_error h r = (case r of Inl e \<Rightarrow> Inl (h e) | Inr x \<Rightarrow> Inr x)"

lemma on_error_simps [simp]: "on_error h (Inl e) = Inl (h e)" "on_error h (Inr x) = Inr x"
  by (simp_all add: on_error_def)

lemma on_error_Inr: "on_error h r = Inr x \<longleftrightarrow> r = Inr x"
  by (cases r) simp_all

lemma on_error_Inl: "on_error h r = Inl f \<longleftrightarrow> (\<exists>e. r = Inl e \<and> f = h e)"
  by (cases r) auto

section \<open>Tables\<close>

record pg_member =
  pm_id :: nat
  pm_external_id :: uuid
  pm_subject_iss :: gostring
  pm_subject_sub :: SubjectID
  pm_display_name :: gostring
  pm_email :: gostring
  pm_group_alias_email :: "gostring option"
  pm_is_active :: bool
  pm_created_at :: gotime
  pm_updated_at :: gotime

record pg_profile =
  pv_member_id :: nat
  pv_make :: "gostring option"
  pv_model :: "gostring option"
  pv_tire_size :: "gostring option"
  pv_lift_lockers :: "gostring option"
  pv_fuel_range :: "gostring option"
  pv_recovery_gear :: "gostring option"
  pv_ham_radio_call_sign :: "gostring option"
  pv_notes :: "gostring option"
  pv_updated_at :: gotime

text \<open>A \<open>date\<close> is the midnight it starts at.\<close>

record pg_trip =
  pt_id :: nat
  pt_external_id :: uuid
  pt_name :: "gostring option"
  pt_description :: "gostring option"
  pt_start_date :: "gotime option"
  pt_end_date :: "gotime option"
  pt_status :: trip_status
  pt_draft_visibility :: "draft_visibility option"
  pt_capacity_rigs :: "int option"
  pt_difficulty_text :: "gostring option"
  pt_meeting_label :: "gostring option"
  pt_meeting_address :: "gostring option"
  pt_meeting_latitude :: "float64 option"
  pt_meeting_longitude :: "float64 option"
  pt_comms_requirements_text :: "gostring option"
  pt_recommended_requirements_text :: "gostring option"
  pt_published_at :: "gotime option"
  pt_canceled_at :: "gotime option"
  pt_created_by :: nat
  pt_created_at :: gotime
  pt_updated_at :: gotime

record pg_organizer =
  po_trip_id :: nat
  po_member_id :: nat

record pg_artifact =
  pa_external_id :: uuid
  pa_trip_id :: nat
  pa_type :: artifact_type
  pa_title :: gostring
  pa_url :: gostring
  pa_sort_order :: int

record pg_rsvp =
  pr_trip_id :: nat
  pr_member_id :: nat
  pr_response :: rsvp_response
  pr_updated_at :: gotime

text \<open>The sequences behind the \<open>bigserial\<close> columns are the two counters.\<close>

record pg_db =
  db_member_seq :: nat
  db_trip_seq :: nat
  db_members :: "pg_member list"
  db_profiles :: "pg_profile list"
  db_trips :: "pg_trip list"
  db_organizers :: "pg_organizer list"
  db_artifacts :: "pg_artifact list"
  db_rsvps :: "pg_rsvp list"

definition pg_empty :: pg_db where
  "pg_empty = \<lparr>db_member_seq = 1, db_trip_seq = 1, db_members = [], db_profiles = [],
     db_trips = [], db_organizers = [], db_artifacts = [], db_rsvps = []\<rparr>"

section \<open>Queries\<close>

text \<open>\<open>(SELECT id FROM members WHERE external_id = $1)\<close>: \<open>None\<close> is NULL.\<close>

definition member_pk :: "pg_db \<Rightarrow> uuid \<Rightarrow> nat option" where
  "member_pk db u = map_option pm_id (find (\<lambda>r. pm_external_id r = u) (db_members db))"

definition trip_pk :: "pg_db \<Rightarrow> uuid \<Rightarrow> nat option" where
  "trip_pk db u = map_option pt_id (find (\<lambda>r. pt_external_id r = u) (db_trips db))"

text \<open>\<open>ORDER BY\<close> an ascending key.\<close>

definition order_by :: "('a \<Rightarrow> 'k::linorder) \<Rightarrow> 'a list \<Rightarrow> 'a list" where
  "order_by key rows = sort_key key rows"

text \<open>The first row of \<open>QueryRow\<close>; \<open>None\<close> is \<open>pgx.ErrNoRows\<close>.\<close>

fun query_row :: "'a list \<Rightarrow> 'a option" where
  "query_row [] = None"
| "query_row (r # rs) = Some r"

lemma query_row_filter: "query_row (filter P rows) = find P rows"
  by (induction rows) simp_all

text \<open>The value of a unique column finds the row that holds it, at most one.\<close>

lemma find_unique:
  assumes "distinct (map key rows)" and "r \<in> set rows" and "key r = k"
  shows "find (\<lambda>r. key r = k) rows = Some r"
  using assms by (induction rows) (auto simp: image_iff)

lemma find_unique_iff:
  assumes "distinct (map key rows)"
  shows "find (\<lambda>r. key r = k) rows = Some r \<longleftrightarrow> r \<in> set rows \<and> key r = k"
  using find_unique [OF assms] by (auto simp: find_Some_iff)

lemma find_None_key: "find (\<lambda>r. key r = k) rows = None \<longleftrightarrow> k \<notin> key ` set rows"
  by (auto simp: find_None_iff)

text \<open>\<open>UPDATE ... SET ... WHERE\<close>: every row that matches, in place.\<close>

definition update_rows :: "('a \<Rightarrow> bool) \<Rightarrow> ('a \<Rightarrow> 'a) \<Rightarrow> 'a list \<Rightarrow> 'a list" where
  "update_rows P f rows = map (\<lambda>r. if P r then f r else r) rows"

lemma update_rows_keeps_key:
  "(\<And>r. P r \<Longrightarrow> key (f r) = key r) \<Longrightarrow> map key (update_rows P f rows) = map key rows"
  by (auto simp: update_rows_def)

lemma set_update_rows: "set (update_rows P f rows) = (\<lambda>r. if P r then f r else r) ` set rows"
  by (simp add: update_rows_def)

text \<open>
  \<open>INSERT ... ON CONFLICT (key) DO UPDATE SET ...\<close>: \<open>merge\<close> takes the excluded row and the
  existing one.
\<close>

definition upsert_row :: "('a \<Rightarrow> 'k) \<Rightarrow> ('a \<Rightarrow> 'a \<Rightarrow> 'a) \<Rightarrow> 'a \<Rightarrow> 'a list \<Rightarrow> 'a list" where
  "upsert_row key merge r rows =
     (if \<exists>x \<in> set rows. key x = key r then update_rows (\<lambda>x. key x = key r) (merge r) rows
      else rows @ [r])"

lemma upsert_row_keys:
  assumes "\<And>x. key x = key r \<Longrightarrow> key (merge r x) = key r"
  shows "map key (upsert_row key merge r rows) =
         (if key r \<in> key ` set rows then map key rows else map key rows @ [key r])"
proof -
  have "map key (update_rows (\<lambda>x. key x = key r) (merge r) rows) = map key rows"
    using assms by (intro update_rows_keeps_key) simp
  then show ?thesis by (auto simp: upsert_row_def intro: rev_image_eqI)
qed

lemma upsert_row_distinct:
  assumes "\<And>x. key x = key r \<Longrightarrow> key (merge r x) = key r" and "distinct (map key rows)"
  shows "distinct (map key (upsert_row key merge r rows))"
  using assms(2) by (auto simp: upsert_row_keys [of key r merge, OF assms(1)])

lemma upsert_row_set:
  assumes "distinct (map key rows)"
  shows "set (upsert_row key merge r rows) =
    {x \<in> set rows. key x \<noteq> key r} \<union>
    {case find (\<lambda>x. key x = key r) rows of None \<Rightarrow> r | Some x \<Rightarrow> merge r x}"
proof (cases "find (\<lambda>x. key x = key r) rows")
  case None
  then have "\<forall>x \<in> set rows. key x \<noteq> key r" by (simp add: find_None_iff)
  then show ?thesis unfolding None by (auto simp: upsert_row_def)
next
  case (Some x)
  then have x: "x \<in> set rows" "key x = key r" using find_unique_iff [OF assms] by (auto simp: find_Some_iff)
  have "y = x" if "y \<in> set rows" "key y = key r" for y
    using find_unique [OF assms that] Some by simp
  then have only: "y \<in> set rows \<Longrightarrow> key y = key r \<longleftrightarrow> y = x" for y using x by blast
  have "upsert_row key merge r rows = update_rows (\<lambda>x. key x = key r) (merge r) rows"
    using x by (auto simp: upsert_row_def)
  also have "set \<dots> = (\<lambda>y. if y = x then merge r y else y) ` set rows"
    unfolding set_update_rows by (intro image_cong) (simp_all add: only)
  also have "\<dots> = {y \<in> set rows. y \<noteq> x} \<union> {merge r x}" using x(1) by auto
  also have "{y \<in> set rows. y \<noteq> x} = {y \<in> set rows. key y \<noteq> key r}" using only by blast
  finally show ?thesis by (simp add: Some)
qed

lemma filter_unique:
  assumes "distinct (map key rows)"
  shows "filter (\<lambda>r. key r = k) rows = (case find (\<lambda>r. key r = k) rows of None \<Rightarrow> [] | Some r \<Rightarrow> [r])"
proof (cases "find (\<lambda>r. key r = k) rows")
  case None
  then have "\<forall>r \<in> set rows. key r \<noteq> k" by (simp add: find_None_iff)
  then show ?thesis unfolding None by (simp add: filter_empty_conv)
next
  case (Some x)
  then have x: "x \<in> set rows" "key x = k" by (auto simp: find_Some_iff)
  have "y = x" if "y \<in> set rows" "key y = k" for y
    using find_unique [OF assms that] Some by simp
  with x have "filter (\<lambda>r. key r = k) rows = filter (\<lambda>r. r = x) rows"
    by (intro filter_cong) blast+
  also have "\<dots> = [x]"
    using x(1) assms by (induction rows) (auto simp: filter_empty_conv)
  finally show ?thesis by (simp add: Some)
qed

lemma find_append: "find P (xs @ ys) = (case find P xs of None \<Rightarrow> find P ys | Some x \<Rightarrow> Some x)"
  by (induction xs) simp_all

lemma find_update_rows:
  assumes "\<And>r. key (f r) = key r"
  shows "find (\<lambda>r. key r = k) (update_rows P f rows) =
         map_option (\<lambda>r. if P r then f r else r) (find (\<lambda>r. key r = k) rows)"
  using assms by (induction rows) (auto simp: update_rows_def)

lemma find_upsert_row:
  assumes "\<And>x. key x = key r \<Longrightarrow> key (merge r x) = key r"
  shows "find (\<lambda>x. key x = k) (upsert_row key merge r rows) =
    (if k = key r
     then Some (case find (\<lambda>x. key x = key r) rows of None \<Rightarrow> r | Some x \<Rightarrow> merge r x)
     else find (\<lambda>x. key x = k) rows)"
proof (cases "\<exists>x \<in> set rows. key x = key r")
  case True
  have other: "find (\<lambda>x. key x = k) (update_rows (\<lambda>x. key x = key r) (merge r) rows) =
      find (\<lambda>x. key x = k) rows" if "k \<noteq> key r"
    using that by (induction rows) (simp_all add: update_rows_def assms)
  have same: "find (\<lambda>x. key x = key r) (update_rows (\<lambda>x. key x = key r) (merge r) rows) =
      map_option (merge r) (find (\<lambda>x. key x = key r) rows)"
    by (induction rows) (simp_all add: update_rows_def assms)
  obtain x where "find (\<lambda>x. key x = key r) rows = Some x"
    using True by (cases "find (\<lambda>x. key x = key r) rows") (auto simp: find_None_iff)
  with True same other show ?thesis by (simp add: upsert_row_def)
next
  case False
  then have "find (\<lambda>x. key x = key r) rows = None" by (simp add: find_None_iff)
  with False show ?thesis by (auto simp: upsert_row_def find_append split: option.split)
qed

lemma alist_update_map:
  "distinct (map key rows) \<Longrightarrow> k \<in> key ` set rows \<Longrightarrow>
   AList.update k v (map (\<lambda>r. (key r, g r)) rows) =
   map (\<lambda>r. (key r, if key r = k then v else g r)) rows"
proof (induction rows)
  case Nil
  then show ?case by simp
next
  case (Cons r rows)
  show ?case
  proof (cases "key r = k")
    case True
    then have "key x \<noteq> k" if "x \<in> set rows" for x
      using Cons.prems(1) that by (auto simp: image_iff)
    with True show ?thesis by simp
  next
    case False
    with Cons show ?thesis by auto
  qed
qed

lemma insort_key_map:
  assumes "\<And>y. y \<in> set ys \<Longrightarrow> k1 x \<le> k1 y \<longleftrightarrow> k2 (f x) \<le> k2 (f y)"
  shows "map f (insort_key k1 x ys) = insort_key k2 (f x) (map f ys)"
  using assms by (induction ys) auto

text \<open>Sorting rows and then reading them is sorting what is read, when the keys order alike.\<close>

lemma sort_key_map:
  assumes "\<And>x y. x \<in> set xs \<Longrightarrow> y \<in> set xs \<Longrightarrow> k1 x \<le> k1 y \<longleftrightarrow> k2 (f x) \<le> k2 (f y)"
  shows "map f (sort_key k1 xs) = sort_key k2 (map f xs)"
  using assms
proof (induction xs)
  case Nil
  then show ?case by simp
next
  case (Cons x xs)
  then have "map f (sort_key k1 xs) = sort_key k2 (map f xs)" by simp
  with insort_key_map [of "sort_key k1 xs" k1 x k2 f] Cons.prems show ?case by simp
qed

lemma upsert_row_alist:
  assumes "\<And>x. x \<in> set rows \<Longrightarrow> key' x = key' r \<longleftrightarrow> key x = key r" and "distinct (map key rows)"
  shows "map (\<lambda>x. (key' x, g x)) (upsert_row key (\<lambda>excluded x. excluded) r rows) =
    AList.update (key' r) (g r) (map (\<lambda>x. (key' x, g x)) rows)"
proof (cases "\<exists>x \<in> set rows. key x = key r")
  case True
  have "map (\<lambda>x. (key' x, g x)) (update_rows (\<lambda>x. key x = key r) (\<lambda>_. r) rows) =
      AList.update (key' r) (g r) (map (\<lambda>x. (key' x, g x)) rows)"
    using True assms
  proof (induction rows)
    case (Cons x rows)
    show ?case
    proof (cases "key x = key r")
      case True
      then have "key y \<noteq> key r" if "y \<in> set rows" for y using Cons.prems(3) that by (auto simp: image_iff)
      then have "update_rows (\<lambda>x. key x = key r) (\<lambda>_. r) rows = rows"
        by (auto simp: update_rows_def intro: map_idI)
      with True Cons.prems(2) [of x] show ?thesis by (simp add: update_rows_def)
    next
      case False
      with Cons show ?thesis by (auto simp: update_rows_def)
    qed
  qed simp
  with True show ?thesis by (auto simp: upsert_row_def)
next
  case False
  then have "key' r \<notin> set (keys (map (\<lambda>x. (key' x, g x)) rows))" using assms(1) by force
  with False show ?thesis by (auto simp: upsert_row_def map_of_fresh_update)
qed

text \<open>How far one upsert moves a count.\<close>

lemma upsert_row_count_le:
  assumes "distinct (map key rows)"
  shows "length (filter P (upsert_row key (\<lambda>excluded x. excluded) r rows)) \<le>
    length (filter P rows) + (if P r then 1 else 0)"
proof -
  have "length (filter P (update_rows (\<lambda>x. key x = key r) (\<lambda>_. r) rows)) \<le>
      length (filter P rows) + (if P r then 1 else 0)"
    using assms
  proof (induction rows)
    case (Cons x rows)
    show ?case
    proof (cases "key x = key r")
      case True
      then have "key y \<noteq> key r" if "y \<in> set rows" for y using Cons.prems that by (auto simp: image_iff)
      then have "update_rows (\<lambda>x. key x = key r) (\<lambda>_. r) rows = rows"
        by (auto simp: update_rows_def intro: map_idI)
      with True show ?thesis by (simp add: update_rows_def)
    next
      case False
      with Cons show ?thesis by (auto simp: update_rows_def split: if_splits)
    qed
  qed (simp add: update_rows_def)
  then show ?thesis by (auto simp: upsert_row_def split: if_splits)
qed

lemma length_filter_mono:
  "(\<And>x. x \<in> set xs \<Longrightarrow> P x \<Longrightarrow> Q x) \<Longrightarrow> length (filter P xs) \<le> length (filter Q xs)"
  by (induction xs) (auto simp: le_SucI)

lemma sort_key_image: "map f (sort_key f xs) = sort (map f xs)"
  using sort_key_map [of xs f "\<lambda>x. x" f] by simp

text \<open>A list in the order of an injective key is what sorting any arrangement of it gives.\<close>

lemma sort_key_unique:
  assumes "mset xs = mset ys" and "inj_on k (set ys)" and "sorted (map k ys)"
  shows "sort_key k xs = ys"
proof -
  have "map k (sort_key k xs) = map k ys"
    unfolding sort_key_image using assms(1,3) by (intro properties_for_sort) (metis mset_map)
  moreover have "set (sort_key k xs) = set ys" using assms(1) by (metis set_mset_mset mset_sort)
  ultimately show ?thesis using assms(2) by (metis map_inj_on sup.idem)
qed

end
