(* ===== verification/PgMemberRepo.thy ===== *)
theory PgMemberRepo
  imports PgTables
begin

text \<open>
  The Postgres member repository (internal/adapters/postgres/memberrepo/repo.go): tables
  \<open>members\<close> and \<open>member_vehicle_profiles\<close>. First the statements, then the methods, then the
  constraints as an invariant and the refinement of the in-memory repository.
\<close>

section \<open>Statements\<close>

text \<open>The unique constraints of \<open>members\<close> a new row would violate.\<close>

definition members_violations :: "pg_env \<Rightarrow> pg_member \<Rightarrow> pg_member list \<Rightarrow> gostring list" where
  "members_violations pe r rows =
     (if \<exists>x \<in> set rows. pm_external_id x = pm_external_id r
      then [''members_external_id_unique''] else []) @
     (if \<exists>x \<in> set rows. pm_subject_iss x = pm_subject_iss r \<and> pm_subject_sub x = pm_subject_sub r
      then [''members_subject_unique''] else []) @
     (if \<exists>x \<in> set rows. pe_citext pe (pm_email x) = pe_citext pe (pm_email r)
      then [''members_email_unique''] else [])"

definition insert_member :: "pg_env \<Rightarrow> pg_member \<Rightarrow> pg_db \<Rightarrow> pg_error + pg_db" where
  "insert_member pe r db =
     (let r = r\<lparr>pm_id := db_member_seq db\<rparr>; vs = members_violations pe r (db_members db) in
      if vs \<noteq> [] then raise UniqueViolationCode (pe_reported pe vs)
      else Inr (db\<lparr>db_members := db_members db @ [r], db_member_seq := Suc (db_member_seq db)\<rparr>))"

text \<open>
  \<open>UPDATE members ... WHERE external_id = $1\<close> with the trigger \<open>set_updated_at\<close>, which puts the
  transaction's time over the statement's \<open>updated_at\<close>; the only constraint a new value can
  violate is the one on the email. The second result is \<open>RowsAffected\<close>.
\<close>

definition set_updated_at :: "pg_env \<Rightarrow> gotime \<Rightarrow> pg_member \<Rightarrow> pg_member" where
  "set_updated_at pe now r = r\<lparr>pm_updated_at := pe_timestamp pe now\<rparr>"

definition update_member ::
    "pg_env \<Rightarrow> gotime \<Rightarrow> uuid \<Rightarrow> (pg_member \<Rightarrow> pg_member) \<Rightarrow> pg_db \<Rightarrow> pg_error + pg_db \<times> nat" where
  "update_member pe now u assign db =
     (let hit = (\<lambda>r. pm_external_id r = u);
          rows = update_rows hit (\<lambda>r. set_updated_at pe now (assign r)) (db_members db)
      in if \<not> distinct (map (\<lambda>r. pe_citext pe (pm_email r)) rows)
         then raise UniqueViolationCode (pe_reported pe [''members_email_unique''])
         else Inr (db\<lparr>db_members := rows\<rparr>, length (filter hit (db_members db))))"

text \<open>\<open>FROM members m LEFT JOIN member_vehicle_profiles v ON v.member_id = m.id\<close>.\<close>

definition join_profiles :: "pg_db \<Rightarrow> pg_member \<Rightarrow> (pg_member \<times> pg_profile option) list" where
  "join_profiles db m =
     (case filter (\<lambda>v. pv_member_id v = pm_id m) (db_profiles db) of
        [] \<Rightarrow> [(m, None)]
      | vs \<Rightarrow> map (\<lambda>v. (m, Some v)) vs)"

definition members_left_join :: "pg_db \<Rightarrow> (pg_member \<times> pg_profile option) list" where
  "members_left_join db = concat (map (join_profiles db) (db_members db))"

section \<open>Helpers\<close>

definition scanMember :: "pg_env \<Rightarrow> pg_member \<times> pg_profile option \<Rightarrow> member_row" where
  "scanMember pe row =
     (let m = fst row;
          col = (\<lambda>f. case snd row of None \<Rightarrow> None | Some v \<Rightarrow> f v);
          make = col pv_make; model = col pv_model; tire_size = col pv_tire_size;
          lift_lockers = col pv_lift_lockers; fuel_range = col pv_fuel_range;
          recovery_gear = col pv_recovery_gear; ham = col pv_ham_radio_call_sign;
          notes = col pv_notes;
          vp = (if make \<noteq> None \<or> model \<noteq> None \<or> tire_size \<noteq> None \<or> lift_lockers \<noteq> None \<or>
                   fuel_range \<noteq> None \<or> recovery_gear \<noteq> None \<or> ham \<noteq> None \<or> notes \<noteq> None
                then Some \<lparr>vp_make = cloneStringPtr make, vp_model = cloneStringPtr model,
                      vp_tire_size = cloneStringPtr tire_size,
                      vp_lift_lockers = cloneStringPtr lift_lockers,
                      vp_fuel_range = cloneStringPtr fuel_range,
                      vp_recovery_gear = cloneStringPtr recovery_gear,
                      vp_ham_radio_call_sign = cloneStringPtr ham,
                      vp_notes = cloneStringPtr notes\<rparr>
                else None)
      in \<lparr>mr_id = pe_uuid_string pe (pm_external_id m), mr_subject = pm_subject_sub m,
          mr_display_name = pm_display_name m, mr_email = pm_email m,
          mr_group_alias_email = cloneStringPtr (pm_group_alias_email m),
          mr_vehicle_profile = vp, mr_is_active = pm_is_active m,
          mr_created_at = pm_created_at m, mr_updated_at = pm_updated_at m\<rparr>)"

definition scan_row :: "pg_env \<Rightarrow> (pg_member \<times> pg_profile option) option \<Rightarrow> goerror + member_row" where
  "scan_row pe row = (case row of None \<Rightarrow> Inl MemberNotFound | Some r \<Rightarrow> Inr (scanMember pe r))"

definition getMemberByExternalID :: "pg_env \<Rightarrow> pg_db \<Rightarrow> uuid \<Rightarrow> goerror + member_row" where
  "getMemberByExternalID pe db u =
     scan_row pe (query_row (filter (\<lambda>(m, v). pm_external_id m = u) (members_left_join db)))"

text \<open>The upsert on \<open>member_id\<close>; \<open>now()\<close> is the transaction's time, also in the trigger.\<close>

definition profile_row :: "pg_env \<Rightarrow> gotime \<Rightarrow> nat \<Rightarrow> vehicle_profile \<Rightarrow> pg_profile" where
  "profile_row pe now pk vp =
     \<lparr>pv_member_id = pk, pv_make = vp_make vp, pv_model = vp_model vp,
      pv_tire_size = vp_tire_size vp, pv_lift_lockers = vp_lift_lockers vp,
      pv_fuel_range = vp_fuel_range vp, pv_recovery_gear = vp_recovery_gear vp,
      pv_ham_radio_call_sign = vp_ham_radio_call_sign vp, pv_notes = vp_notes vp,
      pv_updated_at = pe_timestamp pe now\<rparr>"

definition upsertVehicleProfile ::
    "pg_env \<Rightarrow> gotime \<Rightarrow> uuid \<Rightarrow> vehicle_profile \<Rightarrow> pg_db \<Rightarrow> pg_error + pg_db" where
  "upsertVehicleProfile pe now u vp db =
     (case member_pk db u of
        None \<Rightarrow> raise NotNullViolationCode ''''
      | Some pk \<Rightarrow>
          Inr (db\<lparr>db_profiles := upsert_row pv_member_id (\<lambda>excluded v. excluded)
                                  (profile_row pe now pk vp) (db_profiles db)\<rparr>))"

definition delete_profile :: "uuid \<Rightarrow> pg_db \<Rightarrow> pg_db" where
  "delete_profile u db =
     db\<lparr>db_profiles := filter (\<lambda>v. Some (pv_member_id v) \<noteq> member_pk db u) (db_profiles db)\<rparr>"

definition less_scanned_member :: "go_env \<Rightarrow> member_row \<Rightarrow> member_row \<Rightarrow> bool" where
  "less_scanned_member env a b =
     (let di = to_lower env (mr_display_name a); dj = to_lower env (mr_display_name b) in
      if di = dj then mr_id a < mr_id b else di < dj)"

definition sortMembersByDisplayName :: "go_env \<Rightarrow> member_row list \<Rightarrow> member_row list" where
  "sortMembersByDisplayName env ms = sort_slice (less_scanned_member env) ms"

definition pg_tokenize :: "go_env \<Rightarrow> gostring \<Rightarrow> gostring list" where
  "pg_tokenize env s = (let s = to_lower env (trim_space s) in if s = '''' then [] else str_fields s)"

section \<open>Pattern matching\<close>

text \<open>
  \<open>LIKE\<close> on the characters of the string: a percent sign matches any substring, an underscore any
  character, a backslash makes the next character literal.
\<close>

fun like_runes :: "nat list \<Rightarrow> nat list \<Rightarrow> bool" where
  "like_runes [] [] = True"
| "like_runes (s # ss) [] = False"
| "like_runes [] (p # ps) = (p = 0x25 \<and> like_runes [] ps)"
| "like_runes (s # ss) (p # ps) =
     (if p = 0x25 then like_runes (s # ss) ps \<or> like_runes ss (p # ps)
      else if p = 0x5F then like_runes ss ps
      else if p = 0x5C then (case ps of [] \<Rightarrow> False | q # qs \<Rightarrow> s = q \<and> like_runes ss qs)
      else s = p \<and> like_runes ss ps)"

definition sql_like :: "gostring \<Rightarrow> gostring \<Rightarrow> bool" where
  "sql_like s pattern = like_runes (runes s) (runes pattern)"

section \<open>Methods\<close>

definition pg_member_create ::
    "pg_env \<Rightarrow> gostring \<Rightarrow> pg_db option \<Rightarrow> gotime \<Rightarrow> member_row \<Rightarrow> goerror + pg_db" where
  "pg_member_create pe issuer pool now m =
     with_pool pool (\<lambda>db.
       case pe_uuid_parse pe (mr_id m) of
         Inl e \<Rightarrow> Inl (OtherError (''invalid member id: '' @ e))
       | Inr u \<Rightarrow>
           and_then
             (on_error (\<lambda>e. if pge_code e = UniqueViolationCode
                            then if pge_constraint e = ''members_subject_unique''
                                 then MemberSubjectAlreadyBound
                                 else if pge_constraint e = ''members_external_id_unique''
                                 then MemberAlreadyExists
                                 else server_error pe e
                            else server_error pe e)
               (insert_member pe
                  \<lparr>pm_id = 0, pm_external_id = u, pm_subject_iss = issuer,
                   pm_subject_sub = mr_subject m, pm_display_name = mr_display_name m,
                   pm_email = mr_email m, pm_group_alias_email = mr_group_alias_email m,
                   pm_is_active = mr_is_active m,
                   pm_created_at = pe_timestamp pe (mr_created_at m),
                   pm_updated_at = pe_timestamp pe (mr_updated_at m)\<rparr> db))
             (\<lambda>db. case mr_vehicle_profile m of
                     None \<Rightarrow> Inr db
                   | Some vp \<Rightarrow> on_error (server_error pe) (upsertVehicleProfile pe now u vp db)))"

definition pg_member_update ::
    "pg_env \<Rightarrow> pg_db option \<Rightarrow> gotime \<Rightarrow> member_row \<Rightarrow> goerror + pg_db" where
  "pg_member_update pe pool now m =
     with_pool pool (\<lambda>db.
       case pe_uuid_parse pe (mr_id m) of
         Inl e \<Rightarrow> Inl (OtherError (''invalid member id: '' @ e))
       | Inr u \<Rightarrow>
           and_then (getMemberByExternalID pe db u) (\<lambda>existing.
             if mr_subject existing \<noteq> mr_subject m then Inl MemberSubjectAlreadyBound
             else
               and_then
                 (on_error (server_error pe)
                   (update_member pe now u
                      (\<lambda>r. r\<lparr>pm_display_name := mr_display_name m, pm_email := mr_email m,
                             pm_group_alias_email := mr_group_alias_email m,
                             pm_is_active := mr_is_active m,
                             pm_updated_at := pe_timestamp pe (mr_updated_at m)\<rparr>) db))
                 (\<lambda>(db, affected).
                    if affected = 0 then Inl MemberNotFound
                    else (case mr_vehicle_profile m of
                            Some vp \<Rightarrow> on_error (server_error pe) (upsertVehicleProfile pe now u vp db)
                          | None \<Rightarrow> Inr (delete_profile u db)))))"

definition pg_member_get_by_id :: "pg_env \<Rightarrow> pg_db option \<Rightarrow> MemberID \<Rightarrow> goerror + member_row" where
  "pg_member_get_by_id pe pool i =
     with_pool pool (\<lambda>db.
       case pe_uuid_parse pe i of
         Inl _ \<Rightarrow> Inl MemberNotFound
       | Inr u \<Rightarrow> getMemberByExternalID pe db u)"

definition pg_member_get_by_subject ::
    "pg_env \<Rightarrow> gostring \<Rightarrow> pg_db option \<Rightarrow> SubjectID \<Rightarrow> goerror + member_row" where
  "pg_member_get_by_subject pe issuer pool s =
     with_pool pool (\<lambda>db.
       scan_row pe (query_row
         (filter (\<lambda>(m, v). pm_subject_iss m = issuer \<and> pm_subject_sub m = s) (members_left_join db))))"

definition member_order :: "pg_env \<Rightarrow> pg_member \<times> pg_profile option \<Rightarrow> gostring \<times> uuid" where
  "member_order pe row =
     (pe_collate pe (pe_lower pe (pm_display_name (fst row))), pm_external_id (fst row))"

definition pg_member_list ::
    "pg_env \<Rightarrow> pg_db option \<Rightarrow> bool \<Rightarrow> goerror + member_row list" where
  "pg_member_list pe pool include_inactive =
     with_pool pool (\<lambda>db.
       Inr (map (scanMember pe)
         (order_by (member_order pe)
           (filter (\<lambda>(m, v). if \<not> include_inactive then pm_is_active m else True)
             (members_left_join db)))))"

definition pg_member_search ::
    "go_env \<Rightarrow> pg_env \<Rightarrow> pg_db option \<Rightarrow> gostring \<Rightarrow> int \<Rightarrow> goerror + member_row list" where
  "pg_member_search env pe pool query limit =
     with_pool pool (\<lambda>db.
       let qtokens = pg_tokenize env query in
       if qtokens = [] then Inr []
       else
         let rows = order_by (member_order pe)
               (filter (\<lambda>(m, v). pm_is_active m \<and>
                    list_all (\<lambda>tok. sql_like (pe_lower pe (pm_display_name m)) (''%'' @ tok @ ''%''))
                      qtokens)
                  (members_left_join db));
             rows = (if limit > 0 then take (nat limit) rows else rows);
             out = sortMembersByDisplayName env (map (scanMember pe) rows)
         in Inr (if limit > 0 \<and> int (length out) > limit then take (nat limit) out else out))"

section \<open>The constraints as an invariant\<close>

definition members_ok :: "pg_env \<Rightarrow> pg_db \<Rightarrow> bool" where
  "members_ok pe db \<longleftrightarrow>
     distinct (map pm_id (db_members db)) \<and> (\<forall>m \<in> set (db_members db). pm_id m < db_member_seq db) \<and>
     distinct (map pm_external_id (db_members db)) \<and>
     distinct (map (\<lambda>m. (pm_subject_iss m, pm_subject_sub m)) (db_members db)) \<and>
     distinct (map (\<lambda>m. pe_citext pe (pm_email m)) (db_members db)) \<and>
     distinct (map pv_member_id (db_profiles db)) \<and>
     pv_member_id ` set (db_profiles db) \<subseteq> pm_id ` set (db_members db)"

lemma members_okD:
  assumes "members_ok pe db"
  shows "distinct (map pm_id (db_members db))"
    and "m \<in> set (db_members db) \<Longrightarrow> pm_id m < db_member_seq db"
    and "distinct (map pm_external_id (db_members db))"
    and "distinct (map (\<lambda>m. (pm_subject_iss m, pm_subject_sub m)) (db_members db))"
    and "distinct (map (\<lambda>m. pe_citext pe (pm_email m)) (db_members db))"
    and "distinct (map pv_member_id (db_profiles db))"
    and "pv_member_id ` set (db_profiles db) \<subseteq> pm_id ` set (db_members db)"
  using assms unfolding members_ok_def by blast+

lemma pg_empty_members_ok [simp]: "members_ok pe pg_empty"
  by (simp add: members_ok_def pg_empty_def)

lemma insert_member_Inr:
  "insert_member pe r db = Inr db' \<longleftrightarrow>
   members_violations pe r (db_members db) = [] \<and>
   db' = db\<lparr>db_members := db_members db @ [r\<lparr>pm_id := db_member_seq db\<rparr>],
            db_member_seq := Suc (db_member_seq db)\<rparr>"
  by (auto simp: insert_member_def members_violations_def Let_def raise_def)

lemma members_violations_none:
  "members_violations pe r rows = [] \<longleftrightarrow>
   (\<forall>x \<in> set rows. pm_external_id x \<noteq> pm_external_id r \<and>
      (pm_subject_iss x, pm_subject_sub x) \<noteq> (pm_subject_iss r, pm_subject_sub r) \<and>
      pe_citext pe (pm_email x) \<noteq> pe_citext pe (pm_email r))"
  by (auto simp: members_violations_def)

lemma insert_member_ok:
  assumes ok: "members_ok pe db" and ins: "insert_member pe r db = Inr db'"
  shows "members_ok pe db'"
proof -
  from ins have "\<forall>x \<in> set (db_members db). pm_external_id x \<noteq> pm_external_id r \<and>
      (pm_subject_iss x, pm_subject_sub x) \<noteq> (pm_subject_iss r, pm_subject_sub r) \<and>
      pe_citext pe (pm_email x) \<noteq> pe_citext pe (pm_email r)"
    by (simp add: insert_member_Inr members_violations_none)
  then show ?thesis
    using members_okD [OF ok] ins
    by (fastforce simp: members_ok_def insert_member_Inr intro: less_SucI)
qed

lemma update_member_Inr:
  "update_member pe now u f db = Inr (db', n) \<Longrightarrow>
   db' = db\<lparr>db_members := update_rows (\<lambda>r. pm_external_id r = u)
             (\<lambda>r. set_updated_at pe now (f r)) (db_members db)\<rparr> \<and>
   distinct (map (\<lambda>r. pe_citext pe (pm_email r)) (db_members db'))"
  by (auto simp: update_member_def Let_def raise_def split: if_splits)

lemma update_member_ok:
  assumes ok: "members_ok pe db" and upd: "update_member pe now u f db = Inr (db', n)"
    and keys: "\<And>r. pm_id (f r) = pm_id r \<and> pm_external_id (f r) = pm_external_id r \<and>
      pm_subject_iss (f r) = pm_subject_iss r \<and> pm_subject_sub (f r) = pm_subject_sub r"
  shows "members_ok pe db'"
proof -
  let ?rows = "update_rows (\<lambda>r. pm_external_id r = u) (\<lambda>r. set_updated_at pe now (f r)) (db_members db)"
  have *: "map key ?rows = map key (db_members db)"
    if "\<And>r. key (set_updated_at pe now (f r)) = key r" for key :: "pg_member \<Rightarrow> 'b"
    by (intro update_rows_keeps_key that)
  have ids: "map pm_id ?rows = map pm_id (db_members db)"
    and ext: "map pm_external_id ?rows = map pm_external_id (db_members db)"
    and sub: "map (\<lambda>m. (pm_subject_iss m, pm_subject_sub m)) ?rows =
              map (\<lambda>m. (pm_subject_iss m, pm_subject_sub m)) (db_members db)"
    by (intro * ; simp add: keys set_updated_at_def)+
  from ids have img: "pm_id ` set ?rows = pm_id ` set (db_members db)" by (metis list.set_map)
  have "\<forall>m \<in> set ?rows. pm_id m < db_member_seq db"
  proof
    fix m assume "m \<in> set ?rows"
    then have "pm_id m \<in> pm_id ` set (db_members db)" using img by blast
    then show "pm_id m < db_member_seq db" using members_okD(2) [OF ok] by auto
  qed
  moreover have db': "db' = db\<lparr>db_members := ?rows\<rparr>"
    and "distinct (map (\<lambda>r. pe_citext pe (pm_email r)) ?rows)"
    using update_member_Inr [OF upd] by auto
  ultimately show ?thesis
    using ids ext sub img members_okD(1,3,4,6,7) [OF ok] by (simp add: members_ok_def)
qed

lemma member_pk_row:
  "members_ok pe db \<Longrightarrow> m \<in> set (db_members db) \<Longrightarrow> pm_external_id m = u \<Longrightarrow>
   member_pk db u = Some (pm_id m)"
  by (simp add: member_pk_def find_unique members_okD(3))

lemma member_pk_Some:
  "member_pk db u = Some k \<Longrightarrow> \<exists>m \<in> set (db_members db). pm_external_id m = u \<and> pm_id m = k"
  by (auto simp: member_pk_def find_Some_iff)

lemma profile_row_key [simp]: "pv_member_id (profile_row pe now pk vp) = pk"
  by (simp add: profile_row_def)

lemma upsertVehicleProfile_Inr:
  "upsertVehicleProfile pe now u vp db = Inr db' \<longleftrightarrow>
   (\<exists>pk. member_pk db u = Some pk \<and>
         db' = db\<lparr>db_profiles := upsert_row pv_member_id (\<lambda>excluded v. excluded)
                                  (profile_row pe now pk vp) (db_profiles db)\<rparr>)"
  by (auto simp: upsertVehicleProfile_def raise_def split: option.split)

lemma upsertVehicleProfile_ok:
  assumes ok: "members_ok pe db" and ups: "upsertVehicleProfile pe now u vp db = Inr db'"
  shows "members_ok pe db'"
proof -
  obtain pk where pk: "member_pk db u = Some pk"
    and db': "db' = db\<lparr>db_profiles := upsert_row pv_member_id (\<lambda>excluded v. excluded)
                (profile_row pe now pk vp) (db_profiles db)\<rparr>"
    using ups by (auto simp: upsertVehicleProfile_Inr)
  note okD = members_okD [OF ok]
  note d = upsert_row_distinct [of pv_member_id "profile_row pe now pk vp" "\<lambda>excluded v. excluded",
      OF _ okD(6)]
  have "pv_member_id ` set (db_profiles db') \<subseteq> insert pk (pv_member_id ` set (db_profiles db))"
    by (auto simp: db' upsert_row_set [OF okD(6)] split: option.splits)
  also have "\<dots> \<subseteq> pm_id ` set (db_members db)" using okD(7) member_pk_Some [OF pk] by auto
  finally show ?thesis using okD(1-5) d by (simp add: members_ok_def db')
qed

lemma delete_profile_ok: "members_ok pe db \<Longrightarrow> members_ok pe (delete_profile u db)"
  by (auto simp: members_ok_def delete_profile_def distinct_map_filter)

lemma on_error_InrD: "on_error h r = Inr x \<Longrightarrow> r = Inr x"
  by (simp add: on_error_Inr)

text \<open>The two writes, inverted.\<close>

lemma pg_member_createE:
  assumes "pg_member_create pe issuer (Some db) now m = Inr db'"
  obtains u db1 where "pe_uuid_parse pe (mr_id m) = Inr u"
    and "insert_member pe
          \<lparr>pm_id = 0, pm_external_id = u, pm_subject_iss = issuer,
           pm_subject_sub = mr_subject m, pm_display_name = mr_display_name m,
           pm_email = mr_email m, pm_group_alias_email = mr_group_alias_email m,
           pm_is_active = mr_is_active m,
           pm_created_at = pe_timestamp pe (mr_created_at m),
           pm_updated_at = pe_timestamp pe (mr_updated_at m)\<rparr> db = Inr db1"
    and "mr_vehicle_profile m = None \<and> db' = db1 \<or>
         (\<exists>vp. mr_vehicle_profile m = Some vp \<and> upsertVehicleProfile pe now u vp db1 = Inr db')"
proof -
  obtain u where u: "pe_uuid_parse pe (mr_id m) = Inr u"
    using assms by (auto simp: pg_member_create_def split: sum.splits)
  show ?thesis
    using assms that [OF u]
    by (cases "mr_vehicle_profile m")
       (auto simp: pg_member_create_def u and_then_Inr on_error_Inr)
qed

lemma pg_member_updateE:
  assumes "pg_member_update pe (Some db) now m = Inr db'"
  obtains u old db1 n where "pe_uuid_parse pe (mr_id m) = Inr u"
    and "getMemberByExternalID pe db u = Inr old" and "mr_subject old = mr_subject m"
    and "update_member pe now u
          (\<lambda>r. r\<lparr>pm_display_name := mr_display_name m, pm_email := mr_email m,
                 pm_group_alias_email := mr_group_alias_email m, pm_is_active := mr_is_active m,
                 pm_updated_at := pe_timestamp pe (mr_updated_at m)\<rparr>) db = Inr (db1, n)"
    and "mr_vehicle_profile m = None \<and> db' = delete_profile u db1 \<or>
         (\<exists>vp. mr_vehicle_profile m = Some vp \<and> upsertVehicleProfile pe now u vp db1 = Inr db')"
proof -
  obtain u where u: "pe_uuid_parse pe (mr_id m) = Inr u"
    using assms by (auto simp: pg_member_update_def split: sum.splits)
  obtain old where old: "getMemberByExternalID pe db u = Inr old" "mr_subject old = mr_subject m"
    using assms by (auto simp: pg_member_update_def u and_then_Inr split: if_splits)
  show ?thesis
    using assms that [OF u old]
    by (cases "mr_vehicle_profile m")
       (auto simp: pg_member_update_def u old and_then_Inr on_error_Inr split: if_splits)
qed

lemma pg_member_create_ok:
  assumes "members_ok pe db" and "pg_member_create pe issuer (Some db) now m = Inr db'"
  shows "members_ok pe db'"
  using assms(2)
proof (rule pg_member_createE)
qed (use insert_member_ok [OF assms(1)] upsertVehicleProfile_ok in blast)

lemma pg_member_update_ok:
  assumes "members_ok pe db" and "pg_member_update pe (Some db) now m = Inr db'"
  shows "members_ok pe db'"
  using assms(2)
proof (rule pg_member_updateE)
  fix u db1 n
  assume upd: "update_member pe now u
      (\<lambda>r. r\<lparr>pm_display_name := mr_display_name m, pm_email := mr_email m,
             pm_group_alias_email := mr_group_alias_email m, pm_is_active := mr_is_active m,
             pm_updated_at := pe_timestamp pe (mr_updated_at m)\<rparr>) db = Inr (db1, n)"
    and last: "mr_vehicle_profile m = None \<and> db' = delete_profile u db1 \<or>
      (\<exists>vp. mr_vehicle_profile m = Some vp \<and> upsertVehicleProfile pe now u vp db1 = Inr db')"
  have "members_ok pe db1" by (rule update_member_ok [OF assms(1) upd]) simp
  with last show ?thesis using delete_profile_ok upsertVehicleProfile_ok by blast
qed

section \<open>Refinement of the in-memory repository\<close>

definition profile_of :: "pg_db \<Rightarrow> pg_member \<Rightarrow> pg_profile option" where
  "profile_of db m = find (\<lambda>v. pv_member_id v = pm_id m) (db_profiles db)"

definition stored_member :: "pg_env \<Rightarrow> pg_db \<Rightarrow> pg_member \<Rightarrow> member_row" where
  "stored_member pe db m = scanMember pe (m, profile_of db m)"

text \<open>The two Go maps a database stands for; \<open>GetBySubject\<close> looks at one issuer's subjects.\<close>

definition members_abs :: "pg_env \<Rightarrow> gostring \<Rightarrow> pg_db \<Rightarrow> member_repo" where
  "members_abs pe issuer db =
     \<lparr>mb_by_id = map (\<lambda>m. (pe_uuid_string pe (pm_external_id m), stored_member pe db m)) (db_members db),
      mb_id_by_sub = map (\<lambda>m. (pm_subject_sub m, pe_uuid_string pe (pm_external_id m)))
        (filter (\<lambda>m. pm_subject_iss m = issuer) (db_members db))\<rparr>"

definition one_issuer :: "gostring \<Rightarrow> pg_db \<Rightarrow> bool" where
  "one_issuer issuer db \<longleftrightarrow> (\<forall>m \<in> set (db_members db). pm_subject_iss m = issuer)"

text \<open>What a row becomes by being stored: canonical ID, timestamps of the column's resolution, and
  a profile without any entry is no profile.\<close>

definition norm_profile :: "vehicle_profile option \<Rightarrow> vehicle_profile option" where
  "norm_profile p =
     (if p = Some \<lparr>vp_make = None, vp_model = None, vp_tire_size = None, vp_lift_lockers = None,
            vp_fuel_range = None, vp_recovery_gear = None, vp_ham_radio_call_sign = None,
            vp_notes = None\<rparr>
      then None else p)"

definition norm_member :: "pg_env \<Rightarrow> member_row \<Rightarrow> member_row" where
  "norm_member pe m = m\<lparr>mr_id := canonical_id pe (mr_id m),
     mr_vehicle_profile := norm_profile (mr_vehicle_profile m),
     mr_created_at := pe_timestamp pe (mr_created_at m),
     mr_updated_at := pe_timestamp pe (mr_updated_at m)\<rparr>"

lemma scanMember_fields [simp]:
  "mr_id (scanMember pe (m, v)) = pe_uuid_string pe (pm_external_id m)"
  "mr_subject (scanMember pe (m, v)) = pm_subject_sub m"
  "mr_display_name (scanMember pe (m, v)) = pm_display_name m"
  "mr_email (scanMember pe (m, v)) = pm_email m"
  "mr_group_alias_email (scanMember pe (m, v)) = pm_group_alias_email m"
  "mr_is_active (scanMember pe (m, v)) = pm_is_active m"
  "mr_created_at (scanMember pe (m, v)) = pm_created_at m"
  "mr_updated_at (scanMember pe (m, v)) = pm_updated_at m"
  by (simp_all add: scanMember_def Let_def)

lemma scanMember_profile [simp]:
  "mr_vehicle_profile (scanMember pe (m, None)) = None"
  "mr_vehicle_profile (scanMember pe (m, Some (profile_row pe now pk vp))) = norm_profile (Some vp)"
  by (cases vp; auto simp: scanMember_def Let_def norm_profile_def profile_row_def)+

lemma members_left_join_eq:
  "members_ok pe db \<Longrightarrow> members_left_join db = map (\<lambda>m. (m, profile_of db m)) (db_members db)"
proof -
  assume ok: "members_ok pe db"
  have "join_profiles db m = [(m, profile_of db m)]" for m
    by (simp add: join_profiles_def profile_of_def filter_unique [OF members_okD(6) [OF ok]]
        split: option.split)
  then have "concat (map (join_profiles db) ms) = map (\<lambda>m. (m, profile_of db m)) ms" for ms
    by (induction ms) simp_all
  then show ?thesis by (simp add: members_left_join_def)
qed

lemma query_row_map_filter:
  "query_row (filter P (map f xs)) = map_option f (find (\<lambda>x. P (f x)) xs)"
  by (induction xs) simp_all

lemma getMemberByExternalID_eq:
  "members_ok pe db \<Longrightarrow> getMemberByExternalID pe db u =
   (case find (\<lambda>m. pm_external_id m = u) (db_members db) of
      None \<Rightarrow> Inl MemberNotFound | Some m \<Rightarrow> Inr (stored_member pe db m))"
  by (simp add: getMemberByExternalID_def scan_row_def members_left_join_eq query_row_map_filter
      stored_member_def split: option.split)

lemma members_abs_lookup:
  assumes "pg_env_ok pe"
  shows "map_of (mb_by_id (members_abs pe issuer db)) (pe_uuid_string pe u) =
    map_option (stored_member pe db) (find (\<lambda>m. pm_external_id m = u) (db_members db))"
proof -
  have "map_of (map (\<lambda>m. (pe_uuid_string pe (pm_external_id m), f m)) ms) (pe_uuid_string pe u) =
    map_option f (find (\<lambda>m. pm_external_id m = u) ms)" for f :: "pg_member \<Rightarrow> member_row" and ms
    by (induction ms) (simp_all add: uuid_string_eq_iff [OF assms])
  then show ?thesis by (simp add: members_abs_def)
qed

lemma members_abs_ids:
  "set (keys (mb_by_id (members_abs pe issuer db))) \<subseteq> range (pe_uuid_string pe)"
  by (auto simp: members_abs_def)

text \<open>Reading by ID and by subject are the in-memory reads of the abstraction.\<close>

lemma pg_member_get_by_id_abs:
  assumes "pg_env_ok pe" and "members_ok pe db"
  shows "pg_member_get_by_id pe (Some db) i =
    member_get_by_id (members_abs pe issuer db) (canonical_id pe i)"
proof (cases "pe_uuid_parse pe i")
  case (Inl e)
  then have "i \<notin> range (pe_uuid_string pe)" using pg_env_okD(1) [OF assms(1)] by force
  then have "map_of (mb_by_id (members_abs pe issuer db)) i = None"
    using members_abs_ids [of pe issuer db] by (auto simp: map_of_eq_None_iff)
  with Inl show ?thesis by (simp add: pg_member_get_by_id_def canonical_id_def member_get_by_id_def)
next
  case (Inr u)
  then show ?thesis
    by (simp add: pg_member_get_by_id_def canonical_id_def member_get_by_id_def
        getMemberByExternalID_eq [OF assms(2)] members_abs_lookup [OF assms(1)] split: option.split)
qed

lemma members_abs_subjects:
  "map_of (mb_id_by_sub (members_abs pe issuer db)) s =
   map_option (\<lambda>m. pe_uuid_string pe (pm_external_id m))
     (find (\<lambda>m. pm_subject_iss m = issuer \<and> pm_subject_sub m = s) (db_members db))"
proof -
  have "map_of (map (\<lambda>m. (pm_subject_sub m, f m)) (filter (\<lambda>m. pm_subject_iss m = issuer) ms)) s =
    map_option f (find (\<lambda>m. pm_subject_iss m = issuer \<and> pm_subject_sub m = s) ms)"
    for f :: "pg_member \<Rightarrow> MemberID" and ms
    by (induction ms) auto
  then show ?thesis by (simp add: members_abs_def)
qed

lemma find_SomeD: "find P xs = Some x \<Longrightarrow> x \<in> set xs \<and> P x"
  by (auto simp: find_Some_iff)

lemma find_member_by_id:
  "members_ok pe db \<Longrightarrow> m \<in> set (db_members db) \<Longrightarrow>
   find (\<lambda>x. pm_external_id x = pm_external_id m) (db_members db) = Some m"
  by (simp add: find_unique members_okD(3))

lemma pg_member_get_by_subject_abs:
  assumes "pg_env_ok pe" and "members_ok pe db"
  shows "pg_member_get_by_subject pe issuer (Some db) s =
    member_get_by_subject (members_abs pe issuer db) s"
proof (cases "find (\<lambda>m. pm_subject_iss m = issuer \<and> pm_subject_sub m = s) (db_members db)")
  case None
  then show ?thesis
    by (simp add: pg_member_get_by_subject_def members_left_join_eq [OF assms(2)] query_row_map_filter
        scan_row_def member_get_by_subject_def members_abs_subjects)
next
  case (Some m)
  then have "m \<in> set (db_members db)" by (blast dest: find_SomeD)
  with Some show ?thesis
    by (simp add: pg_member_get_by_subject_def members_left_join_eq [OF assms(2)] query_row_map_filter
        scan_row_def member_get_by_subject_def members_abs_subjects members_abs_lookup [OF assms(1)]
        find_member_by_id [OF assms(2)] stored_member_def)
qed

text \<open>The abstraction of a database that meets its constraints is a consistent repository.\<close>

lemma members_abs_wf:
  assumes env: "pg_env_ok pe" and ok: "members_ok pe db" and iss: "one_issuer issuer db"
  shows "wf_member_repo (members_abs pe issuer db)"
proof (rule wf_member_repoI)
  note okD = members_okD [OF ok]
  have inj: "inj (pe_uuid_string pe)" using uuid_string_eq_iff [OF env] by (auto intro: injI)
  have "keys (mb_by_id (members_abs pe issuer db)) =
      map (pe_uuid_string pe) (map pm_external_id (db_members db))"
    by (simp add: members_abs_def)
  then show "wf_map (mb_by_id (members_abs pe issuer db))"
    using okD(3) inj by (simp add: wf_map_def distinct_map inj_on_def comp_def)
  have "map (\<lambda>m. (pm_subject_iss m, pm_subject_sub m)) (db_members db) =
      map (Pair issuer) (map pm_subject_sub (db_members db))"
    using iss by (simp add: one_issuer_def)
  then have "distinct (map pm_subject_sub (db_members db))"
    using okD(4) by (simp only: distinct_map)
  moreover have "keys (mb_id_by_sub (members_abs pe issuer db)) = map pm_subject_sub (db_members db)"
    using iss by (simp add: members_abs_def one_issuer_def comp_def)
  ultimately show "wf_map (mb_id_by_sub (members_abs pe issuer db))" by (simp add: wf_map_def)
  show "mr_id x = i \<and> i \<noteq> '''' \<and> map_of (mb_id_by_sub (members_abs pe issuer db)) (mr_subject x) = Some i"
    if i: "map_of (mb_by_id (members_abs pe issuer db)) i = Some x" for i x
  proof -
    obtain m where m: "m \<in> set (db_members db)" "i = pe_uuid_string pe (pm_external_id m)"
      "x = stored_member pe db m"
      using map_of_SomeD [OF i] by (auto simp: members_abs_def)
    have "distinct (map (\<lambda>m. (pm_subject_iss m, pm_subject_sub m)) (db_members db))" by (rule okD(4))
    from find_unique [OF this m(1)] iss m(1)
    have "find (\<lambda>y. pm_subject_iss y = issuer \<and> pm_subject_sub y = pm_subject_sub m) (db_members db) = Some m"
      by (simp add: one_issuer_def)
    with m show ?thesis by (simp add: members_abs_subjects stored_member_def pg_env_okD(2) [OF env])
  qed
  show "\<exists>x. map_of (mb_by_id (members_abs pe issuer db)) i = Some x \<and> mr_subject x = s"
    if sub: "map_of (mb_id_by_sub (members_abs pe issuer db)) s = Some i" for s i
  proof -
    obtain m where "find (\<lambda>m. pm_subject_iss m = issuer \<and> pm_subject_sub m = s) (db_members db) = Some m"
      and i: "i = pe_uuid_string pe (pm_external_id m)"
      using sub by (auto simp: members_abs_subjects)
    then have m: "m \<in> set (db_members db)" "pm_subject_sub m = s" by (auto dest: find_SomeD)
    then show ?thesis
      by (simp add: i members_abs_lookup [OF env] find_member_by_id [OF ok] stored_member_def)
  qed
qed

lemma fresh_member_no_profile:
  assumes "members_ok pe db" and "pm_id m = db_member_seq db"
  shows "profile_of db m = None"
proof -
  have "pv_member_id v \<noteq> pm_id m" if "v \<in> set (db_profiles db)" for v
    using members_okD(2,7) [OF assms(1)] assms(2) that by force
  then show ?thesis by (simp add: profile_of_def find_None_iff)
qed

text \<open>The profile step of the two writes: only the written member's profile changes.\<close>

lemma upsertVehicleProfile_profile_of:
  assumes ok: "members_ok pe db" and r: "r \<in> set (db_members db)" "pm_external_id r = u"
    and ups: "upsertVehicleProfile pe now u vp db = Inr db'"
  shows "db_members db' = db_members db"
    and "profile_of db' m =
      (if pm_id m = pm_id r then Some (profile_row pe now (pm_id r) vp) else profile_of db m)"
  using ups member_pk_row [OF ok r]
  by (auto simp: upsertVehicleProfile_Inr profile_of_def find_upsert_row split: option.split)

lemma delete_profile_profile_of:
  assumes ok: "members_ok pe db" and r: "r \<in> set (db_members db)" "pm_external_id r = u"
  shows "db_members (delete_profile u db) = db_members db"
    and "profile_of (delete_profile u db) m = (if pm_id m = pm_id r then None else profile_of db m)"
proof -
  have pk: "member_pk db u = Some (pm_id r)" by (rule member_pk_row [OF ok r])
  have "find (\<lambda>v. pv_member_id v = k) (filter (\<lambda>v. Some (pv_member_id v) \<noteq> Some j) vs) =
    (if k = j then None else find (\<lambda>v. pv_member_id v = k) vs)" for k j and vs :: "pg_profile list"
    by (induction vs) auto
  then show "profile_of (delete_profile u db) m = (if pm_id m = pm_id r then None else profile_of db m)"
    by (simp add: profile_of_def delete_profile_def pk)
qed (simp add: delete_profile_def)

lemma pg_member_create_sim:
  assumes env: "pg_env_ok pe" and ok: "members_ok pe db"
    and create: "pg_member_create pe issuer (Some db) now m = Inr db'"
  shows "member_create (members_abs pe issuer db) (norm_member pe m) = Inr (members_abs pe issuer db')"
    and "one_issuer issuer db \<Longrightarrow> one_issuer issuer db'"
proof -
  obtain u db1 where u: "pe_uuid_parse pe (mr_id m) = Inr u"
    and ins: "insert_member pe
          \<lparr>pm_id = 0, pm_external_id = u, pm_subject_iss = issuer,
           pm_subject_sub = mr_subject m, pm_display_name = mr_display_name m,
           pm_email = mr_email m, pm_group_alias_email = mr_group_alias_email m,
           pm_is_active = mr_is_active m,
           pm_created_at = pe_timestamp pe (mr_created_at m),
           pm_updated_at = pe_timestamp pe (mr_updated_at m)\<rparr> db = Inr db1"
    and prof: "mr_vehicle_profile m = None \<and> db' = db1 \<or>
         (\<exists>vp. mr_vehicle_profile m = Some vp \<and> upsertVehicleProfile pe now u vp db1 = Inr db')"
    using create by (rule pg_member_createE)
  define r where "r = \<lparr>pm_id = db_member_seq db, pm_external_id = u, pm_subject_iss = issuer,
      pm_subject_sub = mr_subject m, pm_display_name = mr_display_name m,
      pm_email = mr_email m, pm_group_alias_email = mr_group_alias_email m,
      pm_is_active = mr_is_active m, pm_created_at = pe_timestamp pe (mr_created_at m),
      pm_updated_at = pe_timestamp pe (mr_updated_at m)\<rparr>"
  have db1: "db1 = db\<lparr>db_members := db_members db @ [r], db_member_seq := Suc (db_member_seq db)\<rparr>"
    and new: "\<forall>x \<in> set (db_members db). pm_external_id x \<noteq> u \<and>
      (pm_subject_iss x, pm_subject_sub x) \<noteq> (issuer, mr_subject m)"
    using ins by (auto simp: insert_member_Inr members_violations_none r_def)
  have ok1: "members_ok pe db1" by (rule insert_member_ok [OF ok ins])
  have rin: "r \<in> set (db_members db1)" "pm_external_id r = u" by (simp_all add: db1 r_def)
  have old_id: "pm_id x \<noteq> pm_id r" if "x \<in> set (db_members db)" for x
    using members_okD(2) [OF ok that] by (simp add: r_def)
  have p1: "profile_of db1 x = profile_of db x" for x by (simp add: profile_of_def db1)
  have none: "profile_of db r = None" by (rule fresh_member_no_profile [OF ok]) (simp add: r_def)
  have members: "db_members db' = db_members db @ [r]"
    using prof upsertVehicleProfile_profile_of(1) [OF ok1 rin] by (auto simp: db1)
  have old: "stored_member pe db' x = stored_member pe db x" if "x \<in> set (db_members db)" for x
    using prof upsertVehicleProfile_profile_of(2) [OF ok1 rin, of now _ db' x] old_id [OF that] p1
    by (auto simp: stored_member_def)
  have "profile_of db' r = map_option (profile_row pe now (pm_id r)) (mr_vehicle_profile m)"
    using prof upsertVehicleProfile_profile_of(2) [OF ok1 rin, of now _ db' r] p1 none by auto
  then have "mr_vehicle_profile (stored_member pe db' r) = norm_profile (mr_vehicle_profile m)"
    by (cases "mr_vehicle_profile m") (simp_all add: stored_member_def norm_profile_def)
  then have stored: "stored_member pe db' r = norm_member pe m"
    by (intro member_row.equality)
       (simp_all add: stored_member_def norm_member_def canonical_id_def u r_def)
  have "find (\<lambda>x. pm_external_id x = u) (db_members db) = None"
    "find (\<lambda>x. pm_subject_iss x = issuer \<and> pm_subject_sub x = mr_subject m) (db_members db) = None"
    using new by (auto simp: find_None_iff)
  then have fresh: "map_of (mb_by_id (members_abs pe issuer db)) (pe_uuid_string pe u) = None"
    "map_of (mb_id_by_sub (members_abs pe issuer db)) (mr_subject m) = None"
    by (simp_all add: members_abs_lookup [OF env] members_abs_subjects)
  have "members_abs pe issuer db' =
      \<lparr>mb_by_id = mb_by_id (members_abs pe issuer db) @ [(pe_uuid_string pe u, norm_member pe m)],
       mb_id_by_sub = mb_id_by_sub (members_abs pe issuer db) @ [(mr_subject m, pe_uuid_string pe u)]\<rparr>"
    using old by (simp add: members_abs_def members stored) (simp add: r_def)
  moreover have "mr_id (norm_member pe m) = pe_uuid_string pe u" "mr_subject (norm_member pe m) = mr_subject m"
    by (simp_all add: norm_member_def canonical_id_def u)
  ultimately show "member_create (members_abs pe issuer db) (norm_member pe m) =
      Inr (members_abs pe issuer db')"
    using fresh pg_env_okD(2) [OF env]
    by (simp add: member_create_def map_of_fresh_update map_of_eq_None_iff [symmetric] del: map_of_eq_None_iff)
  show "one_issuer issuer db'" if "one_issuer issuer db"
    using that by (simp add: one_issuer_def members r_def)
qed

lemma pg_member_update_sim:
  assumes env: "pg_env_ok pe" and ok: "members_ok pe db"
    and upd: "pg_member_update pe (Some db) now m = Inr db'"
  obtains old where "pg_member_get_by_id pe (Some db) (mr_id m) = Inr old"
    and "mr_subject old = mr_subject m"
    and "member_update (members_abs pe issuer db)
           ((norm_member pe m)\<lparr>mr_created_at := mr_created_at old,
                               mr_updated_at := pe_timestamp pe now\<rparr>) =
         Inr (members_abs pe issuer db')"
    and "one_issuer issuer db \<Longrightarrow> one_issuer issuer db'"
proof -
  obtain u old db1 n where u: "pe_uuid_parse pe (mr_id m) = Inr u"
    and get: "getMemberByExternalID pe db u = Inr old" and sub: "mr_subject old = mr_subject m"
    and st: "update_member pe now u
          (\<lambda>r. r\<lparr>pm_display_name := mr_display_name m, pm_email := mr_email m,
                 pm_group_alias_email := mr_group_alias_email m, pm_is_active := mr_is_active m,
                 pm_updated_at := pe_timestamp pe (mr_updated_at m)\<rparr>) db = Inr (db1, n)"
    and prof: "mr_vehicle_profile m = None \<and> db' = delete_profile u db1 \<or>
         (\<exists>vp. mr_vehicle_profile m = Some vp \<and> upsertVehicleProfile pe now u vp db1 = Inr db')"
    using upd by (rule pg_member_updateE)
  let ?f = "\<lambda>r. r\<lparr>pm_display_name := mr_display_name m, pm_email := mr_email m,
      pm_group_alias_email := mr_group_alias_email m, pm_is_active := mr_is_active m,
      pm_updated_at := pe_timestamp pe now\<rparr>"
  let ?new = "(norm_member pe m)\<lparr>mr_created_at := mr_created_at old,
      mr_updated_at := pe_timestamp pe now\<rparr>"
  obtain r where r: "r \<in> set (db_members db)" "pm_external_id r = u" and old: "old = stored_member pe db r"
    using get by (auto simp: getMemberByExternalID_eq [OF ok] split: option.splits dest: find_SomeD)
  have db1: "db1 = db\<lparr>db_members := update_rows (\<lambda>x. pm_external_id x = u) ?f (db_members db)\<rparr>"
    using update_member_Inr [OF st] by (simp add: set_updated_at_def)
  have ok1: "members_ok pe db1" by (rule update_member_ok [OF ok st]) simp
  have rin: "?f r \<in> set (db_members db1)" "pm_external_id (?f r) = u"
    using r by (auto simp: db1 set_update_rows intro: rev_image_eqI)
  have p1: "profile_of db1 x = profile_of db x" for x by (simp add: profile_of_def db1)
  have same: "x = r" if "x \<in> set (db_members db)" "pm_external_id x = u" for x
    using find_member_by_id [OF ok r(1)] find_member_by_id [OF ok that(1)] r(2) that(2) by simp
  have ids: "pm_id x \<noteq> pm_id r" if "x \<in> set (db_members db)" "x \<noteq> r" for x
    using members_okD(1) [OF ok] that r(1) by (auto simp: distinct_map inj_on_def)
  have members: "db_members db' = db_members db1"
    using prof upsertVehicleProfile_profile_of(1) [OF ok1 rin] delete_profile_profile_of(1) [OF ok1 rin]
    by auto
  have prof_other: "profile_of db' x = profile_of db x" if "pm_id x \<noteq> pm_id r" for x
    using prof that p1 upsertVehicleProfile_profile_of(2) [OF ok1 rin, of now _ db' x]
      delete_profile_profile_of(2) [OF ok1 rin, of x] by auto
  have prof_r: "profile_of db' (?f r) = map_option (profile_row pe now (pm_id r)) (mr_vehicle_profile m)"
    using prof p1 upsertVehicleProfile_profile_of(2) [OF ok1 rin, of now _ db' "?f r"]
      delete_profile_profile_of(2) [OF ok1 rin, of "?f r"] by auto
  then have "mr_vehicle_profile (stored_member pe db' (?f r)) = norm_profile (mr_vehicle_profile m)"
    by (cases "mr_vehicle_profile m") (simp_all add: stored_member_def norm_profile_def)
  then have stored: "stored_member pe db' (?f r) = ?new"
    using sub r(2) old
    by (intro member_row.equality) (simp_all add: stored_member_def norm_member_def canonical_id_def u)
  have each: "stored_member pe db' (if pm_external_id x = u then ?f x else x) =
      (if pe_uuid_string pe (pm_external_id x) = pe_uuid_string pe u then ?new else stored_member pe db x)"
    if "x \<in> set (db_members db)" for x
  proof (cases "x = r")
    case True
    then show ?thesis using stored r(2) by simp
  next
    case False
    then have "pm_external_id x \<noteq> u" using same [OF that] by blast
    then show ?thesis
      by (simp add: uuid_string_eq_iff [OF env] stored_member_def prof_other [OF ids [OF that False]])
  qed
  have inj: "distinct (map (\<lambda>x. pe_uuid_string pe (pm_external_id x)) (db_members db))"
    using members_okD(3) [OF ok] by (simp add: distinct_map inj_on_def uuid_string_eq_iff [OF env])
  have "mb_by_id (members_abs pe issuer db') =
      AList.update (pe_uuid_string pe u) ?new (mb_by_id (members_abs pe issuer db))"
  proof -
    have "pe_uuid_string pe u \<in> (\<lambda>x. pe_uuid_string pe (pm_external_id x)) ` set (db_members db)"
      using r by auto
    note upd = alist_update_map [OF inj this, of ?new "stored_member pe db"]
    have "mb_by_id (members_abs pe issuer db') =
        map (\<lambda>x. (pe_uuid_string pe (pm_external_id x),
          stored_member pe db' (if pm_external_id x = u then ?f x else x))) (db_members db)"
      by (simp add: members_abs_def members db1 update_rows_def)
    also have "\<dots> = map (\<lambda>x. (pe_uuid_string pe (pm_external_id x),
        if pe_uuid_string pe (pm_external_id x) = pe_uuid_string pe u then ?new
        else stored_member pe db x)) (db_members db)"
      using each by (intro map_cong refl) simp
    finally show ?thesis by (simp add: members_abs_def upd)
  qed
  moreover have "mb_id_by_sub (members_abs pe issuer db') = mb_id_by_sub (members_abs pe issuer db)"
  proof -
    have "map g (filter P (update_rows Q ?f ms)) = map g (filter P ms)"
      if "\<And>x. P (?f x) = P x" "\<And>x. g (?f x) = g x"
      for P Q ms and g :: "pg_member \<Rightarrow> SubjectID \<times> MemberID"
      by (induction ms) (simp_all add: update_rows_def that)
    from this [of "\<lambda>x. pm_subject_iss x = issuer" "\<lambda>x. (pm_subject_sub x, pe_uuid_string pe (pm_external_id x))"]
    show ?thesis by (simp add: members_abs_def members db1)
  qed
  moreover have "map_of (mb_by_id (members_abs pe issuer db)) (pe_uuid_string pe u) = Some old"
    using find_member_by_id [OF ok r(1)] by (simp add: members_abs_lookup [OF env] r(2) old)
  moreover have "mr_id ?new = pe_uuid_string pe u" "mr_subject ?new = mr_subject m"
    by (simp_all add: norm_member_def canonical_id_def u)
  ultimately have "member_update (members_abs pe issuer db) ?new = Inr (members_abs pe issuer db')"
    using sub by (simp add: member_update_def)
  moreover have "pg_member_get_by_id pe (Some db) (mr_id m) = Inr old"
    by (simp add: pg_member_get_by_id_def u get)
  moreover have "one_issuer issuer db'" if "one_issuer issuer db"
    using that by (auto simp: one_issuer_def members db1 set_update_rows)
  ultimately show ?thesis using that sub by blast
qed

section \<open>When a write is accepted\<close>

lemma upsertVehicleProfile_total:
  "members_ok pe db \<Longrightarrow> r \<in> set (db_members db) \<Longrightarrow> pm_external_id r = u \<Longrightarrow>
   \<exists>db'. upsertVehicleProfile pe now u vp db = Inr db'"
  by (simp add: upsertVehicleProfile_def member_pk_row)

lemma pg_member_create_iff:
  assumes env: "pg_env_ok pe" and ok: "members_ok pe db" and iss: "one_issuer issuer db"
    and u: "pe_uuid_parse pe (mr_id m) = Inr u"
  shows "(\<exists>db'. pg_member_create pe issuer (Some db) now m = Inr db') \<longleftrightarrow>
    (\<exists>r. member_create (members_abs pe issuer db) (norm_member pe m) = Inr r) \<and>
    (\<forall>x \<in> set (db_members db). pe_citext pe (pm_email x) \<noteq> pe_citext pe (mr_email m))"
proof
  assume "\<exists>db'. pg_member_create pe issuer (Some db) now m = Inr db'"
  then obtain db' where c: "pg_member_create pe issuer (Some db) now m = Inr db'" ..
  then obtain v db1 where "insert_member pe
          \<lparr>pm_id = 0, pm_external_id = v, pm_subject_iss = issuer,
           pm_subject_sub = mr_subject m, pm_display_name = mr_display_name m,
           pm_email = mr_email m, pm_group_alias_email = mr_group_alias_email m,
           pm_is_active = mr_is_active m,
           pm_created_at = pe_timestamp pe (mr_created_at m),
           pm_updated_at = pe_timestamp pe (mr_updated_at m)\<rparr> db = Inr db1"
    by (rule pg_member_createE)
  then have "\<forall>x \<in> set (db_members db). pe_citext pe (pm_email x) \<noteq> pe_citext pe (mr_email m)"
    by (simp add: insert_member_Inr members_violations_none)
  with pg_member_create_sim(1) [OF env ok c]
  show "(\<exists>r. member_create (members_abs pe issuer db) (norm_member pe m) = Inr r) \<and>
    (\<forall>x \<in> set (db_members db). pe_citext pe (pm_email x) \<noteq> pe_citext pe (mr_email m))" by blast
next
  let ?r = "\<lparr>pm_id = 0, pm_external_id = u, pm_subject_iss = issuer, pm_subject_sub = mr_subject m,
      pm_display_name = mr_display_name m, pm_email = mr_email m,
      pm_group_alias_email = mr_group_alias_email m, pm_is_active = mr_is_active m,
      pm_created_at = pe_timestamp pe (mr_created_at m),
      pm_updated_at = pe_timestamp pe (mr_updated_at m)\<rparr>"
  assume asm: "(\<exists>r. member_create (members_abs pe issuer db) (norm_member pe m) = Inr r) \<and>
    (\<forall>x \<in> set (db_members db). pe_citext pe (pm_email x) \<noteq> pe_citext pe (mr_email m))"
  then obtain a where a: "member_create (members_abs pe issuer db) (norm_member pe m) = Inr a" by blast
  have id: "mr_id (norm_member pe m) = pe_uuid_string pe u" "mr_subject (norm_member pe m) = mr_subject m"
    by (simp_all add: norm_member_def canonical_id_def u)
  note fresh = member_createE [OF members_abs_wf [OF env ok iss] a, unfolded id]
  have "pm_external_id x \<noteq> u" if "x \<in> set (db_members db)" for x
    using fresh(2) that by (auto simp: members_abs_lookup [OF env] find_None_iff)
  moreover have "pm_subject_sub x \<noteq> mr_subject m" if "x \<in> set (db_members db)" for x
    using fresh(3) that iss by (auto simp: members_abs_subjects find_None_iff one_issuer_def)
  ultimately have "members_violations pe ?r (db_members db) = []"
    using asm by (simp add: members_violations_none)
  then obtain db1 where ins: "insert_member pe ?r db = Inr db1" by (auto simp: insert_member_Inr)
  then have "?r\<lparr>pm_id := db_member_seq db\<rparr> \<in> set (db_members db1)" by (auto simp: insert_member_Inr)
  from upsertVehicleProfile_total [OF insert_member_ok [OF ok ins] this, of u now]
  show "\<exists>db'. pg_member_create pe issuer (Some db) now m = Inr db'"
    by (cases "mr_vehicle_profile m") (auto simp: pg_member_create_def u ins on_error_Inr)
qed

text \<open>Which error a refused creation returns.\<close>

lemma pg_member_create_error:
  assumes env: "pg_env_ok pe" and ok: "members_ok pe db"
    and u: "pe_uuid_parse pe (mr_id m) = Inr u"
    and e: "pg_member_create pe issuer (Some db) now m = Inl e"
  shows "e = MemberAlreadyExists \<and> (\<exists>x \<in> set (db_members db). pm_external_id x = u) \<or>
    e = MemberSubjectAlreadyBound \<and>
      (\<exists>x \<in> set (db_members db). pm_subject_iss x = issuer \<and> pm_subject_sub x = mr_subject m) \<or>
    (\<exists>t. e = OtherError t) \<and>
      (\<exists>x \<in> set (db_members db). pe_citext pe (pm_email x) = pe_citext pe (mr_email m))"
proof -
  let ?r = "\<lparr>pm_id = 0, pm_external_id = u, pm_subject_iss = issuer, pm_subject_sub = mr_subject m,
      pm_display_name = mr_display_name m, pm_email = mr_email m,
      pm_group_alias_email = mr_group_alias_email m, pm_is_active = mr_is_active m,
      pm_created_at = pe_timestamp pe (mr_created_at m),
      pm_updated_at = pe_timestamp pe (mr_updated_at m)\<rparr>"
  let ?vs = "members_violations pe (?r\<lparr>pm_id := db_member_seq db\<rparr>) (db_members db)"
  have "?vs \<noteq> []"
  proof
    assume "?vs = []"
    then have "members_violations pe ?r (db_members db) = []" by (simp add: members_violations_none)
    then obtain db1 where ins: "insert_member pe ?r db = Inr db1" by (auto simp: insert_member_Inr)
    then have "?r\<lparr>pm_id := db_member_seq db\<rparr> \<in> set (db_members db1)" by (auto simp: insert_member_Inr)
    from upsertVehicleProfile_total [OF insert_member_ok [OF ok ins] this, of u now] e show False
      by (cases "mr_vehicle_profile m")
         (auto simp: pg_member_create_def u ins on_error_Inl, metis Inl_Inr_False)
  qed
  then have "pe_reported pe ?vs \<in> set ?vs" by (rule pg_env_okD(5) [OF env])
  moreover have "insert_member pe ?r db = raise UniqueViolationCode (pe_reported pe ?vs)"
    using \<open>?vs \<noteq> []\<close> by (simp add: insert_member_def Let_def)
  ultimately show ?thesis
    using e by (auto simp: pg_member_create_def u raise_def server_error_def members_violations_def
        split: if_splits)
qed

lemma distinct_update_rows:
  assumes "distinct (map key rows)" and "distinct (map ext rows)"
    and "\<And>x. x \<in> set rows \<Longrightarrow> ext x \<noteq> u \<Longrightarrow> key x \<noteq> k"
    and "\<And>r. key (f r) = k"
  shows "distinct (map key (update_rows (\<lambda>r. ext r = u) f rows))"
  using assms(1-3)
proof (induction rows)
  case Nil
  then show ?case by (simp add: update_rows_def)
next
  case (Cons r rows)
  then have IH: "distinct (map key (update_rows (\<lambda>r. ext r = u) f rows))" by simp
  have "key (if ext r = u then f r else r) \<noteq> key (if ext x = u then f x else x)"
    if x: "x \<in> set rows" for x
  proof -
    have "ext x \<noteq> ext r" "key x \<noteq> key r" using Cons.prems(1,2) x by (auto simp: image_iff)
    then show ?thesis using Cons.prems(3) [of x] Cons.prems(3) [of r] x assms(4) by auto
  qed
  then have "key (if ext r = u then f r else r) \<notin> set (map key (update_rows (\<lambda>r. ext r = u) f rows))"
    unfolding update_rows_def by force
  with IH show ?case by (simp add: update_rows_def)
qed

lemma pg_member_update_iff:
  assumes env: "pg_env_ok pe" and ok: "members_ok pe db" and u: "pe_uuid_parse pe (mr_id m) = Inr u"
  shows "(\<exists>db'. pg_member_update pe (Some db) now m = Inr db') \<longleftrightarrow>
    (\<exists>r. member_update (members_abs pe issuer db) (norm_member pe m) = Inr r) \<and>
    (\<forall>x \<in> set (db_members db). pm_external_id x \<noteq> u \<longrightarrow>
       pe_citext pe (pm_email x) \<noteq> pe_citext pe (mr_email m))"
proof
  let ?f = "\<lambda>r. r\<lparr>pm_display_name := mr_display_name m, pm_email := mr_email m,
      pm_group_alias_email := mr_group_alias_email m, pm_is_active := mr_is_active m,
      pm_updated_at := pe_timestamp pe (mr_updated_at m)\<rparr>"
  let ?rows = "update_rows (\<lambda>r. pm_external_id r = u) (\<lambda>r. set_updated_at pe now (?f r)) (db_members db)"
  have id: "mr_id (norm_member pe m) = pe_uuid_string pe u" "mr_subject (norm_member pe m) = mr_subject m"
    by (simp_all add: norm_member_def canonical_id_def u)
  show "(\<exists>r. member_update (members_abs pe issuer db) (norm_member pe m) = Inr r) \<and>
    (\<forall>x \<in> set (db_members db). pm_external_id x \<noteq> u \<longrightarrow>
       pe_citext pe (pm_email x) \<noteq> pe_citext pe (mr_email m))"
    if "\<exists>db'. pg_member_update pe (Some db) now m = Inr db'"
  proof (intro conjI ballI impI)
    from that obtain db' where w: "pg_member_update pe (Some db) now m = Inr db'" ..
    from w obtain old where old: "pg_member_get_by_id pe (Some db) (mr_id m) = Inr old"
      "mr_subject old = mr_subject m" by (rule pg_member_update_sim [OF env ok, where issuer = issuer])
    then show "\<exists>r. member_update (members_abs pe issuer db) (norm_member pe m) = Inr r"
      using pg_member_get_by_id_abs [OF env ok, where issuer = issuer]
      by (simp add: member_update_def id canonical_id_def u)
    from w obtain v old db1 n where v: "pe_uuid_parse pe (mr_id m) = Inr v"
      "getMemberByExternalID pe db v = Inr old"
      "update_member pe now v ?f db = Inr (db1, n)" by (rule pg_member_updateE) blast
    then have "v = u" using u by simp
    with v(3) have d: "distinct (map (\<lambda>r. pe_citext pe (pm_email r)) ?rows)"
      using update_member_Inr by fastforce
    obtain r where r: "r \<in> set (db_members db)" "pm_external_id r = u"
      using v(2) \<open>v = u\<close> by (auto simp: getMemberByExternalID_eq [OF ok] split: option.splits dest: find_SomeD)
    fix x assume x: "x \<in> set (db_members db)" "pm_external_id x \<noteq> u"
    have "set_updated_at pe now (?f r) \<in> set ?rows" "x \<in> set ?rows"
      using r x by (force simp: set_update_rows)+
    moreover have "set_updated_at pe now (?f r) \<noteq> x"
      using r(2) x(2) by (auto simp: set_updated_at_def)
    ultimately have "pe_citext pe (pm_email (set_updated_at pe now (?f r))) \<noteq> pe_citext pe (pm_email x)"
      using d by (auto simp: distinct_map inj_on_def)
    then show "pe_citext pe (pm_email x) \<noteq> pe_citext pe (mr_email m)" by (auto simp: set_updated_at_def)
  qed
  assume asm: "(\<exists>r. member_update (members_abs pe issuer db) (norm_member pe m) = Inr r) \<and>
    (\<forall>x \<in> set (db_members db). pm_external_id x \<noteq> u \<longrightarrow>
       pe_citext pe (pm_email x) \<noteq> pe_citext pe (mr_email m))"
  then obtain r where r: "find (\<lambda>x. pm_external_id x = u) (db_members db) = Some r"
    "pm_subject_sub r = mr_subject m"
    by (auto simp: member_update_def id members_abs_lookup [OF env] stored_member_def
        split: option.splits if_splits)
  then have rin: "r \<in> set (db_members db)" "pm_external_id r = u" by (auto dest: find_SomeD)
  have "distinct (map (\<lambda>r. pe_citext pe (pm_email r)) ?rows)"
    using asm members_okD(3,5) [OF ok]
    by (intro distinct_update_rows [where k = "pe_citext pe (mr_email m)"]) (auto simp: set_updated_at_def)
  then obtain n where upd: "update_member pe now u ?f db = Inr (db\<lparr>db_members := ?rows\<rparr>, n)" "n \<noteq> 0"
    using rin by (auto simp: update_member_def Let_def filter_empty_conv)
  have ok1: "members_ok pe (db\<lparr>db_members := ?rows\<rparr>)" by (rule update_member_ok [OF ok upd(1)]) simp
  have "set_updated_at pe now (?f r) \<in> set ?rows" using rin by (force simp: set_update_rows)
  from upsertVehicleProfile_total [OF ok1, of "set_updated_at pe now (?f r)" u now] this rin(2)
  have "\<exists>db'. upsertVehicleProfile pe now u vp (db\<lparr>db_members := ?rows\<rparr>) = Inr db'" for vp
    by (auto simp: set_updated_at_def)
  then show "\<exists>db'. pg_member_update pe (Some db) now m = Inr db'"
    using upd r
    by (cases "mr_vehicle_profile m")
       (simp_all add: pg_member_update_def u getMemberByExternalID_eq [OF ok] stored_member_def on_error_Inr)
qed

section \<open>Listing and searching\<close>

text \<open>The database orders names as the Go code does: \<open>lower\<close> and the collation agree with
  \<open>strings.ToLower\<close> and the byte order (as under the C collation on ASCII names).\<close>

definition collation_agrees :: "go_env \<Rightarrow> pg_env \<Rightarrow> bool" where
  "collation_agrees env pe \<longleftrightarrow>
     (\<forall>s t. pe_collate pe (pe_lower pe s) \<le> pe_collate pe (pe_lower pe t) \<longleftrightarrow>
            to_lower env s \<le> to_lower env t)"

lemma collation_agrees_iff:
  assumes "collation_agrees env pe"
  shows "pe_collate pe (pe_lower pe s) < pe_collate pe (pe_lower pe t) \<longleftrightarrow> to_lower env s < to_lower env t"
    and "pe_collate pe (pe_lower pe s) = pe_collate pe (pe_lower pe t) \<longleftrightarrow> to_lower env s = to_lower env t"
proof -
  have *: "pe_collate pe (pe_lower pe s) \<le> pe_collate pe (pe_lower pe t) \<longleftrightarrow> to_lower env s \<le> to_lower env t"
    for s t using assms by (simp add: collation_agrees_def)
  show "pe_collate pe (pe_lower pe s) < pe_collate pe (pe_lower pe t) \<longleftrightarrow> to_lower env s < to_lower env t"
    using * [of s t] * [of t s] by (simp add: less_le_not_le)
  show "pe_collate pe (pe_lower pe s) = pe_collate pe (pe_lower pe t) \<longleftrightarrow> to_lower env s = to_lower env t"
    using * [of s t] * [of t s] by (metis order_antisym order_refl)
qed

lemma scan_sorted:
  assumes env: "pg_env_ok pe" and coll: "collation_agrees env pe"
  shows "map (scanMember pe) (order_by (member_order pe) rows) =
    sort_slice (less_member_row env) (map (scanMember pe) rows)"
proof -
  have "member_order pe x \<le> member_order pe y \<longleftrightarrow>
      member_row_key env (scanMember pe x) \<le> member_row_key env (scanMember pe y)" for x y
    by (cases x; cases y)
       (auto simp: member_order_def member_row_key_def collation_agrees_iff [OF coll]
          le_less pg_env_okD(3) [OF env] uuid_string_eq_iff [OF env])
  then show ?thesis by (simp add: order_by_def mrow_order.sort_slice_sort_key sort_key_map)
qed

lemma sortMembersByDisplayName_sorts: "sortMembersByDisplayName env = sort_slice (less_member_row env)"
  by (rule ext) (simp add: sortMembersByDisplayName_def less_scanned_member_def [abs_def]
      less_member_row_def [abs_def])

lemma members_abs_vals: "vals (mb_by_id (members_abs pe issuer db)) = map (stored_member pe db) (db_members db)"
  by (simp add: members_abs_def comp_def)

lemma pg_member_list_abs:
  assumes env: "pg_env_ok pe" and ok: "members_ok pe db" and coll: "collation_agrees env pe"
  shows "pg_member_list pe (Some db) inactive = Inr (member_list env (members_abs pe issuer db) inactive)"
  by (simp add: pg_member_list_def scan_sorted [OF env coll] members_left_join_eq [OF ok] member_list_def
      members_abs_vals filter_map comp_def stored_member_def imp_conv_disj)

text \<open>A pattern without wildcards between two percent signs is a substring test.\<close>

lemma like_literal:
  "list_all (\<lambda>p. p \<notin> {0x25, 0x5F, 0x5C}) ts \<Longrightarrow>
   like_runes ss (ts @ [0x25]) \<longleftrightarrow> (\<exists>b. ss = ts @ b)"
proof (induction ts arbitrary: ss)
  case Nil
  have "like_runes ss [0x25]" by (induction ss) simp_all
  then show ?case by simp
next
  case (Cons t ts)
  then show ?case by (cases ss) auto
qed

lemma like_substring:
  assumes "list_all (\<lambda>p. p \<notin> {0x25, 0x5F, 0x5C}) ts"
  shows "like_runes ss (0x25 # ts @ [0x25]) \<longleftrightarrow> (\<exists>a b. ss = a @ ts @ b)"
proof (induction ss)
  case Nil
  then show ?case using like_literal [OF assms, of "[]"] by simp
next
  case (Cons s ss)
  have "(\<exists>a b. s # ss = a @ ts @ b) \<longleftrightarrow> (\<exists>b. s # ss = ts @ b) \<or> (\<exists>a b. ss = a @ ts @ b)"
    by (metis append_Cons append_Nil append_eq_Cons_conv)
  with Cons like_literal [OF assms, of "s # ss"] show ?case by simp
qed

definition ascii :: "gostring \<Rightarrow> bool" where
  "ascii s \<longleftrightarrow> list_all (\<lambda>c. byte_of c < 0x80) s"

definition no_wildcard :: "gostring \<Rightarrow> bool" where
  "no_wildcard s \<longleftrightarrow> list_all (\<lambda>c. c \<notin> set ''%_'' \<and> byte_of c \<noteq> 0x5C) s"

lemma runes_ascii: "ascii s \<Longrightarrow> runes s = map byte_of s"
proof (induction s)
  case Nil
  then show ?case by (simp add: runes.simps)
next
  case (Cons c s)
  then have "decode_rune (c # s) = (byte_of c, 1)"
    by (simp add: ascii_def decode_rune_def decode_bytes_def)
  with Cons show ?case by (simp add: runes.simps [of "c # s"] ascii_def)
qed

lemma byte_of_inj: "byte_of c = byte_of d \<longleftrightarrow> c = d"
  by (simp add: byte_of_def)

lemma sql_like_contains:
  assumes "ascii s" and "ascii tok" and "no_wildcard tok"
  shows "sql_like s (''%'' @ tok @ ''%'') \<longleftrightarrow> contains_str s tok"
proof -
  have pc: "byte_of CHR ''%'' = 0x25" "byte_of CHR ''_'' = 0x5F" by (simp_all add: byte_of_def)
  have "list_all (\<lambda>p. p \<notin> {0x25, 0x5F, 0x5C}) (map byte_of tok)"
    using assms(3) by (auto simp: no_wildcard_def list_all_iff pc [symmetric] byte_of_inj)
  from like_substring [OF this, of "map byte_of s"]
  have "sql_like s (''%'' @ tok @ ''%'') \<longleftrightarrow> (\<exists>a b. map byte_of s = a @ map byte_of tok @ b)"
    using assms(1,2) by (simp add: sql_like_def runes_ascii ascii_def pc)
  also have "\<dots> \<longleftrightarrow> (\<exists>a b. s = a @ tok @ b)"
  proof
    assume "\<exists>a b. map byte_of s = a @ map byte_of tok @ b"
    then obtain a b where "map byte_of s = a @ map byte_of tok @ b" by blast
    then obtain a' r where s: "s = a' @ r" and r: "map byte_of r = map byte_of tok @ b"
      by (metis map_eq_append_conv)
    from r obtain t b' where "r = t @ b'" "map byte_of t = map byte_of tok"
      by (metis map_eq_append_conv)
    with s have "s = a' @ t @ b'" "map byte_of t = map byte_of tok" by simp_all
    moreover from this(2) have "t = tok"
      by (rule map_injective) (simp add: inj_def byte_of_inj)
    ultimately show "\<exists>a b. s = a @ tok @ b" by blast
  qed (metis map_append)
  finally show ?thesis by (simp add: contains_str_iff)
qed

lemma pg_tokenize_eq: "pg_tokenize env q = tokenize env q"
  by (simp add: pg_tokenize_def tokenize_def)

lemma pg_member_search_abs:
  assumes env: "pg_env_ok pe" and ok: "members_ok pe db" and coll: "collation_agrees env pe"
    and lower: "\<And>m. m \<in> set (db_members db) \<Longrightarrow>
      ascii (pm_display_name m) \<and> pe_lower pe (pm_display_name m) = to_lower env (pm_display_name m)"
    and toks: "\<And>t. t \<in> set (tokenize env q) \<Longrightarrow> ascii t \<and> no_wildcard t"
  shows "pg_member_search env pe (Some db) q limit =
    Inr (member_search env (members_abs pe issuer db) q limit)"
proof (cases "tokenize env q = []")
  case True
  then show ?thesis by (simp add: pg_member_search_def pg_tokenize_eq member_search_def)
next
  case False
  let ?hits = "filter (\<lambda>(m, v). pm_is_active m \<and>
      list_all (\<lambda>tok. sql_like (pe_lower pe (pm_display_name m)) (''%'' @ tok @ ''%'')) (tokenize env q))
    (members_left_join db)"
  let ?sorted = "sort_slice (less_member_row env) (map (scanMember pe) ?hits)"
  have low: "ascii (to_lower env s)" if "ascii s" for s
    using that by (auto simp: to_lower_def ascii_def list_all_iff byte_of_def lower_ascii_def)
  have match: "list_all (\<lambda>tok. sql_like (pe_lower pe (pm_display_name m)) (''%'' @ tok @ ''%'')) (tokenize env q)
      \<longleftrightarrow> matchesAllTokens env (pm_display_name m) (tokenize env q)" if "m \<in> set (db_members db)" for m
  proof -
    have "ascii (to_lower env (pm_display_name m))" using lower [OF that] low by blast
    from sql_like_contains [OF this] toks lower [OF that] show ?thesis
      by (auto simp: matchesAllTokens_def matches_all_tokens_iff list_all_iff)
  qed
  have "map (scanMember pe) ?hits = filter (\<lambda>m. mr_is_active m \<and>
      matchesAllTokens env (mr_display_name m) (tokenize env q)) (map (stored_member pe db) (db_members db))"
    by (simp add: members_left_join_eq [OF ok] filter_map comp_def stored_member_def [abs_def]
        match [simplified] cong: filter_cong)
  then have mem: "member_search env (members_abs pe issuer db) q limit =
      (if limit > 0 \<and> int (length ?sorted) > limit then take (nat limit) ?sorted else ?sorted)"
    using False by (simp add: member_search_def members_abs_vals Let_def)
  have again: "sort_slice (less_member_row env) (take n ?sorted) = take n ?sorted" for n
    by (intro mrow_order.sort_slice_id) (simp add: take_map [symmetric] sorted_wrt_take mrow_order.sorted_slice)
  define rows where "rows = order_by (member_order pe) ?hits"
  have sorted: "map (scanMember pe) rows = ?sorted" by (simp only: rows_def scan_sorted [OF env coll])
  have "map (scanMember pe) (if limit > 0 then take (nat limit) rows else rows) =
      (if limit > 0 then take (nat limit) ?sorted else ?sorted)"
    by (simp only: sorted take_map [symmetric] if_distrib [of "map (scanMember pe)"])
  moreover have "sort_slice (less_member_row env) (if limit > 0 then take (nat limit) ?sorted else ?sorted) =
      (if limit > 0 then take (nat limit) ?sorted else ?sorted)"
    using again [of "nat limit"] again [of "length ?sorted"] by (simp only: take_all order_refl split: if_split) simp
  ultimately have "pg_member_search env pe (Some db) q limit =
      (let out = (if limit > 0 then take (nat limit) ?sorted else ?sorted)
       in Inr (if limit > 0 \<and> int (length out) > limit then take (nat limit) out else out))"
    using False
    by (simp only: pg_member_search_def with_pool_simps pg_tokenize_eq Let_def if_False
        sortMembersByDisplayName_sorts rows_def [symmetric])
  then show ?thesis unfolding mem by (auto simp: Let_def)
qed

end
