(* ===== verification/PgRsvpRepo.thy ===== *)
theory PgRsvpRepo
  imports PgMemberRepo
begin

text \<open>
  The Postgres RSVP repository (internal/adapters/postgres/rsvprepo/repo.go): table
  \<open>trip_rsvps\<close> with its trigger \<open>enforce_rsvp_rules\<close>, which runs before every insert and update
  of a row, and once more as an insert when an \<open>ON CONFLICT\<close> statement ends as an update. It
  holds the row of the trip locked (\<open>FOR UPDATE\<close>), so that the count it checks and the write
  are one step.
\<close>

section \<open>The trigger\<close>

definition yes_count :: "pg_db \<Rightarrow> nat \<Rightarrow> int" where
  "yes_count db tid = int (length (filter (\<lambda>r. pr_trip_id r = tid \<and> pr_response r = Yes) (db_rsvps db)))"

text \<open>\<open>old\<close> is \<open>OLD.response\<close>, \<open>None\<close> on an insert; a NULL trip or member is \<open>None\<close>.\<close>

definition enforce_rsvp_rules ::
    "rsvp_response option \<Rightarrow> nat option \<Rightarrow> nat option \<Rightarrow> rsvp_response \<Rightarrow> pg_db \<Rightarrow> pg_error + unit" where
  "enforce_rsvp_rules old tid mid response db =
     (case query_row (filter (\<lambda>t. Some (pt_id t) = tid) (db_trips db)) of
        None \<Rightarrow> raise ForeignKeyViolationCode ''''
      | Some t \<Rightarrow>
          if pt_status t \<noteq> Published then raise CheckViolationCode ''''
          else (case pt_capacity_rigs t of
             None \<Rightarrow> raise CheckViolationCode ''''
           | Some capacity \<Rightarrow>
               if capacity < 1 then raise CheckViolationCode ''''
               else
                 let is_yes_transition =
                       (case old of None \<Rightarrow> response = Yes | Some prev \<Rightarrow> prev \<noteq> Yes \<and> response = Yes);
                     current_yes = int (length (filter (\<lambda>r. Some (pr_trip_id r) = tid \<and>
                         pr_response r = Yes \<and> \<not> (old \<noteq> None \<and> Some (pr_member_id r) = mid))
                       (db_rsvps db)))
                 in if is_yes_transition \<and> current_yes \<ge> capacity then raise CheckViolationCode ''''
                    else Inr ()))"

text \<open>The cast of a string to the enumeration type \<open>rsvp_response\<close>.\<close>

fun cast_rsvp_response :: "rsvp_response \<Rightarrow> pg_error + rsvp_response" where
  "cast_rsvp_response (OtherResponse s) = raise InvalidTextCode ''''"
| "cast_rsvp_response r = Inr r"

section \<open>Methods\<close>

definition rsvp_join :: "pg_db \<Rightarrow> (pg_rsvp \<times> pg_trip \<times> pg_member) list" where
  "rsvp_join db = [(r, t, m). r \<leftarrow> db_rsvps db, t \<leftarrow> db_trips db, m \<leftarrow> db_members db,
     pt_id t = pr_trip_id r \<and> pm_id m = pr_member_id r]"

definition pg_rsvp_get ::
    "pg_env \<Rightarrow> pg_db option \<Rightarrow> TripID \<Rightarrow> MemberID \<Rightarrow> goerror + rsvp" where
  "pg_rsvp_get pe pool trip_id member_id =
     with_pool pool (\<lambda>db.
       case pe_uuid_parse pe trip_id of Inl _ \<Rightarrow> Inl RsvpNotFound
       | Inr tid \<Rightarrow>
         (case pe_uuid_parse pe member_id of Inl _ \<Rightarrow> Inl RsvpNotFound
          | Inr mid \<Rightarrow>
            (case query_row (filter (\<lambda>(r, t, m). pt_external_id t = tid \<and> pm_external_id m = mid)
                      (rsvp_join db)) of
               None \<Rightarrow> Inl RsvpNotFound
             | Some (r, t, m) \<Rightarrow>
                 Inr \<lparr>rs_trip = trip_id, rs_member = member_id, rs_status = pr_response r,
                      rs_updated_at = pr_updated_at r\<rparr>)))"

text \<open>The statement of \<open>Upsert\<close>: the values, the cast, the trigger of the insert, the not-null
  constraint, then the insert or, on a conflict, the trigger of the update and the update. Both
  triggers put the transaction's time over the row's \<open>updated_at\<close>.\<close>

definition upsert_rsvp ::
    "pg_env \<Rightarrow> gotime \<Rightarrow> uuid \<Rightarrow> uuid \<Rightarrow> rsvp_response \<Rightarrow> pg_db \<Rightarrow> pg_error + pg_db" where
  "upsert_rsvp pe now t m status db =
     (let tid = trip_pk db t; mid = member_pk db m in
      and_then (cast_rsvp_response status) (\<lambda>response.
      and_then (enforce_rsvp_rules None tid mid response db) (\<lambda>_.
        case (tid, mid) of
          (Some tk, Some mk) \<Rightarrow>
            (let row = \<lparr>pr_trip_id = tk, pr_member_id = mk, pr_response = response,
                        pr_updated_at = pe_timestamp pe now\<rparr>;
                 key = (\<lambda>r. (pr_trip_id r, pr_member_id r));
                 write = db\<lparr>db_rsvps := upsert_row key (\<lambda>excluded r. excluded) row (db_rsvps db)\<rparr>
             in case query_row (filter (\<lambda>r. key r = (tk, mk)) (db_rsvps db)) of
                  None \<Rightarrow> Inr write
                | Some old \<Rightarrow>
                    and_then (enforce_rsvp_rules (Some (pr_response old)) tid mid response db)
                      (\<lambda>_. Inr write))
        | _ \<Rightarrow> raise NotNullViolationCode '''')))"

definition pg_rsvp_upsert :: "pg_env \<Rightarrow> pg_db option \<Rightarrow> gotime \<Rightarrow> rsvp \<Rightarrow> goerror + pg_db" where
  "pg_rsvp_upsert pe pool now rec =
     with_pool pool (\<lambda>db.
       case pe_uuid_parse pe (rs_trip rec) of
         Inl e \<Rightarrow> Inl (OtherError (''invalid trip id: '' @ e))
       | Inr tid \<Rightarrow>
         (case pe_uuid_parse pe (rs_member rec) of
            Inl e \<Rightarrow> Inl (OtherError (''invalid member id: '' @ e))
          | Inr mid \<Rightarrow> on_error (server_error pe) (upsert_rsvp pe now tid mid (rs_status rec) db)))"

definition pg_rsvp_list_by_trip :: "pg_env \<Rightarrow> pg_db option \<Rightarrow> TripID \<Rightarrow> goerror + rsvp list" where
  "pg_rsvp_list_by_trip pe pool trip_id =
     with_pool pool (\<lambda>db.
       case pe_uuid_parse pe trip_id of Inl _ \<Rightarrow> Inr []
       | Inr tid \<Rightarrow>
           Inr (map (\<lambda>(r, t, m). \<lparr>rs_trip = trip_id, rs_member = pe_uuid_string pe (pm_external_id m),
                                  rs_status = pr_response r, rs_updated_at = pr_updated_at r\<rparr>)
             (order_by (\<lambda>(r, t, m). (pm_external_id m, pr_updated_at r))
               (filter (\<lambda>(r, t, m). pt_external_id t = tid) (rsvp_join db)))))"

definition pg_rsvp_count_yes_by_trip :: "pg_env \<Rightarrow> pg_db option \<Rightarrow> TripID \<Rightarrow> goerror + int" where
  "pg_rsvp_count_yes_by_trip pe pool trip_id =
     with_pool pool (\<lambda>db.
       case pe_uuid_parse pe trip_id of Inl _ \<Rightarrow> Inr 0
       | Inr tid \<Rightarrow>
           Inr (int (length [r. r \<leftarrow> db_rsvps db, t \<leftarrow> db_trips db,
             pt_id t = pr_trip_id r \<and> pt_external_id t = tid \<and> pr_response r = Yes])))"

section \<open>The constraints as an invariant\<close>

definition rsvps_ok :: "pg_db \<Rightarrow> bool" where
  "rsvps_ok db \<longleftrightarrow>
     distinct (map pt_id (db_trips db)) \<and> distinct (map pt_external_id (db_trips db)) \<and>
     distinct (map pm_id (db_members db)) \<and> distinct (map pm_external_id (db_members db)) \<and>
     distinct (map (\<lambda>r. (pr_trip_id r, pr_member_id r)) (db_rsvps db)) \<and>
     pr_trip_id ` set (db_rsvps db) \<subseteq> pt_id ` set (db_trips db) \<and>
     pr_member_id ` set (db_rsvps db) \<subseteq> pm_id ` set (db_members db)"

lemma rsvps_okD:
  assumes "rsvps_ok db"
  shows "distinct (map pt_id (db_trips db))" and "distinct (map pt_external_id (db_trips db))"
    and "distinct (map pm_id (db_members db))" and "distinct (map pm_external_id (db_members db))"
    and "distinct (map (\<lambda>r. (pr_trip_id r, pr_member_id r)) (db_rsvps db))"
    and "pr_trip_id ` set (db_rsvps db) \<subseteq> pt_id ` set (db_trips db)"
    and "pr_member_id ` set (db_rsvps db) \<subseteq> pm_id ` set (db_members db)"
  using assms unfolding rsvps_ok_def by blast+

definition trip_by_pk :: "pg_db \<Rightarrow> nat \<Rightarrow> pg_trip" where
  "trip_by_pk db k = the (find (\<lambda>t. pt_id t = k) (db_trips db))"

definition member_by_pk :: "pg_db \<Rightarrow> nat \<Rightarrow> pg_member" where
  "member_by_pk db k = the (find (\<lambda>m. pm_id m = k) (db_members db))"

lemma trip_by_pk:
  "rsvps_ok db \<Longrightarrow> t \<in> set (db_trips db) \<Longrightarrow> trip_by_pk db (pt_id t) = t"
  by (simp add: trip_by_pk_def find_unique rsvps_okD(1))

lemma member_by_pk:
  "rsvps_ok db \<Longrightarrow> m \<in> set (db_members db) \<Longrightarrow> member_by_pk db (pm_id m) = m"
  by (simp add: member_by_pk_def find_unique rsvps_okD(3))

lemma trip_pk_Some:
  "trip_pk db u = Some k \<Longrightarrow> \<exists>t \<in> set (db_trips db). pt_external_id t = u \<and> pt_id t = k"
  by (auto simp: trip_pk_def find_Some_iff)

lemma trip_pk_row:
  "rsvps_ok db \<Longrightarrow> t \<in> set (db_trips db) \<Longrightarrow> pt_external_id t = u \<Longrightarrow> trip_pk db u = Some (pt_id t)"
  by (simp add: trip_pk_def find_unique rsvps_okD(2))

lemma member_pk_row':
  "rsvps_ok db \<Longrightarrow> m \<in> set (db_members db) \<Longrightarrow> pm_external_id m = u \<Longrightarrow>
   member_pk db u = Some (pm_id m)"
  by (simp add: member_pk_def find_unique rsvps_okD(4))

lemma concat_map_if_unique:
  assumes "distinct (map key rows)" and "r \<in> set rows" and "key r = k"
  shows "concat (map (\<lambda>x. if key x = k then f x else []) rows) = f r"
proof -
  have "concat (map (\<lambda>x. if key x = k then f x else []) rows) = concat (map f (filter (\<lambda>x. key x = k) rows))"
    by (induction rows) simp_all
  then show ?thesis using find_unique [OF assms] filter_unique [OF assms(1), of k] by simp
qed

text \<open>Every RSVP row joins with its trip and its member, once.\<close>

lemma rsvp_join_eq:
  assumes ok: "rsvps_ok db"
  shows "rsvp_join db =
    map (\<lambda>r. (r, trip_by_pk db (pr_trip_id r), member_by_pk db (pr_member_id r))) (db_rsvps db)"
proof -
  have "concat (map (\<lambda>t. concat (map (\<lambda>m. if pt_id t = pr_trip_id r \<and> pm_id m = pr_member_id r
          then [(r, t, m)] else []) (db_members db))) (db_trips db)) =
      [(r, trip_by_pk db (pr_trip_id r), member_by_pk db (pr_member_id r))]"
    if r: "r \<in> set (db_rsvps db)" for r
  proof -
    have "pr_trip_id r \<in> pt_id ` set (db_trips db)" "pr_member_id r \<in> pm_id ` set (db_members db)"
      using rsvps_okD(6,7) [OF ok] r by blast+
    then obtain t m where t: "t \<in> set (db_trips db)" "pt_id t = pr_trip_id r"
      and m: "m \<in> set (db_members db)" "pm_id m = pr_member_id r" by auto
    have "concat (map (\<lambda>m. if pt_id x = pr_trip_id r \<and> pm_id m = pr_member_id r
          then [(r, x, m)] else []) (db_members db)) = (if pt_id x = pr_trip_id r then [(r, x, m)] else [])"
      for x :: pg_trip
      using concat_map_if_unique [OF rsvps_okD(3) [OF ok] m, of "\<lambda>m. [(r, x, m)]"] by simp
    then show ?thesis
      using concat_map_if_unique [OF rsvps_okD(1) [OF ok] t, of "\<lambda>t. [(r, t, m)]"]
        trip_by_pk [OF ok t(1)] member_by_pk [OF ok m(1)] t(2) m(2) by simp
  qed
  note each = this
  have "concat (map (\<lambda>r. concat (map (\<lambda>t. concat (map (\<lambda>m. if pt_id t = pr_trip_id r \<and> pm_id m = pr_member_id r
          then [(r, t, m)] else []) (db_members db))) (db_trips db))) rs) =
      map (\<lambda>r. (r, trip_by_pk db (pr_trip_id r), member_by_pk db (pr_member_id r))) rs"
    if "set rs \<subseteq> set (db_rsvps db)" for rs
    using that each by (induction rs) simp_all
  then show ?thesis by (simp add: rsvp_join_def)
qed

lemma rsvp_row_refs:
  assumes ok: "rsvps_ok db" and r: "r \<in> set (db_rsvps db)"
  shows "trip_by_pk db (pr_trip_id r) \<in> set (db_trips db)" "pt_id (trip_by_pk db (pr_trip_id r)) = pr_trip_id r"
    and "member_by_pk db (pr_member_id r) \<in> set (db_members db)"
    "pm_id (member_by_pk db (pr_member_id r)) = pr_member_id r"
proof -
  have "pr_trip_id r \<in> pt_id ` set (db_trips db)" "pr_member_id r \<in> pm_id ` set (db_members db)"
    using rsvps_okD(6,7) [OF ok] r by blast+
  then obtain t m where t: "t \<in> set (db_trips db)" "pt_id t = pr_trip_id r"
    and m: "m \<in> set (db_members db)" "pm_id m = pr_member_id r" by auto
  with trip_by_pk [OF ok t(1)] member_by_pk [OF ok m(1)]
  show "trip_by_pk db (pr_trip_id r) \<in> set (db_trips db)" "pt_id (trip_by_pk db (pr_trip_id r)) = pr_trip_id r"
    and "member_by_pk db (pr_member_id r) \<in> set (db_members db)"
    "pm_id (member_by_pk db (pr_member_id r)) = pr_member_id r" by simp_all
qed

section \<open>Refinement of the in-memory repository\<close>

definition trip_uuid :: "pg_db \<Rightarrow> nat \<Rightarrow> uuid" where
  "trip_uuid db k = pt_external_id (trip_by_pk db k)"

definition member_uuid :: "pg_db \<Rightarrow> nat \<Rightarrow> uuid" where
  "member_uuid db k = pm_external_id (member_by_pk db k)"

definition stored_rsvp :: "pg_env \<Rightarrow> pg_db \<Rightarrow> pg_rsvp \<Rightarrow> rsvp" where
  "stored_rsvp pe db r =
     \<lparr>rs_trip = pe_uuid_string pe (trip_uuid db (pr_trip_id r)),
      rs_member = pe_uuid_string pe (member_uuid db (pr_member_id r)),
      rs_status = pr_response r, rs_updated_at = pr_updated_at r\<rparr>"

definition rsvps_abs :: "pg_env \<Rightarrow> pg_db \<Rightarrow> rsvp_repo" where
  "rsvps_abs pe db = \<lparr>rv_m = map (\<lambda>r. ((rs_trip (stored_rsvp pe db r), rs_member (stored_rsvp pe db r)),
     stored_rsvp pe db r)) (db_rsvps db)\<rparr>"

lemma trip_uuid_iff:
  assumes "rsvps_ok db" and "k \<in> pt_id ` set (db_trips db)" and "k' \<in> pt_id ` set (db_trips db)"
  shows "trip_uuid db k = trip_uuid db k' \<longleftrightarrow> k = k'"
  using assms(2,3) rsvps_okD(2) [OF assms(1)] trip_by_pk [OF assms(1)]
  by (auto simp: trip_uuid_def distinct_map inj_on_def)

lemma member_uuid_iff:
  assumes "rsvps_ok db" and "k \<in> pm_id ` set (db_members db)" and "k' \<in> pm_id ` set (db_members db)"
  shows "member_uuid db k = member_uuid db k' \<longleftrightarrow> k = k'"
  using assms(2,3) rsvps_okD(4) [OF assms(1)] member_by_pk [OF assms(1)]
  by (auto simp: member_uuid_def distinct_map inj_on_def)

lemma stored_rsvp_key_iff:
  assumes env: "pg_env_ok pe" and ok: "rsvps_ok db" and r: "r \<in> set (db_rsvps db)"
    and t: "t \<in> set (db_trips db)" and m: "m \<in> set (db_members db)"
  shows "pe_uuid_string pe (pt_external_id t) = rs_trip (stored_rsvp pe db r) \<longleftrightarrow> pr_trip_id r = pt_id t"
    and "pe_uuid_string pe (pm_external_id m) = rs_member (stored_rsvp pe db r) \<longleftrightarrow>
         pr_member_id r = pm_id m"
proof -
  have "pr_trip_id r \<in> pt_id ` set (db_trips db)" "pr_member_id r \<in> pm_id ` set (db_members db)"
    using rsvps_okD(6,7) [OF ok] r by blast+
  then show "pe_uuid_string pe (pt_external_id t) = rs_trip (stored_rsvp pe db r) \<longleftrightarrow> pr_trip_id r = pt_id t"
    "pe_uuid_string pe (pm_external_id m) = rs_member (stored_rsvp pe db r) \<longleftrightarrow> pr_member_id r = pm_id m"
    using trip_uuid_iff [OF ok, of "pr_trip_id r" "pt_id t"] member_uuid_iff [OF ok, of "pr_member_id r" "pm_id m"]
      t m trip_by_pk [OF ok t] member_by_pk [OF ok m]
    by (auto simp: stored_rsvp_def uuid_string_eq_iff [OF env] trip_uuid_def member_uuid_def)
qed

lemma stored_rsvp_inj:
  assumes env: "pg_env_ok pe" and ok: "rsvps_ok db"
    and "r \<in> set (db_rsvps db)" and "r' \<in> set (db_rsvps db)"
  shows "(rs_trip (stored_rsvp pe db r), rs_member (stored_rsvp pe db r)) =
      (rs_trip (stored_rsvp pe db r'), rs_member (stored_rsvp pe db r')) \<longleftrightarrow>
    (pr_trip_id r, pr_member_id r) = (pr_trip_id r', pr_member_id r')"
  using assms(3,4) rsvps_okD(6,7) [OF ok]
  by (auto simp: stored_rsvp_def uuid_string_eq_iff [OF env] trip_uuid_iff [OF ok] member_uuid_iff [OF ok] image_subset_iff)

lemma rsvps_abs_wf:
  assumes env: "pg_env_ok pe" and ok: "rsvps_ok db"
  shows "wf_rsvp_repo (rsvps_abs pe db)"
proof -
  have "distinct (map (\<lambda>r. (rs_trip (stored_rsvp pe db r), rs_member (stored_rsvp pe db r))) (db_rsvps db))"
    using rsvps_okD(5) [OF ok] stored_rsvp_inj [OF env ok] unfolding distinct_map inj_on_def by blast
  then show ?thesis by (auto simp: wf_rsvp_repo_def rsvps_abs_def wf_map_def comp_def)
qed

lemma rsvps_abs_lookup:
  assumes env: "pg_env_ok pe" and ok: "rsvps_ok db"
    and t: "t \<in> set (db_trips db)" and m: "m \<in> set (db_members db)"
  shows "rsvp_lookup (rsvps_abs pe db)
      (pe_uuid_string pe (pt_external_id t), pe_uuid_string pe (pm_external_id m)) =
    map_option (stored_rsvp pe db)
      (find (\<lambda>r. (pr_trip_id r, pr_member_id r) = (pt_id t, pm_id m)) (db_rsvps db))"
proof -
  have "map_of (map (\<lambda>r. ((rs_trip (stored_rsvp pe db r), rs_member (stored_rsvp pe db r)), stored_rsvp pe db r)) rs)
      (pe_uuid_string pe (pt_external_id t), pe_uuid_string pe (pm_external_id m)) =
    map_option (stored_rsvp pe db) (find (\<lambda>r. (pr_trip_id r, pr_member_id r) = (pt_id t, pm_id m)) rs)"
    if "set rs \<subseteq> set (db_rsvps db)" for rs
    using that by (induction rs) (simp_all add: stored_rsvp_key_iff [OF env ok _ t m])
  then show ?thesis by (simp add: rsvp_lookup_def rsvps_abs_def)
qed

lemma rsvps_abs_keys:
  assumes "rsvps_ok db" and "(k, v) \<in> set (rv_m (rsvps_abs pe db))"
  obtains t m where "t \<in> set (db_trips db)" and "m \<in> set (db_members db)"
    and "k = (pe_uuid_string pe (pt_external_id t), pe_uuid_string pe (pm_external_id m))"
proof -
  obtain r where r: "r \<in> set (db_rsvps db)"
    and k: "k = (rs_trip (stored_rsvp pe db r), rs_member (stored_rsvp pe db r))"
    using assms(2) by (auto simp: rsvps_abs_def)
  note refs = rsvp_row_refs [OF assms(1) r]
  show ?thesis
    by (rule that [OF refs(1,3)]) (simp add: k stored_rsvp_def trip_uuid_def member_uuid_def)
qed

lemma stored_keys_find:
  assumes "pg_env_ok pe"
  shows "map_of (map (\<lambda>r. ((rs_trip (stored_rsvp pe db r), rs_member (stored_rsvp pe db r)), stored_rsvp pe db r)) rs)
      (pe_uuid_string pe t, pe_uuid_string pe m) =
    map_option (stored_rsvp pe db)
      (find (\<lambda>r. trip_uuid db (pr_trip_id r) = t \<and> member_uuid db (pr_member_id r) = m) rs)"
  by (induction rs) (auto simp: stored_rsvp_def uuid_string_eq_iff [OF assms])

lemma find_map: "find P (map f xs) = map_option f (find (P \<circ> f) xs)"
  by (induction xs) simp_all

text \<open>\<open>canonical_id pe i = i\<close>: an ID as the database prints it, or one that does not parse.\<close>

lemma pg_rsvp_get_abs:
  assumes env: "pg_env_ok pe" and ok: "rsvps_ok db"
    and can: "canonical_id pe tid = tid" "canonical_id pe mid = mid"
  shows "pg_rsvp_get pe (Some db) tid mid = rsvp_get (rsvps_abs pe db) tid mid"
proof (cases "pe_uuid_parse pe tid")
  case (Inl e)
  have "map_of (rv_m (rsvps_abs pe db)) (tid, mid) = None"
    using Inl pg_env_okD(1) [OF env]
    by (auto simp: map_of_eq_None_iff rsvps_abs_def stored_rsvp_def)
  with Inl show ?thesis by (simp add: pg_rsvp_get_def rsvp_get_def)
next
  case t: (Inr t)
  show ?thesis
  proof (cases "pe_uuid_parse pe mid")
    case (Inl e)
    have "map_of (rv_m (rsvps_abs pe db)) (tid, mid) = None"
      using Inl pg_env_okD(1) [OF env]
      by (auto simp: map_of_eq_None_iff rsvps_abs_def stored_rsvp_def)
    with Inl t show ?thesis by (simp add: pg_rsvp_get_def rsvp_get_def)
  next
    case m: (Inr m)
    have ids: "tid = pe_uuid_string pe t" "mid = pe_uuid_string pe m"
      using can t m by (simp_all add: canonical_id_def)
    show ?thesis
    proof (cases "find (\<lambda>r. trip_uuid db (pr_trip_id r) = t \<and> member_uuid db (pr_member_id r) = m) (db_rsvps db)")
      case None
      then show ?thesis
        using t m stored_keys_find [OF env, of db "db_rsvps db" t m]
        by (simp add: pg_rsvp_get_def rsvp_get_def rsvp_join_eq [OF ok] query_row_map_filter
            trip_uuid_def member_uuid_def rsvps_abs_def ids)
    next
      case (Some r)
      then have "trip_uuid db (pr_trip_id r) = t" "member_uuid db (pr_member_id r) = m"
        by (auto dest: find_SomeD)
      with Some show ?thesis
        using t m stored_keys_find [OF env, of db "db_rsvps db" t m]
        by (simp add: pg_rsvp_get_def rsvp_get_def rsvp_join_eq [OF ok] query_row_map_filter
            trip_uuid_def member_uuid_def rsvps_abs_def ids stored_rsvp_def)
    qed
  qed
qed

lemma filter_trip_pk:
  "rsvps_ok db \<Longrightarrow> t \<in> set (db_trips db) \<Longrightarrow> filter (\<lambda>x. pt_id x = pt_id t) (db_trips db) = [t]"
  by (simp add: filter_unique [OF rsvps_okD(1)] find_unique rsvps_okD(1))

lemma enforce_insert:
  assumes "rsvps_ok db" and "t \<in> set (db_trips db)"
  shows "enforce_rsvp_rules None (Some (pt_id t)) mid response db = Inr () \<longleftrightarrow>
    pt_status t = Published \<and> (\<exists>c. pt_capacity_rigs t = Some c \<and> 1 \<le> c \<and>
      (response = Yes \<longrightarrow> yes_count db (pt_id t) < c))"
  by (auto simp: enforce_rsvp_rules_def filter_trip_pk [OF assms] raise_def Let_def yes_count_def
      not_le split: option.splits)

text \<open>The second trigger of an upsert that becomes an update never refuses what the first let pass.\<close>

lemma enforce_update:
  assumes ok: "rsvps_ok db" and t: "t \<in> set (db_trips db)"
    and ins: "enforce_rsvp_rules None (Some (pt_id t)) mid response db = Inr ()"
  shows "enforce_rsvp_rules (Some old) (Some (pt_id t)) mid response db = Inr ()"
proof -
  obtain c where t': "pt_status t = Published" "pt_capacity_rigs t = Some c" "1 \<le> c"
    "response = Yes \<longrightarrow> yes_count db (pt_id t) < c"
    using ins enforce_insert [OF ok t] by blast
  have "length (filter (\<lambda>r. pr_trip_id r = pt_id t \<and> pr_response r = Yes \<and> Some (pr_member_id r) \<noteq> mid) (db_rsvps db))
      \<le> length (filter (\<lambda>r. pr_trip_id r = pt_id t \<and> pr_response r = Yes) (db_rsvps db))"
    by (rule length_filter_mono) simp
  with t' show ?thesis
    by (auto simp: enforce_rsvp_rules_def filter_trip_pk [OF ok t] Let_def yes_count_def raise_def)
qed

lemma cast_rsvp_response_Inr:
  "cast_rsvp_response s = Inr r \<longleftrightarrow> r = s \<and> (\<forall>x. s \<noteq> OtherResponse x)"
  by (cases s) (auto simp: raise_def)

lemma enforce_no_trip: "enforce_rsvp_rules old None mid response db \<noteq> Inr ()"
  by (simp add: enforce_rsvp_rules_def raise_def)

abbreviation rsvp_row :: "pg_env \<Rightarrow> gotime \<Rightarrow> nat \<Rightarrow> nat \<Rightarrow> rsvp_response \<Rightarrow> pg_rsvp" where
  "rsvp_row pe now tk mk response \<equiv>
     \<lparr>pr_trip_id = tk, pr_member_id = mk, pr_response = response, pr_updated_at = pe_timestamp pe now\<rparr>"

abbreviation put_rsvp :: "pg_rsvp \<Rightarrow> pg_rsvp list \<Rightarrow> pg_rsvp list" where
  "put_rsvp \<equiv> upsert_row (\<lambda>r. (pr_trip_id r, pr_member_id r)) (\<lambda>excluded r. excluded)"

text \<open>When an upsert is accepted, and what it writes.\<close>

lemma upsert_rsvp_Inr:
  assumes ok: "rsvps_ok db"
  shows "upsert_rsvp pe now u v status db = Inr db' \<longleftrightarrow>
    (\<exists>t m c. t \<in> set (db_trips db) \<and> pt_external_id t = u \<and>
       m \<in> set (db_members db) \<and> pm_external_id m = v \<and>
       pt_status t = Published \<and> pt_capacity_rigs t = Some c \<and> 1 \<le> c \<and>
       (\<forall>s. status \<noteq> OtherResponse s) \<and> (status = Yes \<longrightarrow> yes_count db (pt_id t) < c) \<and>
       db' = db\<lparr>db_rsvps := put_rsvp (rsvp_row pe now (pt_id t) (pm_id m) status) (db_rsvps db)\<rparr>)"
    (is "?l \<longleftrightarrow> ?r")
proof
  assume ?l
  then have cast: "\<forall>s. status \<noteq> OtherResponse s"
    and trg: "enforce_rsvp_rules None (trip_pk db u) (member_pk db v) status db = Inr ()"
    by (auto simp: upsert_rsvp_def Let_def and_then_Inr cast_rsvp_response_Inr)
  then obtain tk where "trip_pk db u = Some tk" using enforce_no_trip by (cases "trip_pk db u") auto
  then obtain t where t: "t \<in> set (db_trips db)" "pt_external_id t = u" and tk: "trip_pk db u = Some (pt_id t)"
    using trip_pk_Some by blast
  obtain mk where "member_pk db v = Some mk"
    using \<open>?l\<close> by (cases "member_pk db v") (auto simp: upsert_rsvp_def Let_def and_then_Inr raise_def split: option.splits)
  then obtain m where m: "m \<in> set (db_members db)" "pm_external_id m = v" and mk: "member_pk db v = Some (pm_id m)"
    using member_pk_Some by blast
  have "db' = db\<lparr>db_rsvps := put_rsvp (rsvp_row pe now (pt_id t) (pm_id m) status) (db_rsvps db)\<rparr>"
    using \<open>?l\<close> by (auto simp: upsert_rsvp_def Let_def and_then_Inr tk mk cast_rsvp_response_Inr split: option.splits)
  with t m cast trg [unfolded tk enforce_insert [OF ok t(1)]] show ?r by blast
next
  assume ?r
  then obtain t m c where t: "t \<in> set (db_trips db)" "pt_external_id t = u"
    and m: "m \<in> set (db_members db)" "pm_external_id m = v" and cast: "\<forall>s. status \<noteq> OtherResponse s"
    and c: "pt_status t = Published" "pt_capacity_rigs t = Some c" "1 \<le> c"
      "status = Yes \<longrightarrow> yes_count db (pt_id t) < c"
    and db': "db' = db\<lparr>db_rsvps := put_rsvp (rsvp_row pe now (pt_id t) (pm_id m) status) (db_rsvps db)\<rparr>"
    by blast
  have ins: "enforce_rsvp_rules None (Some (pt_id t)) mid status db = Inr ()" for mid
    using enforce_insert [OF ok t(1)] c by blast
  have "cast_rsvp_response status = Inr status" using cast by (simp add: cast_rsvp_response_Inr)
  with ins enforce_update [OF ok t(1) ins] show ?l
    by (simp add: upsert_rsvp_def Let_def trip_pk_row [OF ok t] member_pk_row' [OF ok m] db'
        split: option.split)
qed

lemma put_rsvp_ok:
  assumes ok: "rsvps_ok db" and t: "t \<in> set (db_trips db)" and m: "m \<in> set (db_members db)"
  shows "rsvps_ok (db\<lparr>db_rsvps := put_rsvp (rsvp_row pe now (pt_id t) (pm_id m) status) (db_rsvps db)\<rparr>)"
proof -
  let ?row = "rsvp_row pe now (pt_id t) (pm_id m) status"
  note okD = rsvps_okD [OF ok]
  have "set (put_rsvp ?row (db_rsvps db)) \<subseteq> insert ?row (set (db_rsvps db))"
    by (auto simp: upsert_row_set [OF okD(5)] split: option.split)
  then have "pr_trip_id ` set (put_rsvp ?row (db_rsvps db)) \<subseteq> pt_id ` set (db_trips db)"
    "pr_member_id ` set (put_rsvp ?row (db_rsvps db)) \<subseteq> pm_id ` set (db_members db)"
    using okD(6,7) t m by force+
  moreover have "distinct (map (\<lambda>r. (pr_trip_id r, pr_member_id r)) (put_rsvp ?row (db_rsvps db)))"
    by (rule upsert_row_distinct [OF _ okD(5)]) simp
  ultimately show ?thesis using okD(1-4) by (simp add: rsvps_ok_def)
qed

lemma pg_rsvp_upsertE:
  assumes ok: "rsvps_ok db" and ups: "pg_rsvp_upsert pe (Some db) now rec = Inr db'"
  obtains t m c where "t \<in> set (db_trips db)" and "pe_uuid_parse pe (rs_trip rec) = Inr (pt_external_id t)"
    and "m \<in> set (db_members db)" and "pe_uuid_parse pe (rs_member rec) = Inr (pm_external_id m)"
    and "pt_status t = Published" and "pt_capacity_rigs t = Some c" and "1 \<le> c"
    and "\<forall>s. rs_status rec \<noteq> OtherResponse s"
    and "rs_status rec = Yes \<longrightarrow> yes_count db (pt_id t) < c"
    and "db' = db\<lparr>db_rsvps := put_rsvp (rsvp_row pe now (pt_id t) (pm_id m) (rs_status rec)) (db_rsvps db)\<rparr>"
proof -
  obtain u v where uv: "pe_uuid_parse pe (rs_trip rec) = Inr u" "pe_uuid_parse pe (rs_member rec) = Inr v"
    and st: "upsert_rsvp pe now u v (rs_status rec) db = Inr db'"
    using ups by (auto simp: pg_rsvp_upsert_def on_error_Inr split: sum.splits)
  from st [unfolded upsert_rsvp_Inr [OF ok]] uv that show ?thesis by blast
qed

lemma pg_rsvp_upsert_ok:
  assumes "rsvps_ok db" and "pg_rsvp_upsert pe (Some db) now rec = Inr db'"
  shows "rsvps_ok db'"
  using assms(2) by (rule pg_rsvp_upsertE [OF assms(1)]) (simp add: put_rsvp_ok [OF assms(1)])

text \<open>The write is the in-memory upsert of the record with canonical IDs and the database's time.\<close>

definition norm_rsvp :: "pg_env \<Rightarrow> gotime \<Rightarrow> rsvp \<Rightarrow> rsvp" where
  "norm_rsvp pe now rec = rec\<lparr>rs_trip := canonical_id pe (rs_trip rec),
     rs_member := canonical_id pe (rs_member rec), rs_updated_at := pe_timestamp pe now\<rparr>"

lemma pg_rsvp_upsert_sim:
  assumes env: "pg_env_ok pe" and ok: "rsvps_ok db"
    and ups: "pg_rsvp_upsert pe (Some db) now rec = Inr db'"
  shows "rsvps_abs pe db' = rsvp_upsert (rsvps_abs pe db) (norm_rsvp pe now rec)"
proof -
  obtain t m where t: "t \<in> set (db_trips db)" "pe_uuid_parse pe (rs_trip rec) = Inr (pt_external_id t)"
    and m: "m \<in> set (db_members db)" "pe_uuid_parse pe (rs_member rec) = Inr (pm_external_id m)"
    and db': "db' = db\<lparr>db_rsvps := put_rsvp (rsvp_row pe now (pt_id t) (pm_id m) (rs_status rec)) (db_rsvps db)\<rparr>"
    using ups by (rule pg_rsvp_upsertE [OF ok])
  let ?row = "rsvp_row pe now (pt_id t) (pm_id m) (rs_status rec)"
  have same: "stored_rsvp pe db' r = stored_rsvp pe db r" for r
    by (simp add: stored_rsvp_def trip_uuid_def member_uuid_def trip_by_pk_def member_by_pk_def db')
  have row: "stored_rsvp pe db ?row = norm_rsvp pe now rec"
    using t m trip_by_pk [OF ok t(1)] member_by_pk [OF ok m(1)]
    by (simp add: stored_rsvp_def norm_rsvp_def canonical_id_def trip_uuid_def member_uuid_def)
  let ?key = "\<lambda>r. (rs_trip (stored_rsvp pe db r), rs_member (stored_rsvp pe db r))"
  have "?key r = ?key ?row \<longleftrightarrow> (pr_trip_id r, pr_member_id r) = (pr_trip_id ?row, pr_member_id ?row)"
    if "r \<in> set (db_rsvps db)" for r
    using rsvps_okD(6,7) [OF ok] that t(1) m(1)
    by (auto simp: stored_rsvp_def uuid_string_eq_iff [OF env] trip_uuid_iff [OF ok] member_uuid_iff [OF ok]
        image_subset_iff)
  from upsert_row_alist [of "db_rsvps db" ?key ?row, OF this rsvps_okD(5) [OF ok], of "stored_rsvp pe db"]
  moreover have "db_rsvps db' = put_rsvp ?row (db_rsvps db)" by (simp add: db')
  ultimately show ?thesis by (simp add: rsvps_abs_def same rsvp_upsert_def row)
qed

lemma stored_rsvp_fields [simp]:
  "rs_status (stored_rsvp pe db r) = pr_response r" "rs_updated_at (stored_rsvp pe db r) = pr_updated_at r"
  by (simp_all add: stored_rsvp_def)

text \<open>Counting: the rows of the trip that say yes, in the database and in the abstraction.\<close>

lemma rsvps_abs_count:
  assumes env: "pg_env_ok pe" and ok: "rsvps_ok db" and t: "t \<in> set (db_trips db)"
  shows "rsvp_count_yes_by_trip (rsvps_abs pe db) (pe_uuid_string pe (pt_external_id t)) =
    yes_count db (pt_id t)"
proof -
  have "yes_on (pe_uuid_string pe (pt_external_id t)) (stored_rsvp pe db r) \<longleftrightarrow>
      pr_trip_id r = pt_id t \<and> pr_response r = Yes" if "r \<in> set (db_rsvps db)" for r
  proof -
    have "rs_trip (stored_rsvp pe db r) = pe_uuid_string pe (pt_external_id t) \<longleftrightarrow> pr_trip_id r = pt_id t"
      using rsvps_okD(6) [OF ok] that t trip_uuid_iff [OF ok, of "pr_trip_id r" "pt_id t"] trip_by_pk [OF ok t]
      by (auto simp: stored_rsvp_def uuid_string_eq_iff [OF env] trip_uuid_def)
    then show ?thesis by (simp add: yes_on_def)
  qed
  then show ?thesis
    unfolding count_yes_eq [OF rsvps_abs_wf [OF env ok]]
    by (simp add: count_vals_def rsvps_abs_def comp_def yes_count_def filter_map cong: filter_cong)
qed

lemma count_unknown_trip:
  assumes ok: "rsvps_ok db" and "\<And>t. t \<in> set (db_trips db) \<Longrightarrow> pe_uuid_string pe (pt_external_id t) \<noteq> i"
  shows "rsvp_count_yes_by_trip (rsvps_abs pe db) i = 0"
proof -
  have "rs_trip (stored_rsvp pe db r) \<noteq> i" if "r \<in> set (db_rsvps db)" for r
    using rsvp_row_refs(1) [OF ok that] assms(2) by (simp add: stored_rsvp_def trip_uuid_def)
  then have "count_yes_loop i (map (\<lambda>r. ((rs_trip (stored_rsvp pe db r), rs_member (stored_rsvp pe db r)),
      stored_rsvp pe db r)) rs) n = n" if "set rs \<subseteq> set (db_rsvps db)" for rs n
    using that by (induction rs) auto
  then show ?thesis by (simp add: rsvp_count_yes_by_trip_def rsvps_abs_def)
qed

lemma count_join_eq:
  assumes ok: "rsvps_ok db"
  shows "[r. r \<leftarrow> db_rsvps db, t \<leftarrow> db_trips db,
      pt_id t = pr_trip_id r \<and> pt_external_id t = u \<and> pr_response r = Yes] =
    filter (\<lambda>r. trip_uuid db (pr_trip_id r) = u \<and> pr_response r = Yes) (db_rsvps db)"
proof -
  have "concat (map (\<lambda>t. if pt_id t = pr_trip_id r \<and> pt_external_id t = u \<and> pr_response r = Yes
        then [r] else []) (db_trips db)) =
      (if trip_uuid db (pr_trip_id r) = u \<and> pr_response r = Yes then [r] else [])"
    if r: "r \<in> set (db_rsvps db)" for r
  proof -
    note refs = rsvp_row_refs(1,2) [OF ok r]
    have "concat (map (\<lambda>t. if pt_id t = pr_trip_id r \<and> pt_external_id t = u \<and> pr_response r = Yes
        then [r] else []) (db_trips db)) =
      concat (map (\<lambda>t. if pt_id t = pr_trip_id r
        then (if pt_external_id t = u \<and> pr_response r = Yes then [r] else []) else []) (db_trips db))"
      by (intro arg_cong [where f = concat] map_cong) simp_all
    also have "\<dots> = (if pt_external_id (trip_by_pk db (pr_trip_id r)) = u \<and> pr_response r = Yes then [r] else [])"
      by (rule concat_map_if_unique [OF rsvps_okD(1) [OF ok] refs])
    finally show ?thesis by (simp add: trip_uuid_def)
  qed
  note each = this
  have "concat (map (\<lambda>r. concat (map (\<lambda>t. if pt_id t = pr_trip_id r \<and> pt_external_id t = u \<and> pr_response r = Yes
        then [r] else []) (db_trips db))) rs) =
      filter (\<lambda>r. trip_uuid db (pr_trip_id r) = u \<and> pr_response r = Yes) rs"
    if "set rs \<subseteq> set (db_rsvps db)" for rs
    using that each by (induction rs) simp_all
  then show ?thesis by simp
qed

lemma trip_uuid_eq_iff:
  assumes ok: "rsvps_ok db" and t: "t \<in> set (db_trips db)" and r: "r \<in> set (db_rsvps db)"
  shows "trip_uuid db (pr_trip_id r) = pt_external_id t \<longleftrightarrow> pr_trip_id r = pt_id t"
  using rsvps_okD(6) [OF ok] r t trip_uuid_iff [OF ok, of "pr_trip_id r" "pt_id t"] trip_by_pk [OF ok t]
  by (auto simp: trip_uuid_def)

lemma pg_rsvp_count_abs:
  assumes env: "pg_env_ok pe" and ok: "rsvps_ok db" and can: "canonical_id pe tid = tid"
  shows "pg_rsvp_count_yes_by_trip pe (Some db) tid = Inr (rsvp_count_yes_by_trip (rsvps_abs pe db) tid)"
proof (cases "pe_uuid_parse pe tid")
  case (Inl e)
  then have "pe_uuid_string pe (pt_external_id t) \<noteq> tid" for t :: pg_trip
    using pg_env_okD(1) [OF env] by force
  with Inl show ?thesis by (simp add: pg_rsvp_count_yes_by_trip_def count_unknown_trip [OF ok])
next
  case (Inr u)
  then have tid: "tid = pe_uuid_string pe u" using can by (simp add: canonical_id_def)
  show ?thesis
  proof (cases "\<exists>t \<in> set (db_trips db). pt_external_id t = u")
    case True
    then obtain t where t: "t \<in> set (db_trips db)" "pt_external_id t = u" by blast
    then have "filter (\<lambda>r. trip_uuid db (pr_trip_id r) = u \<and> pr_response r = Yes) (db_rsvps db) =
        filter (\<lambda>r. pr_trip_id r = pt_id t \<and> pr_response r = Yes) (db_rsvps db)"
      using trip_uuid_eq_iff [OF ok t(1)] t(2) by (intro filter_cong) simp_all
    then show ?thesis
      using Inr rsvps_abs_count [OF env ok t(1)] t(2)
      by (simp add: pg_rsvp_count_yes_by_trip_def count_join_eq [OF ok] tid yes_count_def)
  next
    case False
    then have "filter (\<lambda>r. trip_uuid db (pr_trip_id r) = u \<and> pr_response r = Yes) (db_rsvps db) = []"
      using rsvp_row_refs(1) [OF ok] by (auto simp: filter_empty_conv trip_uuid_def)
    moreover have "rsvp_count_yes_by_trip (rsvps_abs pe db) tid = 0"
      using False by (intro count_unknown_trip [OF ok]) (auto simp: tid uuid_string_eq_iff [OF env])
    ultimately show ?thesis using Inr by (simp add: pg_rsvp_count_yes_by_trip_def count_join_eq [OF ok])
  qed
qed

lemma pg_rsvp_list_abs:
  assumes env: "pg_env_ok pe" and ok: "rsvps_ok db" and can: "canonical_id pe tid = tid"
  shows "pg_rsvp_list_by_trip pe (Some db) tid = Inr (rsvp_list_by_trip (rsvps_abs pe db) tid)"
proof (cases "pe_uuid_parse pe tid")
  case (Inl e)
  then have "rs_trip (stored_rsvp pe db r) \<noteq> tid" for r
    using pg_env_okD(1) [OF env] by (force simp: stored_rsvp_def)
  with Inl show ?thesis
    by (simp add: pg_rsvp_list_by_trip_def rsvp_list_by_trip_def rsvps_abs_def filter_map comp_def)
next
  case (Inr u)
  then have tid: "tid = pe_uuid_string pe u" using can by (simp add: canonical_id_def)
  let ?rows = "filter (\<lambda>r. trip_uuid db (pr_trip_id r) = u) (db_rsvps db)"
  let ?k1 = "\<lambda>r. (member_uuid db (pr_member_id r), pr_updated_at r)"
  have rec: "stored_rsvp pe db r = \<lparr>rs_trip = tid, rs_member = pe_uuid_string pe (member_uuid db (pr_member_id r)),
      rs_status = pr_response r, rs_updated_at = pr_updated_at r\<rparr>" if "r \<in> set ?rows" for r
    using that by (simp add: stored_rsvp_def tid)
  have key: "?k1 x \<le> ?k1 y \<longleftrightarrow> rsvp_sort_key (stored_rsvp pe db x) \<le> rsvp_sort_key (stored_rsvp pe db y)" for x y
    by (auto simp: rsvp_sort_key_def stored_rsvp_def le_less pg_env_okD(3) [OF env] uuid_string_eq_iff [OF env])
  have "map (\<lambda>(r, t, m). \<lparr>rs_trip = tid, rs_member = pe_uuid_string pe (pm_external_id m),
        rs_status = pr_response r, rs_updated_at = pr_updated_at r\<rparr>)
      (order_by (\<lambda>(r, t, m). (pm_external_id m, pr_updated_at r))
        (filter (\<lambda>(r, t, m). pt_external_id t = u) (rsvp_join db))) =
      map (\<lambda>r. \<lparr>rs_trip = tid, rs_member = pe_uuid_string pe (member_uuid db (pr_member_id r)),
        rs_status = pr_response r, rs_updated_at = pr_updated_at r\<rparr>) (sort_key ?k1 ?rows)"
  proof -
    let ?f = "\<lambda>r. (r, trip_by_pk db (pr_trip_id r), member_by_pk db (pr_member_id r))"
    have "sort_key (\<lambda>(r, t, m). (pm_external_id m, pr_updated_at r)) (map ?f ?rows) = map ?f (sort_key ?k1 ?rows)"
      by (rule sort_key_map [symmetric]) (simp add: member_uuid_def)
    moreover have "filter (\<lambda>(r, t, m). pt_external_id t = u) (rsvp_join db) = map ?f ?rows"
      by (simp add: rsvp_join_eq [OF ok] filter_map comp_def trip_uuid_def)
    ultimately show ?thesis by (simp add: order_by_def comp_def member_uuid_def)
  qed
  also have "\<dots> = map (stored_rsvp pe db) (sort_key ?k1 ?rows)"
    using rec by (intro map_cong) simp_all
  also have "\<dots> = sort_key rsvp_sort_key (map (stored_rsvp pe db) ?rows)"
    by (rule sort_key_map) (rule key)
  also have "\<dots> = rsvp_list_by_trip (rsvps_abs pe db) tid"
  proof -
    have "rs_trip (stored_rsvp pe db r) = tid \<longleftrightarrow> trip_uuid db (pr_trip_id r) = u" for r
      by (simp add: stored_rsvp_def tid uuid_string_eq_iff [OF env])
    then show ?thesis
      by (simp add: rsvp_list_by_trip_def rsvps_abs_def filter_map comp_def rsvp_order.sort_slice_sort_key)
  qed
  finally show ?thesis using Inr by (simp add: pg_rsvp_list_by_trip_def)
qed

section \<open>Attendance\<close>

text \<open>No published trip has more attending rigs than its capacity, by the tables alone.\<close>

definition pg_not_overbooked :: "pg_db \<Rightarrow> bool" where
  "pg_not_overbooked db \<longleftrightarrow>
     (\<forall>t \<in> set (db_trips db). \<forall>c. pt_status t = Published \<longrightarrow> pt_capacity_rigs t = Some c \<longrightarrow>
        yes_count db (pt_id t) \<le> c)"

lemma put_rsvp_yes_count:
  assumes "rsvps_ok db"
  shows "yes_count (db\<lparr>db_rsvps := put_rsvp (rsvp_row pe now tk mk status) (db_rsvps db)\<rparr>) k \<le>
    yes_count db k + (if k = tk \<and> status = Yes then 1 else 0)"
  using upsert_row_count_le [OF rsvps_okD(5) [OF assms], of "\<lambda>r. pr_trip_id r = k \<and> pr_response r = Yes"
      "rsvp_row pe now tk mk status"]
  by (auto simp: yes_count_def)

lemma pg_rsvp_upsert_not_overbooked:
  assumes ok: "rsvps_ok db" and nob: "pg_not_overbooked db"
    and ups: "pg_rsvp_upsert pe (Some db) now rec = Inr db'"
  shows "pg_not_overbooked db'"
proof -
  obtain t c and m :: pg_member where t: "t \<in> set (db_trips db)" and c: "pt_capacity_rigs t = Some c"
    and room: "rs_status rec = Yes \<longrightarrow> yes_count db (pt_id t) < c"
    and db': "db' = db\<lparr>db_rsvps := put_rsvp (rsvp_row pe now (pt_id t) (pm_id m) (rs_status rec)) (db_rsvps db)\<rparr>"
    using ups by (rule pg_rsvp_upsertE [OF ok])
  have "yes_count db' (pt_id x) \<le> cap"
    if x: "x \<in> set (db_trips db)" "pt_status x = Published" "pt_capacity_rigs x = Some cap" for x cap
  proof -
    have le: "yes_count db (pt_id x) \<le> cap" using nob x by (auto simp: pg_not_overbooked_def)
    note cnt = put_rsvp_yes_count [OF ok, where pe = pe and now = now and tk = "pt_id t" and
        mk = "pm_id m" and status = "rs_status rec" and k = "pt_id x", folded db']
    show ?thesis
    proof (cases "pt_id x = pt_id t \<and> rs_status rec = Yes")
      case True
      then have "x = t" using x(1) t rsvps_okD(1) [OF ok] by (auto simp: distinct_map inj_on_def)
      with True room c x(3) cnt show ?thesis by simp
    next
      case False
      with cnt le show ?thesis by (auto split: if_splits)
    qed
  qed
  then show ?thesis by (auto simp: pg_not_overbooked_def db')
qed

end
