(* ===== verification/PgTripRepo.thy ===== *)
theory PgTripRepo
  imports PgRsvpRepo
begin

text \<open>
  The Postgres trip repository (internal/adapters/postgres/triprepo/repo.go): tables \<open>trips\<close>,
  \<open>trip_organizers\<close> and \<open>trip_artifacts\<close> with their check constraints and triggers. This theory
  holds the translation: helpers, triggers, statements and methods. Its properties are in the
  theories that follow.
\<close>

section \<open>Helpers\<close>

text \<open>Midnight UTC of the day of an instant.\<close>

definition midnight :: "gotime \<Rightarrow> gotime" where
  "midnight t = t div day * day"

fun datePtr :: "gotime option \<Rightarrow> gotime option" where
  "datePtr None = None"
| "datePtr (Some t) = Some (midnight t)"

fun dateToTimePtr :: "gotime option \<Rightarrow> gotime option" where
  "dateToTimePtr None = None"
| "dateToTimePtr (Some d) = Some (midnight d)"

text \<open>The column's value before the cast to its enumeration type.\<close>

definition draftVisibilityForDB :: "trip \<Rightarrow> draft_visibility option" where
  "draftVisibilityForDB t =
     (if t_status t \<noteq> Draft then None
      else Some (if t_draft_visibility t = OtherVisibility '''' then Private else t_draft_visibility t))"

fun meetingLabel :: "location option \<Rightarrow> gostring option" where
  "meetingLabel None = None"
| "meetingLabel (Some l) = Some (loc_label l)"

fun meetingAddress :: "location option \<Rightarrow> gostring option" where
  "meetingAddress None = None"
| "meetingAddress (Some l) = loc_address l"

fun meetingLatitude :: "location option \<Rightarrow> float64 option" where
  "meetingLatitude None = None"
| "meetingLatitude (Some l) = loc_latitude l"

fun meetingLongitude :: "location option \<Rightarrow> float64 option" where
  "meetingLongitude None = None"
| "meetingLongitude (Some l) = loc_longitude l"

definition meetingFromColumns ::
    "gostring option \<Rightarrow> gostring option \<Rightarrow> float64 option \<Rightarrow> float64 option \<Rightarrow> location option" where
  "meetingFromColumns label addr lat lon =
     (if label = None \<and> addr = None \<and> lat = None \<and> lon = None then None
      else Some \<lparr>loc_label = (case label of Some s \<Rightarrow> s | None \<Rightarrow> ''''),
                 loc_address = cloneStringPtr addr, loc_latitude = lat, loc_longitude = lon\<rparr>)"

fun derefVisibility :: "draft_visibility option \<Rightarrow> draft_visibility" where
  "derefVisibility None = OtherVisibility ''''"
| "derefVisibility (Some v) = v"

text \<open>Casts of the strings to enumeration types, and the range of the type \<open>integer\<close>.\<close>

fun cast_trip_status :: "trip_status \<Rightarrow> pg_error + trip_status" where
  "cast_trip_status (OtherStatus s) = raise InvalidTextCode ''''"
| "cast_trip_status s = Inr s"

fun cast_draft_visibility :: "draft_visibility option \<Rightarrow> pg_error + draft_visibility option" where
  "cast_draft_visibility (Some (OtherVisibility s)) = raise InvalidTextCode ''''"
| "cast_draft_visibility v = Inr v"

fun cast_artifact_type :: "artifact_type \<Rightarrow> pg_error + artifact_type" where
  "cast_artifact_type (UnknownArtifact s) = raise InvalidTextCode ''''"
| "cast_artifact_type a = Inr a"

fun cast_integer :: "int option \<Rightarrow> pg_error + int option" where
  "cast_integer None = Inr None"
| "cast_integer (Some n) = (if - (2 ^ 31) \<le> n \<and> n < 2 ^ 31 then Inr (Some n) else raise NumericRangeCode '''')"

section \<open>Triggers and constraints\<close>

definition trips_checks :: "pg_trip \<Rightarrow> bool" where
  "trips_checks r \<longleftrightarrow>
     (case pt_capacity_rigs r of None \<Rightarrow> True | Some c \<Rightarrow> c \<ge> 1) \<and>
     (pt_status r = Draft \<and> pt_draft_visibility r \<noteq> None \<or>
      pt_status r \<noteq> Draft \<and> pt_draft_visibility r = None) \<and>
     (case (pt_start_date r, pt_end_date r) of (Some s, Some e) \<Rightarrow> s \<le> e | _ \<Rightarrow> True) \<and>
     (pt_meeting_latitude r = None \<longleftrightarrow> pt_meeting_longitude r = None)"

text \<open>\<open>btrim(s)\<close>: without the spaces at both ends.\<close>

definition btrim :: "gostring \<Rightarrow> gostring" where
  "btrim s = rev (dropWhile (\<lambda>c. c = CHR '' '') (rev (dropWhile (\<lambda>c. c = CHR '' '') s)))"

definition is_blank :: "gostring option \<Rightarrow> bool" where
  "is_blank v = (case v of None \<Rightarrow> True | Some s \<Rightarrow> btrim s = '''')"

definition publish_requirements :: "pg_trip \<Rightarrow> bool" where
  "publish_requirements new \<longleftrightarrow>
     \<not> is_blank (pt_name new) \<and> \<not> is_blank (pt_description new) \<and>
     \<not> (pt_start_date new = None \<or> pt_end_date new = None) \<and>
     (case pt_capacity_rigs new of None \<Rightarrow> False | Some c \<Rightarrow> c \<ge> 1) \<and>
     \<not> is_blank (pt_difficulty_text new) \<and> \<not> is_blank (pt_meeting_label new) \<and>
     \<not> is_blank (pt_comms_requirements_text new) \<and>
     \<not> is_blank (pt_recommended_requirements_text new)"

definition coalesce :: "'a option \<Rightarrow> 'a \<Rightarrow> 'a option" where
  "coalesce v d = (case v of None \<Rightarrow> Some d | Some x \<Rightarrow> Some x)"

definition trips_enforce_transitions ::
    "pg_env \<Rightarrow> gotime \<Rightarrow> pg_db \<Rightarrow> pg_trip \<Rightarrow> pg_trip \<Rightarrow> pg_error + pg_trip" where
  "trips_enforce_transitions pe now db old new =
     (if pt_status old = Canceled \<and> pt_status new \<noteq> Canceled then raise CheckViolationCode ''''
      else if pt_status old = Published \<and> pt_capacity_rigs new \<noteq> None \<and>
              pt_capacity_rigs new \<noteq> pt_capacity_rigs old \<and>
              the (pt_capacity_rigs new) < yes_count db (pt_id old)
      then raise CheckViolationCode ''''
      else
        and_then
          (if pt_status old \<noteq> Published \<and> pt_status new = Published then
             (if pt_status old \<noteq> Draft then raise CheckViolationCode ''''
              else if (case pt_draft_visibility old of None \<Rightarrow> False | Some v \<Rightarrow> v \<noteq> Public)
              then raise CheckViolationCode ''''
              else if \<not> publish_requirements new then raise CheckViolationCode ''''
              else if length (filter (\<lambda>g. po_trip_id g = pt_id new) (db_organizers db)) < 1
              then raise CheckViolationCode ''''
              else Inr (new\<lparr>pt_published_at := coalesce (pt_published_at new) (pe_timestamp pe now),
                            pt_draft_visibility := None\<rparr>))
           else Inr new)
          (\<lambda>new. if pt_status old \<noteq> Canceled \<and> pt_status new = Canceled
                 then Inr (new\<lparr>pt_canceled_at := coalesce (pt_canceled_at new) (pe_timestamp pe now),
                               pt_draft_visibility := None\<rparr>)
                 else Inr new))"

definition trips_set_updated_at :: "pg_env \<Rightarrow> gotime \<Rightarrow> pg_trip \<Rightarrow> pg_trip" where
  "trips_set_updated_at pe now r = r\<lparr>pt_updated_at := pe_timestamp pe now\<rparr>"

section \<open>Statements\<close>

text \<open>The insert of a trip; the trigger after it adds the creator to the organizers.\<close>

definition insert_organizer_row :: "nat \<Rightarrow> nat \<Rightarrow> pg_db \<Rightarrow> pg_db" where
  "insert_organizer_row tk mk db =
     (let row = \<lparr>po_trip_id = tk, po_member_id = mk\<rparr> in
      if row \<in> set (db_organizers db) then db
      else db\<lparr>db_organizers := db_organizers db @ [row]\<rparr>)"

definition insert_trip :: "nat option \<Rightarrow> pg_trip \<Rightarrow> pg_db \<Rightarrow> pg_error + pg_db" where
  "insert_trip creator r db =
     (case creator of
        None \<Rightarrow> raise NotNullViolationCode ''''
      | Some mk \<Rightarrow>
          (let r = r\<lparr>pt_id := db_trip_seq db, pt_created_by := mk\<rparr> in
           if \<not> trips_checks r then raise CheckViolationCode ''''
           else if \<exists>x \<in> set (db_trips db). pt_external_id x = pt_external_id r
           then raise UniqueViolationCode ''trips_external_id_unique''
           else Inr (insert_organizer_row (pt_id r) mk
                  (db\<lparr>db_trips := db_trips db @ [r], db_trip_seq := Suc (db_trip_seq db)\<rparr>))))"

text \<open>\<open>UPDATE trips ... WHERE external_id = $1\<close>: at most one row has the ID. Its triggers in the
  order of their names, then the check constraints.\<close>

definition update_trip ::
    "pg_env \<Rightarrow> gotime \<Rightarrow> uuid \<Rightarrow> (pg_trip \<Rightarrow> pg_trip) \<Rightarrow> pg_db \<Rightarrow> pg_error + pg_db" where
  "update_trip pe now u assign db =
     (case query_row (filter (\<lambda>r. pt_external_id r = u) (db_trips db)) of
        None \<Rightarrow> Inr db
      | Some old \<Rightarrow>
          and_then (trips_enforce_transitions pe now db old (assign old)) (\<lambda>new.
            let new = trips_set_updated_at pe now new in
            if \<not> trips_checks new then raise CheckViolationCode ''''
            else Inr (db\<lparr>db_trips := update_rows (\<lambda>r. pt_external_id r = u) (\<lambda>_. new) (db_trips db)\<rparr>)))"

definition delete_organizer :: "uuid \<Rightarrow> uuid \<Rightarrow> pg_db \<Rightarrow> pg_error + pg_db" where
  "delete_organizer tu mu db =
     (case (trip_pk db tu, member_pk db mu) of
        (Some tk, Some mk) \<Rightarrow>
          if \<lparr>po_trip_id = tk, po_member_id = mk\<rparr> \<notin> set (db_organizers db) then Inr db
          else if filter (\<lambda>g. po_trip_id g = tk \<and> po_member_id g \<noteq> mk) (db_organizers db) = []
          then raise CheckViolationCode ''''
          else Inr (db\<lparr>db_organizers := filter (\<lambda>g. g \<noteq> \<lparr>po_trip_id = tk, po_member_id = mk\<rparr>)
                                          (db_organizers db)\<rparr>)
      | _ \<Rightarrow> Inr db)"

definition insert_organizer :: "uuid \<Rightarrow> uuid \<Rightarrow> pg_db \<Rightarrow> pg_error + pg_db" where
  "insert_organizer tu mu db =
     (case (trip_pk db tu, member_pk db mu) of
        (Some tk, Some mk) \<Rightarrow> Inr (insert_organizer_row tk mk db)
      | _ \<Rightarrow> raise NotNullViolationCode '''')"

text \<open>The upsert of an artifact: on a conflict the row keeps its trip.\<close>

definition upsert_artifact ::
    "uuid \<Rightarrow> uuid \<Rightarrow> trip_artifact \<Rightarrow> int \<Rightarrow> pg_db \<Rightarrow> pg_error + pg_db" where
  "upsert_artifact aid tu a i db =
     and_then (cast_artifact_type (art_type a)) (\<lambda>typ.
       case trip_pk db tu of
         None \<Rightarrow> raise NotNullViolationCode ''''
       | Some tk \<Rightarrow>
           Inr (db\<lparr>db_artifacts :=
             upsert_row pa_external_id
               (\<lambda>excluded r. r\<lparr>pa_type := pa_type excluded, pa_title := pa_title excluded,
                               pa_url := pa_url excluded, pa_sort_order := pa_sort_order excluded\<rparr>)
               \<lparr>pa_external_id = aid, pa_trip_id = tk, pa_type = typ, pa_title = art_title a,
                pa_url = art_url a, pa_sort_order = i\<rparr> (db_artifacts db)\<rparr>))"

definition delete_artifact :: "uuid \<Rightarrow> uuid \<Rightarrow> pg_db \<Rightarrow> pg_db" where
  "delete_artifact tu aid db =
     db\<lparr>db_artifacts := filter (\<lambda>r. \<not> (Some (pa_trip_id r) = trip_pk db tu \<and> pa_external_id r = aid))
                        (db_artifacts db)\<rparr>"

section \<open>Organizers and artifacts\<close>

definition loadOrganizerExternalIDs :: "pg_env \<Rightarrow> pg_db \<Rightarrow> uuid \<Rightarrow> MemberID list" where
  "loadOrganizerExternalIDs pe db tu =
     map (\<lambda>m. pe_uuid_string pe (pm_external_id m))
       (order_by pm_external_id
         [m. g \<leftarrow> db_organizers db, m \<leftarrow> db_members db,
            pm_id m = po_member_id g \<and> Some (po_trip_id g) = trip_pk db tu])"

definition loadArtifacts :: "pg_env \<Rightarrow> pg_db \<Rightarrow> uuid \<Rightarrow> trip_artifact list" where
  "loadArtifacts pe db tu =
     map (\<lambda>r. \<lparr>art_id = pe_uuid_string pe (pa_external_id r), art_type = pa_type r,
              art_title = pa_title r, art_url = pa_url r\<rparr>)
       (order_by (\<lambda>r. (pa_sort_order r, pa_external_id r))
         (filter (\<lambda>r. Some (pa_trip_id r) = trip_pk db tu) (db_artifacts db)))"

definition countYesByTripUUID :: "pg_db \<Rightarrow> uuid \<Rightarrow> int" where
  "countYesByTripUUID db tu =
     int (length (filter (\<lambda>r. Some (pr_trip_id r) = trip_pk db tu \<and> pr_response r = Yes) (db_rsvps db)))"

text \<open>A Go set of UUIDs built from strings that may not parse.\<close>

fun uuid_set :: "pg_env \<Rightarrow> gostring list \<Rightarrow> uuid list \<Rightarrow> uuid list" where
  "uuid_set pe [] acc = acc"
| "uuid_set pe (s # ss) acc =
     (case pe_uuid_parse pe s of
        Inl _ \<Rightarrow> uuid_set pe ss acc
      | Inr u \<Rightarrow> uuid_set pe ss (if u \<in> set acc then acc else acc @ [u]))"

fun delete_removed :: "uuid \<Rightarrow> uuid list \<Rightarrow> uuid list \<Rightarrow> pg_db \<Rightarrow> pg_error + pg_db" where
  "delete_removed tu want [] db = Inr db"
| "delete_removed tu want (u # us) db =
     (if u \<in> set want then delete_removed tu want us db
      else and_then (delete_organizer tu u db) (delete_removed tu want us))"

fun insert_added :: "uuid \<Rightarrow> uuid list \<Rightarrow> uuid list \<Rightarrow> pg_db \<Rightarrow> pg_error + pg_db" where
  "insert_added tu present [] db = Inr db"
| "insert_added tu present (u # us) db =
     (if u \<in> set present then insert_added tu present us db
      else and_then (insert_organizer tu u db) (insert_added tu present us))"

definition syncOrganizers :: "pg_env \<Rightarrow> uuid \<Rightarrow> MemberID list \<Rightarrow> pg_db \<Rightarrow> pg_error + pg_db" where
  "syncOrganizers pe tu desired db =
     (let want = uuid_set pe desired [];
          present = uuid_set pe (loadOrganizerExternalIDs pe db tu) []
      in and_then (delete_removed tu want present db) (insert_added tu present want))"

fun upsert_artifacts ::
    "pg_env \<Rightarrow> uuid \<Rightarrow> int \<Rightarrow> trip_artifact list \<Rightarrow> uuid list \<Rightarrow> pg_db \<Rightarrow> pg_error + uuid list \<times> pg_db" where
  "upsert_artifacts pe tu i [] keep db = Inr (keep, db)"
| "upsert_artifacts pe tu i (a # as) keep db =
     (case pe_uuid_parse pe (art_id a) of
        Inl _ \<Rightarrow> upsert_artifacts pe tu (i + 1) as keep db
      | Inr aid \<Rightarrow>
          and_then (upsert_artifact aid tu a i db)
            (upsert_artifacts pe tu (i + 1) as (aid # keep)))"

fun delete_artifacts :: "pg_env \<Rightarrow> uuid \<Rightarrow> uuid list \<Rightarrow> trip_artifact list \<Rightarrow> pg_db \<Rightarrow> pg_db" where
  "delete_artifacts pe tu keep [] db = db"
| "delete_artifacts pe tu keep (a # as) db =
     (case pe_uuid_parse pe (art_id a) of
        Inl _ \<Rightarrow> delete_artifacts pe tu keep as db
      | Inr aid \<Rightarrow>
          delete_artifacts pe tu keep as (if aid \<in> set keep then db else delete_artifact tu aid db))"

definition syncArtifacts :: "pg_env \<Rightarrow> uuid \<Rightarrow> trip_artifact list \<Rightarrow> pg_db \<Rightarrow> pg_error + pg_db" where
  "syncArtifacts pe tu desired db =
     and_then (upsert_artifacts pe tu 0 desired [] db)
       (\<lambda>(keep, db). Inr (delete_artifacts pe tu keep (loadArtifacts pe db tu) db))"

section \<open>Methods\<close>

text \<open>The values of \<open>INSERT\<close> and of \<open>SET\<close>, after the casts.\<close>

definition trip_values :: "trip \<Rightarrow> pg_error + (pg_trip \<Rightarrow> pg_trip)" where
  "trip_values t =
     and_then (cast_trip_status (t_status t)) (\<lambda>status.
     and_then (cast_draft_visibility (draftVisibilityForDB t)) (\<lambda>dv.
     and_then (cast_integer (t_capacity_rigs t)) (\<lambda>capacity.
       Inr (\<lambda>r. r\<lparr>pt_name := t_name t, pt_description := t_description t,
                  pt_start_date := datePtr (t_start_date t), pt_end_date := datePtr (t_end_date t),
                  pt_status := status, pt_draft_visibility := dv, pt_capacity_rigs := capacity,
                  pt_difficulty_text := t_difficulty_text t,
                  pt_meeting_label := meetingLabel (t_meeting_location t),
                  pt_meeting_address := meetingAddress (t_meeting_location t),
                  pt_meeting_latitude := meetingLatitude (t_meeting_location t),
                  pt_meeting_longitude := meetingLongitude (t_meeting_location t),
                  pt_comms_requirements_text := t_comms_requirements_text t,
                  pt_recommended_requirements_text := t_recommended_requirements_text t\<rparr>))))"

definition blank_trip :: "pg_env \<Rightarrow> uuid \<Rightarrow> trip \<Rightarrow> pg_trip" where
  "blank_trip pe u t =
     \<lparr>pt_id = 0, pt_external_id = u, pt_name = None, pt_description = None, pt_start_date = None,
      pt_end_date = None, pt_status = Draft, pt_draft_visibility = None, pt_capacity_rigs = None,
      pt_difficulty_text = None, pt_meeting_label = None, pt_meeting_address = None,
      pt_meeting_latitude = None, pt_meeting_longitude = None, pt_comms_requirements_text = None,
      pt_recommended_requirements_text = None, pt_published_at = None, pt_canceled_at = None,
      pt_created_by = 0, pt_created_at = pe_timestamp pe (t_created_at t),
      pt_updated_at = pe_timestamp pe (t_updated_at t)\<rparr>"

definition pg_trip_create :: "pg_env \<Rightarrow> pg_db option \<Rightarrow> trip \<Rightarrow> goerror + pg_db" where
  "pg_trip_create pe pool t =
     with_pool pool (\<lambda>db.
       case pe_uuid_parse pe (t_id t) of Inl e \<Rightarrow> Inl (OtherError (''invalid trip id: '' @ e))
       | Inr u \<Rightarrow>
         (case pe_uuid_parse pe (t_creator t) of
            Inl e \<Rightarrow> Inl (OtherError (''invalid creator member id: '' @ e))
          | Inr cu \<Rightarrow>
              and_then
                (on_error (\<lambda>e. if pge_code e = UniqueViolationCode \<and>
                                  pge_constraint e = ''trips_external_id_unique''
                               then TripAlreadyExists else server_error pe e)
                  (and_then (trip_values t) (\<lambda>assign.
                     insert_trip (member_pk db cu) (assign (blank_trip pe u t)) db)))
                (\<lambda>db. on_error (server_error pe)
                  (and_then (syncOrganizers pe u (t_organizers t) db)
                     (syncArtifacts pe u (t_artifacts t))))))"

definition pg_trip_save :: "pg_env \<Rightarrow> pg_db option \<Rightarrow> gotime \<Rightarrow> trip \<Rightarrow> goerror + pg_db" where
  "pg_trip_save pe pool now t =
     with_pool pool (\<lambda>db.
       case pe_uuid_parse pe (t_id t) of Inl e \<Rightarrow> Inl (OtherError (''invalid trip id: '' @ e))
       | Inr u \<Rightarrow>
         (case query_row [pm_external_id m. tr \<leftarrow> db_trips db, m \<leftarrow> db_members db,
                            pm_id m = pt_created_by tr \<and> pt_external_id tr = u] of
            None \<Rightarrow> Inl TripNotFound
          | Some existing_creator \<Rightarrow>
              if t_creator t \<noteq> '''' \<and>
                 (case pe_uuid_parse pe (t_creator t) of
                    Inr cid \<Rightarrow> cid \<noteq> existing_creator | Inl _ \<Rightarrow> False)
              then Inl (OtherError ''trip creator is immutable'')
              else on_error (server_error pe)
                (and_then (trip_values t) (\<lambda>assign.
                 and_then (update_trip pe now u
                     (\<lambda>r. (assign r)\<lparr>pt_updated_at := pe_timestamp pe (t_updated_at t)\<rparr>) db) (\<lambda>db.
                 and_then (syncOrganizers pe u (t_organizers t) db)
                   (syncArtifacts pe u (t_artifacts t)))))))"

text \<open>\<open>GetByID\<close> is four statements on the pool, in no transaction: the row, with what its columns say,
  the organizers, the artifacts and, for a published trip, the YES answers. Each may see another
  database.\<close>

definition query_trip_row :: "pg_env \<Rightarrow> uuid \<Rightarrow> pg_db \<Rightarrow> goerror + trip" where
  "query_trip_row pe u db =
     (case query_row [(tr, creator). tr \<leftarrow> db_trips db, creator \<leftarrow> db_members db,
                        pm_id creator = pt_created_by tr \<and> pt_external_id tr = u] of
        None \<Rightarrow> Inl TripNotFound
      | Some (tr, creator) \<Rightarrow>
          Inr \<lparr>t_id = pe_uuid_string pe (pt_external_id tr), t_status = pt_status tr,
               t_name = cloneStringPtr (pt_name tr), t_description = cloneStringPtr (pt_description tr),
               t_creator = pe_uuid_string pe (pm_external_id creator), t_organizers = [],
               t_draft_visibility = derefVisibility (pt_draft_visibility tr),
               t_start_date = dateToTimePtr (pt_start_date tr),
               t_end_date = dateToTimePtr (pt_end_date tr),
               t_capacity_rigs = cloneIntPtr (pt_capacity_rigs tr), t_attending_rigs = None,
               t_difficulty_text = cloneStringPtr (pt_difficulty_text tr),
               t_meeting_location = meetingFromColumns (pt_meeting_label tr) (pt_meeting_address tr)
                 (pt_meeting_latitude tr) (pt_meeting_longitude tr),
               t_comms_requirements_text = cloneStringPtr (pt_comms_requirements_text tr),
               t_recommended_requirements_text = cloneStringPtr (pt_recommended_requirements_text tr),
               t_artifacts = [], t_created_at = pt_created_at tr, t_updated_at = pt_updated_at tr\<rparr>)"

definition with_organizers :: "pg_env \<Rightarrow> uuid \<Rightarrow> pg_db \<Rightarrow> trip \<Rightarrow> trip" where
  "with_organizers pe u db t = t\<lparr>t_organizers := loadOrganizerExternalIDs pe db u\<rparr>"

definition with_artifacts :: "pg_env \<Rightarrow> uuid \<Rightarrow> pg_db \<Rightarrow> trip \<Rightarrow> trip" where
  "with_artifacts pe u db t = t\<lparr>t_artifacts := loadArtifacts pe db u\<rparr>"

definition with_attendance :: "uuid \<Rightarrow> pg_db \<Rightarrow> trip \<Rightarrow> trip" where
  "with_attendance u db t =
     (if t_status t = Published then t\<lparr>t_attending_rigs := Some (countYesByTripUUID db u)\<rparr> else t)"

definition pg_trip_read ::
    "pg_env \<Rightarrow> pg_db \<Rightarrow> pg_db \<Rightarrow> pg_db \<Rightarrow> pg_db \<Rightarrow> TripID \<Rightarrow> goerror + trip" where
  "pg_trip_read pe db1 db2 db3 db4 i =
     (case pe_uuid_parse pe i of Inl _ \<Rightarrow> Inl TripNotFound
      | Inr u \<Rightarrow>
          and_then (query_trip_row pe u db1) (\<lambda>t.
            Inr (with_attendance u db4 (with_artifacts pe u db3 (with_organizers pe u db2 t)))))"

text \<open>With no write of another request between its statements.\<close>

definition pg_trip_get :: "pg_env \<Rightarrow> pg_db option \<Rightarrow> TripID \<Rightarrow> goerror + trip" where
  "pg_trip_get pe pool i = with_pool pool (\<lambda>db. pg_trip_read pe db db db db i)"

lemmas pg_trip_get_unfold = pg_trip_get_def pg_trip_read_def query_trip_row_def with_organizers_def
  with_artifacts_def with_attendance_def

definition less_scanned_trip :: "trip \<Rightarrow> trip \<Rightarrow> bool" where
  "less_scanned_trip a b =
     (case (t_start_date a, t_start_date b) of
        (Some ad, Some bd) \<Rightarrow>
          if ad \<noteq> bd then ad < bd
          else if t_created_at a \<noteq> t_created_at b then t_created_at a < t_created_at b
          else t_id a < t_id b
      | (Some _, None) \<Rightarrow> True
      | (None, Some _) \<Rightarrow> False
      | (None, None) \<Rightarrow>
          if t_created_at a \<noteq> t_created_at b then t_created_at a < t_created_at b
          else t_id a < t_id b)"

definition sortTrips :: "trip list \<Rightarrow> trip list" where
  "sortTrips ts = sort_slice less_scanned_trip ts"

text \<open>The zero value of \<open>triprepo.Trip\<close>.\<close>

definition zero_trip :: trip where
  "zero_trip =
     \<lparr>t_id = '''', t_status = OtherStatus '''', t_name = None, t_description = None, t_creator = '''',
      t_organizers = [], t_draft_visibility = OtherVisibility '''', t_start_date = None,
      t_end_date = None, t_capacity_rigs = None, t_attending_rigs = None, t_difficulty_text = None,
      t_meeting_location = None, t_comms_requirements_text = None,
      t_recommended_requirements_text = None, t_artifacts = [], t_created_at = 0, t_updated_at = 0\<rparr>"

text \<open>\<open>start_date ASC NULLS LAST, created_at ASC, external_id ASC\<close>.\<close>

definition trip_row_order :: "pg_trip \<Rightarrow> (nat \<times> int) \<times> gotime \<times> uuid" where
  "trip_row_order r =
     ((case pt_start_date r of Some d \<Rightarrow> (0, d) | None \<Rightarrow> (1, 0)), pt_created_at r, pt_external_id r)"

text \<open>The view \<open>v_trip_summary\<close>: a trip with the number of its YES rows, 0 without any.\<close>

definition v_trip_summary :: "pg_db \<Rightarrow> (pg_trip \<times> int) list" where
  "v_trip_summary db = map (\<lambda>t. (t, yes_count db (pt_id t))) (db_trips db)"

definition pg_trip_list_published_and_canceled :: "pg_env \<Rightarrow> pg_db option \<Rightarrow> goerror + trip list" where
  "pg_trip_list_published_and_canceled pe pool =
     with_pool pool (\<lambda>db.
       Inr (sortTrips
         (map (\<lambda>(r, attending). zero_trip
             \<lparr>t_id := pe_uuid_string pe (pt_external_id r), t_status := pt_status r,
              t_name := cloneStringPtr (pt_name r),
              t_start_date := dateToTimePtr (pt_start_date r),
              t_end_date := dateToTimePtr (pt_end_date r),
              t_capacity_rigs := cloneIntPtr (pt_capacity_rigs r),
              t_attending_rigs := (if pt_status r = Published then Some attending else None),
              t_created_at := pt_created_at r, t_updated_at := pt_updated_at r\<rparr>)
           (order_by (\<lambda>(r, attending). trip_row_order r)
             (filter (\<lambda>(r, attending). pt_status r \<in> {Published, Canceled}) (v_trip_summary db))))))"

definition pg_trip_list_drafts_visible_to ::
    "pg_env \<Rightarrow> pg_db option \<Rightarrow> MemberID \<Rightarrow> goerror + trip list" where
  "pg_trip_list_drafts_visible_to pe pool caller =
     with_pool pool (\<lambda>db.
       case pe_uuid_parse pe caller of Inl _ \<Rightarrow> Inr []
       | Inr cu \<Rightarrow>
           Inr (sortTrips
             (map (\<lambda>r. zero_trip
                 \<lparr>t_id := pe_uuid_string pe (pt_external_id r), t_status := pt_status r,
                  t_name := cloneStringPtr (pt_name r),
                  t_start_date := dateToTimePtr (pt_start_date r),
                  t_end_date := dateToTimePtr (pt_end_date r),
                  t_draft_visibility := the (pt_draft_visibility r),
                  t_created_at := pt_created_at r, t_updated_at := pt_updated_at r\<rparr>)
               (order_by trip_row_order
                 [tr. tr \<leftarrow> db_trips db, m \<leftarrow> db_members db,
                    pm_external_id m = cu \<and> pt_status tr = Draft \<and>
                    (pt_draft_visibility tr = Some Private \<and> pt_created_by tr = pm_id m \<or>
                     pt_draft_visibility tr = Some Public \<and>
                       (\<exists>g \<in> set (db_organizers db). po_trip_id g = pt_id tr \<and> po_member_id g = pm_id m))]))))"

end
