(* ===== verification/PgTripInv.thy ===== *)
theory PgTripInv
  imports PgTripRepo
begin

text \<open>
  The tables of the Postgres trip repository under its writes: what \<open>syncOrganizers\<close> and
  \<open>syncArtifacts\<close> do, which constraints hold in every database the repositories can reach, and
  what the triggers guarantee.
\<close>

section \<open>Organizers\<close>

text \<open>The organizers of a trip as UUIDs of members.\<close>

definition organizer_uuids :: "pg_db \<Rightarrow> nat \<Rightarrow> uuid set" where
  "organizer_uuids db tk =
     {u. \<exists>mk. member_pk db u = Some mk \<and> \<lparr>po_trip_id = tk, po_member_id = mk\<rparr> \<in> set (db_organizers db)}"

definition organizers_ok :: "pg_db \<Rightarrow> bool" where
  "organizers_ok db \<longleftrightarrow> distinct (db_organizers db) \<and>
     po_trip_id ` set (db_organizers db) \<subseteq> pt_id ` set (db_trips db) \<and>
     po_member_id ` set (db_organizers db) \<subseteq> pm_id ` set (db_members db)"

lemma organizer_collapse: "\<lparr>po_trip_id = po_trip_id g, po_member_id = po_member_id g\<rparr> = g"
  by (cases g) simp

lemma member_pk_inj:
  assumes "rsvps_ok db" and "member_pk db u = Some k" and "member_pk db v = Some k"
  shows "u = v"
proof -
  obtain x where x: "x \<in> set (db_members db)" "pm_external_id x = u" "pm_id x = k"
    using member_pk_Some [OF assms(2)] by blast
  obtain y where y: "y \<in> set (db_members db)" "pm_external_id y = v" "pm_id y = k"
    using member_pk_Some [OF assms(3)] by blast
  have "x = y" using rsvps_okD(3) [OF assms(1)] x y by (auto simp: distinct_map inj_on_def)
  then show ?thesis using x y by simp
qed

lemma member_pk_organizers [simp]: "member_pk (db\<lparr>db_organizers := x\<rparr>) = member_pk db"
  by (rule ext) (simp add: member_pk_def)

lemma trip_pk_organizers [simp]: "trip_pk (db\<lparr>db_organizers := x\<rparr>) = trip_pk db"
  by (rule ext) (simp add: trip_pk_def)

lemma rsvps_ok_organizers [simp]: "rsvps_ok (db\<lparr>db_organizers := x\<rparr>) = rsvps_ok db"
  by (simp add: rsvps_ok_def)

text \<open>One delete: refused exactly when it would remove the last organizer.\<close>

lemma delete_organizer_eq:
  assumes ok: "rsvps_ok db" and oo: "organizers_ok db" and t: "trip_pk db tu = Some tk"
    and u: "u \<in> organizer_uuids db tk"
  shows "delete_organizer tu u db =
    (if organizer_uuids db tk = {u} then raise CheckViolationCode ''''
     else Inr (db\<lparr>db_organizers :=
       filter (\<lambda>g. g \<noteq> \<lparr>po_trip_id = tk, po_member_id = the (member_pk db u)\<rparr>) (db_organizers db)\<rparr>))"
proof -
  obtain mk where mk: "member_pk db u = Some mk" "\<lparr>po_trip_id = tk, po_member_id = mk\<rparr> \<in> set (db_organizers db)"
    using u by (auto simp: organizer_uuids_def)
  have "filter (\<lambda>g. po_trip_id g = tk \<and> po_member_id g \<noteq> mk) (db_organizers db) = [] \<longleftrightarrow>
      organizer_uuids db tk = {u}"
  proof
    assume none: "filter (\<lambda>g. po_trip_id g = tk \<and> po_member_id g \<noteq> mk) (db_organizers db) = []"
    have "v = u" if "v \<in> organizer_uuids db tk" for v
    proof -
      obtain k where k: "member_pk db v = Some k" "\<lparr>po_trip_id = tk, po_member_id = k\<rparr> \<in> set (db_organizers db)"
        using \<open>v \<in> organizer_uuids db tk\<close> by (auto simp: organizer_uuids_def)
      then have "k = mk" using none by (fastforce simp: filter_empty_conv)
      then show ?thesis using member_pk_inj [OF ok k(1)] mk(1) by simp
    qed
    with u show "organizer_uuids db tk = {u}" by blast
  next
    assume one: "organizer_uuids db tk = {u}"
    have "po_member_id g = mk" if g: "g \<in> set (db_organizers db)" "po_trip_id g = tk" for g
    proof -
      obtain m where m: "m \<in> set (db_members db)" "pm_id m = po_member_id g"
        using oo g(1) by (auto simp: organizers_ok_def)
      have "g = \<lparr>po_trip_id = tk, po_member_id = po_member_id g\<rparr>" using g(2) by simp
      then have "pm_external_id m \<in> organizer_uuids db tk"
        using g(1) m member_pk_row' [OF ok m(1) refl] by (auto simp: organizer_uuids_def)
      with one have "pm_external_id m = u" by blast
      then show ?thesis using mk(1) m member_pk_row' [OF ok m(1)] by simp
    qed
    then show "filter (\<lambda>g. po_trip_id g = tk \<and> po_member_id g \<noteq> mk) (db_organizers db) = []"
      by (auto simp: filter_empty_conv)
  qed
  then show ?thesis using mk t by (simp add: delete_organizer_def)
qed

lemma organizer_uuids_delete:
  assumes ok: "rsvps_ok db" and mk: "member_pk db u = Some mk"
  shows "organizer_uuids (db\<lparr>db_organizers :=
      filter (\<lambda>g. g \<noteq> \<lparr>po_trip_id = tk, po_member_id = mk\<rparr>) (db_organizers db)\<rparr>) k =
    (if k = tk then organizer_uuids db k - {u} else organizer_uuids db k)"
proof -
  have "member_pk db v = Some mk \<longleftrightarrow> v = u" for v using member_pk_inj [OF ok _ mk] mk by blast
  then have "member_pk db v = Some j \<Longrightarrow> v \<noteq> u \<longleftrightarrow> j \<noteq> mk" for v j by (metis option.inject)
  then show ?thesis unfolding organizer_uuids_def by (simp, blast)
qed

lemma organizers_ok_filter: "organizers_ok db \<Longrightarrow> organizers_ok (db\<lparr>db_organizers := filter P (db_organizers db)\<rparr>)"
  by (auto simp: organizers_ok_def)

text \<open>The delete loop over the present organizers.\<close>

lemma delete_removed_ok:
  assumes "rsvps_ok db" and "organizers_ok db" and "trip_pk db tu = Some tk"
    and "distinct us" and "set us \<subseteq> organizer_uuids db tk"
    and "set us - set want = {} \<or> organizer_uuids db tk - (set us - set want) \<noteq> {}"
  shows "\<exists>rows. delete_removed tu want us db = Inr (db\<lparr>db_organizers := rows\<rparr>) \<and>
    organizers_ok (db\<lparr>db_organizers := rows\<rparr>) \<and>
    (\<forall>k. organizer_uuids (db\<lparr>db_organizers := rows\<rparr>) k =
      (if k = tk then organizer_uuids db k - (set us - set want) else organizer_uuids db k))"
  using assms
proof (induction us arbitrary: db)
  case Nil
  then show ?case by (intro exI [of _ "db_organizers db"]) simp
next
  case (Cons u us)
  show ?case
  proof (cases "u \<in> set want")
    case True
    then have eq: "set (u # us) - set want = set us - set want" by auto
    have "delete_removed tu want (u # us) db = delete_removed tu want us db" using True by simp
    then show ?thesis
      unfolding eq using Cons.IH [of db, OF Cons.prems(1-3)] Cons.prems(4,5) Cons.prems(6) [unfolded eq] by simp
  next
    case False
    have u: "u \<in> organizer_uuids db tk" using Cons.prems(5) by simp
    then obtain mk where mk: "member_pk db u = Some mk" by (auto simp: organizer_uuids_def)
    have "organizer_uuids db tk \<noteq> {u}" using Cons.prems(6) False by auto
    define db1 where "db1 = db\<lparr>db_organizers :=
      filter (\<lambda>g. g \<noteq> \<lparr>po_trip_id = tk, po_member_id = mk\<rparr>) (db_organizers db)\<rparr>"
    have del: "delete_organizer tu u db = Inr db1"
      using delete_organizer_eq [OF Cons.prems(1-3) u] \<open>organizer_uuids db tk \<noteq> {u}\<close> mk
      by (simp add: db1_def)
    have O1: "organizer_uuids db1 k = (if k = tk then organizer_uuids db k - {u} else organizer_uuids db k)" for k
      unfolding db1_def by (rule organizer_uuids_delete [OF Cons.prems(1) mk])
    have "set (u # us) - set want = insert u (set us - set want)" using False by auto
    moreover have "set us - set want = {} \<or> organizer_uuids db1 tk - (set us - set want) \<noteq> {}"
      using Cons.prems(6) False O1 [of tk] by auto
    moreover have "set us \<subseteq> organizer_uuids db1 tk" using Cons.prems(4,5) O1 [of tk] by auto
    moreover have "rsvps_ok db1" "organizers_ok db1" "trip_pk db1 tu = Some tk" "distinct us"
      using Cons.prems by (simp_all add: db1_def organizers_ok_filter)
    ultimately obtain rows where rows: "delete_removed tu want us db1 = Inr (db1\<lparr>db_organizers := rows\<rparr>)"
      "organizers_ok (db1\<lparr>db_organizers := rows\<rparr>)"
      "\<forall>k. organizer_uuids (db1\<lparr>db_organizers := rows\<rparr>) k =
        (if k = tk then organizer_uuids db1 k - (set us - set want) else organizer_uuids db1 k)"
      using Cons.IH [of db1] by blast
    have eq: "db1\<lparr>db_organizers := rows\<rparr> = db\<lparr>db_organizers := rows\<rparr>" by (simp add: db1_def)
    show ?thesis
      using False del rows O1 unfolding eq by (intro exI [of _ rows]) auto
  qed
qed

lemma delete_removed_refused:
  assumes "rsvps_ok db" and "organizers_ok db" and "trip_pk db tu = Some tk"
    and "distinct us" and "set us \<subseteq> organizer_uuids db tk"
    and "set us - set want \<noteq> {}" and "organizer_uuids db tk - (set us - set want) = {}"
  shows "delete_removed tu want us db = raise CheckViolationCode ''''"
  using assms
proof (induction us arbitrary: db)
  case Nil
  then show ?case by simp
next
  case (Cons u us)
  show ?case
  proof (cases "u \<in> set want")
    case True
    then have eq: "set (u # us) - set want = set us - set want" by auto
    have "delete_removed tu want (u # us) db = delete_removed tu want us db" using True by simp
    then show ?thesis
      using Cons.IH [of db, OF Cons.prems(1-3)] Cons.prems(4,5) Cons.prems(6,7) [unfolded eq] by simp
  next
    case False
    have u: "u \<in> organizer_uuids db tk" using Cons.prems(5) by simp
    then obtain mk where mk: "member_pk db u = Some mk" by (auto simp: organizer_uuids_def)
    show ?thesis
    proof (cases "organizer_uuids db tk = {u}")
      case True
      then show ?thesis using False delete_organizer_eq [OF Cons.prems(1-3) u] by (simp add: raise_def)
    next
      case more: False
      define db1 where "db1 = db\<lparr>db_organizers :=
        filter (\<lambda>g. g \<noteq> \<lparr>po_trip_id = tk, po_member_id = mk\<rparr>) (db_organizers db)\<rparr>"
      have del: "delete_organizer tu u db = Inr db1"
        using delete_organizer_eq [OF Cons.prems(1-3) u] more mk by (simp add: db1_def)
      have O1: "organizer_uuids db1 tk = organizer_uuids db tk - {u}"
        unfolding db1_def using organizer_uuids_delete [OF Cons.prems(1) mk] by simp
      have "set (u # us) - set want = insert u (set us - set want)" using False by auto
      moreover from this more u Cons.prems(7) have "set us - set want \<noteq> {}" by auto
      ultimately have "delete_removed tu want us db1 = raise CheckViolationCode ''''"
        using Cons.prems O1 by (intro Cons.IH) (auto simp: db1_def organizers_ok_filter)
      with del False show ?thesis by simp
    qed
  qed
qed

lemma insert_row_organizers:
  "insert_organizer_row tk mk db =
   db\<lparr>db_organizers := db_organizers (insert_organizer_row tk mk db)\<rparr>"
  "set (db_organizers (insert_organizer_row tk mk db)) =
   insert \<lparr>po_trip_id = tk, po_member_id = mk\<rparr> (set (db_organizers db))"
  "distinct (db_organizers db) \<Longrightarrow> distinct (db_organizers (insert_organizer_row tk mk db))"
  by (auto simp: insert_organizer_row_def Let_def)

lemma insert_row_uuids:
  assumes ok: "rsvps_ok db" and mk: "member_pk db u = Some mk"
  shows "organizer_uuids (insert_organizer_row tk mk db) k =
    (if k = tk then insert u (organizer_uuids db k) else organizer_uuids db k)"
proof -
  have iff: "member_pk db v = Some mk \<longleftrightarrow> v = u" for v using member_pk_inj [OF ok _ mk] mk by blast
  have "member_pk (insert_organizer_row tk mk db) = member_pk db"
    by (subst insert_row_organizers(1)) simp
  then show ?thesis
    using mk by (auto simp: organizer_uuids_def insert_row_organizers(2) dest: iff [THEN iffD1])
qed

lemma insert_row_ok:
  assumes "organizers_ok db" and "tk \<in> pt_id ` set (db_trips db)" and "mk \<in> pm_id ` set (db_members db)"
  shows "organizers_ok (insert_organizer_row tk mk db)"
proof -
  have "db_trips (insert_organizer_row tk mk db) = db_trips db"
    "db_members (insert_organizer_row tk mk db) = db_members db"
    by (subst insert_row_organizers(1); simp)+
  with assms show ?thesis by (auto simp: organizers_ok_def insert_row_organizers(2,3))
qed

text \<open>The insert loop over the wanted organizers.\<close>

lemma insert_added_ok:
  assumes "rsvps_ok db" and "organizers_ok db" and "trip_pk db tu = Some tk"
    and "\<And>u. u \<in> set us - set present \<Longrightarrow> member_pk db u \<noteq> None"
  shows "\<exists>rows. insert_added tu present us db = Inr (db\<lparr>db_organizers := rows\<rparr>) \<and>
    organizers_ok (db\<lparr>db_organizers := rows\<rparr>) \<and>
    (\<forall>k. organizer_uuids (db\<lparr>db_organizers := rows\<rparr>) k =
      (if k = tk then organizer_uuids db k \<union> (set us - set present) else organizer_uuids db k))"
  using assms
proof (induction us arbitrary: db)
  case Nil
  then show ?case by (intro exI [of _ "db_organizers db"]) simp
next
  case (Cons u us)
  show ?case
  proof (cases "u \<in> set present")
    case True
    then have eq: "set (u # us) - set present = set us - set present" by auto
    have "insert_added tu present (u # us) db = insert_added tu present us db" using True by simp
    then show ?thesis
      unfolding eq using Cons.IH [of db, OF Cons.prems(1-3)] Cons.prems(4) [unfolded eq] by simp
  next
    case False
    then obtain mk where mk: "member_pk db u = Some mk" using Cons.prems(4) [of u] by auto
    define rows1 where "rows1 = db_organizers (insert_organizer_row tk mk db)"
    have row: "insert_organizer_row tk mk db = db\<lparr>db_organizers := rows1\<rparr>"
      unfolding rows1_def by (rule insert_row_organizers(1))
    have ins: "insert_organizer tu u db = Inr (db\<lparr>db_organizers := rows1\<rparr>)"
      by (simp add: insert_organizer_def Cons.prems(3) mk row)
    have "tk \<in> pt_id ` set (db_trips db)" "mk \<in> pm_id ` set (db_members db)"
      using trip_pk_Some [OF Cons.prems(3)] member_pk_Some [OF mk] by auto
    from insert_row_ok [OF Cons.prems(2) this] have "organizers_ok (db\<lparr>db_organizers := rows1\<rparr>)"
      by (simp add: row)
    moreover have "member_pk (db\<lparr>db_organizers := rows1\<rparr>) v \<noteq> None" if "v \<in> set us - set present" for v
      using Cons.prems(4) [of v] that by simp
    ultimately obtain rows where rows:
      "insert_added tu present us (db\<lparr>db_organizers := rows1\<rparr>) = Inr (db\<lparr>db_organizers := rows\<rparr>)"
      "organizers_ok (db\<lparr>db_organizers := rows\<rparr>)"
      "\<forall>k. organizer_uuids (db\<lparr>db_organizers := rows\<rparr>) k =
        (if k = tk then organizer_uuids (db\<lparr>db_organizers := rows1\<rparr>) k \<union> (set us - set present)
         else organizer_uuids (db\<lparr>db_organizers := rows1\<rparr>) k)"
      using Cons.IH [of "db\<lparr>db_organizers := rows1\<rparr>"] Cons.prems(1,3) by auto
    show ?thesis
      using False ins rows insert_row_uuids [OF Cons.prems(1) mk, of tk, unfolded row]
      by (intro exI [of _ rows]) auto
  qed
qed

lemma insert_added_unknown:
  assumes "u \<in> set us - set present" and "member_pk db u = None"
  shows "\<exists>e. insert_added tu present us db = Inl e"
  using assms
proof (induction us arbitrary: db)
  case (Cons v us)
  show ?case
  proof (cases "v \<in> set present \<or> v \<noteq> u")
    case True
    then have "u \<in> set us - set present" using Cons.prems(1) by auto
    moreover have "member_pk db' u = None" if "insert_organizer tu v db = Inr db'" for db'
      using that Cons.prems(2)
      by (auto simp: insert_organizer_def insert_organizer_row_def Let_def raise_def split: option.splits if_splits)
    ultimately show ?thesis
      using Cons.IH Cons.prems(2) True
      by (cases "v \<in> set present"; cases "insert_organizer tu v db") auto
  next
    case False
    then show ?thesis using Cons.prems(2)
      by (cases "trip_pk db tu") (auto simp: insert_organizer_def raise_def)
  qed
qed simp

lemma uuid_set_props:
  "set (uuid_set pe ss acc) = set acc \<union> {u. \<exists>s \<in> set ss. pe_uuid_parse pe s = Inr u}"
  "distinct acc \<Longrightarrow> distinct (uuid_set pe ss acc)"
  by (induction ss arbitrary: acc) (auto split: sum.splits)

text \<open>The organizers that are read back: sorted, each once.\<close>



lemma loadOrganizerExternalIDs_eq:
  assumes ok: "rsvps_ok db" and oo: "organizers_ok db" and t: "trip_pk db tu = Some tk"
  shows "loadOrganizerExternalIDs pe db tu =
    map (pe_uuid_string pe) (sorted_list_of_set (organizer_uuids db tk))"
proof -
  let ?rows = "filter (\<lambda>g. po_trip_id g = tk) (db_organizers db)"
  have each: "concat (map (\<lambda>m. if pm_id m = po_member_id g \<and> Some (po_trip_id g) = Some tk then [m] else [])
        (db_members db)) = (if po_trip_id g = tk then [member_by_pk db (po_member_id g)] else [])"
    if g: "g \<in> set (db_organizers db)" for g
  proof -
    have "po_member_id g \<in> pm_id ` set (db_members db)" using oo g by (auto simp: organizers_ok_def)
    then obtain m where m: "m \<in> set (db_members db)" "pm_id m = po_member_id g" by auto
    from concat_map_if_unique [OF rsvps_okD(3) [OF ok] m, of "\<lambda>m. [m]"] member_by_pk [OF ok m(1)] m(2)
    show ?thesis by auto
  qed
  have "concat (map (\<lambda>g. concat (map (\<lambda>m. if pm_id m = po_member_id g \<and> Some (po_trip_id g) = Some tk
        then [m] else []) (db_members db))) gs) =
      map (\<lambda>g. member_by_pk db (po_member_id g)) (filter (\<lambda>g. po_trip_id g = tk) gs)"
    if "set gs \<subseteq> set (db_organizers db)" for gs
    using that each by (induction gs) simp_all
  then have join: "[m. g \<leftarrow> db_organizers db, m \<leftarrow> db_members db,
      pm_id m = po_member_id g \<and> Some (po_trip_id g) = trip_pk db tu] =
      map (\<lambda>g. member_by_pk db (po_member_id g)) ?rows" by (simp add: t)
  have refs: "member_by_pk db (po_member_id g) \<in> set (db_members db)"
    "pm_id (member_by_pk db (po_member_id g)) = po_member_id g" if "g \<in> set (db_organizers db)" for g
  proof -
    have "po_member_id g \<in> pm_id ` set (db_members db)" using oo that by (auto simp: organizers_ok_def)
    then obtain m where m: "m \<in> set (db_members db)" "pm_id m = po_member_id g" by auto
    with member_by_pk [OF ok m(1)] show "member_by_pk db (po_member_id g) \<in> set (db_members db)"
      "pm_id (member_by_pk db (po_member_id g)) = po_member_id g" by simp_all
  qed
  let ?us = "map (\<lambda>g. pm_external_id (member_by_pk db (po_member_id g))) ?rows"
  have "set ?us = organizer_uuids db tk"
  proof
    show "set ?us \<subseteq> organizer_uuids db tk"
    proof
      fix u assume "u \<in> set ?us"
      then obtain g where g: "g \<in> set (db_organizers db)" "po_trip_id g = tk"
        "u = pm_external_id (member_by_pk db (po_member_id g))" by auto
      have "\<lparr>po_trip_id = tk, po_member_id = po_member_id g\<rparr> \<in> set (db_organizers db)"
        using g(1,2) by (metis organizer_collapse)
      with g(3) refs(2) [OF g(1)] member_pk_row' [OF ok refs(1) [OF g(1)] refl]
      show "u \<in> organizer_uuids db tk" by (simp add: organizer_uuids_def)
    qed
    show "organizer_uuids db tk \<subseteq> set ?us"
    proof
      fix u assume "u \<in> organizer_uuids db tk"
      then obtain mk where mk: "member_pk db u = Some mk"
        "\<lparr>po_trip_id = tk, po_member_id = mk\<rparr> \<in> set (db_organizers db)" by (auto simp: organizer_uuids_def)
      obtain m where m: "m \<in> set (db_members db)" "pm_external_id m = u" "pm_id m = mk"
        using member_pk_Some [OF mk(1)] by blast
      with mk(2) member_by_pk [OF ok m(1)] show "u \<in> set ?us" by force
    qed
  qed
  moreover have "distinct ?us"
  proof -
    have "distinct ?rows" using oo by (simp add: organizers_ok_def)
    moreover have "g = g'" if "g \<in> set ?rows" "g' \<in> set ?rows"
      "pm_external_id (member_by_pk db (po_member_id g)) = pm_external_id (member_by_pk db (po_member_id g'))" for g g'
    proof -
      have "member_by_pk db (po_member_id g) = member_by_pk db (po_member_id g')"
        using that refs rsvps_okD(4) [OF ok] by (auto simp: distinct_map inj_on_def)
      then have "po_member_id g = po_member_id g'" using that refs by (metis filter_is_subset subsetD)
      then show ?thesis using that by simp
    qed
    ultimately show ?thesis by (simp add: distinct_map inj_on_def)
  qed
  ultimately have "sort ?us = sorted_list_of_set (organizer_uuids db tk)"
    by (metis sorted_list_of_set_sort_remdups distinct_remdups_id)
  moreover have "map pm_external_id (sort_key pm_external_id
      (map (\<lambda>g. member_by_pk db (po_member_id g)) ?rows)) = sort ?us"
    by (simp add: sort_key_image comp_def)
  ultimately show ?thesis
    by (simp only: loadOrganizerExternalIDs_def join order_by_def map_map [symmetric, unfolded comp_def])
qed

text \<open>\<open>syncOrganizers\<close>: the wanted members become the organizers, unless none of the present ones
  stays (the deletes come first and the last organizer cannot be deleted) or one is unknown.\<close>

definition parsed :: "pg_env \<Rightarrow> gostring list \<Rightarrow> uuid set" where
  "parsed pe ss = {u. \<exists>s \<in> set ss. pe_uuid_parse pe s = Inr u}"

lemma syncOrganizers_cases:
  assumes env: "pg_env_ok pe" and ok: "rsvps_ok db" and oo: "organizers_ok db"
    and t: "trip_pk db tu = Some tk" and some: "organizer_uuids db tk \<noteq> {}"
  shows "if organizer_uuids db tk \<inter> parsed pe desired \<noteq> {} \<and>
            (\<forall>u \<in> parsed pe desired. member_pk db u \<noteq> None)
    then \<exists>rows. syncOrganizers pe tu desired db = Inr (db\<lparr>db_organizers := rows\<rparr>) \<and>
      organizers_ok (db\<lparr>db_organizers := rows\<rparr>) \<and>
      (\<forall>k. organizer_uuids (db\<lparr>db_organizers := rows\<rparr>) k =
        (if k = tk then parsed pe desired else organizer_uuids db k))
    else \<exists>e. syncOrganizers pe tu desired db = Inl e"
proof -
  let ?O = "organizer_uuids db tk" and ?W = "parsed pe desired"
  let ?want = "uuid_set pe desired []"
  let ?present = "uuid_set pe (loadOrganizerExternalIDs pe db tu) []"
  have W: "set ?want = ?W" "distinct ?want" by (simp_all add: uuid_set_props parsed_def)
  have "finite ?O"
  proof (rule finite_subset)
    show "?O \<subseteq> pm_external_id ` set (db_members db)"
      by (auto simp: organizer_uuids_def dest!: member_pk_Some)
  qed simp
  then have P: "set ?present = ?O" "distinct ?present"
    by (simp_all add: uuid_set_props loadOrganizerExternalIDs_eq [OF ok oo t] pg_env_okD(1) [OF env])
  have diff: "set ?present - set ?want = ?O - ?W" by (simp add: W P)
  have rest: "?O - (?O - ?W) = ?O \<inter> ?W" by blast
  have known: "member_pk db u \<noteq> None" if "u \<in> ?O" for u using that by (auto simp: organizer_uuids_def)
  show ?thesis
  proof (cases "?O \<inter> ?W \<noteq> {}")
    case False
    then have "delete_removed tu ?want ?present db = raise CheckViolationCode ''''"
      using some by (intro delete_removed_refused [OF ok oo t]) (auto simp: W P)
    with False show ?thesis by (simp add: syncOrganizers_def Let_def raise_def)
  next
    case True
    have prem: "set ?present \<subseteq> ?O"
      "set ?present - set ?want = {} \<or> ?O - (set ?present - set ?want) \<noteq> {}"
      unfolding diff rest using True by (simp_all add: P)
    obtain rows1 where r1: "delete_removed tu ?want ?present db = Inr (db\<lparr>db_organizers := rows1\<rparr>)"
      "organizers_ok (db\<lparr>db_organizers := rows1\<rparr>)"
      "\<forall>k. organizer_uuids (db\<lparr>db_organizers := rows1\<rparr>) k =
        (if k = tk then organizer_uuids db k - (?O - ?W) else organizer_uuids db k)"
      using delete_removed_ok [OF ok oo t P(2) prem] unfolding diff by blast
    let ?db1 = "db\<lparr>db_organizers := rows1\<rparr>"
    have sync: "syncOrganizers pe tu desired db = insert_added tu ?present ?want ?db1"
      by (simp add: syncOrganizers_def Let_def r1(1))
    show ?thesis
    proof (cases "\<forall>u \<in> ?W. member_pk db u \<noteq> None")
      case all: True
      have "member_pk ?db1 u \<noteq> None" if "u \<in> set ?want - set ?present" for u
        using all that by (simp add: W)
      then obtain rows where "insert_added tu ?present ?want ?db1 = Inr (?db1\<lparr>db_organizers := rows\<rparr>)"
        "organizers_ok (?db1\<lparr>db_organizers := rows\<rparr>)"
        "\<forall>k. organizer_uuids (?db1\<lparr>db_organizers := rows\<rparr>) k =
          (if k = tk then organizer_uuids ?db1 k \<union> (set ?want - set ?present) else organizer_uuids ?db1 k)"
        using insert_added_ok [of ?db1 tu tk ?want ?present] ok r1(2) t by auto
      moreover have "?O - (?O - ?W) \<union> (?W - ?O) = ?W" by blast
      ultimately show ?thesis
        using all True r1(3) by (simp add: sync W P) (metis W(1) P(1))
    next
      case False
      then obtain u where u: "u \<in> ?W" "member_pk db u = None" by blast
      moreover have "u \<notin> ?O" using known u(2) by blast
      ultimately have "\<exists>e. insert_added tu ?present ?want ?db1 = Inl e"
        by (intro insert_added_unknown [of u]) (simp_all add: W P)
      with u show ?thesis by (auto simp: sync)
    qed
  qed
qed

lemma syncOrganizers_Inr:
  assumes "pg_env_ok pe" and "rsvps_ok db" and "organizers_ok db"
    and "trip_pk db tu = Some tk" and "organizer_uuids db tk \<noteq> {}"
    and "syncOrganizers pe tu desired db = Inr db'"
  shows "db' = db\<lparr>db_organizers := db_organizers db'\<rparr>" and "organizers_ok db'"
    and "organizer_uuids db' k = (if k = tk then parsed pe desired else organizer_uuids db k)"
    and "parsed pe desired \<noteq> {}"
proof -
  note c = syncOrganizers_cases [OF assms(1-5), of desired]
  have "organizer_uuids db tk \<inter> parsed pe desired \<noteq> {} \<and> (\<forall>u \<in> parsed pe desired. member_pk db u \<noteq> None)"
    using c assms(6) by (auto split: if_splits)
  with c assms(6) obtain rows where r: "db' = db\<lparr>db_organizers := rows\<rparr>"
    "organizers_ok (db\<lparr>db_organizers := rows\<rparr>)"
    "\<forall>k. organizer_uuids (db\<lparr>db_organizers := rows\<rparr>) k =
        (if k = tk then parsed pe desired else organizer_uuids db k)"
    "organizer_uuids db tk \<inter> parsed pe desired \<noteq> {}" by auto
  from r(1) show "db' = db\<lparr>db_organizers := db_organizers db'\<rparr>" by simp
  from r show "organizers_ok db'"
    and "organizer_uuids db' k = (if k = tk then parsed pe desired else organizer_uuids db k)"
    and "parsed pe desired \<noteq> {}" by auto
qed

section \<open>Artifacts\<close>

definition artifacts_ok :: "pg_db \<Rightarrow> bool" where
  "artifacts_ok db \<longleftrightarrow> distinct (map pa_external_id (db_artifacts db)) \<and>
     pa_trip_id ` set (db_artifacts db) \<subseteq> pt_id ` set (db_trips db)"

text \<open>The rows an artifact list asks for: the entries whose ID parses, with their positions.\<close>

fun artifact_rows :: "pg_env \<Rightarrow> nat \<Rightarrow> int \<Rightarrow> trip_artifact list \<Rightarrow> pg_artifact list" where
  "artifact_rows pe tk i [] = []"
| "artifact_rows pe tk i (a # as) =
     (case pe_uuid_parse pe (art_id a) of
        Inl _ \<Rightarrow> artifact_rows pe tk (i + 1) as
      | Inr aid \<Rightarrow> \<lparr>pa_external_id = aid, pa_trip_id = tk, pa_type = art_type a,
                    pa_title = art_title a, pa_url = art_url a, pa_sort_order = i\<rparr>
                  # artifact_rows pe tk (i + 1) as)"

lemma trip_pk_artifacts [simp]: "trip_pk (db\<lparr>db_artifacts := x\<rparr>) = trip_pk db"
  by (rule ext) (simp add: trip_pk_def)

lemma cast_artifact_type_Inr: "cast_artifact_type x = Inr y \<Longrightarrow> y = x"
  by (cases x) (auto simp: raise_def)

lemma artifact_rows_order:
  "\<forall>r \<in> set (artifact_rows pe tk i as). i \<le> pa_sort_order r \<and> pa_trip_id r = tk"
  by (induction as arbitrary: i) (force split: sum.splits)+

lemma upsert_artifact_rows:
  assumes "trip_pk db tu = Some tk" and "upsert_artifact aid tu a i db = Inr db'"
    and "distinct (map pa_external_id (db_artifacts db))"
  shows "db' = db\<lparr>db_artifacts := db_artifacts db'\<rparr>"
    and "distinct (map pa_external_id (db_artifacts db'))"
    and "set (db_artifacts db') =
      {r \<in> set (db_artifacts db). pa_external_id r \<noteq> aid} \<union>
      {\<lparr>pa_external_id = aid,
        pa_trip_id = (case find (\<lambda>r. pa_external_id r = aid) (db_artifacts db) of
                        None \<Rightarrow> tk | Some r \<Rightarrow> pa_trip_id r),
        pa_type = art_type a, pa_title = art_title a, pa_url = art_url a, pa_sort_order = i\<rparr>}"
proof -
  let ?row = "\<lparr>pa_external_id = aid, pa_trip_id = tk, pa_type = art_type a, pa_title = art_title a,
      pa_url = art_url a, pa_sort_order = i\<rparr>"
  let ?merge = "\<lambda>excluded r. r\<lparr>pa_type := pa_type excluded, pa_title := pa_title excluded,
      pa_url := pa_url excluded, pa_sort_order := pa_sort_order excluded\<rparr>"
  have db': "db' = db\<lparr>db_artifacts := upsert_row pa_external_id ?merge ?row (db_artifacts db)\<rparr>"
    using assms(1,2) by (auto simp: upsert_artifact_def and_then_Inr dest: cast_artifact_type_Inr)
  then show "db' = db\<lparr>db_artifacts := db_artifacts db'\<rparr>" by simp
  show "distinct (map pa_external_id (db_artifacts db'))"
    unfolding db' by (simp add: upsert_row_distinct [OF _ assms(3)])
  have merge: "?merge ?row r = \<lparr>pa_external_id = aid, pa_trip_id = pa_trip_id r, pa_type = art_type a,
      pa_title = art_title a, pa_url = art_url a, pa_sort_order = i\<rparr>" if "pa_external_id r = aid" for r :: pg_artifact
    using that by (cases r) simp
  have "(case find (\<lambda>r. pa_external_id r = aid) (db_artifacts db) of None \<Rightarrow> ?row | Some r \<Rightarrow> ?merge ?row r) =
      \<lparr>pa_external_id = aid,
        pa_trip_id = (case find (\<lambda>r. pa_external_id r = aid) (db_artifacts db) of
                        None \<Rightarrow> tk | Some r \<Rightarrow> pa_trip_id r),
        pa_type = art_type a, pa_title = art_title a, pa_url = art_url a, pa_sort_order = i\<rparr>"
  proof (cases "find (\<lambda>r. pa_external_id r = aid) (db_artifacts db)")
    case (Some r)
    then have "pa_external_id r = aid" by (blast dest: find_SomeD)
    with Some merge show ?thesis by simp
  qed simp
  then show "set (db_artifacts db') =
      {r \<in> set (db_artifacts db). pa_external_id r \<noteq> aid} \<union>
      {\<lparr>pa_external_id = aid,
        pa_trip_id = (case find (\<lambda>r. pa_external_id r = aid) (db_artifacts db) of
                        None \<Rightarrow> tk | Some r \<Rightarrow> pa_trip_id r),
        pa_type = art_type a, pa_title = art_title a, pa_url = art_url a, pa_sort_order = i\<rparr>}"
    using upsert_row_set [OF assms(3), where r = ?row and merge = ?merge] by (simp add: db')
qed

text \<open>The upsert loop when no wanted ID belongs to another trip or occurs twice.\<close>

lemma upsert_artifacts_rows:
  assumes "trip_pk db tu = Some tk" and "distinct (map pa_external_id (db_artifacts db))"
    and "\<And>r x. r \<in> set (db_artifacts db) \<Longrightarrow> x \<in> set (artifact_rows pe tk i as) \<Longrightarrow>
      pa_external_id r = pa_external_id x \<Longrightarrow> pa_trip_id r = tk"
    and "distinct (map pa_external_id (artifact_rows pe tk i as))"
    and "upsert_artifacts pe tu i as keep db = Inr (keep', db')"
  shows "db' = db\<lparr>db_artifacts := db_artifacts db'\<rparr> \<and> distinct (map pa_external_id (db_artifacts db')) \<and>
    set keep' = set keep \<union> pa_external_id ` set (artifact_rows pe tk i as) \<and>
    set (db_artifacts db') =
      {r \<in> set (db_artifacts db). pa_external_id r \<notin> pa_external_id ` set (artifact_rows pe tk i as)} \<union>
      set (artifact_rows pe tk i as)"
  using assms
proof (induction as arbitrary: i keep db)
  case Nil
  then show ?case by simp
next
  case (Cons a as)
  show ?case
  proof (cases "pe_uuid_parse pe (art_id a)")
    case (Inl e)
    with Cons.IH [OF Cons.prems(1,2), of "i + 1" keep] Cons.prems(3-5) show ?thesis by simp
  next
    case (Inr aid)
    let ?x = "\<lparr>pa_external_id = aid, pa_trip_id = tk, pa_type = art_type a,
        pa_title = art_title a, pa_url = art_url a, pa_sort_order = i\<rparr>"
    have rows: "artifact_rows pe tk i (a # as) = ?x # artifact_rows pe tk (i + 1) as" using Inr by simp
    obtain db1 where up: "upsert_artifact aid tu a i db = Inr db1"
      and rest: "upsert_artifacts pe tu (i + 1) as (aid # keep) db1 = Inr (keep', db')"
      using Cons.prems(5) Inr by (auto simp: and_then_Inr)
    note u = upsert_artifact_rows [OF Cons.prems(1) up Cons.prems(2)]
    have "(case find (\<lambda>r. pa_external_id r = aid) (db_artifacts db) of
            None \<Rightarrow> tk | Some r \<Rightarrow> pa_trip_id r) = tk"
      using Cons.prems(3) [of _ ?x] rows by (auto dest!: find_SomeD split: option.split)
    then have set1: "set (db_artifacts db1) = {r \<in> set (db_artifacts db). pa_external_id r \<noteq> aid} \<union> {?x}"
      using u(3) by simp
    have fresh: "aid \<notin> pa_external_id ` set (artifact_rows pe tk (i + 1) as)"
      using Cons.prems(4) unfolding rows by auto
    have pk1: "trip_pk db1 tu = Some tk" using Cons.prems(1) by (subst u(1)) simp
    have own1: "pa_trip_id r = tk" if "r \<in> set (db_artifacts db1)"
      "x \<in> set (artifact_rows pe tk (i + 1) as)" "pa_external_id r = pa_external_id x" for r x
      using that Cons.prems(3) [of r x] set1 unfolding rows by auto
    have "distinct (map pa_external_id (artifact_rows pe tk (i + 1) as))"
      using Cons.prems(4) unfolding rows by simp
    note IH = Cons.IH [OF pk1 u(2) own1 this rest]
    have "db' = db\<lparr>db_artifacts := db_artifacts db'\<rparr>"
    proof -
      have "db1\<lparr>db_artifacts := db_artifacts db'\<rparr> = db\<lparr>db_artifacts := db_artifacts db'\<rparr>"
        by (subst u(1)) simp
      with IH show ?thesis by simp
    qed
    with IH fresh show ?thesis unfolding rows by (auto simp: set1)
  qed
qed

lemma upsert_artifacts_ok:
  assumes "trip_pk db tu = Some tk" and "artifacts_ok db"
    and "upsert_artifacts pe tu i as keep db = Inr (keep', db')"
  shows "db' = db\<lparr>db_artifacts := db_artifacts db'\<rparr> \<and> artifacts_ok db'"
  using assms
proof (induction as arbitrary: i keep db)
  case Nil
  then show ?case by simp
next
  case (Cons a as)
  show ?case
  proof (cases "pe_uuid_parse pe (art_id a)")
    case (Inl e)
    with Cons show ?thesis by simp
  next
    case (Inr aid)
    obtain db1 where up: "upsert_artifact aid tu a i db = Inr db1"
      and rest: "upsert_artifacts pe tu (i + 1) as (aid # keep) db1 = Inr (keep', db')"
      using Cons.prems(3) Inr by (auto simp: and_then_Inr)
    have d: "distinct (map pa_external_id (db_artifacts db))" using Cons.prems(2) by (simp add: artifacts_ok_def)
    note u = upsert_artifact_rows [OF Cons.prems(1) up d]
    have trips: "db_trips db1 = db_trips db" by (subst u(1)) simp
    have "pa_trip_id r \<in> pt_id ` set (db_trips db)" if "r \<in> set (db_artifacts db1)" for r
    proof -
      have tk: "tk \<in> pt_id ` set (db_trips db)" using trip_pk_Some [OF Cons.prems(1)] by auto
      have old: "pa_trip_id x \<in> pt_id ` set (db_trips db)" if "x \<in> set (db_artifacts db)" for x
        using Cons.prems(2) that by (auto simp: artifacts_ok_def)
      show ?thesis
        using \<open>r \<in> set (db_artifacts db1)\<close> tk old unfolding u(3)
        by (auto split: option.splits dest!: find_SomeD)
    qed
    then have "artifacts_ok db1" using u(2) by (auto simp: artifacts_ok_def trips)
    moreover have "trip_pk db1 tu = Some tk" using Cons.prems(1) by (subst u(1)) simp
    ultimately have IH: "db' = db1\<lparr>db_artifacts := db_artifacts db'\<rparr> \<and> artifacts_ok db'"
      using Cons.IH rest by blast
    have "db1\<lparr>db_artifacts := db_artifacts db'\<rparr> = db\<lparr>db_artifacts := db_artifacts db'\<rparr>"
      by (subst u(1)) simp
    with IH show ?thesis by simp
  qed
qed

lemma delete_artifacts_eq:
  assumes "trip_pk db tu = Some tk"
  shows "delete_artifacts pe tu keep as db = db\<lparr>db_artifacts := filter (\<lambda>r. \<not> (pa_trip_id r = tk \<and>
    pa_external_id r \<in> parsed pe (map art_id as) \<and> pa_external_id r \<notin> set keep)) (db_artifacts db)\<rparr>"
  using assms
proof (induction as arbitrary: db)
  case Nil
  then show ?case by (simp add: parsed_def)
next
  case (Cons a as)
  show ?case
  proof (cases "pe_uuid_parse pe (art_id a)")
    case (Inl e)
    with Cons show ?thesis by (simp add: parsed_def)
  next
    case (Inr aid)
    have p: "parsed pe (art_id a # map art_id as) = insert aid (parsed pe (map art_id as))"
      using Inr by (auto simp: parsed_def)
    show ?thesis
    proof (cases "aid \<in> set keep")
      case True
      then have "pa_external_id r \<in> insert aid (parsed pe (map art_id as)) \<and> pa_external_id r \<notin> set keep \<longleftrightarrow>
          pa_external_id r \<in> parsed pe (map art_id as) \<and> pa_external_id r \<notin> set keep" for r :: pg_artifact by auto
      with Cons Inr True show ?thesis by (simp add: p)
    next
      case False
      have pk: "trip_pk (delete_artifact tu aid db) tu = Some tk"
        using Cons.prems by (simp add: delete_artifact_def)
      have "delete_artifacts pe tu keep (a # as) db = delete_artifacts pe tu keep as (delete_artifact tu aid db)"
        using Inr False by simp
      also have "\<dots> = db\<lparr>db_artifacts := filter (\<lambda>r. \<not> (pa_trip_id r = tk \<and>
          pa_external_id r \<in> parsed pe (map art_id as) \<and> pa_external_id r \<notin> set keep))
          (db_artifacts (delete_artifact tu aid db))\<rparr>"
        by (simp add: Cons.IH [OF pk]) (simp add: delete_artifact_def)
      also have "\<dots> = db\<lparr>db_artifacts := filter (\<lambda>r. \<not> (pa_trip_id r = tk \<and>
          pa_external_id r \<in> parsed pe (map art_id (a # as)) \<and> pa_external_id r \<notin> set keep)) (db_artifacts db)\<rparr>"
        using False Cons.prems by (simp add: p delete_artifact_def, intro arg_cong [where f = "\<lambda>x. db\<lparr>db_artifacts := x\<rparr>"] filter_cong) auto
      finally show ?thesis .
    qed
  qed
qed

lemma loadArtifacts_ids:
  assumes "pg_env_ok pe" and "trip_pk db tu = Some tk"
  shows "parsed pe (map art_id (loadArtifacts pe db tu)) =
    pa_external_id ` {r \<in> set (db_artifacts db). pa_trip_id r = tk}"
  by (auto simp: parsed_def loadArtifacts_def assms(2) order_by_def pg_env_okD(1) [OF assms(1)])

text \<open>\<open>syncArtifacts\<close>: only the artifact table changes; on a list without foreign or repeated IDs
  the trip has exactly the listed artifacts afterwards, in their order.\<close>

lemma syncArtifacts_ok:
  assumes env: "pg_env_ok pe" and t: "trip_pk db tu = Some tk" and ok: "artifacts_ok db"
    and sync: "syncArtifacts pe tu desired db = Inr db'"
  shows "db' = db\<lparr>db_artifacts := db_artifacts db'\<rparr>" and "artifacts_ok db'"
proof -
  obtain keep db1 where up: "upsert_artifacts pe tu 0 desired [] db = Inr (keep, db1)"
    and db': "db' = delete_artifacts pe tu keep (loadArtifacts pe db1 tu) db1"
    using sync by (auto simp: syncArtifacts_def and_then_Inr)
  note u = upsert_artifacts_ok [OF t ok up]
  have eq: "db1 = db\<lparr>db_artifacts := db_artifacts db1\<rparr>" using u by simp
  have pk: "trip_pk db1 tu = Some tk" using t by (subst eq) simp
  note d = delete_artifacts_eq [OF pk, of pe keep "loadArtifacts pe db1 tu", folded db']
  show "db' = db\<lparr>db_artifacts := db_artifacts db'\<rparr>" unfolding d by (subst eq) simp
  have trips: "db_trips db1 = db_trips db" by (subst eq) simp
  show "artifacts_ok db'" using u unfolding d artifacts_ok_def by (auto simp: distinct_map_filter)
qed

lemma syncArtifacts_rows:
  assumes env: "pg_env_ok pe" and t: "trip_pk db tu = Some tk" and ok: "artifacts_ok db"
    and own: "\<And>r x. r \<in> set (db_artifacts db) \<Longrightarrow> x \<in> set (artifact_rows pe tk 0 desired) \<Longrightarrow>
      pa_external_id r = pa_external_id x \<Longrightarrow> pa_trip_id r = tk"
    and dist: "distinct (map pa_external_id (artifact_rows pe tk 0 desired))"
    and sync: "syncArtifacts pe tu desired db = Inr db'"
  shows "set (db_artifacts db') =
      {r \<in> set (db_artifacts db). pa_trip_id r \<noteq> tk} \<union> set (artifact_rows pe tk 0 desired)"
proof -
  obtain keep db1 where up: "upsert_artifacts pe tu 0 desired [] db = Inr (keep, db1)"
    and db': "db' = delete_artifacts pe tu keep (loadArtifacts pe db1 tu) db1"
    using sync by (auto simp: syncArtifacts_def and_then_Inr)
  have d: "distinct (map pa_external_id (db_artifacts db))" using ok by (simp add: artifacts_ok_def)
  note u = upsert_artifacts_rows [OF t d own dist up]
  have eq: "db1 = db\<lparr>db_artifacts := db_artifacts db1\<rparr>" using u by simp
  have pk: "trip_pk db1 tu = Some tk" using t by (subst eq) simp
  have "set (db_artifacts db') = {r \<in> set (db_artifacts db1). \<not> (pa_trip_id r = tk \<and>
      pa_external_id r \<in> pa_external_id ` {r \<in> set (db_artifacts db1). pa_trip_id r = tk} \<and>
      pa_external_id r \<notin> set keep)}"
    by (simp add: db' delete_artifacts_eq [OF pk] loadArtifacts_ids [OF env pk])
  also have "\<dots> = {r \<in> set (db_artifacts db1). pa_trip_id r = tk \<longrightarrow> pa_external_id r \<in> set keep}"
    by blast
  also have "\<dots> = {r \<in> set (db_artifacts db). pa_trip_id r \<noteq> tk} \<union> set (artifact_rows pe tk 0 desired)"
    using u artifact_rows_order [of pe tk 0 desired] own by auto
  finally show ?thesis .
qed

lemma artifact_rows_sorted:
  "sorted_wrt (\<lambda>a b. pa_sort_order a < pa_sort_order b) (artifact_rows pe tk i as)"
proof (induction as arbitrary: i)
  case (Cons a as)
  have "i < pa_sort_order r" if "r \<in> set (artifact_rows pe tk (i + 1) as)" for r
    using artifact_rows_order [of pe tk "i + 1" as] that by auto
  with Cons show ?case by (auto split: sum.split)
qed simp

lemma loadArtifacts_eq:
  assumes t: "trip_pk db tu = Some tk" and ok: "artifacts_ok db"
    and rows: "{r \<in> set (db_artifacts db). pa_trip_id r = tk} = set (artifact_rows pe tk i as)"
  shows "loadArtifacts pe db tu =
    map (\<lambda>r. \<lparr>art_id = pe_uuid_string pe (pa_external_id r), art_type = pa_type r,
              art_title = pa_title r, art_url = pa_url r\<rparr>) (artifact_rows pe tk i as)"
proof -
  let ?rows = "artifact_rows pe tk i as" and ?k = "\<lambda>r. (pa_sort_order r, pa_external_id r)"
  have srt: "sorted_wrt (\<lambda>a b. pa_sort_order a < pa_sort_order b) ?rows" by (rule artifact_rows_sorted)
  then have "distinct (map pa_sort_order ?rows)"
    by (simp add: distinct_conv_nth sorted_wrt_iff_nth_less) (metis less_irrefl nat_neq_iff)
  then have inj: "inj_on ?k (set ?rows)" and d: "distinct ?rows" by (auto simp: distinct_map inj_on_def)
  have "sorted (map ?k ?rows)"
    unfolding sorted_map using srt by (rule sorted_wrt_mono_rel [rotated]) simp
  moreover have "mset (filter (\<lambda>r. pa_trip_id r = tk) (db_artifacts db)) = mset ?rows"
  proof (rule set_eq_iff_mset_eq_distinct [THEN iffD1])
    show "distinct (filter (\<lambda>r. pa_trip_id r = tk) (db_artifacts db))"
      using ok by (simp add: artifacts_ok_def distinct_map)
  qed (use d rows in auto)
  ultimately have "sort_key ?k (filter (\<lambda>r. pa_trip_id r = tk) (db_artifacts db)) = ?rows"
    using inj by (intro sort_key_unique) auto
  then show ?thesis by (simp add: loadArtifacts_def t order_by_def)
qed

section \<open>The triggers of the trips table\<close>

lemma trips_enforce_Inr:
  assumes "trips_enforce_transitions pe now db old new = Inr new'"
  shows "new' = new\<lparr>pt_published_at := pt_published_at new', pt_canceled_at := pt_canceled_at new',
      pt_draft_visibility := pt_draft_visibility new'\<rparr>"
    and "pt_status old = Canceled \<Longrightarrow> pt_status new = Canceled"
    and "pt_status old = Published \<Longrightarrow> pt_capacity_rigs new = Some c \<Longrightarrow>
      pt_capacity_rigs new \<noteq> pt_capacity_rigs old \<Longrightarrow> yes_count db (pt_id old) \<le> c"
    and "pt_status old \<noteq> Published \<Longrightarrow> pt_status new = Published \<Longrightarrow>
      pt_status old = Draft \<and> publish_requirements new \<and>
      (pt_draft_visibility old \<noteq> None \<longrightarrow> pt_draft_visibility old = Some Public)"
  using assms
  by (auto simp: trips_enforce_transitions_def and_then_Inr raise_def split: if_splits option.splits)

lemma update_trip_Inr:
  assumes ok: "rsvps_ok db" and upd: "update_trip pe now u f db = Inr db'"
    and old: "old \<in> set (db_trips db)" "pt_external_id old = u"
  obtains new' where "trips_enforce_transitions pe now db old (f old) = Inr new'"
    and "trips_checks (trips_set_updated_at pe now new')"
    and "db' = db\<lparr>db_trips := update_rows (\<lambda>r. pt_external_id r = u)
                   (\<lambda>_. trips_set_updated_at pe now new') (db_trips db)\<rparr>"
proof -
  have "filter (\<lambda>r. pt_external_id r = u) (db_trips db) = [old]"
    using filter_unique [OF rsvps_okD(2) [OF ok], of u] find_unique [OF rsvps_okD(2) [OF ok] old] by simp
  then show ?thesis
    using upd that by (auto simp: update_trip_def and_then_Inr Let_def raise_def split: if_splits)
qed

lemma trip_values_Inr:
  assumes "trip_values t = Inr f"
  shows "pt_id (f r) = pt_id r" and "pt_external_id (f r) = pt_external_id r"
    and "pt_created_by (f r) = pt_created_by r" and "pt_created_at (f r) = pt_created_at r"
    and "pt_published_at (f r) = pt_published_at r" and "pt_canceled_at (f r) = pt_canceled_at r"
    and "pt_updated_at (f r) = pt_updated_at r"
    and "pt_status (f r) = t_status t" and "pt_draft_visibility (f r) = draftVisibilityForDB t"
    and "pt_capacity_rigs (f r) = t_capacity_rigs t" and "pt_name (f r) = t_name t"
    and "pt_description (f r) = t_description t" and "pt_start_date (f r) = datePtr (t_start_date t)"
    and "pt_end_date (f r) = datePtr (t_end_date t)" and "pt_difficulty_text (f r) = t_difficulty_text t"
    and "pt_meeting_label (f r) = meetingLabel (t_meeting_location t)"
    and "pt_meeting_address (f r) = meetingAddress (t_meeting_location t)"
    and "pt_meeting_latitude (f r) = meetingLatitude (t_meeting_location t)"
    and "pt_meeting_longitude (f r) = meetingLongitude (t_meeting_location t)"
    and "pt_comms_requirements_text (f r) = t_comms_requirements_text t"
    and "pt_recommended_requirements_text (f r) = t_recommended_requirements_text t"
    and "t_status t \<in> {Draft, Published, Canceled}"
proof -
  have s: "t_status t \<in> {Draft, Published, Canceled}" "cast_trip_status (t_status t) = Inr (t_status t)"
    using assms by (cases "t_status t"; simp add: trip_values_def raise_def)+
  have "cast_draft_visibility v = Inr w \<Longrightarrow> w = v" for v w
    by (cases v; simp) (case_tac a; auto simp: raise_def)
  moreover have "cast_integer v = Inr w \<Longrightarrow> w = v" for v w
    by (cases v) (auto simp: raise_def split: if_splits)
  ultimately obtain g where "f = g" and g: "g = (\<lambda>r. r\<lparr>pt_name := t_name t, pt_description := t_description t,
      pt_start_date := datePtr (t_start_date t), pt_end_date := datePtr (t_end_date t),
      pt_status := t_status t, pt_draft_visibility := draftVisibilityForDB t,
      pt_capacity_rigs := t_capacity_rigs t, pt_difficulty_text := t_difficulty_text t,
      pt_meeting_label := meetingLabel (t_meeting_location t),
      pt_meeting_address := meetingAddress (t_meeting_location t),
      pt_meeting_latitude := meetingLatitude (t_meeting_location t),
      pt_meeting_longitude := meetingLongitude (t_meeting_location t),
      pt_comms_requirements_text := t_comms_requirements_text t,
      pt_recommended_requirements_text := t_recommended_requirements_text t\<rparr>)"
    using assms s(2) by (fastforce simp: trip_values_def and_then_Inr)
  then show "pt_id (f r) = pt_id r" and "pt_external_id (f r) = pt_external_id r"
    and "pt_created_by (f r) = pt_created_by r" and "pt_created_at (f r) = pt_created_at r"
    and "pt_published_at (f r) = pt_published_at r" and "pt_canceled_at (f r) = pt_canceled_at r"
    and "pt_updated_at (f r) = pt_updated_at r"
    and "pt_status (f r) = t_status t" and "pt_draft_visibility (f r) = draftVisibilityForDB t"
    and "pt_capacity_rigs (f r) = t_capacity_rigs t" and "pt_name (f r) = t_name t"
    and "pt_description (f r) = t_description t" and "pt_start_date (f r) = datePtr (t_start_date t)"
    and "pt_end_date (f r) = datePtr (t_end_date t)" and "pt_difficulty_text (f r) = t_difficulty_text t"
    and "pt_meeting_label (f r) = meetingLabel (t_meeting_location t)"
    and "pt_meeting_address (f r) = meetingAddress (t_meeting_location t)"
    and "pt_meeting_latitude (f r) = meetingLatitude (t_meeting_location t)"
    and "pt_meeting_longitude (f r) = meetingLongitude (t_meeting_location t)"
    and "pt_comms_requirements_text (f r) = t_comms_requirements_text t"
    and "pt_recommended_requirements_text (f r) = t_recommended_requirements_text t"
    by simp_all
  show "t_status t \<in> {Draft, Published, Canceled}" by (rule s(1))
qed

end
