(* ===== verification/PgState.thy ===== *)
theory PgState
  imports PgTripInv
begin

text \<open>
  The database as a state machine: every write the repositories offer, in any order and by any
  number of processes, each committed as a whole. The constraints and triggers are proved to keep
  the tables consistent in every reachable database, and the reachable databases are proved safe:
  no trip without organizer, no overbooked trip, no trip that comes back from cancellation.
\<close>

section \<open>Consistency\<close>

definition trips_ok :: "pg_db \<Rightarrow> bool" where
  "trips_ok db \<longleftrightarrow>
     (\<forall>t \<in> set (db_trips db). pt_id t < db_trip_seq db \<and> pt_created_by t \<in> pm_id ` set (db_members db) \<and>
        trips_checks t \<and> pt_status t \<in> {Draft, Published, Canceled} \<and>
        organizer_uuids db (pt_id t) \<noteq> {}) \<and>
     organizers_ok db \<and> artifacts_ok db"

definition pg_ok :: "pg_env \<Rightarrow> pg_db \<Rightarrow> bool" where
  "pg_ok pe db \<longleftrightarrow> members_ok pe db \<and> rsvps_ok db \<and> trips_ok db"

lemma pg_okD:
  assumes "pg_ok pe db"
  shows "members_ok pe db" and "rsvps_ok db" and "trips_ok db"
    and "organizers_ok db" and "artifacts_ok db"
    and "t \<in> set (db_trips db) \<Longrightarrow> pt_id t < db_trip_seq db"
    and "t \<in> set (db_trips db) \<Longrightarrow> pt_created_by t \<in> pm_id ` set (db_members db)"
    and "t \<in> set (db_trips db) \<Longrightarrow> trips_checks t"
    and "t \<in> set (db_trips db) \<Longrightarrow> pt_status t \<in> {Draft, Published, Canceled}"
    and "t \<in> set (db_trips db) \<Longrightarrow> organizer_uuids db (pt_id t) \<noteq> {}"
  using assms by (auto simp: pg_ok_def trips_ok_def)

lemma pg_empty_ok [simp]: "pg_ok pe pg_empty"
  by (simp add: pg_ok_def trips_ok_def rsvps_ok_def organizers_ok_def artifacts_ok_def pg_empty_def members_ok_def)

section \<open>Writes of the member repository\<close>

text \<open>They leave the trips alone and keep every member's primary key.\<close>

definition members_grow :: "pg_db \<Rightarrow> pg_db \<Rightarrow> bool" where
  "members_grow db db' \<longleftrightarrow>
     db_trips db' = db_trips db \<and> db_organizers db' = db_organizers db \<and>
     db_artifacts db' = db_artifacts db \<and> db_rsvps db' = db_rsvps db \<and> db_trip_seq db' = db_trip_seq db \<and>
     (\<exists>rows. map (\<lambda>m. (pm_id m, pm_external_id m)) (db_members db') =
             map (\<lambda>m. (pm_id m, pm_external_id m)) (db_members db) @ rows)"

lemma members_grow_trans: "members_grow a b \<Longrightarrow> members_grow b c \<Longrightarrow> members_grow a c"
  by (auto simp: members_grow_def)

lemma find_prefix:
  "find (\<lambda>m. pm_external_id m = u) ms = Some m \<Longrightarrow>
   map (\<lambda>m. (pm_id m, pm_external_id m)) ms' = map (\<lambda>m. (pm_id m, pm_external_id m)) ms @ rows \<Longrightarrow>
   map_option pm_id (find (\<lambda>m. pm_external_id m = u) ms') = Some (pm_id m)"
proof (induction ms arbitrary: ms')
  case (Cons x ms)
  then obtain y ys where ms': "ms' = y # ys" "pm_id y = pm_id x" "pm_external_id y = pm_external_id x"
    by (cases ms') auto
  with Cons show ?case by (auto split: if_splits)
qed simp

lemma members_grow_pk: "members_grow db db' \<Longrightarrow> member_pk db u = Some k \<Longrightarrow> member_pk db' u = Some k"
  using find_prefix by (fastforce simp: members_grow_def member_pk_def)

lemma members_grow_ids: "members_grow db db' \<Longrightarrow> pm_id ` set (db_members db) \<subseteq> pm_id ` set (db_members db')"
proof -
  assume g: "members_grow db db'"
  then obtain rows where "map (\<lambda>m. (pm_id m, pm_external_id m)) (db_members db') =
      map (\<lambda>m. (pm_id m, pm_external_id m)) (db_members db) @ rows" by (auto simp: members_grow_def)
  then have "map fst (map (\<lambda>m. (pm_id m, pm_external_id m)) (db_members db')) =
      map fst (map (\<lambda>m. (pm_id m, pm_external_id m)) (db_members db) @ rows)" by simp
  then have "map pm_id (db_members db') = map pm_id (db_members db) @ map fst rows" by (simp add: comp_def)
  then have "pm_id ` set (db_members db') = pm_id ` set (db_members db) \<union> fst ` set rows"
    by (metis list.set_map set_append)
  then show ?thesis by blast
qed

lemma insert_member_grow: "insert_member pe r db = Inr db' \<Longrightarrow> members_grow db db'"
  by (auto simp: insert_member_Inr members_grow_def)

lemma upsertVehicleProfile_grow: "upsertVehicleProfile pe now u vp db = Inr db' \<Longrightarrow> members_grow db db'"
  by (auto simp: upsertVehicleProfile_Inr members_grow_def)

lemma update_member_grow:
  assumes "update_member pe now u f db = Inr (db', n)"
    and "\<And>r. pm_id (f r) = pm_id r \<and> pm_external_id (f r) = pm_external_id r"
  shows "members_grow db db'"
proof -
  have "map (\<lambda>m. (pm_id m, pm_external_id m))
      (update_rows (\<lambda>r. pm_external_id r = u) (\<lambda>r. set_updated_at pe now (f r)) (db_members db)) =
      map (\<lambda>m. (pm_id m, pm_external_id m)) (db_members db)"
    by (intro update_rows_keeps_key) (simp add: set_updated_at_def assms(2))
  with update_member_Inr [OF assms(1)] show ?thesis by (auto simp: members_grow_def)
qed

lemma pg_member_create_grow:
  assumes "pg_member_create pe issuer (Some db) now m = Inr db'"
  shows "members_grow db db'"
  using assms
proof (rule pg_member_createE)
qed (use insert_member_grow upsertVehicleProfile_grow members_grow_trans in blast)

lemma pg_member_update_grow:
  assumes "pg_member_update pe (Some db) now m = Inr db'"
  shows "members_grow db db'"
  using assms
proof (rule pg_member_updateE)
  fix u db1 n
  assume upd: "update_member pe now u
      (\<lambda>r. r\<lparr>pm_display_name := mr_display_name m, pm_email := mr_email m,
             pm_group_alias_email := mr_group_alias_email m, pm_is_active := mr_is_active m,
             pm_updated_at := pe_timestamp pe (mr_updated_at m)\<rparr>) db = Inr (db1, n)"
    and last: "mr_vehicle_profile m = None \<and> db' = delete_profile u db1 \<or>
      (\<exists>vp. mr_vehicle_profile m = Some vp \<and> upsertVehicleProfile pe now u vp db1 = Inr db')"
  have "members_grow db db1" by (rule update_member_grow [OF upd]) simp
  moreover have "members_grow db1 (delete_profile u db1)" by (simp add: members_grow_def delete_profile_def)
  ultimately show ?thesis using last upsertVehicleProfile_grow members_grow_trans by blast
qed

lemma members_grow_ok:
  assumes g: "members_grow db db'" and m: "members_ok pe db'" and ok: "pg_ok pe db"
  shows "pg_ok pe db'"
proof -
  note okD = pg_okD [OF ok] and rD = rsvps_okD [OF pg_okD(2) [OF ok]]
  have same: "db_trips db' = db_trips db" "db_organizers db' = db_organizers db"
    "db_artifacts db' = db_artifacts db" "db_rsvps db' = db_rsvps db" "db_trip_seq db' = db_trip_seq db"
    using g by (simp_all add: members_grow_def)
  note ids = members_grow_ids [OF g]
  have "organizer_uuids db k \<subseteq> organizer_uuids db' k" for k
    using members_grow_pk [OF g] by (auto simp: organizer_uuids_def same)
  then have "organizer_uuids db' (pt_id t) \<noteq> {}" if "t \<in> set (db_trips db)" for t
    using okD(10) [OF that] by blast
  moreover have "pt_created_by t \<in> pm_id ` set (db_members db')" if "t \<in> set (db_trips db)" for t
    using okD(7) [OF that] ids by blast
  moreover have "organizers_ok db'" using okD(4) ids unfolding organizers_ok_def same by blast
  moreover have "artifacts_ok db'" using okD(5) unfolding artifacts_ok_def same .
  ultimately have "trips_ok db'"
    using okD(6,8,9) unfolding trips_ok_def same by blast
  moreover have "pr_member_id ` set (db_rsvps db) \<subseteq> pm_id ` set (db_members db')" using rD(7) ids by blast
  then have "rsvps_ok db'"
    using rD(1,2,5,6) members_okD(1,3) [OF m] unfolding rsvps_ok_def same by simp
  ultimately show ?thesis using m by (simp add: pg_ok_def)
qed

section \<open>Writes of the RSVP repository\<close>

lemma member_pk_rsvps [simp]: "member_pk (db\<lparr>db_rsvps := x\<rparr>) = member_pk db"
  by (rule ext) (simp add: member_pk_def)

lemma organizer_uuids_rsvps [simp]: "organizer_uuids (db\<lparr>db_rsvps := x\<rparr>) = organizer_uuids db"
  by (rule ext) (simp add: organizer_uuids_def)

lemma pg_rsvp_upsert_pg_ok:
  assumes ok: "pg_ok pe db" and ups: "pg_rsvp_upsert pe (Some db) now rec = Inr db'"
  shows "pg_ok pe db'"
proof -
  obtain rows where db': "db' = db\<lparr>db_rsvps := rows\<rparr>"
    using ups by (rule pg_rsvp_upsertE [OF pg_okD(2) [OF ok]]) blast
  have "rsvps_ok db'" by (rule pg_rsvp_upsert_ok [OF pg_okD(2) [OF ok] ups])
  then show ?thesis
    using ok by (simp add: pg_ok_def db' trips_ok_def organizers_ok_def artifacts_ok_def members_ok_def)
qed

section \<open>Writes of the trip repository\<close>

lemma query_row_Some: "query_row xs = Some x \<Longrightarrow> x \<in> set xs"
  by (cases xs) auto

lemma pg_trip_createE:
  assumes "pg_trip_create pe (Some db) t = Inr db'"
  obtains u cu f mk db1 db2 where "pe_uuid_parse pe (t_id t) = Inr u"
    and "pe_uuid_parse pe (t_creator t) = Inr cu" and "trip_values t = Inr f"
    and "member_pk db cu = Some mk" and "insert_trip (Some mk) (f (blank_trip pe u t)) db = Inr db1"
    and "syncOrganizers pe u (t_organizers t) db1 = Inr db2"
    and "syncArtifacts pe u (t_artifacts t) db2 = Inr db'"
proof -
  obtain u cu where u: "pe_uuid_parse pe (t_id t) = Inr u" "pe_uuid_parse pe (t_creator t) = Inr cu"
    using assms by (auto simp: pg_trip_create_def split: sum.splits)
  obtain f db1 db2 where *: "trip_values t = Inr f"
    "insert_trip (member_pk db cu) (f (blank_trip pe u t)) db = Inr db1"
    "syncOrganizers pe u (t_organizers t) db1 = Inr db2" "syncArtifacts pe u (t_artifacts t) db2 = Inr db'"
    using assms by (auto simp: pg_trip_create_def u and_then_Inr on_error_Inr)
  obtain mk where "member_pk db cu = Some mk"
    using *(2) by (cases "member_pk db cu") (auto simp: insert_trip_def raise_def)
  with * u that show ?thesis by simp
qed

lemma pg_trip_saveE:
  assumes "pg_trip_save pe (Some db) now t = Inr db'"
  obtains u old f db1 db2 where "pe_uuid_parse pe (t_id t) = Inr u"
    and "old \<in> set (db_trips db)" and "pt_external_id old = u" and "trip_values t = Inr f"
    and "update_trip pe now u (\<lambda>r. (f r)\<lparr>pt_updated_at := pe_timestamp pe (t_updated_at t)\<rparr>) db = Inr db1"
    and "syncOrganizers pe u (t_organizers t) db1 = Inr db2"
    and "syncArtifacts pe u (t_artifacts t) db2 = Inr db'"
proof -
  obtain u where u: "pe_uuid_parse pe (t_id t) = Inr u"
    using assms by (auto simp: pg_trip_save_def split: sum.splits)
  let ?q = "query_row [pm_external_id m. tr \<leftarrow> db_trips db, m \<leftarrow> db_members db,
      pm_id m = pt_created_by tr \<and> pt_external_id tr = u]"
  obtain c where c: "?q = Some c" using assms by (cases ?q) (simp_all add: pg_trip_save_def u)
  from query_row_Some [OF c] obtain old where old: "old \<in> set (db_trips db)" "pt_external_id old = u"
    by (auto split: if_splits)
  have "\<exists>f db1 db2. trip_values t = Inr f \<and>
    update_trip pe now u (\<lambda>r. (f r)\<lparr>pt_updated_at := pe_timestamp pe (t_updated_at t)\<rparr>) db = Inr db1 \<and>
    syncOrganizers pe u (t_organizers t) db1 = Inr db2 \<and> syncArtifacts pe u (t_artifacts t) db2 = Inr db'"
    using assms
    by (simp add: pg_trip_save_def u c and_then_Inr on_error_Inr split: if_splits)
  with u old that show ?thesis by blast
qed

lemma insert_trip_Inr:
  assumes "insert_trip (Some mk) r db = Inr db1"
  shows "trips_checks (r\<lparr>pt_id := db_trip_seq db, pt_created_by := mk\<rparr>)"
    and "\<forall>x \<in> set (db_trips db). pt_external_id x \<noteq> pt_external_id r"
    and "db1 = insert_organizer_row (db_trip_seq db) mk
      (db\<lparr>db_trips := db_trips db @ [r\<lparr>pt_id := db_trip_seq db, pt_created_by := mk\<rparr>],
          db_trip_seq := Suc (db_trip_seq db)\<rparr>)"
  using assms by (auto simp: insert_trip_def Let_def raise_def split: if_splits)

text \<open>The two \<open>sync\<close> steps that end both writes.\<close>

lemma sync_pg_ok:
  assumes env: "pg_env_ok pe" and ok: "pg_ok pe db1" and t: "t \<in> set (db_trips db1)" "pt_external_id t = u"
    and so: "syncOrganizers pe u orgs db1 = Inr db2" and sa: "syncArtifacts pe u arts db2 = Inr db'"
  shows "pg_ok pe db'"
    and "db' = db1\<lparr>db_organizers := db_organizers db', db_artifacts := db_artifacts db'\<rparr>"
    and "organizer_uuids db' k = (if k = pt_id t then parsed pe orgs else organizer_uuids db1 k)"
    and "db2 = db1\<lparr>db_organizers := db_organizers db2\<rparr>" and "artifacts_ok db2"
proof -
  have pk: "trip_pk db1 u = Some (pt_id t)" by (rule trip_pk_row [OF pg_okD(2) [OF ok] t])
  note s = syncOrganizers_Inr [OF env pg_okD(2,4) [OF ok] pk pg_okD(10) [OF ok t(1)] so]
  obtain rows where db2: "db2 = db1\<lparr>db_organizers := rows\<rparr>" using s(1) by blast
  then show eq2: "db2 = db1\<lparr>db_organizers := db_organizers db2\<rparr>" by simp
  have pk2: "trip_pk db2 u = Some (pt_id t)" using pk by (simp add: db2)
  show ok2: "artifacts_ok db2" using pg_okD(5) [OF ok] by (simp add: artifacts_ok_def db2)
  note a = syncArtifacts_ok [OF env pk2 ok2 sa]
  obtain arows where db': "db' = db2\<lparr>db_artifacts := arows\<rparr>" using a(1) by blast
  show "db' = db1\<lparr>db_organizers := db_organizers db', db_artifacts := db_artifacts db'\<rparr>"
    by (simp add: db' db2)
  have uu: "organizer_uuids db' k = organizer_uuids db2 k" for k
    by (simp add: organizer_uuids_def db' member_pk_def)
  then show orgs: "organizer_uuids db' k = (if k = pt_id t then parsed pe orgs else organizer_uuids db1 k)" for k
    using s(3) by simp
  have "organizers_ok db'" using s(2) by (simp add: organizers_ok_def db')
  moreover have "organizer_uuids db' (pt_id x) \<noteq> {}" if "x \<in> set (db_trips db1)" for x
    using pg_okD(10) [OF ok that] s(4) orgs by simp
  moreover have "db_trips db' = db_trips db1" "db_members db' = db_members db1"
    "db_trip_seq db' = db_trip_seq db1" "db_rsvps db' = db_rsvps db1" "db_profiles db' = db_profiles db1"
    "db_member_seq db' = db_member_seq db1" by (simp_all add: db' db2)
  ultimately show "pg_ok pe db'"
    using ok a(2) by (simp add: pg_ok_def trips_ok_def rsvps_ok_def members_ok_def)
qed

lemma rsvps_ok_new_trip:
  assumes ok: "pg_ok pe db" and r: "pt_id r = db_trip_seq db"
    and fresh: "\<forall>x \<in> set (db_trips db). pt_external_id x \<noteq> pt_external_id r"
  shows "rsvps_ok (db\<lparr>db_trips := db_trips db @ [r], db_trip_seq := Suc (db_trip_seq db)\<rparr>)"
proof -
  have "pt_id r \<notin> pt_id ` set (db_trips db)" using pg_okD(6) [OF ok] r by fastforce
  then show ?thesis using rsvps_okD [OF pg_okD(2) [OF ok]] fresh by (auto simp: rsvps_ok_def)
qed

lemma insert_trip_pg_ok:
  assumes ok: "pg_ok pe db" and mk: "member_pk db cu = Some mk"
    and st: "pt_status r \<in> {Draft, Published, Canceled}"
    and ins: "insert_trip (Some mk) r db = Inr db1"
    and r': "r' = r\<lparr>pt_id := db_trip_seq db, pt_created_by := mk\<rparr>"
  shows "pg_ok pe db1" and "db_trips db1 = db_trips db @ [r']"
    and "organizer_uuids db1 k = (if k = pt_id r' then {cu} else organizer_uuids db k)"
    and "db1 = db\<lparr>db_trips := db_trips db1, db_trip_seq := db_trip_seq db1, db_organizers := db_organizers db1\<rparr>"
proof -
  let ?db0 = "db\<lparr>db_trips := db_trips db @ [r'], db_trip_seq := Suc (db_trip_seq db)\<rparr>"
  note i = insert_trip_Inr [OF ins, folded r']
  have db1: "db1 = insert_organizer_row (pt_id r') mk ?db0" using i(3) by (simp add: r')
  define rows where "rows = db_organizers db1"
  have eq: "db1 = ?db0\<lparr>db_organizers := rows\<rparr>"
    unfolding rows_def db1 by (rule insert_row_organizers(1))
  show "db_trips db1 = db_trips db @ [r']" by (simp add: eq)
  show "db1 = db\<lparr>db_trips := db_trips db1, db_trip_seq := db_trip_seq db1, db_organizers := db_organizers db1\<rparr>"
    by (simp add: eq)
  have ok0: "rsvps_ok ?db0"
    using i(2) by (intro rsvps_ok_new_trip [OF ok]) (simp_all add: r')
  have pk0: "member_pk ?db0 = member_pk db" by (rule ext) (simp add: member_pk_def)
  have u0: "organizer_uuids ?db0 = organizer_uuids db" by (rule ext) (simp add: organizer_uuids_def pk0)
  have none: "organizer_uuids db (pt_id r') = {}"
  proof -
    have "po_trip_id g \<noteq> pt_id r'" if "g \<in> set (db_organizers db)" for g
    proof
      assume "po_trip_id g = pt_id r'"
      then have "pt_id r' \<in> pt_id ` set (db_trips db)"
        using pg_okD(4) [OF ok] that by (force simp: organizers_ok_def)
      then show False using pg_okD(6) [OF ok] by (fastforce simp: r')
    qed
    then show ?thesis by (force simp: organizer_uuids_def)
  qed
  show u1: "organizer_uuids db1 k = (if k = pt_id r' then {cu} else organizer_uuids db k)" for k
    using insert_row_uuids [OF ok0, of cu mk "pt_id r'" k] mk none by (simp add: db1 pk0 u0)
  have "organizers_ok ?db0" using pg_okD(4) [OF ok] by (auto simp: organizers_ok_def)
  then have "organizers_ok db1"
    unfolding db1 using member_pk_Some [OF mk] by (intro insert_row_ok) auto
  moreover have "artifacts_ok db1" using pg_okD(5) [OF ok] by (auto simp: artifacts_ok_def eq)
  moreover have "rsvps_ok db1" using ok0 by (simp add: eq)
  moreover have "members_ok pe db1" using pg_okD(1) [OF ok] by (simp add: members_ok_def eq)
  moreover have "pt_id x < db_trip_seq db1 \<and> pt_created_by x \<in> pm_id ` set (db_members db1) \<and>
      trips_checks x \<and> pt_status x \<in> {Draft, Published, Canceled} \<and> organizer_uuids db1 (pt_id x) \<noteq> {}"
    if x: "x \<in> set (db_trips db1)" for x
  proof (cases "x = r'")
    case True
    have "mk \<in> pm_id ` set (db_members db)" using member_pk_Some [OF mk] by auto
    with True i(1) st u1 show ?thesis by (simp add: eq r')
  next
    case False
    then have "x \<in> set (db_trips db)" using x by (simp add: eq)
    then show ?thesis
      using pg_okD(6-10) [OF ok] u1 by (auto simp: eq less_SucI)
  qed
  ultimately show "pg_ok pe db1" by (simp add: pg_ok_def trips_ok_def)
qed

lemma trip_values_blank_status:
  "trip_values t = Inr f \<Longrightarrow> pt_status (f r) \<in> {Draft, Published, Canceled}"
  using trip_values_Inr(8,22) by metis

lemma pg_trip_create_pg_ok:
  assumes env: "pg_env_ok pe" and ok: "pg_ok pe db" and c: "pg_trip_create pe (Some db) t = Inr db'"
  shows "pg_ok pe db'"
proof -
  obtain u cu f mk db1 db2 where c': "pe_uuid_parse pe (t_id t) = Inr u"
    "pe_uuid_parse pe (t_creator t) = Inr cu" "trip_values t = Inr f" "member_pk db cu = Some mk"
    "insert_trip (Some mk) (f (blank_trip pe u t)) db = Inr db1"
    "syncOrganizers pe u (t_organizers t) db1 = Inr db2" "syncArtifacts pe u (t_artifacts t) db2 = Inr db'"
    using c by (rule pg_trip_createE)
  note i = insert_trip_pg_ok [OF ok c'(4) trip_values_blank_status [OF c'(3)] c'(5) refl]
  show ?thesis
    by (rule sync_pg_ok(1) [OF env i(1) _ _ c'(6,7)])
       (auto simp: i(2) trip_values_Inr [OF c'(3)] blank_trip_def)
qed

text \<open>The update of one row of \<open>trips\<close>, which keeps the row's keys.\<close>

lemma update_trip_pg_ok:
  assumes ok: "pg_ok pe db" and old: "old \<in> set (db_trips db)" "pt_external_id old = u"
    and f: "trip_values t = Inr f"
    and upd: "update_trip pe now u (\<lambda>r. (f r)\<lparr>pt_updated_at := x\<rparr>) db = Inr db1"
  obtains new where "pg_ok pe db1" and "db1 = db\<lparr>db_trips := update_rows (\<lambda>r. pt_external_id r = u) (\<lambda>_. new) (db_trips db)\<rparr>"
    and "new \<in> set (db_trips db1)" and "pt_id new = pt_id old" and "pt_external_id new = u"
    and "trips_enforce_transitions pe now db old ((f old)\<lparr>pt_updated_at := x\<rparr>) =
      Inr (new\<lparr>pt_updated_at := x\<rparr>)"
    and "pt_updated_at new = pe_timestamp pe now"
    and "\<And>k. organizer_uuids db1 k = organizer_uuids db k"
proof -
  obtain new' where tr: "trips_enforce_transitions pe now db old ((f old)\<lparr>pt_updated_at := x\<rparr>) = Inr new'"
    and chk: "trips_checks (trips_set_updated_at pe now new')"
    and db1: "db1 = db\<lparr>db_trips := update_rows (\<lambda>r. pt_external_id r = u)
                   (\<lambda>_. trips_set_updated_at pe now new') (db_trips db)\<rparr>"
    using update_trip_Inr [OF pg_okD(2) [OF ok] upd old] by blast
  define new where "new = trips_set_updated_at pe now new'"
  note fv = trip_values_Inr [OF f]
  have new': "new' = (f old)\<lparr>pt_updated_at := x, pt_published_at := pt_published_at new',
      pt_canceled_at := pt_canceled_at new', pt_draft_visibility := pt_draft_visibility new'\<rparr>"
    using trips_enforce_Inr(1) [OF tr] by simp
  have keys: "pt_id new = pt_id old" "pt_external_id new = u" "pt_created_by new = pt_created_by old"
    "pt_status new = t_status t"
    unfolding new_def trips_set_updated_at_def by (subst new'; simp add: fv old)+
  have upd_at: "pt_updated_at new = pe_timestamp pe now" by (simp add: new_def trips_set_updated_at_def)
  have "new\<lparr>pt_updated_at := x\<rparr> = new'"
    unfolding new_def trips_set_updated_at_def by (subst (1 2) new') simp
  with tr have tr': "trips_enforce_transitions pe now db old ((f old)\<lparr>pt_updated_at := x\<rparr>) =
      Inr (new\<lparr>pt_updated_at := x\<rparr>)" by simp
  let ?rows = "update_rows (\<lambda>r. pt_external_id r = u) (\<lambda>_. new) (db_trips db)"
  have db1': "db1 = db\<lparr>db_trips := ?rows\<rparr>" by (simp add: db1 new_def)
  have same: "r = old" if "r \<in> set (db_trips db)" "pt_external_id r = u" for r
    using rsvps_okD(2) [OF pg_okD(2) [OF ok]] that old by (auto simp: distinct_map inj_on_def)
  have ids: "map pt_id ?rows = map pt_id (db_trips db)" "map pt_external_id ?rows = map pt_external_id (db_trips db)"
    unfolding update_rows_def using same keys by (auto intro!: map_cong)
  then have sets: "pt_id ` set ?rows = pt_id ` set (db_trips db)" by (metis list.set_map)
  have in_rows: "new \<in> set ?rows" using old by (auto simp: set_update_rows)
  have uu: "organizer_uuids db1 k = organizer_uuids db k" for k
    by (simp add: organizer_uuids_def db1' member_pk_def)
  have "pt_id r < db_trip_seq db \<and> pt_created_by r \<in> pm_id ` set (db_members db) \<and> trips_checks r \<and>
      pt_status r \<in> {Draft, Published, Canceled} \<and> organizer_uuids db (pt_id r) \<noteq> {}"
    if "r \<in> set ?rows" for r
  proof (cases "r = new")
    case True
    then show ?thesis
      using pg_okD(6,7,10) [OF ok old(1)] chk fv(22) keys by (simp add: new_def)
  next
    case False
    then have "r \<in> set (db_trips db)" using that by (auto simp: set_update_rows split: if_splits)
    then show ?thesis using pg_okD(6-10) [OF ok] by blast
  qed
  moreover have "rsvps_ok db1"
    using rsvps_okD [OF pg_okD(2) [OF ok]] ids sets by (simp add: rsvps_ok_def db1')
  moreover have "members_ok pe db1" "organizers_ok db1" "artifacts_ok db1"
    using pg_okD(1,4,5) [OF ok] sets by (simp_all add: members_ok_def organizers_ok_def artifacts_ok_def db1')
  ultimately have ok1: "pg_ok pe db1" by (simp add: pg_ok_def trips_ok_def uu) (simp add: db1')
  have "new \<in> set (db_trips db1)" using in_rows by (simp add: db1')
  then show ?thesis by (rule that [OF ok1 db1' _ keys(1,2) tr' upd_at uu])
qed

text \<open>What \<open>Save\<close> does to the row of its trip, and that it touches no other trip's row.\<close>

lemma pg_trip_save_cases:
  assumes env: "pg_env_ok pe" and ok: "pg_ok pe db" and s: "pg_trip_save pe (Some db) now t = Inr db'"
  obtains u old new f where "pe_uuid_parse pe (t_id t) = Inr u" and "trip_values t = Inr f"
    and "old \<in> set (db_trips db)" and "pt_external_id old = u"
    and "pg_ok pe db'"
    and "db_trips db' = update_rows (\<lambda>r. pt_external_id r = u) (\<lambda>_. new) (db_trips db)"
    and "pt_id new = pt_id old" and "pt_external_id new = u"
    and "trips_enforce_transitions pe now db old
          ((f old)\<lparr>pt_updated_at := pe_timestamp pe (t_updated_at t)\<rparr>) =
        Inr (new\<lparr>pt_updated_at := pe_timestamp pe (t_updated_at t)\<rparr>)"
    and "pt_updated_at new = pe_timestamp pe now"
    and "db_rsvps db' = db_rsvps db" and "db_members db' = db_members db"
    and "\<And>k. organizer_uuids db' k =
      (if k = pt_id old then parsed pe (t_organizers t) else organizer_uuids db k)"
    and "\<exists>db2. syncArtifacts pe u (t_artifacts t) db2 = Inr db' \<and> artifacts_ok db2 \<and>
      db_artifacts db2 = db_artifacts db \<and> trip_pk db2 u = Some (pt_id old)"
proof -
  obtain u old f db1 db2 where s': "pe_uuid_parse pe (t_id t) = Inr u"
    "old \<in> set (db_trips db)" "pt_external_id old = u" "trip_values t = Inr f"
    "update_trip pe now u (\<lambda>r. (f r)\<lparr>pt_updated_at := pe_timestamp pe (t_updated_at t)\<rparr>) db = Inr db1"
    "syncOrganizers pe u (t_organizers t) db1 = Inr db2" "syncArtifacts pe u (t_artifacts t) db2 = Inr db'"
    using s by (rule pg_trip_saveE)
  obtain new where n: "pg_ok pe db1" "db1 = db\<lparr>db_trips := update_rows (\<lambda>r. pt_external_id r = u) (\<lambda>_. new) (db_trips db)\<rparr>"
    "new \<in> set (db_trips db1)" "pt_id new = pt_id old" "pt_external_id new = u"
    "trips_enforce_transitions pe now db old ((f old)\<lparr>pt_updated_at := pe_timestamp pe (t_updated_at t)\<rparr>) =
      Inr (new\<lparr>pt_updated_at := pe_timestamp pe (t_updated_at t)\<rparr>)"
    "pt_updated_at new = pe_timestamp pe now" "\<And>k. organizer_uuids db1 k = organizer_uuids db k"
    by (rule update_trip_pg_ok [OF ok s'(2,3,4,5)]) blast
  note y = sync_pg_ok [OF env n(1,3,5) s'(6,7)]
  obtain orows arows where db': "db' = db1\<lparr>db_organizers := orows, db_artifacts := arows\<rparr>" using y(2) by blast
  obtain orows2 where db2: "db2 = db1\<lparr>db_organizers := orows2\<rparr>" using y(4) by blast
  have "trip_pk db2 u = Some (pt_id old)"
    using trip_pk_row [OF pg_okD(2) [OF n(1)] n(3,5)] n(4) by (simp add: db2)
  then have art: "\<exists>db2. syncArtifacts pe u (t_artifacts t) db2 = Inr db' \<and> artifacts_ok db2 \<and>
      db_artifacts db2 = db_artifacts db \<and> trip_pk db2 u = Some (pt_id old)"
    using s'(7) y(5) db2 by (intro exI [of _ db2]) (simp add: n(2))
  have rows: "db_trips db' = update_rows (\<lambda>r. pt_external_id r = u) (\<lambda>_. new) (db_trips db)"
    "db_rsvps db' = db_rsvps db" "db_members db' = db_members db" by (simp_all add: db' n(2))
  have uu: "organizer_uuids db' k =
      (if k = pt_id old then parsed pe (t_organizers t) else organizer_uuids db k)" for k
    using y(3) n(4,8) by simp
  show ?thesis
    by (rule that [OF s'(1,4,2,3) y(1) rows(1) n(4,5,6,7) rows(2,3) uu art])
qed

lemma pg_trip_save_pg_ok:
  "pg_env_ok pe \<Longrightarrow> pg_ok pe db \<Longrightarrow> pg_trip_save pe (Some db) now t = Inr db' \<Longrightarrow> pg_ok pe db'"
  by (rule pg_trip_save_cases)

section \<open>Runs\<close>

text \<open>
  One call of a repository that writes, with the arguments the process holds: the issuer it is
  configured with and the transaction's time. A call that is refused leaves the database as it was.
\<close>

datatype pg_call =
    MemberCreate gostring gotime member_row
  | MemberUpdate gotime member_row
  | TripCreate trip
  | TripSave gotime trip
  | RsvpUpsert gotime rsvp

fun pg_apply :: "pg_env \<Rightarrow> pg_db \<Rightarrow> pg_call \<Rightarrow> goerror + pg_db" where
  "pg_apply pe db (MemberCreate issuer now m) = pg_member_create pe issuer (Some db) now m"
| "pg_apply pe db (MemberUpdate now m) = pg_member_update pe (Some db) now m"
| "pg_apply pe db (TripCreate t) = pg_trip_create pe (Some db) t"
| "pg_apply pe db (TripSave now t) = pg_trip_save pe (Some db) now t"
| "pg_apply pe db (RsvpUpsert now r) = pg_rsvp_upsert pe (Some db) now r"

definition pg_exec :: "pg_env \<Rightarrow> pg_db \<Rightarrow> pg_call \<Rightarrow> pg_db" where
  "pg_exec pe db c = (case pg_apply pe db c of Inl _ \<Rightarrow> db | Inr db' \<Rightarrow> db')"

definition pg_run :: "pg_env \<Rightarrow> pg_db \<Rightarrow> pg_call list \<Rightarrow> pg_db" where
  "pg_run pe db cs = foldl (pg_exec pe) db cs"

inductive pg_reachable :: "pg_env \<Rightarrow> pg_db \<Rightarrow> bool" for pe where
  start: "pg_reachable pe pg_empty"
| step: "pg_reachable pe db \<Longrightarrow> pg_reachable pe (pg_exec pe db c)"

lemma pg_run_simps [simp]:
  "pg_run pe db [] = db" "pg_run pe db (c # cs) = pg_run pe (pg_exec pe db c) cs"
  by (simp_all add: pg_run_def)

lemma pg_reachable_run: "pg_reachable pe db \<Longrightarrow> pg_reachable pe (pg_run pe db cs)"
  by (induction cs arbitrary: db) (simp_all add: pg_reachable.step)

lemma pg_apply_ok:
  assumes env: "pg_env_ok pe" and ok: "pg_ok pe db" and c: "pg_apply pe db c = Inr db'"
  shows "pg_ok pe db'"
proof (cases c)
  case (MemberCreate issuer now m)
  with c have w: "pg_member_create pe issuer (Some db) now m = Inr db'" by simp
  show ?thesis
    by (rule members_grow_ok [OF pg_member_create_grow [OF w] pg_member_create_ok [OF pg_okD(1) [OF ok] w] ok])
next
  case (MemberUpdate now m)
  with c have w: "pg_member_update pe (Some db) now m = Inr db'" by simp
  show ?thesis
    by (rule members_grow_ok [OF pg_member_update_grow [OF w] pg_member_update_ok [OF pg_okD(1) [OF ok] w] ok])
next
  case (TripCreate t)
  with c show ?thesis using pg_trip_create_pg_ok [OF env ok] by simp
next
  case (TripSave now t)
  with c show ?thesis using pg_trip_save_pg_ok [OF env ok] by simp
next
  case (RsvpUpsert now r)
  with c show ?thesis using pg_rsvp_upsert_pg_ok [OF ok] by simp
qed

lemma pg_exec_ok: "pg_env_ok pe \<Longrightarrow> pg_ok pe db \<Longrightarrow> pg_ok pe (pg_exec pe db c)"
  by (auto simp: pg_exec_def pg_apply_ok split: sum.split)

lemma pg_reachable_ok: "pg_reachable pe db \<Longrightarrow> pg_env_ok pe \<Longrightarrow> pg_ok pe db"
  by (induction rule: pg_reachable.induct) (simp_all add: pg_exec_ok)

end
