(* ===== verification/PgSafety.thy ===== *)
theory PgSafety
  imports PgState
begin

text \<open>
  What the constraints and triggers guarantee of every trip over any run of repository calls:
  its keys, its creator and its time stamps of publication and cancellation stay, a canceled trip
  stays canceled, and no published trip is overbooked as long as no call moves a published trip
  back to a draft (the triggers let that pass; the trip service never asks for it on its own, only
  a stale copy saved late does).
\<close>

section \<open>Life cycle\<close>

definition trip_kept :: "pg_trip \<Rightarrow> pg_trip \<Rightarrow> bool" where
  "trip_kept r r' \<longleftrightarrow>
     pt_id r' = pt_id r \<and> pt_external_id r' = pt_external_id r \<and>
     pt_created_by r' = pt_created_by r \<and> pt_created_at r' = pt_created_at r \<and>
     (pt_status r = Canceled \<longrightarrow> pt_status r' = Canceled) \<and>
     (pt_published_at r \<noteq> None \<longrightarrow> pt_published_at r' = pt_published_at r) \<and>
     (pt_canceled_at r \<noteq> None \<longrightarrow> pt_canceled_at r' = pt_canceled_at r)"

lemma trip_kept_refl [simp]: "trip_kept r r"
  by (simp add: trip_kept_def)

lemma trip_kept_trans: "trip_kept a b \<Longrightarrow> trip_kept b c \<Longrightarrow> trip_kept a c"
  by (auto simp: trip_kept_def)

lemma trips_enforce_times:
  assumes "trips_enforce_transitions pe now db old new = Inr new'"
  shows "pt_published_at new \<noteq> None \<Longrightarrow> pt_published_at new' = pt_published_at new"
    and "pt_canceled_at new \<noteq> None \<Longrightarrow> pt_canceled_at new' = pt_canceled_at new"
  using assms
  by (auto simp: trips_enforce_transitions_def and_then_Inr raise_def coalesce_def split: if_splits option.splits)

lemma saved_row_kept:
  assumes f: "trip_values t = Inr f"
    and tr: "trips_enforce_transitions pe now db old ((f old)\<lparr>pt_updated_at := x\<rparr>) =
      Inr (new\<lparr>pt_updated_at := x\<rparr>)"
  shows "trip_kept old new" and "pt_status new = t_status t" and "pt_capacity_rigs new = t_capacity_rigs t"
proof -
  let ?asked = "(f old)\<lparr>pt_updated_at := x\<rparr>"
  note fv = trip_values_Inr [OF f] and e = trips_enforce_Inr [OF tr] and tm = trips_enforce_times [OF tr]
  have "pt_id (new\<lparr>pt_updated_at := x\<rparr>) = pt_id ?asked"
    "pt_external_id (new\<lparr>pt_updated_at := x\<rparr>) = pt_external_id ?asked"
    "pt_created_by (new\<lparr>pt_updated_at := x\<rparr>) = pt_created_by ?asked"
    "pt_created_at (new\<lparr>pt_updated_at := x\<rparr>) = pt_created_at ?asked"
    "pt_status (new\<lparr>pt_updated_at := x\<rparr>) = pt_status ?asked"
    "pt_capacity_rigs (new\<lparr>pt_updated_at := x\<rparr>) = pt_capacity_rigs ?asked"
    by (subst e(1), simp)+
  then have "pt_id new = pt_id old" "pt_external_id new = pt_external_id old"
    "pt_created_by new = pt_created_by old" "pt_created_at new = pt_created_at old"
    and st: "pt_status new = t_status t" "pt_capacity_rigs new = t_capacity_rigs t"
    by (simp_all add: fv)
  then show "trip_kept old new" using e(2) tm by (simp add: trip_kept_def fv)
  show "pt_status new = t_status t" "pt_capacity_rigs new = t_capacity_rigs t" by (rule st)+
qed

lemma pg_trip_create_rows:
  assumes env: "pg_env_ok pe" and ok: "pg_ok pe db" and c: "pg_trip_create pe (Some db) t = Inr db'"
  obtains new where "db_trips db' = db_trips db @ [new]" and "pt_id new = db_trip_seq db"
    and "pt_status new = t_status t" and "pt_capacity_rigs new = t_capacity_rigs t"
    and "trips_checks new" and "db_rsvps db' = db_rsvps db"
proof -
  obtain u cu f mk db1 db2 where c': "pe_uuid_parse pe (t_id t) = Inr u"
    "pe_uuid_parse pe (t_creator t) = Inr cu" "trip_values t = Inr f" "member_pk db cu = Some mk"
    "insert_trip (Some mk) (f (blank_trip pe u t)) db = Inr db1"
    "syncOrganizers pe u (t_organizers t) db1 = Inr db2" "syncArtifacts pe u (t_artifacts t) db2 = Inr db'"
    using c by (rule pg_trip_createE)
  let ?new = "(f (blank_trip pe u t))\<lparr>pt_id := db_trip_seq db, pt_created_by := mk\<rparr>"
  note i = insert_trip_pg_ok [OF ok c'(4) trip_values_blank_status [OF c'(3)] c'(5) refl]
  have new: "?new \<in> set (db_trips db1)" "pt_external_id ?new = u"
    by (simp_all add: i(2) trip_values_Inr [OF c'(3)] blank_trip_def)
  note y = sync_pg_ok(2) [OF env i(1) new c'(6,7)]
  have "db_trips db' = db_trips db1" "db_rsvps db' = db_rsvps db1" by (subst y, simp)+
  moreover have "db_rsvps db1 = db_rsvps db" by (subst i(4), simp)
  moreover have "trips_checks ?new" using insert_trip_Inr(1) [OF c'(5)] by simp
  ultimately show ?thesis
    by (intro that [of ?new]) (simp_all add: i(2) trip_values_Inr [OF c'(3)])
qed

text \<open>One call keeps every trip.\<close>

lemma pg_exec_keeps_trips:
  assumes env: "pg_env_ok pe" and ok: "pg_ok pe db" and r: "r \<in> set (db_trips db)"
  shows "\<exists>r' \<in> set (db_trips (pg_exec pe db c)). trip_kept r r'"
proof (cases "pg_apply pe db c")
  case (Inl e)
  then show ?thesis using r by (auto simp: pg_exec_def intro!: bexI [of _ r])
next
  case (Inr db')
  have same: ?thesis if "db_trips db' = db_trips db"
    using that r Inr by (auto simp: pg_exec_def intro!: bexI [of _ r])
  show ?thesis
  proof (cases c)
    case (MemberCreate issuer now m)
    then show ?thesis using Inr same pg_member_create_grow by (simp add: members_grow_def)
  next
    case (MemberUpdate now m)
    then show ?thesis using Inr same pg_member_update_grow by (simp add: members_grow_def)
  next
    case (TripCreate t)
    then have "pg_trip_create pe (Some db) t = Inr db'" using Inr by simp
    then show ?thesis
      by (rule pg_trip_create_rows [OF env ok]) (use r Inr in \<open>auto simp: pg_exec_def intro!: bexI [of _ r]\<close>)
  next
    case (TripSave now t)
    then have "pg_trip_save pe (Some db) now t = Inr db'" using Inr by simp
    then show ?thesis
    proof (rule pg_trip_save_cases [OF env ok])
      fix u old new f
      assume f: "trip_values t = Inr f" and old: "old \<in> set (db_trips db)" "pt_external_id old = u"
        and rows: "db_trips db' = update_rows (\<lambda>r. pt_external_id r = u) (\<lambda>_. new) (db_trips db)"
        and tr: "trips_enforce_transitions pe now db old
            ((f old)\<lparr>pt_updated_at := pe_timestamp pe (t_updated_at t)\<rparr>) =
          Inr (new\<lparr>pt_updated_at := pe_timestamp pe (t_updated_at t)\<rparr>)"
      have "r = old" if "pt_external_id r = u"
        using rsvps_okD(2) [OF pg_okD(2) [OF ok]] that r old by (auto simp: distinct_map inj_on_def)
      then have "trip_kept r (if pt_external_id r = u then new else r)"
        using saved_row_kept(1) [OF f tr] by auto
      moreover have "(if pt_external_id r = u then new else r) \<in> set (db_trips db')"
        unfolding rows set_update_rows using r by (rule rev_image_eqI) simp
      ultimately show ?thesis using Inr by (auto simp: pg_exec_def)
    qed
  next
    case (RsvpUpsert now rec)
    then have "pg_rsvp_upsert pe (Some db) now rec = Inr db'" using Inr by simp
    then show ?thesis by (rule pg_rsvp_upsertE [OF pg_okD(2) [OF ok]]) (simp add: same)
  qed
qed

lemma pg_run_keeps_trips:
  assumes "pg_env_ok pe" and "pg_ok pe db" and "r \<in> set (db_trips db)"
  shows "\<exists>r' \<in> set (db_trips (pg_run pe db cs)). trip_kept r r'"
  using assms(2,3)
proof (induction cs arbitrary: db r)
  case (Cons c cs)
  from pg_exec_keeps_trips [OF assms(1) Cons.prems] obtain r1
    where r1: "r1 \<in> set (db_trips (pg_exec pe db c))" "trip_kept r r1" by blast
  from Cons.IH [OF pg_exec_ok [OF assms(1) Cons.prems(1)] r1(1)] r1(2) trip_kept_trans
  show ?case by fastforce
qed (simp, blast intro: trip_kept_refl)

section \<open>Attendance\<close>

text \<open>The call moves some published trip back to a draft.\<close>

definition unpublishes :: "pg_env \<Rightarrow> pg_db \<Rightarrow> pg_call \<Rightarrow> bool" where
  "unpublishes pe db c \<longleftrightarrow>
     (\<exists>t \<in> set (db_trips db). pt_status t = Published \<and>
        (\<exists>t' \<in> set (db_trips (pg_exec pe db c)). pt_id t' = pt_id t \<and> pt_status t' = Draft))"

inductive pg_forward :: "pg_env \<Rightarrow> pg_db \<Rightarrow> bool" for pe where
  start: "pg_forward pe pg_empty"
| step: "pg_forward pe db \<Longrightarrow> \<not> unpublishes pe db c \<Longrightarrow> pg_forward pe (pg_exec pe db c)"

lemma pg_forward_reachable: "pg_forward pe db \<Longrightarrow> pg_reachable pe db"
  by (induction rule: pg_forward.induct) (auto intro: pg_reachable.intros)

text \<open>No draft has an attending rig: what a publication relies on.\<close>

definition drafts_empty :: "pg_db \<Rightarrow> bool" where
  "drafts_empty db \<longleftrightarrow> (\<forall>t \<in> set (db_trips db). pt_status t = Draft \<longrightarrow> yes_count db (pt_id t) = 0)"

lemma yes_count_cong: "db_rsvps db' = db_rsvps db \<Longrightarrow> yes_count db' = yes_count db"
  by (rule ext) (simp add: yes_count_def)

lemma yes_count_fresh:
  assumes ok: "pg_ok pe db"
  shows "yes_count db (db_trip_seq db) = 0"
proof -
  have "pr_trip_id r \<noteq> db_trip_seq db" if "r \<in> set (db_rsvps db)" for r
    using rsvps_okD(6) [OF pg_okD(2) [OF ok]] pg_okD(6) [OF ok] that by fastforce
  then have "filter (\<lambda>r. pr_trip_id r = db_trip_seq db \<and> pr_response r = Yes) (db_rsvps db) = []"
    by (auto simp: filter_empty_conv)
  then show ?thesis by (simp add: yes_count_def)
qed

lemma drafts_empty_rsvp:
  assumes ok: "rsvps_ok db" and de: "drafts_empty db"
    and ups: "pg_rsvp_upsert pe (Some db) now rec = Inr db'"
  shows "drafts_empty db'"
proof -
  obtain t and m :: pg_member where t: "t \<in> set (db_trips db)" "pt_status t = Published"
    and db': "db' = db\<lparr>db_rsvps := put_rsvp (rsvp_row pe now (pt_id t) (pm_id m) (rs_status rec)) (db_rsvps db)\<rparr>"
    using ups by (rule pg_rsvp_upsertE [OF ok])
  have "yes_count db' (pt_id x) = 0" if x: "x \<in> set (db_trips db)" "pt_status x = Draft" for x
  proof -
    have "pt_id x \<noteq> pt_id t" using x t rsvps_okD(1) [OF ok] by (auto simp: distinct_map inj_on_def)
    then have "yes_count db' (pt_id x) \<le> yes_count db (pt_id x)"
      using put_rsvp_yes_count [OF ok, where pe = pe and now = now and tk = "pt_id t" and
        mk = "pm_id m" and status = "rs_status rec" and k = "pt_id x", folded db'] by simp
    moreover have "yes_count db' (pt_id x) \<ge> 0" by (simp add: yes_count_def)
    ultimately show ?thesis using de x by (simp add: drafts_empty_def)
  qed
  then show ?thesis by (simp add: drafts_empty_def db')
qed

lemma create_attendance:
  assumes env: "pg_env_ok pe" and ok: "pg_ok pe db"
    and nob: "pg_not_overbooked db" and de: "drafts_empty db"
    and c: "pg_trip_create pe (Some db) t = Inr db'"
  shows "pg_not_overbooked db' \<and> drafts_empty db'"
  using c
proof (rule pg_trip_create_rows [OF env ok])
  fix new
  assume rows: "db_trips db' = db_trips db @ [new]" and new: "pt_id new = db_trip_seq db" "trips_checks new"
    and rs: "db_rsvps db' = db_rsvps db"
  show ?thesis
    using nob de new yes_count_fresh [OF ok]
    by (auto simp: pg_not_overbooked_def drafts_empty_def rows yes_count_cong [OF rs] trips_checks_def)
qed

lemma save_attendance:
  assumes env: "pg_env_ok pe" and ok: "pg_ok pe db"
    and nob: "pg_not_overbooked db" and de: "drafts_empty db"
    and fw: "\<not> unpublishes pe db (TripSave now t)"
    and s: "pg_trip_save pe (Some db) now t = Inr db'"
  shows "pg_not_overbooked db' \<and> drafts_empty db'"
  using s
proof (rule pg_trip_save_cases [OF env ok])
  fix u old new f
  assume f: "trip_values t = Inr f" and old: "old \<in> set (db_trips db)" "pt_external_id old = u"
    and rows: "db_trips db' = update_rows (\<lambda>r. pt_external_id r = u) (\<lambda>_. new) (db_trips db)"
    and key: "pt_id new = pt_id old"
    and tr: "trips_enforce_transitions pe now db old
        ((f old)\<lparr>pt_updated_at := pe_timestamp pe (t_updated_at t)\<rparr>) =
      Inr (new\<lparr>pt_updated_at := pe_timestamp pe (t_updated_at t)\<rparr>)"
    and rs: "db_rsvps db' = db_rsvps db"
  note k = saved_row_kept [OF f tr] and e = trips_enforce_Inr [OF tr]
  have new_in: "new \<in> set (db_trips db')" using old by (auto simp: rows set_update_rows)
  have other: "x = new \<or> x \<in> set (db_trips db)" if "x \<in> set (db_trips db')" for x
    using that by (auto simp: rows set_update_rows split: if_splits)
  have "\<not> (pt_status old = Published \<and> pt_status new = Draft)"
    using fw old(1) new_in key s by (auto simp: unpublishes_def pg_exec_def)
  moreover have "pt_status old = Canceled \<longrightarrow> pt_status new = Canceled" using k(1) by (simp add: trip_kept_def)
  moreover have "pt_status old \<in> {Draft, Published, Canceled}" using pg_okD(9) [OF ok old(1)] .
  ultimately have draft: "pt_status new = Draft \<Longrightarrow> pt_status old = Draft" by auto
  have "yes_count db (pt_id new) \<le> c" if c: "pt_status new = Published" "pt_capacity_rigs new = Some c" for c
  proof (cases "pt_status old = Published")
    case True
    show ?thesis
    proof (cases "pt_capacity_rigs old = Some c")
      case same: True
      then show ?thesis using nob True old(1) key by (auto simp: pg_not_overbooked_def)
    next
      case False
      with c k(3) e(3) [OF True] show ?thesis by (simp add: key trip_values_Inr [OF f])
    qed
  next
    case False
    with c(1) k(2) e(4) have "pt_status old = Draft" by (simp add: trip_values_Inr [OF f])
    then have "yes_count db (pt_id new) = 0" using de old(1) key by (simp add: drafts_empty_def)
    moreover have "trips_checks new"
      using pg_trip_save_pg_ok [OF env ok s] new_in by (rule pg_okD(8))
    ultimately show ?thesis using c(2) by (simp add: trips_checks_def)
  qed
  moreover have "yes_count db (pt_id new) = 0" if "pt_status new = Draft"
    using draft [OF that] de old(1) key by (simp add: drafts_empty_def)
  ultimately show ?thesis
    using nob de other unfolding pg_not_overbooked_def drafts_empty_def yes_count_cong [OF rs] by blast
qed

lemma pg_exec_attendance:
  assumes env: "pg_env_ok pe" and ok: "pg_ok pe db"
    and inv: "pg_not_overbooked db \<and> drafts_empty db" and fw: "\<not> unpublishes pe db c"
  shows "pg_not_overbooked (pg_exec pe db c) \<and> drafts_empty (pg_exec pe db c)"
proof (cases "pg_apply pe db c")
  case (Inl e)
  with inv show ?thesis by (simp add: pg_exec_def)
next
  case (Inr db')
  have same: ?thesis if "db_trips db' = db_trips db" "db_rsvps db' = db_rsvps db"
    using inv by (simp add: pg_exec_def Inr pg_not_overbooked_def drafts_empty_def that yes_count_cong [OF that(2)])
  show ?thesis
  proof (cases c)
    case (MemberCreate issuer now m)
    then show ?thesis using Inr same pg_member_create_grow by (simp add: members_grow_def)
  next
    case (MemberUpdate now m)
    then show ?thesis using Inr same pg_member_update_grow by (simp add: members_grow_def)
  next
    case (TripCreate t)
    then show ?thesis using create_attendance [OF env ok] inv Inr by (simp add: pg_exec_def)
  next
    case (TripSave now t)
    then show ?thesis using save_attendance [OF env ok] inv fw Inr by (simp add: pg_exec_def)
  next
    case (RsvpUpsert now rec)
    then have "pg_rsvp_upsert pe (Some db) now rec = Inr db'" using Inr by simp
    with pg_rsvp_upsert_not_overbooked drafts_empty_rsvp pg_okD(2) [OF ok] inv Inr show ?thesis
      by (auto simp: pg_exec_def)
  qed
qed

lemma pg_forward_attendance:
  assumes env: "pg_env_ok pe" and "pg_forward pe db"
  shows "pg_not_overbooked db \<and> drafts_empty db"
  using assms(2)
proof (induction rule: pg_forward.induct)
  case start
  then show ?case by (simp add: pg_not_overbooked_def drafts_empty_def pg_empty_def)
next
  case (step db c)
  have "pg_ok pe db" using pg_reachable_ok [OF pg_forward_reachable [OF step(1)] env] .
  then show ?case using pg_exec_attendance [OF env] step by blast
qed

end
