(* ===== verification/PgTripRefine.thy ===== *)
theory PgTripRefine
  imports PgState
begin

text \<open>
  The Postgres trip repository as a refinement of the in-memory one: \<open>trips_abs\<close> reads the tables
  as the map of trips that \<open>GetByID\<close> gives back. Reading a trip, creating one and saving one are
  the in-memory operations on that map, of a trip in the normal form the columns can hold
  (\<open>norm_trip\<close>); the listings are the in-memory listings in their fields.
\<close>

section \<open>Reading\<close>

definition stored_trip :: "pg_env \<Rightarrow> pg_db \<Rightarrow> pg_trip \<Rightarrow> trip" where
  "stored_trip pe db r =
     \<lparr>t_id = pe_uuid_string pe (pt_external_id r), t_status = pt_status r, t_name = pt_name r,
      t_description = pt_description r, t_creator = pe_uuid_string pe (member_uuid db (pt_created_by r)),
      t_organizers = map (pe_uuid_string pe) (sorted_list_of_set (organizer_uuids db (pt_id r))),
      t_draft_visibility = derefVisibility (pt_draft_visibility r),
      t_start_date = dateToTimePtr (pt_start_date r), t_end_date = dateToTimePtr (pt_end_date r),
      t_capacity_rigs = pt_capacity_rigs r,
      t_attending_rigs = (if pt_status r = Published then Some (yes_count db (pt_id r)) else None),
      t_difficulty_text = pt_difficulty_text r,
      t_meeting_location = meetingFromColumns (pt_meeting_label r) (pt_meeting_address r)
        (pt_meeting_latitude r) (pt_meeting_longitude r),
      t_comms_requirements_text = pt_comms_requirements_text r,
      t_recommended_requirements_text = pt_recommended_requirements_text r,
      t_artifacts = loadArtifacts pe db (pt_external_id r), t_created_at = pt_created_at r,
      t_updated_at = pt_updated_at r\<rparr>"

definition trips_abs :: "pg_env \<Rightarrow> pg_db \<Rightarrow> trip_repo" where
  "trips_abs pe db = \<lparr>tr_by_id =
     map (\<lambda>r. (pe_uuid_string pe (pt_external_id r), stored_trip pe db r)) (db_trips db)\<rparr>"

lemma trips_abs_wf:
  assumes env: "pg_env_ok pe" and ok: "rsvps_ok db"
  shows "wf_trip_repo (trips_abs pe db)"
proof -
  have "distinct (map (\<lambda>r. pe_uuid_string pe (pt_external_id r)) (db_trips db))"
    using rsvps_okD(2) [OF ok] by (simp add: distinct_map inj_on_def uuid_string_eq_iff [OF env])
  then have "wf_map (tr_by_id (trips_abs pe db))" by (simp add: wf_map_def trips_abs_def comp_def)
  moreover have "t_id t = i \<and> i \<noteq> ''''" if "map_of (tr_by_id (trips_abs pe db)) i = Some t" for i t
    using map_of_SomeD [OF that] pg_env_okD(2) [OF env] by (auto simp: trips_abs_def stored_trip_def)
  ultimately show ?thesis by (simp add: wf_trip_repo_def)
qed

lemma trips_abs_lookup:
  assumes "pg_env_ok pe"
  shows "trip_lookup (trips_abs pe db) (pe_uuid_string pe u) =
    map_option (stored_trip pe db) (find (\<lambda>r. pt_external_id r = u) (db_trips db))"
proof -
  have "map_of (map (\<lambda>r. (pe_uuid_string pe (pt_external_id r), f r)) rs) (pe_uuid_string pe u) =
      map_option f (find (\<lambda>r. pt_external_id r = u) rs)" for f :: "pg_trip \<Rightarrow> trip" and rs
    by (induction rs) (simp_all add: uuid_string_eq_iff [OF assms])
  then show ?thesis by (simp add: trip_lookup_def trips_abs_def)
qed

lemma trips_abs_lookup_unparsed:
  assumes "pg_env_ok pe" and "pe_uuid_parse pe i = Inl e"
  shows "trip_lookup (trips_abs pe db) i = None"
proof -
  have "pe_uuid_string pe u \<noteq> i" for u using pg_env_okD(1) [OF assms(1), of u] assms(2) by force
  then show ?thesis unfolding trip_lookup_def trips_abs_def by (auto simp: map_of_eq_None_iff) (metis)
qed

text \<open>Every trip joins with its creator, once.\<close>

lemma trip_join_eq:
  assumes ok: "pg_ok pe db"
  shows "[f tr m. tr \<leftarrow> db_trips db, m \<leftarrow> db_members db, pm_id m = pt_created_by tr \<and> P tr] =
    map (\<lambda>tr. f tr (member_by_pk db (pt_created_by tr))) (filter P (db_trips db))"
proof -
  have each: "concat (map (\<lambda>m. if pm_id m = pt_created_by tr \<and> P tr then [f tr m] else []) (db_members db)) =
      (if P tr then [f tr (member_by_pk db (pt_created_by tr))] else [])"
    if tr: "tr \<in> set (db_trips db)" for tr
  proof -
    obtain m where m: "m \<in> set (db_members db)" "pm_id m = pt_created_by tr" using pg_okD(7) [OF ok tr] by auto
    show ?thesis
      using concat_map_if_unique [OF rsvps_okD(3) [OF pg_okD(2) [OF ok]] m, of "\<lambda>m. [f tr m]"]
        member_by_pk [OF pg_okD(2) [OF ok] m(1)] m(2) by simp
  qed
  have "concat (map (\<lambda>tr. concat (map (\<lambda>m. if pm_id m = pt_created_by tr \<and> P tr then [f tr m] else [])
        (db_members db))) trs) =
      map (\<lambda>tr. f tr (member_by_pk db (pt_created_by tr))) (filter P trs)" if "set trs \<subseteq> set (db_trips db)" for trs
    using that each by (induction trs) simp_all
  then show ?thesis by simp
qed

lemma stored_trip_organizers:
  assumes ok: "pg_ok pe db" and r: "r \<in> set (db_trips db)"
  shows "loadOrganizerExternalIDs pe db (pt_external_id r) =
    map (pe_uuid_string pe) (sorted_list_of_set (organizer_uuids db (pt_id r)))"
  by (rule loadOrganizerExternalIDs_eq [OF pg_okD(2,4) [OF ok] trip_pk_row [OF pg_okD(2) [OF ok] r refl]])

lemma countYes_eq:
  assumes ok: "pg_ok pe db" and r: "r \<in> set (db_trips db)"
  shows "countYesByTripUUID db (pt_external_id r) = yes_count db (pt_id r)"
  by (simp add: countYesByTripUUID_def yes_count_def trip_pk_row [OF pg_okD(2) [OF ok] r refl])

lemma query_row_map: "query_row (map f xs) = map_option f (query_row xs)"
  by (cases xs) simp_all

lemma pg_trip_get_abs:
  assumes env: "pg_env_ok pe" and ok: "pg_ok pe db"
  shows "pg_trip_get pe (Some db) i = trip_get (trips_abs pe db) (canonical_id pe i)"
proof (cases "pe_uuid_parse pe i")
  case (Inl e)
  then show ?thesis
    by (simp add: pg_trip_get_unfold canonical_id_def trip_get_cases trips_abs_lookup_unparsed [OF env Inl])
next
  case (Inr u)
  let ?row = "find (\<lambda>r. pt_external_id r = u) (db_trips db)"
  have q: "query_row [(tr, creator). tr \<leftarrow> db_trips db, creator \<leftarrow> db_members db,
        pm_id creator = pt_created_by tr \<and> pt_external_id tr = u] =
      map_option (\<lambda>tr. (tr, member_by_pk db (pt_created_by tr))) ?row"
    by (simp add: trip_join_eq [OF ok] query_row_map query_row_filter)
  show ?thesis
  proof (cases ?row)
    case None
    then show ?thesis
      by (simp add: pg_trip_get_unfold Inr q canonical_id_def trip_get_cases trips_abs_lookup [OF env])
  next
    case (Some r)
    then have r: "r \<in> set (db_trips db)" "pt_external_id r = u" by (auto simp: find_Some_iff)
    have pk: "trip_pk db u = Some (pt_id r)" using trip_pk_row [OF pg_okD(2) [OF ok] r(1)] r(2) by simp
    show ?thesis
      using stored_trip_organizers [OF ok r(1)] countYes_eq [OF ok r(1)] r(2)
      by (simp add: pg_trip_get_unfold Inr q Some canonical_id_def trip_get_cases trips_abs_lookup [OF env]
          stored_trip_def member_uuid_def)
  qed
qed

section \<open>The normal form\<close>

definition norm_artifacts :: "pg_env \<Rightarrow> trip_artifact list \<Rightarrow> trip_artifact list" where
  "norm_artifacts pe as =
     map (\<lambda>a. a\<lparr>art_id := canonical_id pe (art_id a)\<rparr>) (filter (\<lambda>a. \<not> isl (pe_uuid_parse pe (art_id a))) as)"

text \<open>What the columns keep of a trip: canonical IDs, the organizers as a sorted set, dates without
  a time of day, a visibility for drafts only (private unless given), artifacts with a valid ID.\<close>

definition norm_trip :: "pg_env \<Rightarrow> trip \<Rightarrow> trip" where
  "norm_trip pe t = t\<lparr>
     t_id := canonical_id pe (t_id t), t_creator := canonical_id pe (t_creator t),
     t_organizers := map (pe_uuid_string pe) (sorted_list_of_set (parsed pe (t_organizers t))),
     t_draft_visibility := derefVisibility (draftVisibilityForDB t),
     t_start_date := datePtr (t_start_date t), t_end_date := datePtr (t_end_date t),
     t_artifacts := norm_artifacts pe (t_artifacts t)\<rparr>"

text \<open>What a save makes of it: creator and creation stay, attendance is counted, the time is the
  transaction's.\<close>

definition saved_trip :: "pg_env \<Rightarrow> gotime \<Rightarrow> int \<Rightarrow> trip \<Rightarrow> trip \<Rightarrow> trip" where
  "saved_trip pe now attending old t = (norm_trip pe t)\<lparr>
     t_creator := t_creator old,
     t_attending_rigs := (if t_status t = Published then Some attending else None),
     t_created_at := t_created_at old, t_updated_at := pe_timestamp pe now\<rparr>"

definition created_trip :: "pg_env \<Rightarrow> trip \<Rightarrow> trip" where
  "created_trip pe t = (norm_trip pe t)\<lparr>
     t_attending_rigs := (if t_status t = Published then Some 0 else None),
     t_created_at := pe_timestamp pe (t_created_at t), t_updated_at := pe_timestamp pe (t_updated_at t)\<rparr>"

text \<open>No artifact is listed twice, and none of them is an artifact of another trip.\<close>

definition artifacts_free :: "pg_env \<Rightarrow> pg_db \<Rightarrow> uuid \<Rightarrow> trip_artifact list \<Rightarrow> bool" where
  "artifacts_free pe db u as \<longleftrightarrow>
     distinct (map pa_external_id (artifact_rows pe 0 0 as)) \<and>
     (\<forall>r \<in> set (db_artifacts db).
        pa_external_id r \<in> pa_external_id ` set (artifact_rows pe 0 0 as) \<longrightarrow> Some (pa_trip_id r) = trip_pk db u)"

lemma artifact_rows_ids: "map pa_external_id (artifact_rows pe tk i as) = map pa_external_id (artifact_rows pe 0 0 as)"
proof -
  have "map pa_external_id (artifact_rows pe tk i as) = map pa_external_id (artifact_rows pe tk' i' as)" for tk' i'
    by (induction as arbitrary: i i') (auto split: sum.split)
  then show ?thesis .
qed

lemma artifact_rows_norm:
  "map (\<lambda>r. \<lparr>art_id = pe_uuid_string pe (pa_external_id r), art_type = pa_type r,
             art_title = pa_title r, art_url = pa_url r\<rparr>) (artifact_rows pe tk i as) = norm_artifacts pe as"
proof (induction as arbitrary: i)
  case (Cons a as)
  have "\<lparr>art_id = s, art_type = art_type a, art_title = art_title a, art_url = art_url a\<rparr> = a\<lparr>art_id := s\<rparr>" for s
    by simp
  with Cons show ?case by (auto simp: norm_artifacts_def canonical_id_def split: sum.split)
qed (simp add: norm_artifacts_def)

lemma midnight_idem [simp]: "midnight (midnight t) = midnight t"
  by (simp add: midnight_def day_def second_def)

lemma dateToTimePtr_datePtr [simp]: "dateToTimePtr (datePtr d) = datePtr d"
  by (cases d) simp_all

lemma meetingFromColumns_meeting [simp]:
  "meetingFromColumns (meetingLabel l) (meetingAddress l) (meetingLatitude l) (meetingLongitude l) = l"
  by (cases l) (simp_all add: meetingFromColumns_def)

lemma loadArtifacts_cong:
  assumes "trip_pk db u = Some tk" and "trip_pk db' u = Some tk" and "artifacts_ok db" and "artifacts_ok db'"
    and "{r \<in> set (db_artifacts db'). pa_trip_id r = tk} = {r \<in> set (db_artifacts db). pa_trip_id r = tk}"
  shows "loadArtifacts pe db' u = loadArtifacts pe db u"
proof -
  let ?rows = "\<lambda>d. filter (\<lambda>r. pa_trip_id r = tk) (db_artifacts d)"
  let ?k = "\<lambda>r. (pa_sort_order r, pa_external_id r)"
  have d: "distinct (map pa_external_id (db_artifacts db))" "distinct (map pa_external_id (db_artifacts db'))"
    using assms(3,4) by (simp_all add: artifacts_ok_def)
  have "mset (?rows db') = mset (?rows db)"
    using d assms(5) by (intro set_eq_iff_mset_eq_distinct [THEN iffD1]) (auto simp: distinct_map)
  moreover have "inj_on ?k (set (?rows db))" using d(1) by (auto simp: distinct_map inj_on_def)
  ultimately have "sort_key ?k (?rows db') = sort_key ?k (?rows db)"
    by (intro sort_key_unique) simp_all
  then show ?thesis using assms(1,2) by (simp add: loadArtifacts_def order_by_def)
qed

section \<open>Saving\<close>

lemma trips_enforce_visibility:
  assumes "trips_enforce_transitions pe now db old new = Inr new'"
    and "pt_status new \<noteq> Draft \<Longrightarrow> pt_draft_visibility new = None"
  shows "pt_draft_visibility new' = pt_draft_visibility new"
  using assms
  by (auto simp: trips_enforce_transitions_def and_then_Inr raise_def split: if_splits option.splits)

lemma saved_row:
  assumes f: "trip_values t = Inr f"
    and tr: "trips_enforce_transitions pe now db old ((f old)\<lparr>pt_updated_at := x\<rparr>) =
      Inr (new\<lparr>pt_updated_at := x\<rparr>)"
  obtains p c where "new = (f old)\<lparr>pt_updated_at := pt_updated_at new, pt_published_at := p, pt_canceled_at := c\<rparr>"
proof -
  have dv: "pt_draft_visibility new = pt_draft_visibility (f old)"
    using trips_enforce_visibility [OF tr] by (simp add: trip_values_Inr [OF f] draftVisibilityForDB_def)
  have "new\<lparr>pt_updated_at := x\<rparr> = (f old)\<lparr>pt_updated_at := x, pt_published_at := pt_published_at new,
      pt_canceled_at := pt_canceled_at new, pt_draft_visibility := pt_draft_visibility new\<rparr>"
    using trips_enforce_Inr(1) [OF tr] by simp
  then have "new\<lparr>pt_updated_at := x\<rparr> = (f old)\<lparr>pt_updated_at := x, pt_published_at := pt_published_at new,
      pt_canceled_at := pt_canceled_at new\<rparr>" unfolding dv by simp
  then have "new\<lparr>pt_updated_at := x\<rparr>\<lparr>pt_updated_at := pt_updated_at new\<rparr> =
      (f old)\<lparr>pt_updated_at := pt_updated_at new, pt_published_at := pt_published_at new,
        pt_canceled_at := pt_canceled_at new\<rparr>" by simp
  then show ?thesis by (intro that) simp
qed

lemma saved_row_fields:
  assumes f: "trip_values t = Inr f"
    and tr: "trips_enforce_transitions pe now db old ((f old)\<lparr>pt_updated_at := x\<rparr>) =
      Inr (new\<lparr>pt_updated_at := x\<rparr>)"
  shows "pt_name new = t_name t" "pt_description new = t_description t" "pt_status new = t_status t"
    "pt_start_date new = datePtr (t_start_date t)" "pt_end_date new = datePtr (t_end_date t)"
    "pt_draft_visibility new = draftVisibilityForDB t" "pt_capacity_rigs new = t_capacity_rigs t"
    "pt_difficulty_text new = t_difficulty_text t" "pt_meeting_label new = meetingLabel (t_meeting_location t)"
    "pt_meeting_address new = meetingAddress (t_meeting_location t)"
    "pt_meeting_latitude new = meetingLatitude (t_meeting_location t)"
    "pt_meeting_longitude new = meetingLongitude (t_meeting_location t)"
    "pt_comms_requirements_text new = t_comms_requirements_text t"
    "pt_recommended_requirements_text new = t_recommended_requirements_text t"
    "pt_created_by new = pt_created_by old" "pt_created_at new = pt_created_at old"
proof -
  obtain p c where new: "new = (f old)\<lparr>pt_updated_at := pt_updated_at new, pt_published_at := p, pt_canceled_at := c\<rparr>"
    by (rule saved_row [OF f tr])
  show "pt_name new = t_name t" "pt_description new = t_description t" "pt_status new = t_status t"
    "pt_start_date new = datePtr (t_start_date t)" "pt_end_date new = datePtr (t_end_date t)"
    "pt_draft_visibility new = draftVisibilityForDB t" "pt_capacity_rigs new = t_capacity_rigs t"
    "pt_difficulty_text new = t_difficulty_text t" "pt_meeting_label new = meetingLabel (t_meeting_location t)"
    "pt_meeting_address new = meetingAddress (t_meeting_location t)"
    "pt_meeting_latitude new = meetingLatitude (t_meeting_location t)"
    "pt_meeting_longitude new = meetingLongitude (t_meeting_location t)"
    "pt_comms_requirements_text new = t_comms_requirements_text t"
    "pt_recommended_requirements_text new = t_recommended_requirements_text t"
    "pt_created_by new = pt_created_by old" "pt_created_at new = pt_created_at old"
    by (subst new, simp add: trip_values_Inr [OF f])+
qed

text \<open>The artifacts after the last step of a write: the trip's own are those asked for, every other
  trip's stay.\<close>

lemma sync_artifacts_loaded:
  assumes env: "pg_env_ok pe" and pk: "trip_pk db2 u = Some tk" and ok: "artifacts_ok db2"
    and free: "artifacts_free pe db2 u as" and sync: "syncArtifacts pe u as db2 = Inr db'"
  shows "loadArtifacts pe db' u = norm_artifacts pe as"
    and "trip_pk db2 v = Some k \<Longrightarrow> k \<noteq> tk \<Longrightarrow> loadArtifacts pe db' v = loadArtifacts pe db2 v"
proof -
  have ids: "map pa_external_id (artifact_rows pe tk 0 as) = map pa_external_id (artifact_rows pe 0 0 as)"
    by (rule artifact_rows_ids)
  have own: "pa_trip_id r = tk" if "r \<in> set (db_artifacts db2)" "x \<in> set (artifact_rows pe tk 0 as)"
      "pa_external_id r = pa_external_id x" for r x
  proof -
    have "pa_external_id r \<in> set (map pa_external_id (artifact_rows pe tk 0 as))" using that by auto
    then have "pa_external_id r \<in> pa_external_id ` set (artifact_rows pe 0 0 as)" by (simp only: ids set_map)
    then show ?thesis using free that(1) pk by (auto simp: artifacts_free_def)
  qed
  have dist: "distinct (map pa_external_id (artifact_rows pe tk 0 as))"
    using free by (simp only: ids artifacts_free_def)
  note rows = syncArtifacts_rows [OF env pk ok own dist sync]
  note s = syncArtifacts_ok [OF env pk ok sync]
  have pk': "trip_pk db' w = trip_pk db2 w" for w by (subst s(1)) simp
  have mine: "{r \<in> set (db_artifacts db'). pa_trip_id r = tk} = set (artifact_rows pe tk 0 as)"
    using rows artifact_rows_order [of pe tk 0 as] by auto
  show "loadArtifacts pe db' u = norm_artifacts pe as"
    using loadArtifacts_eq [OF _ s(2) mine] pk pk' by (simp add: artifact_rows_norm)
  show "loadArtifacts pe db' v = loadArtifacts pe db2 v" if v: "trip_pk db2 v = Some k" "k \<noteq> tk"
    using rows artifact_rows_order [of pe tk 0 as] v(2)
    by (intro loadArtifacts_cong [OF v(1) _ ok s(2)]) (auto simp: pk' v(1))
qed

text \<open>A row reads the same when what it refers to does.\<close>

lemma stored_trip_cong:
  assumes "db_members db' = db_members db" and "db_rsvps db' = db_rsvps db"
    and "organizer_uuids db' (pt_id r) = organizer_uuids db (pt_id r)"
    and "loadArtifacts pe db' (pt_external_id r) = loadArtifacts pe db (pt_external_id r)"
  shows "stored_trip pe db' r = stored_trip pe db r"
  using assms by (simp add: stored_trip_def member_uuid_def member_by_pk_def yes_count_def)

lemma artifacts_free_cong:
  "db_artifacts db' = db_artifacts db \<Longrightarrow> trip_pk db' u = trip_pk db u \<Longrightarrow>
   artifacts_free pe db' u as = artifacts_free pe db u as"
  by (simp add: artifacts_free_def)

lemma loadArtifacts_same:
  "db_artifacts db' = db_artifacts db \<Longrightarrow> trip_pk db' u = trip_pk db u \<Longrightarrow>
   loadArtifacts pe db' u = loadArtifacts pe db u"
  by (simp add: loadArtifacts_def)

lemma pg_trip_save_rows:
  assumes env: "pg_env_ok pe" and ok: "pg_ok pe db" and s: "pg_trip_save pe (Some db) now t = Inr db'"
    and u: "pe_uuid_parse pe (t_id t) = Inr u" and free: "artifacts_free pe db u (t_artifacts t)"
  obtains old new where "old \<in> set (db_trips db)" and "pt_external_id old = u" and "pt_external_id new = u"
    and "db_trips db' = update_rows (\<lambda>r. pt_external_id r = u) (\<lambda>_. new) (db_trips db)"
    and "stored_trip pe db' new = saved_trip pe now (yes_count db (pt_id old)) (stored_trip pe db old) t"
    and "\<And>r. r \<in> set (db_trips db) \<Longrightarrow> pt_external_id r \<noteq> u \<Longrightarrow> stored_trip pe db' r = stored_trip pe db r"
    and "db_rsvps db' = db_rsvps db" and "db_members db' = db_members db"
  using s
proof (rule pg_trip_save_cases [OF env ok])
  fix u' old new f
  assume u': "pe_uuid_parse pe (t_id t) = Inr u'" and f: "trip_values t = Inr f"
    and old: "old \<in> set (db_trips db)" "pt_external_id old = u'" and ok': "pg_ok pe db'"
    and rows: "db_trips db' = update_rows (\<lambda>r. pt_external_id r = u') (\<lambda>_. new) (db_trips db)"
    and key: "pt_id new = pt_id old" "pt_external_id new = u'"
    and tr: "trips_enforce_transitions pe now db old
        ((f old)\<lparr>pt_updated_at := pe_timestamp pe (t_updated_at t)\<rparr>) =
      Inr (new\<lparr>pt_updated_at := pe_timestamp pe (t_updated_at t)\<rparr>)"
    and upd: "pt_updated_at new = pe_timestamp pe now"
    and same: "db_rsvps db' = db_rsvps db" "db_members db' = db_members db"
    and orgs: "\<And>k. organizer_uuids db' k =
      (if k = pt_id old then parsed pe (t_organizers t) else organizer_uuids db k)"
    and art: "\<exists>db2. syncArtifacts pe u' (t_artifacts t) db2 = Inr db' \<and> artifacts_ok db2 \<and>
      db_artifacts db2 = db_artifacts db \<and> trip_pk db2 u' = Some (pt_id old)"
  have uu: "u' = u" using u u' by simp
  note okr = pg_okD(2) [OF ok] and okr' = pg_okD(2) [OF ok']
  obtain db2 where db2: "syncArtifacts pe u (t_artifacts t) db2 = Inr db'" "artifacts_ok db2"
    "db_artifacts db2 = db_artifacts db" "trip_pk db2 u = Some (pt_id old)" using art uu by blast
  have pk: "trip_pk db u = Some (pt_id old)" using trip_pk_row [OF okr old(1)] old(2) uu by simp
  have "artifacts_free pe db2 u (t_artifacts t)"
    using free artifacts_free_cong [OF db2(3)] db2(4) pk by simp
  note loaded = sync_artifacts_loaded [OF env db2(4,2) this db2(1)]
  have trips2: "trip_pk db2 v = trip_pk db' v" for v
    by (subst syncArtifacts_ok(1) [OF env db2(4,2,1)]) simp
  note fields = saved_row_fields [OF f tr]
  have "stored_trip pe db' new = saved_trip pe now (yes_count db (pt_id old)) (stored_trip pe db old) t"
    using loaded(1) orgs [of "pt_id old"]
    by (simp add: stored_trip_def saved_trip_def norm_trip_def upd fields key uu old(2) canonical_id_def u
        yes_count_def same member_uuid_def member_by_pk_def)
  moreover have "stored_trip pe db' r = stored_trip pe db r"
    if r: "r \<in> set (db_trips db)" "pt_external_id r \<noteq> u" for r
  proof -
    have r': "r \<in> set (db_trips db')" using r uu by (auto simp: rows set_update_rows image_iff)
    have ne: "pt_id r \<noteq> pt_id old"
      using rsvps_okD(1) [OF okr] r old uu by (auto simp: distinct_map inj_on_def)
    have pkr: "trip_pk db' (pt_external_id r) = Some (pt_id r)" by (rule trip_pk_row [OF okr' r' refl])
    have "loadArtifacts pe db' (pt_external_id r) = loadArtifacts pe db2 (pt_external_id r)"
      using loaded(2) [OF _ ne] trips2 pkr by simp
    also have "\<dots> = loadArtifacts pe db (pt_external_id r)"
      using trips2 pkr trip_pk_row [OF okr r(1) refl] by (intro loadArtifacts_same [OF db2(3)]) simp
    finally show ?thesis using orgs ne by (intro stored_trip_cong) (simp_all add: same)
  qed
  ultimately show ?thesis using that old key rows same uu by blast
qed

lemma pg_trip_save_sim:
  assumes env: "pg_env_ok pe" and ok: "pg_ok pe db" and s: "pg_trip_save pe (Some db) now t = Inr db'"
    and u: "pe_uuid_parse pe (t_id t) = Inr u" and free: "artifacts_free pe db u (t_artifacts t)"
    and i: "i = canonical_id pe (t_id t)"
  shows "\<exists>old. trip_get (trips_abs pe db) i = Inr old \<and>
    trip_save (trips_abs pe db)
      (saved_trip pe now (rsvp_count_yes_by_trip (rsvps_abs pe db) i) old t) = Inr (trips_abs pe db')"
proof -
  obtain old new where old: "old \<in> set (db_trips db)" "pt_external_id old = u" and new: "pt_external_id new = u"
    and rows: "db_trips db' = update_rows (\<lambda>r. pt_external_id r = u) (\<lambda>_. new) (db_trips db)"
    and saved: "stored_trip pe db' new = saved_trip pe now (yes_count db (pt_id old)) (stored_trip pe db old) t"
    and other: "\<And>r. r \<in> set (db_trips db) \<Longrightarrow> pt_external_id r \<noteq> u \<Longrightarrow> stored_trip pe db' r = stored_trip pe db r"
    by (rule pg_trip_save_rows [OF env ok s u free]) blast
  have i': "i = pe_uuid_string pe u" by (simp add: i canonical_id_def u)
  have count: "rsvp_count_yes_by_trip (rsvps_abs pe db) i = yes_count db (pt_id old)"
    using rsvps_abs_count [OF env pg_okD(2) [OF ok] old(1)] old(2) i' by simp
  have get: "trip_get (trips_abs pe db) i = Inr (stored_trip pe db old)"
    using find_unique [OF rsvps_okD(2) [OF pg_okD(2) [OF ok]] old]
    by (simp add: i' trips_abs_lookup [OF env])
  let ?key = "\<lambda>r. pe_uuid_string pe (pt_external_id r)"
  have "distinct (map ?key (db_trips db))"
    using rsvps_okD(2) [OF pg_okD(2) [OF ok]] by (simp add: distinct_map inj_on_def uuid_string_eq_iff [OF env])
  moreover have "i \<in> ?key ` set (db_trips db)" using old i' by auto
  ultimately have upd: "AList.update i (stored_trip pe db' new) (map (\<lambda>r. (?key r, stored_trip pe db r)) (db_trips db)) =
      map (\<lambda>r. (?key r, if ?key r = i then stored_trip pe db' new else stored_trip pe db r)) (db_trips db)"
    by (rule alist_update_map)
  have "map (\<lambda>r. (?key r, stored_trip pe db' r)) (db_trips db') =
      map (\<lambda>r. (?key r, if ?key r = i then stored_trip pe db' new else stored_trip pe db r)) (db_trips db)"
    using new other by (auto simp: rows update_rows_def i' uuid_string_eq_iff [OF env])
  then have "trips_abs pe db' = trip_put (trips_abs pe db) i (stored_trip pe db' new)"
    by (simp add: trips_abs_def trip_put_def upd)
  moreover have "t_id (stored_trip pe db' new) = i" by (simp add: stored_trip_def new i')
  moreover have "i \<noteq> ''''" using pg_env_okD(2) [OF env] i' by simp
  ultimately show ?thesis
    using get count saved by (intro exI [of _ "stored_trip pe db old"]) (simp add: trip_save_put)
qed

section \<open>Creating\<close>

lemma pg_trip_create_sim:
  assumes env: "pg_env_ok pe" and ok: "pg_ok pe db" and c: "pg_trip_create pe (Some db) t = Inr db'"
    and u: "pe_uuid_parse pe (t_id t) = Inr u" and free: "artifacts_free pe db u (t_artifacts t)"
  shows "trip_create (trips_abs pe db) (created_trip pe t) = Inr (trips_abs pe db')"
proof -
  obtain u' cu f mk db1 db2 where c': "pe_uuid_parse pe (t_id t) = Inr u'"
    "pe_uuid_parse pe (t_creator t) = Inr cu" "trip_values t = Inr f" "member_pk db cu = Some mk"
    "insert_trip (Some mk) (f (blank_trip pe u' t)) db = Inr db1"
    "syncOrganizers pe u' (t_organizers t) db1 = Inr db2" "syncArtifacts pe u' (t_artifacts t) db2 = Inr db'"
    using c by (rule pg_trip_createE)
  have uu: "u' = u" using u c'(1) by simp
  note c' = c' [unfolded uu]
  define new where "new = (f (blank_trip pe u t))\<lparr>pt_id := db_trip_seq db, pt_created_by := mk\<rparr>"
  note okr = pg_okD(2) [OF ok]
  note i = insert_trip_pg_ok [OF ok c'(4) trip_values_blank_status [OF c'(3)] c'(5) new_def]
  note fresh = insert_trip_Inr(2) [OF c'(5)]
  have ext: "pt_external_id new = u" by (simp add: new_def trip_values_Inr [OF c'(3)] blank_trip_def)
  have new1: "new \<in> set (db_trips db1)" by (simp add: i(2))
  note y = sync_pg_ok [OF env i(1) new1 ext c'(6,7)]
  have art1: "db_artifacts db1 = db_artifacts db" by (subst i(4)) simp
  have art2: "db_artifacts db2 = db_artifacts db" by (subst y(4)) (simp add: art1)
  have pk1: "trip_pk db1 u = Some (pt_id new)" using trip_pk_row [OF pg_okD(2) [OF i(1)] new1] ext by simp
  have tp: "trip_pk db2 = trip_pk db1" by (subst y(4)) simp
  have nopk: "trip_pk db u = None"
    using fresh trip_values_Inr(2) [OF c'(3)] by (auto simp: trip_pk_def find_None_iff blank_trip_def)
  have "artifacts_free pe db2 u (t_artifacts t)"
    using free by (auto simp: artifacts_free_def art2 nopk)
  note loaded = sync_artifacts_loaded [OF env _ y(5) this c'(7), unfolded tp, OF pk1]
  have same: "db_members db' = db_members db" "db_rsvps db' = db_rsvps db" "db_trips db' = db_trips db @ [new]"
    by (subst y(2), subst i(4), simp add: i(2))+
  have tp': "trip_pk db' = trip_pk db1" by (subst y(2)) (simp add: trip_pk_def fun_eq_iff)
  have cu: "member_uuid db mk = cu"
    using member_pk_Some [OF c'(4)] member_by_pk [OF okr] by (auto simp: member_uuid_def)
  have "yes_count db (pt_id new) = 0"
  proof -
    have "pr_trip_id r \<noteq> pt_id new" if "r \<in> set (db_rsvps db)" for r
      using rsvps_okD(6) [OF okr] pg_okD(6) [OF ok] that by (fastforce simp: new_def)
    then show ?thesis by (auto simp: yes_count_def filter_empty_conv)
  qed
  then have created: "stored_trip pe db' new = created_trip pe t"
    using loaded(1) y(3) [of "pt_id new"] cu
    by (simp add: stored_trip_def created_trip_def norm_trip_def ext yes_count_def same member_uuid_def
        member_by_pk_def canonical_id_def u c'(2))
       (simp add: new_def trip_values_Inr [OF c'(3)] blank_trip_def)
  have other: "stored_trip pe db' r = stored_trip pe db r" if r: "r \<in> set (db_trips db)" for r
  proof -
    have ne: "pt_id r \<noteq> pt_id new" using pg_okD(6) [OF ok r] by (simp add: new_def)
    have r1: "r \<in> set (db_trips db1)" using r by (simp add: i(2))
    have pkr: "trip_pk db1 (pt_external_id r) = Some (pt_id r)"
      by (rule trip_pk_row [OF pg_okD(2) [OF i(1)] r1 refl])
    have "loadArtifacts pe db' (pt_external_id r) = loadArtifacts pe db2 (pt_external_id r)"
      by (rule loaded(2) [OF pkr ne])
    also have "\<dots> = loadArtifacts pe db (pt_external_id r)"
      by (rule loadArtifacts_same [OF art2]) (simp add: tp pkr trip_pk_row [OF okr r refl])
    finally show ?thesis using y(3) i(3) ne by (intro stored_trip_cong) (simp_all add: same)
  qed
  have "trip_lookup (trips_abs pe db) (pe_uuid_string pe u) = None"
    using fresh trip_values_Inr(2) [OF c'(3)] by (auto simp: trips_abs_lookup [OF env] find_None_iff blank_trip_def)
  moreover from this have "pe_uuid_string pe u \<notin> set (keys (tr_by_id (trips_abs pe db)))"
    by (simp add: trip_lookup_def map_of_eq_None_iff)
  then have "tr_by_id (trip_put (trips_abs pe db) (pe_uuid_string pe u) (created_trip pe t)) =
      tr_by_id (trips_abs pe db) @ [(pe_uuid_string pe u, created_trip pe t)]"
    by (simp add: trip_put_def map_of_fresh_update)
  then have "trips_abs pe db' = trip_put (trips_abs pe db) (pe_uuid_string pe u) (created_trip pe t)"
    using other by (simp add: trips_abs_def same created ext cong: map_cong)
  moreover have "t_id (created_trip pe t) = pe_uuid_string pe u"
    by (simp add: created_trip_def norm_trip_def canonical_id_def u)
  ultimately show ?thesis using pg_env_okD(2) [OF env] by (simp add: trip_create_put)
qed

end
