(* ===== verification/PgTyped.thy ===== *)
theory PgTyped
  imports PgSafety PgTripRefine
begin

text \<open>
  The types of the columns: what the domain model holds as a string with a few documented values
  is an enumeration in the database, and a capacity is a 32-bit integer. Every value that comes back
  from a reachable database is one of the documented ones.
\<close>

definition pg_typed :: "pg_db \<Rightarrow> bool" where
  "pg_typed db \<longleftrightarrow>
     (\<forall>t \<in> set (db_trips db). pt_status t \<in> {Draft, Published, Canceled} \<and>
        pt_draft_visibility t \<in> {None, Some Private, Some Public} \<and>
        (\<forall>c. pt_capacity_rigs t = Some c \<longrightarrow> - (2 ^ 31) \<le> c \<and> c < 2 ^ 31)) \<and>
     (\<forall>a \<in> set (db_artifacts db). pa_type a \<in> {Gpx, Schedule, Document, OtherArtifact}) \<and>
     (\<forall>r \<in> set (db_rsvps db). pr_response r \<in> {Yes, No, Unset})"

lemma pg_typedD:
  assumes "pg_typed db"
  shows "t \<in> set (db_trips db) \<Longrightarrow> pt_status t \<in> {Draft, Published, Canceled}"
    and "t \<in> set (db_trips db) \<Longrightarrow> pt_draft_visibility t \<in> {None, Some Private, Some Public}"
    and "t \<in> set (db_trips db) \<Longrightarrow> pt_capacity_rigs t = Some c \<Longrightarrow> - (2 ^ 31) \<le> c \<and> c < 2 ^ 31"
    and "a \<in> set (db_artifacts db) \<Longrightarrow> pa_type a \<in> {Gpx, Schedule, Document, OtherArtifact}"
    and "r \<in> set (db_rsvps db) \<Longrightarrow> pr_response r \<in> {Yes, No, Unset}"
  using assms by (auto simp: pg_typed_def)

section \<open>Writes keep the types\<close>

lemma trip_values_typed:
  assumes "trip_values t = Inr f"
  shows "draftVisibilityForDB t \<in> {None, Some Private, Some Public}"
    and "t_capacity_rigs t = Some c \<Longrightarrow> - (2 ^ 31) \<le> c \<and> c < 2 ^ 31"
proof -
  have *: "cast_draft_visibility (draftVisibilityForDB t) = Inr v \<Longrightarrow> v = draftVisibilityForDB t \<and>
      v \<in> {None, Some Private, Some Public}" for v
    by (cases "draftVisibilityForDB t"; simp) (case_tac a; auto simp: raise_def)
  show "draftVisibilityForDB t \<in> {None, Some Private, Some Public}"
    using assms * by (auto simp: trip_values_def and_then_Inr)
  show "t_capacity_rigs t = Some c \<Longrightarrow> - (2 ^ 31) \<le> c \<and> c < 2 ^ 31"
    using assms by (auto simp: trip_values_def and_then_Inr raise_def split: if_splits)
qed

lemma cast_artifact_type_typed: "cast_artifact_type x = Inr y \<Longrightarrow> y \<in> {Gpx, Schedule, Document, OtherArtifact}"
  by (cases x) (auto simp: raise_def)

definition artifacts_typed :: "pg_artifact list \<Rightarrow> bool" where
  "artifacts_typed as \<longleftrightarrow> (\<forall>a \<in> set as. pa_type a \<in> {Gpx, Schedule, Document, OtherArtifact})"

lemma set_upsert_row:
  "x \<in> set (upsert_row key merge r rows) \<Longrightarrow> x \<in> set rows \<or> x = r \<or> (\<exists>y. x = merge r y)"
  by (auto simp: upsert_row_def set_update_rows split: if_splits)

lemma upsert_artifact_typed:
  assumes "upsert_artifact aid tu a i db = Inr db'" and "artifacts_typed (db_artifacts db)"
  shows "artifacts_typed (db_artifacts db')"
proof -
  obtain ty tk where ty: "cast_artifact_type (art_type a) = Inr ty" "trip_pk db tu = Some tk"
    using assms(1) by (auto simp: upsert_artifact_def and_then_Inr raise_def split: option.splits)
  have "pa_type x \<in> {Gpx, Schedule, Document, OtherArtifact}" if "x \<in> set (db_artifacts db')" for x
  proof -
    have "x \<in> set (db_artifacts db) \<or> pa_type x = ty"
      using that assms(1) by (auto simp: upsert_artifact_def and_then_Inr ty dest!: set_upsert_row)
    then show ?thesis using assms(2) cast_artifact_type_typed [OF ty(1)] by (auto simp: artifacts_typed_def)
  qed
  then show ?thesis by (simp add: artifacts_typed_def)
qed

lemma upsert_artifacts_typed:
  "upsert_artifacts pe tu i as keep db = Inr (keep', db') \<Longrightarrow> artifacts_typed (db_artifacts db) \<Longrightarrow>
   artifacts_typed (db_artifacts db')"
proof (induction as arbitrary: i keep db)
  case (Cons a as)
  show ?case
  proof (cases "pe_uuid_parse pe (art_id a)")
    case (Inl e)
    with Cons show ?thesis by simp
  next
    case (Inr aid)
    then obtain db1 where "upsert_artifact aid tu a i db = Inr db1"
      and rest: "upsert_artifacts pe tu (i + 1) as (aid # keep) db1 = Inr (keep', db')"
      using Cons.prems(1) by (auto simp: and_then_Inr)
    with Cons.IH [OF rest] upsert_artifact_typed Cons.prems(2) show ?thesis by blast
  qed
qed simp

lemma delete_artifacts_subset:
  "set (db_artifacts (delete_artifacts pe tu keep as db)) \<subseteq> set (db_artifacts db)"
proof (induction as arbitrary: db)
  case (Cons a as)
  show ?case
  proof (cases "pe_uuid_parse pe (art_id a)")
    case (Inl e)
    then show ?thesis using Cons by simp
  next
    case (Inr aid)
    have "set (db_artifacts (delete_artifact tu aid db)) \<subseteq> set (db_artifacts db)"
      by (auto simp: delete_artifact_def)
    with Inr Cons [of db] Cons [of "delete_artifact tu aid db"] show ?thesis by (simp, blast)
  qed
qed simp

lemma syncArtifacts_typed:
  assumes "syncArtifacts pe tu as db = Inr db'" and "artifacts_typed (db_artifacts db)"
  shows "artifacts_typed (db_artifacts db')"
proof -
  obtain keep db1 where up: "upsert_artifacts pe tu 0 as [] db = Inr (keep, db1)"
    and db': "db' = delete_artifacts pe tu keep (loadArtifacts pe db1 tu) db1"
    using assms(1) by (auto simp: syncArtifacts_def and_then_Inr)
  from upsert_artifacts_typed [OF up assms(2)] show ?thesis
    using delete_artifacts_subset [of pe tu keep "loadArtifacts pe db1 tu" db1]
    by (auto simp: db' artifacts_typed_def)
qed

lemma pg_typed_cong:
  assumes "pg_typed db" and "db_rsvps db' = db_rsvps db" and "artifacts_typed (db_artifacts db')"
    and "\<And>t. t \<in> set (db_trips db') \<Longrightarrow> t \<in> set (db_trips db) \<or>
      pt_status t \<in> {Draft, Published, Canceled} \<and> pt_draft_visibility t \<in> {None, Some Private, Some Public} \<and>
      (\<forall>c. pt_capacity_rigs t = Some c \<longrightarrow> - (2 ^ 31) \<le> c \<and> c < 2 ^ 31)"
  shows "pg_typed db'"
  using assms unfolding pg_typed_def artifacts_typed_def by (metis (no_types))

lemma pg_typed_artifacts: "pg_typed db \<Longrightarrow> artifacts_typed (db_artifacts db)"
  by (simp add: pg_typed_def artifacts_typed_def)

lemma create_typed:
  assumes env: "pg_env_ok pe" and ok: "pg_ok pe db" and ty: "pg_typed db"
    and c: "pg_trip_create pe (Some db) t = Inr db'"
  shows "pg_typed db'"
proof -
  obtain u cu f mk db1 db2 where c': "pe_uuid_parse pe (t_id t) = Inr u"
    "pe_uuid_parse pe (t_creator t) = Inr cu" "trip_values t = Inr f" "member_pk db cu = Some mk"
    "insert_trip (Some mk) (f (blank_trip pe u t)) db = Inr db1"
    "syncOrganizers pe u (t_organizers t) db1 = Inr db2" "syncArtifacts pe u (t_artifacts t) db2 = Inr db'"
    using c by (rule pg_trip_createE)
  let ?new = "(f (blank_trip pe u t))\<lparr>pt_id := db_trip_seq db, pt_created_by := mk\<rparr>"
  note fv = trip_values_Inr [OF c'(3)]
  note i = insert_trip_pg_ok [OF ok c'(4) trip_values_blank_status [OF c'(3)] c'(5) refl]
  have new: "?new \<in> set (db_trips db1)" "pt_external_id ?new = u"
    by (simp_all add: i(2) fv blank_trip_def)
  note y = sync_pg_ok [OF env i(1) new c'(6,7)]
  have "db_artifacts db2 = db_artifacts db" by (subst y(4), simp, subst i(4), simp)
  then have "artifacts_typed (db_artifacts db')"
    using syncArtifacts_typed [OF c'(7)] pg_typed_artifacts [OF ty] by simp
  moreover have "db_rsvps db' = db_rsvps db" "db_trips db' = db_trips db @ [?new]"
    by (subst y(2), simp, subst i(4), simp add: i(2))+
  ultimately show ?thesis
    using trip_values_typed [OF c'(3)] fv(22) by (intro pg_typed_cong [OF ty]) (auto simp: fv)
qed

lemma save_typed:
  assumes env: "pg_env_ok pe" and ok: "pg_ok pe db" and ty: "pg_typed db"
    and s: "pg_trip_save pe (Some db) now t = Inr db'"
  shows "pg_typed db'"
  using s
proof (rule pg_trip_save_cases [OF env ok])
  fix u old new f
  assume f: "trip_values t = Inr f"
    and rows: "db_trips db' = update_rows (\<lambda>r. pt_external_id r = u) (\<lambda>_. new) (db_trips db)"
    and tr: "trips_enforce_transitions pe now db old
        ((f old)\<lparr>pt_updated_at := pe_timestamp pe (t_updated_at t)\<rparr>) =
      Inr (new\<lparr>pt_updated_at := pe_timestamp pe (t_updated_at t)\<rparr>)"
    and rs: "db_rsvps db' = db_rsvps db"
    and art: "\<exists>db2. syncArtifacts pe u (t_artifacts t) db2 = Inr db' \<and> artifacts_ok db2 \<and>
      db_artifacts db2 = db_artifacts db \<and> trip_pk db2 u = Some (pt_id old)"
  have "artifacts_typed (db_artifacts db')"
    using art syncArtifacts_typed pg_typed_artifacts [OF ty] by metis
  moreover have "r \<in> set (db_trips db) \<or> pt_status r \<in> {Draft, Published, Canceled} \<and>
      pt_draft_visibility r \<in> {None, Some Private, Some Public} \<and>
      (\<forall>c. pt_capacity_rigs r = Some c \<longrightarrow> - (2 ^ 31) \<le> c \<and> c < 2 ^ 31)"
    if "r \<in> set (db_trips db')" for r
  proof -
    have "r \<in> set (db_trips db) \<or> r = new" using that by (auto simp: rows set_update_rows split: if_splits)
    then show ?thesis
      using trip_values_typed [OF f] trip_values_Inr(22) [OF f] saved_row_fields(3,6,7) [OF f tr] by metis
  qed
  ultimately show ?thesis by (rule pg_typed_cong [OF ty rs])
qed

lemma rsvp_typed:
  assumes ok: "rsvps_ok db" and ty: "pg_typed db" and ups: "pg_rsvp_upsert pe (Some db) now rec = Inr db'"
  shows "pg_typed db'"
  using ups
proof (rule pg_rsvp_upsertE [OF ok])
  fix t m c
  assume st: "\<forall>s. rs_status rec \<noteq> OtherResponse s"
    and db': "db' = db\<lparr>db_rsvps := put_rsvp (rsvp_row pe now (pt_id t) (pm_id m) (rs_status rec)) (db_rsvps db)\<rparr>"
  have "rs_status rec \<in> {Yes, No, Unset}" using st by (cases "rs_status rec") auto
  moreover have "r \<in> set (db_rsvps db) \<or> pr_response r = rs_status rec" if "r \<in> set (db_rsvps db')" for r
    using that by (auto simp: db' upsert_row_set [OF rsvps_okD(5) [OF ok]] split: option.splits)
  ultimately show ?thesis using ty unfolding pg_typed_def db' by fastforce
qed

lemma pg_exec_typed:
  assumes env: "pg_env_ok pe" and ok: "pg_ok pe db" and ty: "pg_typed db"
  shows "pg_typed (pg_exec pe db c)"
proof (cases "pg_apply pe db c")
  case (Inl e)
  with ty show ?thesis by (simp add: pg_exec_def)
next
  case (Inr db')
  have grow: ?thesis if "members_grow db db'"
    using that ty by (simp add: pg_exec_def Inr pg_typed_def members_grow_def)
  show ?thesis
  proof (cases c)
    case (MemberCreate issuer now m)
    then show ?thesis using Inr grow pg_member_create_grow by simp
  next
    case (MemberUpdate now m)
    then show ?thesis using Inr grow pg_member_update_grow by simp
  next
    case (TripCreate t)
    then show ?thesis using Inr create_typed [OF env ok ty] by (simp add: pg_exec_def)
  next
    case (TripSave now t)
    then show ?thesis using Inr save_typed [OF env ok ty] by (simp add: pg_exec_def)
  next
    case (RsvpUpsert now r)
    then show ?thesis using Inr rsvp_typed [OF pg_okD(2) [OF ok] ty] by (simp add: pg_exec_def)
  qed
qed

lemma pg_empty_typed [simp]: "pg_typed pg_empty"
  by (simp add: pg_typed_def pg_empty_def)

lemma pg_reachable_typed: "pg_reachable pe db \<Longrightarrow> pg_env_ok pe \<Longrightarrow> pg_typed db"
  by (induction rule: pg_reachable.induct) (simp_all add: pg_exec_typed pg_reachable_ok)

end
