(* ===== verification/PgTripSave.thy ===== *)
theory PgTripSave
  imports PgTyped
begin

text \<open>
  Exactly when the Postgres trip repository accepts a save, and that it accepts what it gave out:
  a published trip that is read and saved again, which is what \<open>SetMyRSVP\<close> does with it, only
  changes its time.
\<close>

section \<open>When a save is accepted\<close>

text \<open>The types of the artifacts that are written.\<close>

definition artifacts_known :: "pg_env \<Rightarrow> trip_artifact list \<Rightarrow> bool" where
  "artifacts_known pe as \<longleftrightarrow>
     (\<forall>a \<in> set as. isl (pe_uuid_parse pe (art_id a)) \<or> art_type a \<in> {Gpx, Schedule, Document, OtherArtifact})"

lemma cast_artifact_type_iff: "isl (cast_artifact_type x) \<longleftrightarrow> x \<notin> {Gpx, Schedule, Document, OtherArtifact}"
  by (cases x) (auto simp: raise_def)

lemma upsert_artifact_iff:
  assumes "trip_pk db tu = Some tk"
  shows "isl (upsert_artifact aid tu a i db) \<longleftrightarrow> isl (cast_artifact_type (art_type a))"
  using assms by (cases "cast_artifact_type (art_type a)") (simp_all add: upsert_artifact_def)

lemma upsert_artifact_trips:
  "upsert_artifact aid tu a i db = Inr db' \<Longrightarrow> trip_pk db' = trip_pk db"
  by (auto simp: upsert_artifact_def and_then_Inr raise_def split: option.splits)

lemma upsert_artifacts_iff:
  assumes "trip_pk db tu = Some tk"
  shows "isl (upsert_artifacts pe tu i as keep db) \<longleftrightarrow> \<not> artifacts_known pe as"
  using assms
proof (induction as arbitrary: i keep db)
  case Nil
  then show ?case by (simp add: artifacts_known_def)
next
  case (Cons a as)
  show ?case
  proof (cases "pe_uuid_parse pe (art_id a)")
    case (Inl e)
    then show ?thesis using Cons by (simp add: artifacts_known_def)
  next
    case (Inr aid)
    show ?thesis
    proof (cases "upsert_artifact aid tu a i db")
      case (Inl e)
      then have "isl (cast_artifact_type (art_type a))"
        using upsert_artifact_iff [OF Cons.prems, of aid a i] by simp
      then show ?thesis using Inr Inl by (simp add: artifacts_known_def cast_artifact_type_iff)
    next
      case up: (Inr db1)
      then have "\<not> isl (cast_artifact_type (art_type a))"
        using upsert_artifact_iff [OF Cons.prems, of aid a i] by simp
      then show ?thesis
        using Inr up Cons upsert_artifact_trips [OF up] by (simp add: artifacts_known_def cast_artifact_type_iff)
    qed
  qed
qed

lemma syncArtifacts_iff:
  assumes "trip_pk db tu = Some tk"
  shows "isl (syncArtifacts pe tu as db) \<longleftrightarrow> \<not> artifacts_known pe as"
  using upsert_artifacts_iff [OF assms, of pe 0 as "[]"]
  by (cases "upsert_artifacts pe tu 0 as [] db") (auto simp: syncArtifacts_def split: prod.splits)

lemma syncOrganizers_iff:
  assumes "pg_env_ok pe" and "rsvps_ok db" and "organizers_ok db"
    and "trip_pk db tu = Some tk" and "organizer_uuids db tk \<noteq> {}"
  shows "isl (syncOrganizers pe tu desired db) \<longleftrightarrow>
    \<not> (organizer_uuids db tk \<inter> parsed pe desired \<noteq> {} \<and> (\<forall>u \<in> parsed pe desired. member_pk db u \<noteq> None))"
  using syncOrganizers_cases [OF assms, of desired] by (auto split: if_splits)

text \<open>The creator given, if it is an ID, is the one of the row; the values fit the columns; the
  trigger and the checks let the new row pass; an organizer stays and all are members; the types of
  the artifacts are known.\<close>

definition save_accepted :: "pg_env \<Rightarrow> pg_db \<Rightarrow> gotime \<Rightarrow> uuid \<Rightarrow> pg_trip \<Rightarrow> trip \<Rightarrow> bool" where
  "save_accepted pe db now u old t \<longleftrightarrow>
     (t_creator t = '''' \<or> (case pe_uuid_parse pe (t_creator t) of
        Inl _ \<Rightarrow> True | Inr c \<Rightarrow> c = member_uuid db (pt_created_by old))) \<and>
     (case trip_values t of Inl _ \<Rightarrow> False
      | Inr f \<Rightarrow> \<not> isl (update_trip pe now u (\<lambda>r. (f r)\<lparr>pt_updated_at := pe_timestamp pe (t_updated_at t)\<rparr>) db)) \<and>
     organizer_uuids db (pt_id old) \<inter> parsed pe (t_organizers t) \<noteq> {} \<and>
     (\<forall>v \<in> parsed pe (t_organizers t). member_pk db v \<noteq> None) \<and>
     artifacts_known pe (t_artifacts t)"

lemma pg_trip_save_accepted:
  assumes env: "pg_env_ok pe" and ok: "pg_ok pe db" and u: "pe_uuid_parse pe (t_id t) = Inr u"
    and old: "old \<in> set (db_trips db)" "pt_external_id old = u"
  shows "\<not> isl (pg_trip_save pe (Some db) now t) \<longleftrightarrow> save_accepted pe db now u old t"
proof -
  have "filter (\<lambda>tr. pt_external_id tr = u) (db_trips db) = [old]"
    using filter_unique [OF rsvps_okD(2) [OF pg_okD(2) [OF ok]], of u] find_unique [OF rsvps_okD(2) [OF pg_okD(2) [OF ok]] old]
    by simp
  then have q: "query_row [pm_external_id m. tr \<leftarrow> db_trips db, m \<leftarrow> db_members db,
      pm_id m = pt_created_by tr \<and> pt_external_id tr = u] = Some (member_uuid db (pt_created_by old))"
    by (simp add: trip_join_eq [OF ok] member_uuid_def)
  let ?bad = "t_creator t \<noteq> '''' \<and> (case pe_uuid_parse pe (t_creator t) of
      Inr cid \<Rightarrow> cid \<noteq> member_uuid db (pt_created_by old) | Inl _ \<Rightarrow> False)"
  show ?thesis
  proof (cases ?bad)
    case True
    then show ?thesis by (auto simp: pg_trip_save_def u q save_accepted_def split: sum.splits)
  next
    case good: False
    have creator: "t_creator t = '''' \<or> (case pe_uuid_parse pe (t_creator t) of
        Inl _ \<Rightarrow> True | Inr c \<Rightarrow> c = member_uuid db (pt_created_by old))"
      using good by (auto split: sum.splits)
    let ?upd = "\<lambda>f. update_trip pe now u (\<lambda>r. (f r)\<lparr>pt_updated_at := pe_timestamp pe (t_updated_at t)\<rparr>) db"
    show ?thesis
    proof (cases "trip_values t")
      case (Inl e)
      then show ?thesis using good by (simp add: pg_trip_save_def u q save_accepted_def)
    next
      case f: (Inr f)
      show ?thesis
      proof (cases "?upd f")
        case (Inl e)
        then show ?thesis using good f by (simp add: pg_trip_save_def u q save_accepted_def)
      next
        case up: (Inr db1)
        obtain new where n: "pg_ok pe db1" "new \<in> set (db_trips db1)" "pt_id new = pt_id old" "pt_external_id new = u"
          "\<And>k. organizer_uuids db1 k = organizer_uuids db k" "member_pk db1 = member_pk db"
          by (rule update_trip_pg_ok [OF ok old f up]) (auto simp: member_pk_def fun_eq_iff)
        have pk: "trip_pk db1 u = Some (pt_id old)" using trip_pk_row [OF pg_okD(2) [OF n(1)] n(2,4)] n(3) by simp
        have some: "organizer_uuids db1 (pt_id old) \<noteq> {}" using n(5) pg_okD(10) [OF ok old(1)] by simp
        have save: "isl (pg_trip_save pe (Some db) now t) \<longleftrightarrow>
            isl (and_then (syncOrganizers pe u (t_organizers t) db1) (syncArtifacts pe u (t_artifacts t)))"
          using good f up
          by (cases "and_then (syncOrganizers pe u (t_organizers t) db1) (syncArtifacts pe u (t_artifacts t))")
            (simp_all add: pg_trip_save_def u q)
        note so = syncOrganizers_iff [OF env pg_okD(2,4) [OF n(1)] pk some, of "t_organizers t"]
        show ?thesis
        proof (cases "syncOrganizers pe u (t_organizers t) db1")
          case (Inl e)
          then show ?thesis using save so by (auto simp: save_accepted_def f up n(5,6))
        next
          case (Inr db2)
          have "trip_pk db2 u = Some (pt_id old)"
            using syncOrganizers_Inr(1) [OF env pg_okD(2,4) [OF n(1)] pk some Inr] pk by (metis trip_pk_organizers)
          from syncArtifacts_iff [OF this, of pe "t_artifacts t"] show ?thesis
            using save so Inr creator by (auto simp: save_accepted_def f up n(5,6))
        qed
      qed
    qed
  qed
qed

section \<open>Saving what was read\<close>

lemma datePtr_dateToTimePtr [simp]: "datePtr (dateToTimePtr d) = dateToTimePtr d"
  by (cases d) simp_all

lemma dateToTimePtr_map: "dateToTimePtr d = map_option midnight d"
  by (cases d) simp_all

lemma midnight_mono: "s \<le> e \<Longrightarrow> midnight s \<le> midnight e"
  by (simp add: midnight_def day_def second_def zdiv_mono1)

lemma parsed_strings: "pg_env_ok pe \<Longrightarrow> parsed pe (map (pe_uuid_string pe) us) = set us"
  by (auto simp: parsed_def pg_env_okD(1))

lemma canonical_string [simp]: "pg_env_ok pe \<Longrightarrow> canonical_id pe (pe_uuid_string pe u) = pe_uuid_string pe u"
  by (simp add: canonical_id_def pg_env_okD(1))

lemma finite_organizers: "finite (organizer_uuids db k)"
proof (rule finite_subset)
  show "organizer_uuids db k \<subseteq> pm_external_id ` set (db_members db)"
    using member_pk_Some by (fastforce simp: organizer_uuids_def)
qed simp

lemma norm_loadArtifacts:
  assumes env: "pg_env_ok pe"
  shows "norm_artifacts pe (loadArtifacts pe db u) = loadArtifacts pe db u"
    and "pg_typed db \<Longrightarrow> artifacts_known pe (loadArtifacts pe db u)"
proof -
  have "norm_artifacts pe (map (\<lambda>r. \<lparr>art_id = pe_uuid_string pe (pa_external_id r), art_type = pa_type r,
      art_title = pa_title r, art_url = pa_url r\<rparr>) rs) = map (\<lambda>r. \<lparr>art_id = pe_uuid_string pe (pa_external_id r),
      art_type = pa_type r, art_title = pa_title r, art_url = pa_url r\<rparr>) rs" for rs
    by (induction rs) (simp_all add: norm_artifacts_def pg_env_okD(1) [OF env] canonical_string [OF env])
  then show "norm_artifacts pe (loadArtifacts pe db u) = loadArtifacts pe db u" by (simp add: loadArtifacts_def)
  show "artifacts_known pe (loadArtifacts pe db u)" if "pg_typed db"
    using pg_typedD(4) [OF that] by (auto simp: artifacts_known_def loadArtifacts_def order_by_def)
qed

lemma artifact_rows_of_loaded:
  assumes env: "pg_env_ok pe"
  shows "map pa_external_id (artifact_rows pe tk i (map (\<lambda>r. \<lparr>art_id = pe_uuid_string pe (pa_external_id r),
      art_type = pa_type r, art_title = pa_title r, art_url = pa_url r\<rparr>) rs)) = map pa_external_id rs"
  by (induction rs arbitrary: i) (simp_all add: pg_env_okD(1) [OF env])

lemma loaded_free:
  assumes env: "pg_env_ok pe" and ok: "artifacts_ok db"
  shows "artifacts_free pe db u (loadArtifacts pe db u)"
proof -
  let ?rows = "order_by (\<lambda>r. (pa_sort_order r, pa_external_id r))
    (filter (\<lambda>r. Some (pa_trip_id r) = trip_pk db u) (db_artifacts db))"
  have ids: "map pa_external_id (artifact_rows pe 0 0 (loadArtifacts pe db u)) = map pa_external_id ?rows"
    unfolding loadArtifacts_def by (rule artifact_rows_of_loaded [OF env])
  have d: "distinct (map pa_external_id (db_artifacts db))" using ok by (simp add: artifacts_ok_def)
  then have "distinct (map pa_external_id ?rows)"
    by (auto simp: distinct_map order_by_def distinct_filter intro: inj_on_subset)
  moreover have "Some (pa_trip_id r) = trip_pk db u"
    if r: "r \<in> set (db_artifacts db)" "pa_external_id r \<in> set (map pa_external_id ?rows)" for r
  proof -
    obtain r' where r': "r' \<in> set (db_artifacts db)" "Some (pa_trip_id r') = trip_pk db u" "pa_external_id r' = pa_external_id r"
      using r(2) by (auto simp: order_by_def)
    then have "r' = r" using d r(1) by (auto simp: distinct_map inj_on_def)
    with r' show ?thesis by simp
  qed
  ultimately show ?thesis unfolding artifacts_free_def set_map [symmetric] ids by blast
qed

lemma saved_again:
  assumes env: "pg_env_ok pe" and ok: "pg_ok pe db" and r: "r \<in> set (db_trips db)" and st: "pt_status r = Published"
  shows "saved_trip pe now (yes_count db (pt_id r)) (stored_trip pe db r)
      ((stored_trip pe db r)\<lparr>t_attending_rigs := x, t_updated_at := y\<rparr>) =
    (stored_trip pe db r)\<lparr>t_updated_at := pe_timestamp pe now\<rparr>"
proof -
  have "pt_draft_visibility r = None" using pg_okD(8) [OF ok r] st by (auto simp: trips_checks_def)
  then show ?thesis
    by (simp add: saved_trip_def norm_trip_def stored_trip_def st draftVisibilityForDB_def canonical_string [OF env]
        parsed_strings [OF env] norm_loadArtifacts(1) [OF env] finite_organizers)
qed

lemma again_accepted:
  assumes env: "pg_env_ok pe" and ok: "pg_ok pe db" and ty: "pg_typed db"
    and r: "r \<in> set (db_trips db)" and st: "pt_status r = Published"
  shows "save_accepted pe db now (pt_external_id r) r ((stored_trip pe db r)\<lparr>t_attending_rigs := x, t_updated_at := y\<rparr>)"
proof -
  let ?t = "(stored_trip pe db r)\<lparr>t_attending_rigs := x, t_updated_at := y\<rparr>"
  note ch = pg_okD(8) [OF ok r]
  have dv: "draftVisibilityForDB ?t = None" by (simp add: draftVisibilityForDB_def stored_trip_def st)
  have cap: "cast_integer (pt_capacity_rigs r) = Inr (pt_capacity_rigs r)"
    using pg_typedD(3) [OF ty r] by (cases "pt_capacity_rigs r") auto
  obtain f where f: "trip_values ?t = Inr f"
    by (simp add: trip_values_def dv) (simp add: stored_trip_def st cap)
  note fv = trip_values_Inr [OF f]
  let ?new = "(f r)\<lparr>pt_updated_at := pe_timestamp pe (t_updated_at ?t)\<rparr>"
  have tr: "trips_enforce_transitions pe now db r ?new = Inr ?new"
    using st by (simp add: trips_enforce_transitions_def fv) (simp add: stored_trip_def)
  have fields: "pt_start_date (f r) = map_option midnight (pt_start_date r)"
    "pt_end_date (f r) = map_option midnight (pt_end_date r)"
    by (simp_all add: fv stored_trip_def) (simp_all add: dateToTimePtr_map [symmetric])
  have "(pt_meeting_latitude (f r) = None) = (pt_meeting_latitude r = None)"
    "(pt_meeting_longitude (f r) = None) = (pt_meeting_longitude r = None)"
    "pt_status (f r) = Published" "pt_capacity_rigs (f r) = pt_capacity_rigs r"
    by (simp_all add: fv stored_trip_def meetingFromColumns_def st)
  moreover have "pt_draft_visibility (f r) = None" using fv(9) dv by simp
  ultimately have "trips_checks (trips_set_updated_at pe now ?new)"
    using ch st fields unfolding trips_checks_def trips_set_updated_at_def
    by (auto simp: midnight_mono split: option.splits)
  moreover have "filter (\<lambda>x. pt_external_id x = pt_external_id r) (db_trips db) = [r]"
    using filter_unique [OF rsvps_okD(2) [OF pg_okD(2) [OF ok]], of "pt_external_id r"]
      find_unique [OF rsvps_okD(2) [OF pg_okD(2) [OF ok]] r refl] by simp
  ultimately have "\<not> isl (update_trip pe now (pt_external_id r) (\<lambda>r. (f r)\<lparr>pt_updated_at := pe_timestamp pe (t_updated_at ?t)\<rparr>) db)"
    using tr by (simp add: update_trip_def Let_def)
  moreover have "parsed pe (t_organizers ?t) = organizer_uuids db (pt_id r)"
    by (simp add: stored_trip_def parsed_strings [OF env] finite_organizers)
  moreover have "member_pk db v \<noteq> None" if "v \<in> organizer_uuids db (pt_id r)" for v
    using that by (auto simp: organizer_uuids_def)
  moreover have "artifacts_known pe (t_artifacts ?t)"
    using norm_loadArtifacts(2) [OF env ty] by (simp add: stored_trip_def)
  moreover have "pe_uuid_parse pe (t_creator ?t) = Inr (member_uuid db (pt_created_by r))"
    by (simp add: stored_trip_def pg_env_okD(1) [OF env])
  ultimately show ?thesis
    using f pg_okD(10) [OF ok r] by (simp add: save_accepted_def)
qed

lemma pg_trip_save_again:
  assumes env: "pg_env_ok pe" and ok: "pg_ok pe db" and ty: "pg_typed db"
    and r: "r \<in> set (db_trips db)" and st: "pt_status r = Published"
  obtains db' where "pg_trip_save pe (Some db) now ((stored_trip pe db r)\<lparr>t_attending_rigs := x, t_updated_at := y\<rparr>) = Inr db'"
    and "trips_abs pe db' = trip_put (trips_abs pe db) (pe_uuid_string pe (pt_external_id r))
      ((stored_trip pe db r)\<lparr>t_updated_at := pe_timestamp pe now\<rparr>)"
    and "pg_ok pe db'" and "rsvps_abs pe db' = rsvps_abs pe db" and "db_members db' = db_members db"
    and "\<exists>r' \<in> set (db_trips db'). pt_external_id r' = pt_external_id r \<and> pt_id r' = pt_id r \<and>
      pt_status r' = Published \<and> pt_capacity_rigs r' = pt_capacity_rigs r"
    and "db_rsvps db' = db_rsvps db"
proof -
  let ?t = "(stored_trip pe db r)\<lparr>t_attending_rigs := x, t_updated_at := y\<rparr>"
  have u: "pe_uuid_parse pe (t_id ?t) = Inr (pt_external_id r)"
    by (simp add: stored_trip_def pg_env_okD(1) [OF env])
  have "\<not> isl (pg_trip_save pe (Some db) now ?t)"
    using pg_trip_save_accepted [OF env ok u r refl] again_accepted [OF env ok ty r st] by simp
  then obtain db' where s: "pg_trip_save pe (Some db) now ?t = Inr db'"
    by (cases "pg_trip_save pe (Some db) now ?t") auto
  have free: "artifacts_free pe db (pt_external_id r) (t_artifacts ?t)"
    using loaded_free [OF env pg_okD(5) [OF ok]] by (simp add: stored_trip_def)
  have i: "canonical_id pe (t_id ?t) = pe_uuid_string pe (pt_external_id r)"
    by (simp add: stored_trip_def canonical_string [OF env])
  have lk: "trip_lookup (trips_abs pe db) (pe_uuid_string pe (pt_external_id r)) = Some (stored_trip pe db r)"
    using find_unique [OF rsvps_okD(2) [OF pg_okD(2) [OF ok]] r refl] by (simp add: trips_abs_lookup [OF env])
  have count: "rsvp_count_yes_by_trip (rsvps_abs pe db) (pe_uuid_string pe (pt_external_id r)) = yes_count db (pt_id r)"
    by (rule rsvps_abs_count [OF env pg_okD(2) [OF ok] r])
  have "trip_save (trips_abs pe db) ((stored_trip pe db r)\<lparr>t_updated_at := pe_timestamp pe now\<rparr>) = Inr (trips_abs pe db')"
    using pg_trip_save_sim [OF env ok s u free i [symmetric]] saved_again [OF env ok r st] by (simp add: lk count)
  then have abs: "trips_abs pe db' = trip_put (trips_abs pe db) (pe_uuid_string pe (pt_external_id r))
      ((stored_trip pe db r)\<lparr>t_updated_at := pe_timestamp pe now\<rparr>)"
    by (simp add: trip_save_put stored_trip_def split: if_splits)
  have ok': "pg_ok pe db'" by (rule pg_trip_save_pg_ok [OF env ok s])
  show ?thesis
    using s
  proof (rule pg_trip_save_cases [OF env ok])
    fix w old new f
    assume w: "pe_uuid_parse pe (t_id ?t) = Inr w" and f: "trip_values ?t = Inr f"
      and old: "old \<in> set (db_trips db)" "pt_external_id old = w"
      and rows: "db_trips db' = update_rows (\<lambda>r. pt_external_id r = w) (\<lambda>_. new) (db_trips db)"
      and key: "pt_id new = pt_id old" "pt_external_id new = w"
      and tr: "trips_enforce_transitions pe now db old
          ((f old)\<lparr>pt_updated_at := pe_timestamp pe (t_updated_at ?t)\<rparr>) =
        Inr (new\<lparr>pt_updated_at := pe_timestamp pe (t_updated_at ?t)\<rparr>)"
      and same: "db_rsvps db' = db_rsvps db" "db_members db' = db_members db"
    have wu: "w = pt_external_id r" using u w by simp
    have "old = r" using old r rsvps_okD(2) [OF pg_okD(2) [OF ok]] by (auto simp: wu distinct_map inj_on_def)
    note fields = saved_row_fields(3,7) [OF f tr]
    have new: "new \<in> set (db_trips db')" using old by (auto simp: rows set_update_rows)
    have "\<exists>r' \<in> set (db_trips db'). pt_external_id r' = pt_external_id r \<and> pt_id r' = pt_id r \<and>
      pt_status r' = Published \<and> pt_capacity_rigs r' = pt_capacity_rigs r"
      using new key fields \<open>old = r\<close> wu st by (intro bexI [of _ new]) (simp_all add: stored_trip_def)
    moreover have "trip_uuid db' (pr_trip_id q) = trip_uuid db (pr_trip_id q)" if q: "q \<in> set (db_rsvps db)" for q
    proof -
      note x = rsvp_row_refs(1,2) [OF pg_okD(2) [OF ok] q]
      let ?x = "trip_by_pk db (pr_trip_id q)"
      let ?y = "if pt_external_id ?x = w then new else ?x"
      have y: "?y \<in> set (db_trips db')" "pt_id ?y = pr_trip_id q" "pt_external_id ?y = pt_external_id ?x"
      proof -
        show "?y \<in> set (db_trips db')" unfolding rows set_update_rows using x(1) by (rule rev_image_eqI) simp
        have "?x = old" if "pt_external_id ?x = w"
          using that x(1) old rsvps_okD(2) [OF pg_okD(2) [OF ok]] by (auto simp: distinct_map inj_on_def)
        then show "pt_id ?y = pr_trip_id q" "pt_external_id ?y = pt_external_id ?x" using key x(2) by auto
      qed
      have "trip_by_pk db' (pr_trip_id q) = ?y" using trip_by_pk [OF pg_okD(2) [OF ok'] y(1)] y(2) by simp
      then show ?thesis using y(3) by (simp add: trip_uuid_def)
    qed
    then have "rsvps_abs pe db' = rsvps_abs pe db"
      by (simp add: rsvps_abs_def same stored_rsvp_def member_uuid_def member_by_pk_def)
    ultimately show ?thesis using that [OF s abs ok'] same by blast
  qed
qed

end
