(* ===== verification/PgRsvpRace.thy ===== *)
theory PgRsvpRace
  imports PgTyped RsvpRace
begin

text \<open>
  \<open>SetMyRSVP\<close> on the Postgres repositories, as the sequence of statements and transactions it is, for any
  number of requests at once. Where two requests on the in-memory repositories can overbook a trip
  (theory \<open>RsvpRace\<close>), the trigger of \<open>trip_rsvps\<close> counts again under the lock of the trip's row,
  and the last seat goes to one of them.
\<close>

section \<open>The method, one statement at a time\<close>

text \<open>
  Where a call of \<open>SetMyRSVP\<close> stands: before each of the four statements of \<open>GetByID\<close>, with the part
  of the trip it has, before each of its other repository calls, and answered.
\<close>

datatype pg_rsvp_pc =
    GetRow
  | GetOrganizers uuid trip
  | GetArtifacts uuid trip
  | GetAttendance uuid trip
  | Reading trip int
  | Counting trip int "rsvp option"
  | Saving trip
  | Upserting
  | Answered "goerror + my_rsvp"

text \<open>The trip is read: the checks follow.\<close>

definition pg_checked :: "rsvp_request \<Rightarrow> trip \<Rightarrow> pg_rsvp_pc" where
  "pg_checked rq t =
     (case rsvp_checks t (rq_caller rq) (rq_response rq) of
        Inl e \<Rightarrow> Answered (Inl e)
      | Inr cap \<Rightarrow> Reading t cap)"

definition pg_load_failed :: "goerror \<Rightarrow> pg_rsvp_pc" where
  "pg_load_failed e = Answered (Inl (if e = TripNotFound then trip_not_found else e))"

text \<open>\<open>now\<close> is the time of the step's transaction, if it has one.\<close>

fun pg_rsvp_step :: "pg_env \<Rightarrow> gotime \<Rightarrow> rsvp_request \<Rightarrow> pg_db \<Rightarrow> pg_rsvp_pc \<Rightarrow> pg_db \<times> pg_rsvp_pc" where
  "pg_rsvp_step pe now rq db GetRow =
     (db, case pe_uuid_parse pe (rq_trip rq) of
            Inl _ \<Rightarrow> pg_load_failed TripNotFound
          | Inr u \<Rightarrow> (case query_trip_row pe u db of
                        Inl e \<Rightarrow> pg_load_failed e
                      | Inr t \<Rightarrow> GetOrganizers u t))"
| "pg_rsvp_step pe now rq db (GetOrganizers u t) = (db, GetArtifacts u (with_organizers pe u db t))"
| "pg_rsvp_step pe now rq db (GetArtifacts u t) =
     (let t = with_artifacts pe u db t in
      (db, if t_status t = Published then GetAttendance u t else pg_checked rq t))"
| "pg_rsvp_step pe now rq db (GetAttendance u t) = (db, pg_checked rq (with_attendance u db t))"
| "pg_rsvp_step pe now rq db (Reading t cap) =
     (case pg_rsvp_get pe (Some db) (rq_trip rq) (rq_caller rq) of
        Inr ex \<Rightarrow> if rs_status ex = rq_response rq
                  then (db, Answered (Inr (my_rsvp_of (rq_trip rq) (rq_caller rq) ex)))
                  else (db, Counting t cap (Some ex))
      | Inl e \<Rightarrow> if e = RsvpNotFound then (db, Counting t cap None) else (db, Answered (Inl e)))"
| "pg_rsvp_step pe now rq db (Counting t cap existing) =
     (case pg_rsvp_count_yes_by_trip pe (Some db) (rq_trip rq) of
        Inl e \<Rightarrow> (db, Answered (Inl e))
      | Inr cur \<Rightarrow>
          (let n = new_attendance cur existing (rq_response rq) in
           if rq_response rq = Yes \<and> cap < n
           then (db, Answered (Inl (trips_conflict ''TRIP_AT_CAPACITY'' ''trip is at capacity'')))
           else (db, Saving (t\<lparr>t_attending_rigs := Some n, t_updated_at := rq_now1 rq\<rparr>))))"
| "pg_rsvp_step pe now rq db (Saving t) =
     (case pg_trip_save pe (Some db) now t of
        Inl e \<Rightarrow> (db, Answered (Inl e))
      | Inr db' \<Rightarrow> (db', Upserting))"
| "pg_rsvp_step pe now rq db Upserting =
     (let rec = \<lparr>rs_trip = rq_trip rq, rs_member = rq_caller rq, rs_status = rq_response rq,
                rs_updated_at = rq_now2 rq\<rparr> in
      case pg_rsvp_upsert pe (Some db) now rec of
        Inl e \<Rightarrow> (db, Answered (Inl e))
      | Inr db' \<Rightarrow> (db', Answered (Inr (my_rsvp_of (rq_trip rq) (rq_caller rq) rec))))"
| "pg_rsvp_step pe now rq db (Answered r) = (db, Answered r)"

text \<open>Any number of requests; an entry of the schedule is the next call of one of them.\<close>

fun pg_schedule ::
    "pg_env \<Rightarrow> rsvp_request list \<Rightarrow> (nat \<times> gotime) list \<Rightarrow> pg_db \<times> pg_rsvp_pc list \<Rightarrow> pg_db \<times> pg_rsvp_pc list" where
  "pg_schedule pe rqs [] s = s"
| "pg_schedule pe rqs ((i, now) # steps) s =
     (if i < length rqs
      then (case pg_rsvp_step pe now (rqs ! i) (fst s) (snd s ! i) of
              (db', pc') \<Rightarrow> pg_schedule pe rqs steps (db', (snd s)[i := pc']))
      else pg_schedule pe rqs steps s)"

lemma pg_schedule_length: "length (snd (pg_schedule pe rqs steps s)) = length (snd s)"
  by (induction pe rqs steps s rule: pg_schedule.induct) (auto split: prod.split)

section \<open>Seats\<close>

text \<open>The table holds a YES of this member for this trip.\<close>

definition yes_row :: "pg_db \<Rightarrow> uuid \<Rightarrow> uuid \<Rightarrow> bool" where
  "yes_row db u v \<longleftrightarrow>
     (\<exists>t \<in> set (db_trips db). \<exists>m \<in> set (db_members db). \<exists>r \<in> set (db_rsvps db).
        pt_external_id t = u \<and> pm_external_id m = v \<and> pr_trip_id r = pt_id t \<and>
        pr_member_id r = pm_id m \<and> pr_response r = Yes)"

lemma pg_rsvp_get_yes_row:
  assumes "pg_rsvp_get pe (Some db) i j = Inr rec" and "rs_status rec = Yes"
  shows "\<exists>u v. pe_uuid_parse pe i = Inr u \<and> pe_uuid_parse pe j = Inr v \<and> yes_row db u v"
proof -
  obtain u v where uv: "pe_uuid_parse pe i = Inr u" "pe_uuid_parse pe j = Inr v"
    using assms(1) by (auto simp: pg_rsvp_get_def split: sum.splits)
  let ?q = "filter (\<lambda>(r, t, m). pt_external_id t = u \<and> pm_external_id m = v) (rsvp_join db)"
  obtain r t m where q: "query_row ?q = Some (r, t, m)" and st: "pr_response r = Yes"
    using assms by (cases "query_row ?q") (auto simp: pg_rsvp_get_def uv split: prod.splits)
  from query_row_Some [OF q] st have "yes_row db u v"
    unfolding yes_row_def by (fastforce simp: rsvp_join_def split: if_splits)
  with uv show ?thesis by blast
qed

lemma yes_row_upsert:
  assumes ok: "rsvps_ok db" and ups: "pg_rsvp_upsert pe (Some db) now rec = Inr db'"
  shows "rs_status rec = Yes \<Longrightarrow> \<exists>u v. pe_uuid_parse pe (rs_trip rec) = Inr u \<and>
      pe_uuid_parse pe (rs_member rec) = Inr v \<and> yes_row db' u v"
    and "yes_row db u v \<Longrightarrow> pe_uuid_parse pe (rs_member rec) \<noteq> Inr v \<Longrightarrow> yes_row db' u v"
proof -
  obtain t m c where t: "t \<in> set (db_trips db)" "pe_uuid_parse pe (rs_trip rec) = Inr (pt_external_id t)"
    and m: "m \<in> set (db_members db)" "pe_uuid_parse pe (rs_member rec) = Inr (pm_external_id m)"
    and db': "db' = db\<lparr>db_rsvps := put_rsvp (rsvp_row pe now (pt_id t) (pm_id m) (rs_status rec)) (db_rsvps db)\<rparr>"
    using ups by (rule pg_rsvp_upsertE [OF ok])
  let ?row = "rsvp_row pe now (pt_id t) (pm_id m) (rs_status rec)"
  have rows: "set (db_rsvps db') = {x \<in> set (db_rsvps db). (pr_trip_id x, pr_member_id x) \<noteq> (pt_id t, pm_id m)} \<union> {?row}"
    by (simp add: db' upsert_row_set [OF rsvps_okD(5) [OF ok]] split: option.split)
  show "\<exists>u v. pe_uuid_parse pe (rs_trip rec) = Inr u \<and> pe_uuid_parse pe (rs_member rec) = Inr v \<and> yes_row db' u v"
    if "rs_status rec = Yes"
  proof (intro exI conjI)
    show "yes_row db' (pt_external_id t) (pm_external_id m)"
      unfolding yes_row_def
    proof (intro bexI conjI)
      show "?row \<in> set (db_rsvps db')" unfolding rows by blast
      show "t \<in> set (db_trips db')" "m \<in> set (db_members db')" using t m by (simp_all add: db')
    qed (simp_all add: that)
  qed (use t m in simp_all)
  show "yes_row db' u v" if y: "yes_row db u v" and ne: "pe_uuid_parse pe (rs_member rec) \<noteq> Inr v"
  proof -
    obtain t' m' r where x: "t' \<in> set (db_trips db)" "m' \<in> set (db_members db)" "r \<in> set (db_rsvps db)"
      "pt_external_id t' = u" "pm_external_id m' = v" "pr_trip_id r = pt_id t'" "pr_member_id r = pm_id m'"
      "pr_response r = Yes" using y by (auto simp: yes_row_def)
    have "pm_id m' \<noteq> pm_id m"
      using x(2,5) m ne rsvps_okD(3) [OF ok] by (auto simp: distinct_map inj_on_def)
    then have "r \<in> set (db_rsvps db')" unfolding rows using x by simp
    moreover have "db_trips db' = db_trips db" "db_members db' = db_members db" by (simp_all add: db')
    ultimately show ?thesis using x unfolding yes_row_def by metis
  qed
qed

lemma yes_row_save:
  assumes env: "pg_env_ok pe" and ok: "pg_ok pe db" and s: "pg_trip_save pe (Some db) now t = Inr db'"
    and y: "yes_row db u v"
  shows "yes_row db' u v"
  using s
proof (rule pg_trip_save_cases [OF env ok])
  fix w old new
  assume old: "old \<in> set (db_trips db)" "pt_external_id old = w"
    and rows: "db_trips db' = update_rows (\<lambda>r. pt_external_id r = w) (\<lambda>_. new) (db_trips db)"
    and key: "pt_id new = pt_id old" "pt_external_id new = w"
    and same: "db_rsvps db' = db_rsvps db" "db_members db' = db_members db"
  obtain t m r where x: "t \<in> set (db_trips db)" "m \<in> set (db_members db)" "r \<in> set (db_rsvps db)"
    "pt_external_id t = u" "pm_external_id m = v" "pr_trip_id r = pt_id t" "pr_member_id r = pm_id m"
    "pr_response r = Yes" using y by (auto simp: yes_row_def)
  have "\<exists>t' \<in> set (db_trips db'). pt_external_id t' = u \<and> pt_id t' = pt_id t"
  proof (cases "u = w")
    case True
    then have "t = old" using x(1,4) old rsvps_okD(2) [OF pg_okD(2) [OF ok]] by (auto simp: distinct_map inj_on_def)
    then show ?thesis using True key old by (intro bexI [of _ new]) (auto simp: rows set_update_rows)
  next
    case False
    then show ?thesis using x(1,4) by (intro bexI [of _ t]) (auto simp: rows set_update_rows image_iff)
  qed
  then show ?thesis using x unfolding yes_row_def same by metis
qed

text \<open>The rows of different members are different rows.\<close>

lemma yes_rows_count:
  assumes ok: "rsvps_ok db" and t: "t \<in> set (db_trips db)" and fin: "finite S" and inj: "inj_on v S"
    and yes: "\<And>i. i \<in> S \<Longrightarrow> yes_row db (pt_external_id t) (v i)"
  shows "int (card S) \<le> yes_count db (pt_id t)"
proof -
  let ?P = "\<lambda>r. pr_trip_id r = pt_id t \<and> pr_response r = Yes"
  have "\<exists>r. r \<in> set (db_rsvps db) \<and> ?P r \<and> member_uuid db (pr_member_id r) = v i" if i: "i \<in> S" for i
  proof -
    obtain t' m r where x: "t' \<in> set (db_trips db)" "m \<in> set (db_members db)" "r \<in> set (db_rsvps db)"
      "pt_external_id t' = pt_external_id t" "pm_external_id m = v i" "pr_trip_id r = pt_id t'"
      "pr_member_id r = pm_id m" "pr_response r = Yes" using yes [OF i] by (auto simp: yes_row_def)
    have "t' = t" using x(1,4) t rsvps_okD(2) [OF ok] by (auto simp: distinct_map inj_on_def)
    with x member_by_pk [OF ok x(2)] show ?thesis by (auto simp: member_uuid_def)
  qed
  then obtain r where r: "\<And>i. i \<in> S \<Longrightarrow> r i \<in> set (db_rsvps db) \<and> ?P (r i) \<and> member_uuid db (pr_member_id (r i)) = v i"
    by metis
  have "inj_on r S"
  proof (rule inj_onI)
    fix i j assume ij: "i \<in> S" "j \<in> S" "r i = r j"
    then have "v i = v j" using r by metis
    then show "i = j" using inj ij by (simp add: inj_on_def)
  qed
  then have "card S = card (r ` S)" by (simp add: card_image)
  also have "\<dots> \<le> card (set (filter ?P (db_rsvps db)))" using r by (intro card_mono) auto
  also have "\<dots> \<le> length (filter ?P (db_rsvps db))" by (rule card_length)
  finally show ?thesis by (simp add: yes_count_def)
qed

section \<open>Interleavings\<close>

lemma save_not_draft_forward:
  assumes env: "pg_env_ok pe" and ok: "pg_ok pe db" and st: "t_status t \<noteq> Draft"
  shows "\<not> unpublishes pe db (TripSave now t)"
proof (cases "pg_trip_save pe (Some db) now t")
  case (Inl e)
  have "x = y" if "x \<in> set (db_trips db)" "y \<in> set (db_trips db)" "pt_id x = pt_id y" for x y
    using rsvps_okD(1) [OF pg_okD(2) [OF ok]] that by (auto simp: distinct_map inj_on_def)
  then show ?thesis using Inl by (fastforce simp: unpublishes_def pg_exec_def)
next
  case (Inr db')
  then show ?thesis
  proof (rule pg_trip_save_cases [OF env ok])
    fix u old new f
    assume f: "trip_values t = Inr f" and ok': "pg_ok pe db'"
      and rows: "db_trips db' = update_rows (\<lambda>r. pt_external_id r = u) (\<lambda>_. new) (db_trips db)"
      and tr: "trips_enforce_transitions pe now db old
          ((f old)\<lparr>pt_updated_at := pe_timestamp pe (t_updated_at t)\<rparr>) =
        Inr (new\<lparr>pt_updated_at := pe_timestamp pe (t_updated_at t)\<rparr>)"
    have new: "pt_status new \<noteq> Draft" using saved_row_fields(3) [OF f tr] st by simp
    have "pt_status y \<noteq> Draft" if "x \<in> set (db_trips db)" "pt_status x = Published"
        "y \<in> set (db_trips db')" "pt_id y = pt_id x" for x y
    proof (cases "y = new")
      case False
      then have "y \<in> set (db_trips db)" using that(3) by (auto simp: rows set_update_rows split: if_splits)
      then have "y = x" using that rsvps_okD(1) [OF pg_okD(2) [OF ok]] by (auto simp: distinct_map inj_on_def)
      then show ?thesis using that(2) by simp
    qed (use new in simp)
    then show ?thesis using Inr by (auto simp: unpublishes_def pg_exec_def)
  qed
qed

lemma upsert_forward:
  assumes ok: "pg_ok pe db"
  shows "\<not> unpublishes pe db (RsvpUpsert now rec)"
proof -
  have "db_trips (pg_exec pe db (RsvpUpsert now rec)) = db_trips db"
  proof (cases "pg_rsvp_upsert pe (Some db) now rec")
    case (Inr db')
    then show ?thesis by (rule pg_rsvp_upsertE [OF pg_okD(2) [OF ok]]) (simp add: pg_exec_def Inr)
  qed (simp add: pg_exec_def)
  moreover have "x = y" if "x \<in> set (db_trips db)" "y \<in> set (db_trips db)" "pt_id x = pt_id y" for x y
    using rsvps_okD(1) [OF pg_okD(2) [OF ok]] that by (auto simp: distinct_map inj_on_def)
  ultimately show ?thesis by (fastforce simp: unpublishes_def)
qed

text \<open>Only the save of a draft moves a published trip back.\<close>

lemma only_draft_saves_unpublish:
  assumes env: "pg_env_ok pe" and ok: "pg_ok pe db" and u: "unpublishes pe db c"
  shows "\<exists>now t. c = TripSave now t \<and> t_status t = Draft"
proof -
  have same: "x = y" if "x \<in> set (db_trips db)" "y \<in> set (db_trips db)" "pt_id x = pt_id y" for x y
    using rsvps_okD(1) [OF pg_okD(2) [OF ok]] that by (auto simp: distinct_map inj_on_def)
  have unchanged: False if "db_trips (pg_exec pe db c) = db_trips db"
    using u same unfolding unpublishes_def that by fastforce
  have failed: False if "pg_apply pe db c = Inl e" for e
    by (rule unchanged) (simp add: pg_exec_def that)
  show ?thesis
  proof (cases "pg_apply pe db c")
    case (Inl e)
    then show ?thesis using failed by simp
  next
    case db': (Inr db')
    show ?thesis
    proof (cases c)
      case (MemberCreate issuer now m)
      then show ?thesis using unchanged db' pg_member_create_grow by (simp add: pg_exec_def members_grow_def)
    next
      case (MemberUpdate now m)
      then show ?thesis using unchanged db' pg_member_update_grow by (simp add: pg_exec_def members_grow_def)
    next
      case (TripCreate t)
      then have "pg_trip_create pe (Some db) t = Inr db'" using db' by simp
      then show ?thesis
      proof (rule pg_trip_create_rows [OF env ok])
        fix new assume "db_trips db' = db_trips db @ [new]" and k: "pt_id new = db_trip_seq db"
        then have "x \<in> set (db_trips db)" if "x \<in> set (db_trips (pg_exec pe db c))" "pt_id x = pt_id y"
          "y \<in> set (db_trips db)" for x y
          using that pg_okD(6) [OF ok, of y] by (auto simp: pg_exec_def db')
        then show ?thesis using u same by (fastforce simp: unpublishes_def)
      qed
    next
      case (TripSave now t)
      then show ?thesis using u save_not_draft_forward [OF env ok, of t now] by auto
    next
      case (RsvpUpsert now r)
      then show ?thesis using u upsert_forward [OF ok] by simp
    qed
  qed
qed

fun pc_published :: "pg_rsvp_pc \<Rightarrow> bool" where
  "pc_published (Reading t cap) = (t_status t = Published)"
| "pc_published (Counting t cap ex) = (t_status t = Published)"
| "pc_published (Saving t) = (t_status t = Published)"
| "pc_published _ = True"

lemma rsvp_checks_published: "rsvp_checks t c r = Inr cap \<Longrightarrow> t_status t = Published"
  by (auto simp: rsvp_checks_def split: if_splits)

lemma pg_checked_published [simp]: "pc_published (pg_checked rq t)" "pc_published (pg_load_failed e)"
  by (simp_all add: pg_checked_def pg_load_failed_def rsvp_checks_published split: sum.split)

lemma pg_rsvp_step_published: "pc_published pc \<Longrightarrow> pc_published (snd (pg_rsvp_step pe now rq db pc))"
  by (cases pc) (auto simp: Let_def rsvp_checks_published split: sum.split)

text \<open>One step is a call that moves no trip back, or changes nothing.\<close>

lemma pg_rsvp_step_forward:
  assumes env: "pg_env_ok pe" and fw: "pg_forward pe db" and pub: "pc_published pc"
  shows "pg_forward pe (fst (pg_rsvp_step pe now rq db pc))"
proof -
  have ok: "pg_ok pe db" by (rule pg_reachable_ok [OF pg_forward_reachable [OF fw] env])
  show ?thesis
  proof (cases pc)
    case (Saving t)
    then have "pg_forward pe (pg_exec pe db (TripSave now t))"
      using pub by (intro pg_forward.step [OF fw] save_not_draft_forward [OF env ok]) simp
    then show ?thesis by (simp add: Saving pg_exec_def split: sum.splits)
  next
    case Upserting
    have "pg_forward pe (pg_exec pe db (RsvpUpsert now \<lparr>rs_trip = rq_trip rq, rs_member = rq_caller rq,
        rs_status = rq_response rq, rs_updated_at = rq_now2 rq\<rparr>))"
      by (rule pg_forward.step [OF fw upsert_forward [OF ok]])
    then show ?thesis by (simp add: Upserting pg_exec_def Let_def split: sum.splits)
  qed (use fw in \<open>auto simp: Let_def split: sum.split\<close>)
qed

text \<open>The caller has been told that the answer YES is stored.\<close>

fun pg_told_yes :: "pg_rsvp_pc \<Rightarrow> bool" where
  "pg_told_yes (Answered (Inr m)) = (my_response m = Yes)"
| "pg_told_yes _ = False"

lemma pg_checked_not_told [simp]: "\<not> pg_told_yes (pg_checked rq t)" "\<not> pg_told_yes (pg_load_failed e)"
  by (simp_all add: pg_checked_def pg_load_failed_def split: sum.split)

definition rq_yes :: "pg_env \<Rightarrow> pg_db \<Rightarrow> rsvp_request \<Rightarrow> bool" where
  "rq_yes pe db rq \<longleftrightarrow> (\<exists>u v. pe_uuid_parse pe (rq_trip rq) = Inr u \<and>
     pe_uuid_parse pe (rq_caller rq) = Inr v \<and> yes_row db u v)"

lemma my_rsvp_of_response [simp]: "my_response (my_rsvp_of i c r) = rs_status r"
  by (simp add: my_rsvp_of_def)

lemma told_yes_row:
  assumes env: "pg_env_ok pe" and ok: "pg_ok pe db" and told: "pg_told_yes pc \<longrightarrow> rq_yes pe db rq"
    and step: "pg_rsvp_step pe now rq db pc = (db', pc')" and yes: "pg_told_yes pc'"
  shows "rq_yes pe db' rq"
proof (cases pc)
  case (Reading t cap)
  then obtain ex where "pg_rsvp_get pe (Some db) (rq_trip rq) (rq_caller rq) = Inr ex" "rs_status ex = Yes" "db' = db"
    using step yes by (auto split: sum.splits if_splits)
  then show ?thesis using pg_rsvp_get_yes_row by (simp add: rq_yes_def)
next
  case Upserting
  then have "pg_rsvp_upsert pe (Some db) now \<lparr>rs_trip = rq_trip rq, rs_member = rq_caller rq,
      rs_status = rq_response rq, rs_updated_at = rq_now2 rq\<rparr> = Inr db'" "rq_response rq = Yes"
    using step yes by (auto simp: Let_def split: sum.splits)
  from yes_row_upsert(1) [OF pg_okD(2) [OF ok] this(1)] this(2) show ?thesis by (simp add: rq_yes_def)
next
  case (Answered r)
  then show ?thesis using step yes told by simp
qed (use step yes in \<open>auto simp: Let_def split: sum.splits if_splits\<close>)

lemma other_keeps_yes:
  assumes env: "pg_env_ok pe" and ok: "pg_ok pe db" and yes: "rq_yes pe db rq"
    and ne: "pe_uuid_parse pe (rq_caller rq') \<noteq> pe_uuid_parse pe (rq_caller rq)"
    and step: "pg_rsvp_step pe now rq' db pc = (db', pc')"
  shows "rq_yes pe db' rq"
proof -
  obtain u v where uv: "pe_uuid_parse pe (rq_trip rq) = Inr u" "pe_uuid_parse pe (rq_caller rq) = Inr v"
    and y: "yes_row db u v" using yes by (auto simp: rq_yes_def)
  have "yes_row db' u v"
  proof (cases pc)
    case (Saving t)
    with step y show ?thesis using yes_row_save [OF env ok _ y] by (auto split: sum.splits)
  next
    case Upserting
    with step y ne uv show ?thesis
      using yes_row_upsert(2) [OF pg_okD(2) [OF ok] _ y] by (auto simp: Let_def split: sum.splits)
  qed (use step y in \<open>auto simp: Let_def split: sum.splits if_splits\<close>)
  with uv show ?thesis by (simp add: rq_yes_def)
qed

definition race_inv :: "pg_env \<Rightarrow> rsvp_request list \<Rightarrow> pg_db \<times> pg_rsvp_pc list \<Rightarrow> bool" where
  "race_inv pe rqs s \<longleftrightarrow> pg_forward pe (fst s) \<and> length (snd s) = length rqs \<and>
     (\<forall>i < length rqs. pc_published (snd s ! i) \<and> (pg_told_yes (snd s ! i) \<longrightarrow> rq_yes pe (fst s) (rqs ! i)))"

lemma race_step:
  assumes env: "pg_env_ok pe" and dist: "distinct (map (\<lambda>rq. pe_uuid_parse pe (rq_caller rq)) rqs)"
    and inv: "race_inv pe rqs (db, pcs)" and i: "i < length rqs"
    and step: "pg_rsvp_step pe now (rqs ! i) db (pcs ! i) = (db', pc')"
  shows "race_inv pe rqs (db', pcs[i := pc'])"
proof -
  have fw: "pg_forward pe db" and len: "length pcs = length rqs"
    and each: "\<And>j. j < length rqs \<Longrightarrow> pc_published (pcs ! j) \<and> (pg_told_yes (pcs ! j) \<longrightarrow> rq_yes pe db (rqs ! j))"
    using inv by (auto simp: race_inv_def)
  have ok: "pg_ok pe db" by (rule pg_reachable_ok [OF pg_forward_reachable [OF fw] env])
  have "pg_forward pe db'"
    using pg_rsvp_step_forward [OF env fw, of "pcs ! i" now "rqs ! i"] each [OF i] step by simp
  moreover have "pc_published (pcs[i := pc'] ! j) \<and> (pg_told_yes (pcs[i := pc'] ! j) \<longrightarrow> rq_yes pe db' (rqs ! j))"
    if j: "j < length rqs" for j
  proof (cases "j = i")
    case True
    then show ?thesis
      using pg_rsvp_step_published [of "pcs ! i" pe now "rqs ! i" db] told_yes_row [OF env ok _ step] each [OF i] step len j
      by simp
  next
    case False
    then have "pe_uuid_parse pe (rq_caller (rqs ! i)) \<noteq> pe_uuid_parse pe (rq_caller (rqs ! j))"
      using dist i j by (auto simp: distinct_conv_nth)
    then show ?thesis using each [OF j] other_keeps_yes [OF env ok _ _ step] False by simp
  qed
  ultimately show ?thesis using len by (simp add: race_inv_def)
qed

lemma race_schedule:
  assumes env: "pg_env_ok pe" and dist: "distinct (map (\<lambda>rq. pe_uuid_parse pe (rq_caller rq)) rqs)"
  shows "race_inv pe rqs (db, pcs) \<Longrightarrow> race_inv pe rqs (pg_schedule pe rqs steps (db, pcs))"
proof (induction steps arbitrary: db pcs)
  case (Cons s steps)
  obtain i now where s: "s = (i, now)" by (cases s)
  show ?case
  proof (cases "i < length rqs")
    case True
    obtain db' pc' where st: "pg_rsvp_step pe now (rqs ! i) db (pcs ! i) = (db', pc')" by fastforce
    show ?thesis using Cons.IH [OF race_step [OF env dist Cons.prems True st]] True st by (simp add: s)
  next
    case False
    then show ?thesis using Cons by (simp add: s)
  qed
qed simp

lemma race_start: "pg_forward pe db \<Longrightarrow> race_inv pe rqs (db, replicate (length rqs) GetRow)"
  by (simp add: race_inv_def)

text \<open>Whoever has been told YES has a seat, and there are no more seats than the capacity.\<close>

lemma race_seats:
  assumes env: "pg_env_ok pe" and dist: "distinct (map (\<lambda>rq. pe_uuid_parse pe (rq_caller rq)) rqs)"
    and inv: "race_inv pe rqs (db, pcs)"
    and t: "t \<in> set (db_trips db)" "pt_status t = Published" "pt_capacity_rigs t = Some c"
  shows "int (card {i. i < length rqs \<and> pg_told_yes (pcs ! i) \<and>
    pe_uuid_parse pe (rq_trip (rqs ! i)) = Inr (pt_external_id t)}) \<le> c"
proof -
  let ?S = "{i. i < length rqs \<and> pg_told_yes (pcs ! i) \<and> pe_uuid_parse pe (rq_trip (rqs ! i)) = Inr (pt_external_id t)}"
  let ?v = "\<lambda>i. projr (pe_uuid_parse pe (rq_caller (rqs ! i)))"
  have fw: "pg_forward pe db" using inv by (simp add: race_inv_def)
  have ok: "pg_ok pe db" by (rule pg_reachable_ok [OF pg_forward_reachable [OF fw] env])
  have yes: "rq_yes pe db (rqs ! i)" if "i \<in> ?S" for i using inv that by (auto simp: race_inv_def)
  have "inj_on ?v ?S"
  proof (rule inj_onI)
    fix i j assume ij: "i \<in> ?S" "j \<in> ?S" "?v i = ?v j"
    then have "pe_uuid_parse pe (rq_caller (rqs ! i)) = pe_uuid_parse pe (rq_caller (rqs ! j))"
      using yes [OF ij(1)] yes [OF ij(2)] by (auto simp: rq_yes_def)
    then show "i = j" using dist ij(1,2) by (auto simp: distinct_conv_nth)
  qed
  moreover have "yes_row db (pt_external_id t) (?v i)" if "i \<in> ?S" for i
    using yes [OF that] that by (auto simp: rq_yes_def)
  ultimately have "int (card ?S) \<le> yes_count db (pt_id t)"
    by (intro yes_rows_count [OF pg_okD(2) [OF ok] t(1)]) auto
  also have "\<dots> \<le> c"
    using pg_forward_attendance [OF env fw] t by (auto simp: pg_not_overbooked_def)
  finally show ?thesis .
qed

end
