(* ===== verification/PgRsvpService.thy ===== *)
theory PgRsvpService
  imports PgTripSave PgRsvpRace TripsRsvp
begin

text \<open>
  \<open>SetMyRSVP\<close> over Postgres, run alone, is \<open>SetMyRSVP\<close> over the in-memory repositories read off
  the tables: the same answer and, with the database's clock where the service's is, the same
  trips and RSVPs afterwards.
\<close>

section \<open>What an upsert does to the trips\<close>

lemma count_other_trip:
  assumes wf: "wf_rsvp_repo rv" and ne: "rs_trip v \<noteq> i"
  shows "rsvp_count_yes_by_trip (rsvp_upsert rv v) i = rsvp_count_yes_by_trip rv i"
proof -
  have "\<not> yes_on i v" using ne by (simp add: yes_on_def)
  moreover have "\<not> yes_on i u" if "rsvp_lookup rv (rs_trip v, rs_member v) = Some u" for u
    using rsvp_lookup_key [OF wf that] ne by (simp add: yes_on_def)
  ultimately show ?thesis using count_yes_upsert [OF wf, of v i] by (simp split: option.split)
qed

lemma pg_rsvp_upsert_trips:
  assumes env: "pg_env_ok pe" and ok: "pg_ok pe db" and ups: "pg_rsvp_upsert pe (Some db) now rec = Inr db'"
    and i: "i = canonical_id pe (rs_trip rec)"
  shows "\<exists>t. trip_lookup (trips_abs pe db) i = Some t \<and> trips_abs pe db' =
    trip_put (trips_abs pe db) i (t\<lparr>t_attending_rigs := Some (rsvp_count_yes_by_trip (rsvps_abs pe db') i)\<rparr>)"
proof -
  note okr = pg_okD(2) [OF ok]
  obtain t c and m :: pg_member where t: "t \<in> set (db_trips db)" "pe_uuid_parse pe (rs_trip rec) = Inr (pt_external_id t)"
    and st: "pt_status t = Published"
    and db': "db' = db\<lparr>db_rsvps := put_rsvp (rsvp_row pe now (pt_id t) (pm_id m) (rs_status rec)) (db_rsvps db)\<rparr>"
    using ups by (rule pg_rsvp_upsertE [OF okr])
  have trips': "db_trips db' = db_trips db" by (simp add: db')
  have ok': "pg_ok pe db'" by (rule pg_rsvp_upsert_pg_ok [OF ok ups])
  have i': "i = pe_uuid_string pe (pt_external_id t)" using i t(2) by (simp add: canonical_id_def)
  have lk: "trip_lookup (trips_abs pe db) i = Some (stored_trip pe db t)"
    using find_unique [OF rsvps_okD(2) [OF okr] t(1) refl] by (simp add: i' trips_abs_lookup [OF env])
  have upd: "rsvps_abs pe db' = rsvp_upsert (rsvps_abs pe db) (norm_rsvp pe now rec)"
    by (rule pg_rsvp_upsert_sim [OF env okr ups])
  have key: "rs_trip (norm_rsvp pe now rec) = i" by (simp add: norm_rsvp_def i)
  have stored: "stored_trip pe db' x = (stored_trip pe db x)
      \<lparr>t_attending_rigs := if pt_status x = Published then Some (yes_count db' (pt_id x)) else None\<rparr>" for x
    by (simp add: db' stored_trip_def member_uuid_def member_by_pk_def loadArtifacts_def trip_pk_def)
  have mine: "stored_trip pe db' t = (stored_trip pe db t)\<lparr>t_attending_rigs :=
      Some (rsvp_count_yes_by_trip (rsvps_abs pe db') i)\<rparr>"
    using rsvps_abs_count [OF env pg_okD(2) [OF ok'], of t] t(1) by (simp add: stored st i' trips')
  have other: "stored_trip pe db' x = stored_trip pe db x"
    if x: "x \<in> set (db_trips db)" "pt_external_id x \<noteq> pt_external_id t" for x
  proof -
    have "yes_count db' (pt_id x) = yes_count db (pt_id x)"
      using rsvps_abs_count [OF env pg_okD(2) [OF ok'], of x] rsvps_abs_count [OF env okr x(1)]
        count_other_trip [OF rsvps_abs_wf [OF env okr], of "norm_rsvp pe now rec" "pe_uuid_string pe (pt_external_id x)"]
        x by (simp add: upd key trips' i' uuid_string_eq_iff [OF env])
    then show ?thesis by (simp add: stored) (simp add: stored_trip_def)
  qed
  let ?key = "\<lambda>r. pe_uuid_string pe (pt_external_id r)"
  have "distinct (map ?key (db_trips db))"
    using rsvps_okD(2) [OF okr] by (simp add: distinct_map inj_on_def uuid_string_eq_iff [OF env])
  moreover have "i \<in> ?key ` set (db_trips db)" using t(1) i' by auto
  ultimately have "AList.update i (stored_trip pe db' t) (map (\<lambda>r. (?key r, stored_trip pe db r)) (db_trips db)) =
      map (\<lambda>r. (?key r, if ?key r = i then stored_trip pe db' t else stored_trip pe db r)) (db_trips db)"
    by (rule alist_update_map)
  moreover have "stored_trip pe db' x = (if ?key x = i then stored_trip pe db' t else stored_trip pe db x)"
    if "x \<in> set (db_trips db)" for x
  proof (cases "pt_external_id x = pt_external_id t")
    case True
    then have "x = t" using that t(1) rsvps_okD(2) [OF okr] by (auto simp: distinct_map inj_on_def)
    then show ?thesis by (simp add: i')
  next
    case False
    then show ?thesis using other [OF that] by (simp add: i' uuid_string_eq_iff [OF env])
  qed
  ultimately have "trips_abs pe db' = trip_put (trips_abs pe db) i (stored_trip pe db' t)"
    by (simp add: trips_abs_def trip_put_def trips' cong: map_cong)
  with lk mine show ?thesis by auto
qed

section \<open>The method alone\<close>

fun pg_alone :: "pg_env \<Rightarrow> gotime list \<Rightarrow> rsvp_request \<Rightarrow> pg_db \<times> pg_rsvp_pc \<Rightarrow> pg_db \<times> pg_rsvp_pc" where
  "pg_alone pe [] rq s = s"
| "pg_alone pe (now # nows) rq s = pg_alone pe nows rq (pg_rsvp_step pe now rq (fst s) (snd s))"

lemma pg_alone_answered [simp]: "pg_alone pe nows rq (db, Answered r) = (db, Answered r)"
  by (induction nows) simp_all

lemma pg_checked_unpublished: "t_status t \<noteq> Published \<Longrightarrow> \<exists>r. pg_checked rq t = Answered r"
  using rsvp_checks_published [of t "rq_caller rq" "rq_response rq"]
  by (auto simp: pg_checked_def split: sum.split)

text \<open>Its first four statements alone are \<open>GetByID\<close>.\<close>

lemma pg_alone_load:
  "pg_alone pe (n1 # n2 # n3 # n4 # nows) rq (db, GetRow) =
     (case pg_trip_get pe (Some db) (rq_trip rq) of
        Inl e \<Rightarrow> (db, pg_load_failed e)
      | Inr t \<Rightarrow> pg_alone pe nows rq (db, pg_checked rq t))"
proof (cases "pe_uuid_parse pe (rq_trip rq)")
  case (Inl e)
  then show ?thesis by (simp add: pg_trip_get_def pg_trip_read_def pg_load_failed_def)
next
  case u: (Inr u)
  show ?thesis
  proof (cases "query_trip_row pe u db")
    case (Inl e)
    then show ?thesis by (simp add: pg_trip_get_def pg_trip_read_def u pg_load_failed_def)
  next
    case (Inr t)
    let ?t = "with_artifacts pe u db (with_organizers pe u db t)"
    have get: "pg_trip_get pe (Some db) (rq_trip rq) = Inr (with_attendance u db ?t)"
      by (simp add: pg_trip_get_def pg_trip_read_def u Inr)
    show ?thesis
    proof (cases "t_status ?t = Published")
      case True
      then show ?thesis by (simp add: get u Inr Let_def)
    next
      case False
      then obtain r where "pg_checked rq ?t = Answered r" using pg_checked_unpublished by blast
      moreover have "with_attendance u db ?t = ?t" using False by (simp add: with_attendance_def)
      ultimately show ?thesis using False by (simp add: get u Inr Let_def)
    qed
  qed
qed

text \<open>An upsert is accepted when the trip is published, has room for a new YES, and the caller is a
  member.\<close>

lemma upsert_accepted:
  assumes env: "pg_env_ok pe" and ok: "rsvps_ok db"
    and t: "t \<in> set (db_trips db)" "pe_uuid_parse pe (rs_trip rec) = Inr (pt_external_id t)"
    and m: "pe_uuid_parse pe (rs_member rec) = Inr v" "member_pk db v \<noteq> None"
    and st: "pt_status t = Published" "pt_capacity_rigs t = Some c" "1 \<le> c"
    and r: "rs_status rec \<in> {Yes, No, Unset}" "rs_status rec = Yes \<longrightarrow> yes_count db (pt_id t) < c"
  shows "\<exists>db'. pg_rsvp_upsert pe (Some db) now rec = Inr db'"
proof -
  obtain k where "member_pk db v = Some k" using m(2) by blast
  then obtain mm where mm: "mm \<in> set (db_members db)" "pm_external_id mm = v" using member_pk_Some by blast
  have known: "\<forall>s. rs_status rec \<noteq> OtherResponse s" using r(1) by auto
  have "upsert_rsvp pe now (pt_external_id t) v (rs_status rec) db =
      Inr (db\<lparr>db_rsvps := put_rsvp (rsvp_row pe now (pt_id t) (pm_id mm) (rs_status rec)) (db_rsvps db)\<rparr>)"
    unfolding upsert_rsvp_Inr [OF ok]
    by (intro exI conjI) (rule t(1) mm st known r refl)+
  then show ?thesis using t(2) m(1) by (auto simp: pg_rsvp_upsert_def on_error_def)
qed

lemma pg_alone_is_SetMyRSVP:
  assumes env: "pg_env_ok pe" and ok: "pg_ok pe db" and ty: "pg_typed db"
    and can: "canonical_id pe (rq_trip rq) = rq_trip rq" "canonical_id pe (rq_caller rq) = rq_caller rq"
    and m: "pe_uuid_parse pe (rq_caller rq) = Inr v" "member_pk db v \<noteq> None"
    and clock: "pe_timestamp pe n7 = rq_now1 rq" "pe_timestamp pe n8 = rq_now2 rq"
    and w: "w_trips w = trips_abs pe db" "w_rsvps w = rsvps_abs pe db"
    and res: "SetMyRSVP w (rq_caller rq) (rq_trip rq) (rq_response rq) (rq_now1 rq) (rq_now2 rq) = (ans, w')"
  shows "\<exists>db'. pg_alone pe [n1, n2, n3, n4, n5, n6, n7, n8] rq (db, GetRow) = (db', Answered ans) \<and>
    w_trips w' = trips_abs pe db' \<and> w_rsvps w' = rsvps_abs pe db'"
proof -
  let ?i = "rq_trip rq" and ?c = "rq_caller rq" and ?resp = "rq_response rq"
  note okr = pg_okD(2) [OF ok]
  have get: "pg_trip_get pe (Some db) ?i = trip_get (w_trips w) ?i"
    using pg_trip_get_abs [OF env ok, of ?i] can by (simp add: w)
  have rget: "pg_rsvp_get pe (Some db) ?i ?c = rsvp_get (w_rsvps w) ?i ?c"
    using pg_rsvp_get_abs [OF env okr can] by (simp add: w)
  have cnt: "pg_rsvp_count_yes_by_trip pe (Some db) ?i = Inr (rsvp_count_yes_by_trip (w_rsvps w) ?i)"
    using pg_rsvp_count_abs [OF env okr can(1)] by (simp add: w)
  have load: "pg_alone pe [n1, n2, n3, n4, n5, n6, n7, n8] rq (db, GetRow) =
     (case trip_get (w_trips w) ?i of Inl e \<Rightarrow> (db, pg_load_failed e)
      | Inr t \<Rightarrow> pg_alone pe [n5, n6, n7, n8] rq (db, pg_checked rq t))"
    by (simp only: pg_alone_load get)
  show ?thesis
  proof (cases "trip_get (w_trips w) ?i")
    case (Inl e)
    have "pg_trip_get pe (Some db) ?i = Inl e" "load_trip w ?i = Inl (if e = TripNotFound then trip_not_found else e)"
      by (simp_all only: get load_trip_def Inl sum.case) simp
    then show ?thesis using res w unfolding load Inl by (auto simp: SetMyRSVP_def pg_load_failed_def)
  next
    case t: (Inr t)
    have t': "pg_trip_get pe (Some db) ?i = Inr t" "load_trip w ?i = Inr t"
      by (simp_all only: get load_trip_def t sum.case)
    show ?thesis
    proof (cases "rsvp_checks t ?c ?resp")
      case (Inl e)
      then show ?thesis using res w unfolding load t by (auto simp: t' SetMyRSVP_def pg_checked_def)
    next
      case cap: (Inr cap)
      note ch = cap [unfolded rsvp_checks_Inr]
      define ex where "ex = rsvp_lookup (w_rsvps w) (?i, ?c)"
      have rg: "rsvp_get (w_rsvps w) ?i ?c = (case ex of None \<Rightarrow> Inl RsvpNotFound | Some x \<Rightarrow> Inr x)"
        by (simp add: ex_def rsvp_get_cases)
      show ?thesis
      proof (cases "case ex of Some x \<Rightarrow> rs_status x = ?resp | None \<Rightarrow> False")
        case True
        then obtain x where "ex = Some x" "rs_status x = ?resp" by (cases ex) auto
        then have "SetMyRSVP w ?c ?i ?resp (rq_now1 rq) (rq_now2 rq) = (Inr (my_rsvp_of ?i ?c x), w)"
          "pg_alone pe [n1, n2, n3, n4, n5, n6, n7, n8] rq (db, GetRow) = (db, Answered (Inr (my_rsvp_of ?i ?c x)))"
          using cap unfolding load t by (simp_all add: t' rget rg SetMyRSVP_def pg_checked_def)
        then show ?thesis using res w by auto
      next
        case same: False
        let ?cur = "rsvp_count_yes_by_trip (w_rsvps w) ?i"
        let ?n = "new_attendance ?cur ex ?resp"
        have mem: "SetMyRSVP w ?c ?i ?resp (rq_now1 rq) (rq_now2 rq) =
          (if ?resp = Yes \<and> cap < ?n
           then (Inl (trips_conflict ''TRIP_AT_CAPACITY'' ''trip is at capacity''), w)
           else guarded w (trip_save (w_trips w) (t\<lparr>t_attending_rigs := Some ?n, t_updated_at := rq_now1 rq\<rparr>))
             (\<lambda>ts. let rec = \<lparr>rs_trip = ?i, rs_member = ?c, rs_status = ?resp, rs_updated_at = rq_now2 rq\<rparr> in
               (Inr (my_rsvp_of ?i ?c rec), w\<lparr>w_trips := ts, w_rsvps := rsvp_upsert (w_rsvps w) rec\<rparr>)))"
          using cap same by (auto simp: SetMyRSVP_def t' rg Let_def split: option.splits)
        have steps: "pg_alone pe [n1, n2, n3, n4, n5, n6, n7, n8] rq (db, GetRow) =
          (if ?resp = Yes \<and> cap < ?n
           then (db, Answered (Inl (trips_conflict ''TRIP_AT_CAPACITY'' ''trip is at capacity'')))
           else pg_alone pe [n7, n8] rq (db, Saving (t\<lparr>t_attending_rigs := Some ?n, t_updated_at := rq_now1 rq\<rparr>)))"
          using cap same unfolding load t by (auto simp: t' rget rg cnt Let_def pg_checked_def split: option.splits)
        show ?thesis
        proof (cases "?resp = Yes \<and> cap < ?n")
          case True
          then show ?thesis using res w unfolding mem steps by auto
        next
          case room: False
          obtain r where r: "r \<in> set (db_trips db)" "t = stored_trip pe db r" and i: "?i = pe_uuid_string pe (pt_external_id r)"
          proof -
            have "map_of (tr_by_id (trips_abs pe db)) ?i = Some t" using t by (simp add: w trip_lookup_def)
            from map_of_SomeD [OF this] that show thesis by (auto simp: trips_abs_def)
          qed
          have st: "pt_status r = Published" "pt_capacity_rigs r = Some cap" using ch r(2) by (simp_all add: stored_trip_def)
          obtain db1 where s: "pg_trip_save pe (Some db) n7 (t\<lparr>t_attending_rigs := Some ?n, t_updated_at := rq_now1 rq\<rparr>) = Inr db1"
            and tr1: "trips_abs pe db1 = trip_put (trips_abs pe db) ?i (t\<lparr>t_updated_at := rq_now1 rq\<rparr>)"
            and ok1: "pg_ok pe db1" and rs1: "rsvps_abs pe db1 = rsvps_abs pe db" "db_members db1 = db_members db"
            and r1: "\<exists>r' \<in> set (db_trips db1). pt_external_id r' = pt_external_id r \<and> pt_id r' = pt_id r \<and>
              pt_status r' = Published \<and> pt_capacity_rigs r' = Some cap"
            and rr: "db_rsvps db1 = db_rsvps db"
            by (rule pg_trip_save_again [OF env ok ty r(1) st(1), where now = n7 and x = "Some ?n" and y = "rq_now1 rq"])
               (auto simp: r(2) i clock(1) st)
          let ?rec = "\<lparr>rs_trip = ?i, rs_member = ?c, rs_status = ?resp, rs_updated_at = rq_now2 rq\<rparr>"
          obtain r' where r': "r' \<in> set (db_trips db1)" "pt_external_id r' = pt_external_id r" "pt_id r' = pt_id r"
            "pt_status r' = Published" "pt_capacity_rigs r' = Some cap" using r1 by blast
          have "?cur = yes_count db (pt_id r)" using rsvps_abs_count [OF env okr r(1)] by (simp add: w i)
          then have "?resp = Yes \<longrightarrow> yes_count db1 (pt_id r') < cap"
            using room same by (auto simp: yes_count_cong [OF rr] r'(3) new_attendance_def rsvp_delta_def Let_def
                split: option.splits if_splits)
          then obtain db2 where u: "pg_rsvp_upsert pe (Some db1) n8 ?rec = Inr db2"
            using upsert_accepted [OF env pg_okD(2) [OF ok1] r'(1), of ?rec v cap n8] m ch r'
            by (auto simp: i pg_env_okD(1) [OF env] member_pk_def rs1(2))
          have norm: "norm_rsvp pe n8 ?rec = ?rec" by (simp add: norm_rsvp_def can clock(2))
          have rs2: "rsvps_abs pe db2 = rsvp_upsert (w_rsvps w) ?rec"
            using pg_rsvp_upsert_sim [OF env pg_okD(2) [OF ok1] u] by (simp add: norm rs1 w)
          have "?n = rsvp_count_yes_by_trip (rsvps_abs pe db2) ?i"
            using new_attendance_count [OF rsvps_abs_wf [OF env okr], of ?i ?c ?resp "rq_now2 rq"]
            by (simp add: rs2 w ex_def rsvp_record_def)
          moreover have swap: "t\<lparr>t_updated_at := a, t_attending_rigs := b\<rparr> = t\<lparr>t_attending_rigs := b, t_updated_at := a\<rparr>" for a b
            by (cases t) simp
          ultimately have tr2: "trips_abs pe db2 = trip_put (trips_abs pe db) ?i (t\<lparr>t_attending_rigs := Some ?n, t_updated_at := rq_now1 rq\<rparr>)"
            using pg_rsvp_upsert_trips [OF env ok1 u, of ?i] can(1)
            by (auto simp: tr1 trip_put_def trip_lookup_def swap)
          have "t_id t = ?i" "?i \<noteq> ''''" using r(2) pg_env_okD(2) [OF env] by (simp_all add: stored_trip_def i)
          then have sv: "trip_save (w_trips w) (t\<lparr>t_attending_rigs := Some ?n, t_updated_at := rq_now1 rq\<rparr>) =
              Inr (trips_abs pe db2)" by (simp add: trip_save_put tr2 w)
          have "pg_alone pe [n1, n2, n3, n4, n5, n6, n7, n8] rq (db, GetRow) = (db2, Answered (Inr (my_rsvp_of ?i ?c ?rec)))"
            using s u room unfolding steps by (simp add: Let_def)
          moreover have "ans = Inr (my_rsvp_of ?i ?c ?rec)" "w' = w\<lparr>w_trips := trips_abs pe db2, w_rsvps := rsvp_upsert (w_rsvps w) ?rec\<rparr>"
            using res room unfolding mem sv by (auto simp: Let_def)
          ultimately show ?thesis using rs2 by auto
        qed
      qed
    qed
  qed
qed

end
