(* ===== verification/PgScenario.thy ===== *)
theory PgScenario
  imports PgSafety "HOL-Library.Code_Target_Nat"
begin

text \<open>
  A concrete environment for the Postgres adapters, in which the facts about arbitrary databases
  are applied: UUIDs written as 32 hexadecimal digits, times of nanoseconds cut to microseconds,
  lower case as collation, and the first violated constraint reported.
\<close>

section \<open>Hexadecimal digits\<close>

definition hex_digits :: gostring where
  "hex_digits = ''0123456789abcdef''"

fun hex_of :: "nat \<Rightarrow> nat \<Rightarrow> gostring" where
  "hex_of 0 n = ''''"
| "hex_of (Suc k) n = hex_of k (n div 16) @ [hex_digits ! (n mod 16)]"

fun digit_value :: "gostring \<Rightarrow> char \<Rightarrow> nat option" where
  "digit_value [] c = None"
| "digit_value (d # ds) c = (if d = c then Some 0 else map_option Suc (digit_value ds c))"

fun of_hex :: "nat \<Rightarrow> gostring \<Rightarrow> nat option" where
  "of_hex acc [] = Some acc"
| "of_hex acc (c # cs) =
     (case digit_value hex_digits c of None \<Rightarrow> None | Some d \<Rightarrow> of_hex (16 * acc + d) cs)"

lemma length_hex_of [simp]: "length (hex_of k n) = k"
  by (induction k arbitrary: n) simp_all

lemma digit_value_nth: "n < 16 \<Longrightarrow> digit_value hex_digits (hex_digits ! n) = Some n"
proof -
  have "\<forall>n \<in> set [0..<16]. digit_value hex_digits (hex_digits ! n) = Some n" by code_simp
  then show "n < 16 \<Longrightarrow> digit_value hex_digits (hex_digits ! n) = Some n" by simp
qed

lemma hex_digits_less: "m < 16 \<Longrightarrow> n < 16 \<Longrightarrow> hex_digits ! m < hex_digits ! n \<longleftrightarrow> m < n"
proof -
  have "\<forall>m \<in> set [0..<16]. \<forall>n \<in> set [0..<16]. (hex_digits ! m < hex_digits ! n) = (m < n)" by code_simp
  then show "m < 16 \<Longrightarrow> n < 16 \<Longrightarrow> hex_digits ! m < hex_digits ! n \<longleftrightarrow> m < n" by simp
qed

lemma of_hex_append:
  "of_hex acc (xs @ ys) = (case of_hex acc xs of None \<Rightarrow> None | Some a \<Rightarrow> of_hex a ys)"
  by (induction xs arbitrary: acc) (simp_all split: option.split)

lemma of_hex_hex_of: "n < 16 ^ k \<Longrightarrow> of_hex 0 (hex_of k n) = Some n"
proof (induction k arbitrary: n)
  case (Suc k)
  then have "n div 16 < 16 ^ k" by (simp add: div_less_iff_less_mult mult.commute)
  with Suc.IH show ?case by (simp add: of_hex_append digit_value_nth)
qed simp

lemma less_snoc:
  fixes xs ys :: gostring
  assumes "length xs = length ys"
  shows "xs @ [a] < ys @ [b] \<longleftrightarrow> xs < ys \<or> xs = ys \<and> a < b"
  using assms by (induction xs ys rule: list_induct2) auto

lemma hex_of_inj: "m < 16 ^ k \<Longrightarrow> n < 16 ^ k \<Longrightarrow> hex_of k m = hex_of k n \<longleftrightarrow> m = n"
  by (metis of_hex_hex_of option.inject)

lemma less_digit:
  "(b::nat) < 16 \<Longrightarrow> d < 16 \<Longrightarrow> (a < c \<or> a = c \<and> b < d) = (16 * a + b < 16 * c + d)"
  by linarith

lemma hex_of_less: "m < 16 ^ k \<Longrightarrow> n < 16 ^ k \<Longrightarrow> hex_of k m < hex_of k n \<longleftrightarrow> m < n"
proof (induction k arbitrary: m n)
  case (Suc k)
  then have lt: "m div 16 < 16 ^ k" "n div 16 < 16 ^ k"
    by (simp_all add: div_less_iff_less_mult mult.commute)
  have "hex_of (Suc k) m < hex_of (Suc k) n \<longleftrightarrow>
      m div 16 < n div 16 \<or> m div 16 = n div 16 \<and> m mod 16 < n mod 16"
    using Suc.IH [OF lt] hex_of_inj [OF lt] by (simp add: less_snoc hex_digits_less)
  also have "\<dots> \<longleftrightarrow> m < n"
    using less_digit [of "m mod 16" "n mod 16" "m div 16" "n div 16"] by (simp add: mult_div_mod_eq)
  finally show ?case .
qed simp

section \<open>The environment\<close>

text \<open>The number in a field of 32 digits, when it fits, as every UUID does.\<close>

definition uid :: "nat \<Rightarrow> gostring" where
  "uid n = (if n < 340282366920938463463374607431768211456 then hex_of 32 n else [])"

definition hex_uuid :: "uuid \<Rightarrow> gostring" where
  "hex_uuid u = uid (unat u)"

definition parse_hex_uuid :: "gostring \<Rightarrow> gostring + uuid" where
  "parse_hex_uuid s =
     (if length s \<noteq> 32 then Inl ''invalid UUID length''
      else case of_hex 0 s of None \<Rightarrow> Inl ''invalid UUID format'' | Some n \<Rightarrow> Inr (word_of_nat n))"

definition microseconds :: "gotime \<Rightarrow> gotime" where
  "microseconds t = t div 1000 * 1000"

fun ascii_lower :: "gostring \<Rightarrow> gostring" where
  "ascii_lower [] = []"
| "ascii_lower (c # cs) =
     (if CHR ''A'' \<le> c \<and> c \<le> CHR ''Z'' then char_of (of_char c + (32::nat)) else c) # ascii_lower cs"

definition demo_pg_env :: pg_env where
  "demo_pg_env =
     \<lparr>pe_uuid_parse = parse_hex_uuid, pe_uuid_string = hex_uuid, pe_timestamp = microseconds,
      pe_lower = ascii_lower, pe_collate = ascii_lower, pe_citext = ascii_lower,
      pe_error_text = pge_code, pe_reported = hd\<rparr>"

lemma unat_uuid: "unat (u :: uuid) < 16 ^ 32"
proof -
  have "unat u < 2 ^ LENGTH(128)" by (rule unsigned_less)
  then show ?thesis by simp
qed

lemma hex_uuid_eq: "hex_uuid u = hex_of 32 (unat u)"
  using unat_uuid [of u] by (simp add: hex_uuid_def uid_def)

lemma demo_pg_env_ok: "pg_env_ok demo_pg_env"
proof -
  have "hex_of 32 n \<noteq> []" for n using length_hex_of [of 32 n] by (metis list.size(3) zero_neq_numeral)
  then show ?thesis
    by (simp add: pg_env_ok_def demo_pg_env_def hex_uuid_eq parse_hex_uuid_def microseconds_def
        of_hex_hex_of [OF unat_uuid] hex_of_less [OF unat_uuid unat_uuid] word_less_nat_alt)
qed

section \<open>A run\<close>

definition pg_demo_member :: "nat \<Rightarrow> gostring \<Rightarrow> member_row" where
  "pg_demo_member n name =
     \<lparr>mr_id = uid n, mr_subject = ''sub '' @ name, mr_display_name = name, mr_email = name @ ''@x'',
      mr_group_alias_email = None, mr_vehicle_profile = None, mr_is_active = True,
      mr_created_at = 5000, mr_updated_at = 5000\<rparr>"

definition pg_demo_trip :: "trip_status \<Rightarrow> int \<Rightarrow> trip" where
  "pg_demo_trip status capacity = zero_trip
     \<lparr>t_id := uid 16, t_status := status, t_name := Some ''Baja'', t_description := Some ''Dunes'',
      t_creator := uid 1, t_organizers := [uid 1], t_draft_visibility := Public,
      t_start_date := Some day, t_end_date := Some (2 * day), t_capacity_rigs := Some capacity,
      t_difficulty_text := Some ''easy'',
      t_meeting_location := Some \<lparr>loc_label = ''Camp'', loc_address = None, loc_latitude = None, loc_longitude = None\<rparr>,
      t_comms_requirements_text := Some ''GMRS'', t_recommended_requirements_text := Some ''spare'',
      t_artifacts := [\<lparr>art_id = uid 32, art_type = Gpx, art_title = ''Track'', art_url = ''u''\<rparr>],
      t_created_at := 6000, t_updated_at := 6000\<rparr>"

definition pg_demo_rsvp :: "nat \<Rightarrow> rsvp_response \<Rightarrow> rsvp" where
  "pg_demo_rsvp n response =
     \<lparr>rs_trip = uid 16, rs_member = uid n, rs_status = response, rs_updated_at = 0\<rparr>"

text \<open>
  Two members; one of them drafts and publishes a trip for one rig; both want to come, the second
  too late; the trip is canceled. \<open>pg_demo\<close> lists the databases along the run.
\<close>

definition pg_demo_calls :: "pg_call list" where
  "pg_demo_calls =
     [MemberCreate ''iss'' 5000 (pg_demo_member 1 ''Ann''),
      MemberCreate ''iss'' 5000 (pg_demo_member 2 ''Bob''),
      TripCreate (pg_demo_trip Draft 1),
      TripSave 7000 (pg_demo_trip Published 1),
      RsvpUpsert 8000 (pg_demo_rsvp 1 Yes),
      RsvpUpsert 9000 (pg_demo_rsvp 2 Yes),
      TripSave 10000 (pg_demo_trip Canceled 1)]"

definition pg_demo :: "nat \<Rightarrow> pg_db" where
  "pg_demo n = pg_run demo_pg_env pg_empty (take n pg_demo_calls)"

lemma pg_demo_reachable: "pg_reachable demo_pg_env (pg_demo n)"
  unfolding pg_demo_def by (intro pg_reachable_run pg_reachable.start)

lemma parse_uid:
  "n < 340282366920938463463374607431768211456 \<Longrightarrow> parse_hex_uuid (uid n) = Inr (word_of_nat n)"
  using of_hex_hex_of [of n 32] by (simp add: parse_hex_uuid_def uid_def)

lemma demo_pg_env_simps:
  "pe_uuid_parse demo_pg_env = parse_hex_uuid" "pe_uuid_string demo_pg_env = hex_uuid"
  "pe_timestamp demo_pg_env = microseconds" "pe_lower demo_pg_env = ascii_lower"
  "pe_collate demo_pg_env = ascii_lower" "pe_citext demo_pg_env = ascii_lower"
  "pe_error_text demo_pg_env = pge_code" "pe_reported demo_pg_env = hd"
  by (simp_all add: demo_pg_env_def)

lemmas pg_data = demo_pg_env_simps microseconds_def parse_uid pg_demo_member_def pg_demo_trip_def
  pg_demo_rsvp_def zero_trip_def day_def second_def

definition ann_row :: pg_member where
  "ann_row = \<lparr>pm_id = 1, pm_external_id = 1, pm_subject_iss = ''iss'', pm_subject_sub = ''sub Ann'',
     pm_display_name = ''Ann'', pm_email = ''Ann@x'', pm_group_alias_email = None, pm_is_active = True,
     pm_created_at = 5000, pm_updated_at = 5000\<rparr>"

definition bob_row :: pg_member where
  "bob_row = \<lparr>pm_id = 2, pm_external_id = 2, pm_subject_iss = ''iss'', pm_subject_sub = ''sub Bob'',
     pm_display_name = ''Bob'', pm_email = ''Bob@x'', pm_group_alias_email = None, pm_is_active = True,
     pm_created_at = 5000, pm_updated_at = 5000\<rparr>"

definition members_db :: pg_db where
  "members_db = pg_empty\<lparr>db_member_seq := 3, db_members := [ann_row, bob_row]\<rparr>"

definition trip_row :: "trip_status \<Rightarrow> int \<Rightarrow> gotime \<Rightarrow> gotime option \<Rightarrow> gotime option \<Rightarrow> pg_trip" where
  "trip_row status capacity updated published canceled =
     \<lparr>pt_id = 1, pt_external_id = 16, pt_name = Some ''Baja'', pt_description = Some ''Dunes'',
      pt_start_date = Some day, pt_end_date = Some (2 * day), pt_status = status,
      pt_draft_visibility = (if status = Draft then Some Public else None),
      pt_capacity_rigs = Some capacity, pt_difficulty_text = Some ''easy'',
      pt_meeting_label = Some ''Camp'', pt_meeting_address = None, pt_meeting_latitude = None,
      pt_meeting_longitude = None, pt_comms_requirements_text = Some ''GMRS'',
      pt_recommended_requirements_text = Some ''spare'', pt_published_at = published,
      pt_canceled_at = canceled, pt_created_by = 1, pt_created_at = 6000, pt_updated_at = updated\<rparr>"

definition trip_db :: "pg_trip \<Rightarrow> pg_rsvp list \<Rightarrow> pg_db" where
  "trip_db row rsvps = members_db\<lparr>db_trip_seq := 2, db_trips := [row],
     db_organizers := [\<lparr>po_trip_id = 1, po_member_id = 1\<rparr>],
     db_artifacts := [\<lparr>pa_external_id = 32, pa_trip_id = 1, pa_type = Gpx, pa_title = ''Track'',
                       pa_url = ''u'', pa_sort_order = 0\<rparr>],
     db_rsvps := rsvps\<rparr>"

definition ann_yes :: pg_rsvp where
  "ann_yes = \<lparr>pr_trip_id = 1, pr_member_id = 1, pr_response = Yes, pr_updated_at = 8000\<rparr>"

lemmas pg_rows = members_db_def trip_db_def trip_row_def ann_row_def bob_row_def ann_yes_def pg_empty_def

lemma demo_members:
  "pg_exec demo_pg_env (pg_exec demo_pg_env pg_empty
     (MemberCreate ''iss'' 5000 (pg_demo_member 1 ''Ann''))) (MemberCreate ''iss'' 5000 (pg_demo_member 2 ''Bob'')) =
   members_db"
  by (simp add: pg_exec_def pg_member_create_def pg_data pg_rows insert_member_def members_violations_def)

lemma demo_create: "pg_exec demo_pg_env members_db (TripCreate (pg_demo_trip Draft 1)) =
    trip_db (trip_row Draft 1 6000 None None) []"
  by (simp add: pg_exec_def pg_trip_create_def pg_data pg_rows trip_values_def draftVisibilityForDB_def
      insert_trip_def member_pk_def trip_pk_def insert_organizer_row_def blank_trip_def trips_checks_def
      midnight_def syncOrganizers_def loadOrganizerExternalIDs_def order_by_def hex_uuid_def
      syncArtifacts_def upsert_artifact_def upsert_row_def loadArtifacts_def)

lemmas save_eval = pg_exec_def pg_trip_save_def pg_data pg_rows trip_values_def draftVisibilityForDB_def
  update_trip_def trips_enforce_transitions_def coalesce_def publish_requirements_def is_blank_def btrim_def
  trips_set_updated_at_def trips_checks_def update_rows_def yes_count_def
  member_pk_def trip_pk_def insert_organizer_row_def
  midnight_def syncOrganizers_def loadOrganizerExternalIDs_def order_by_def hex_uuid_def
  syncArtifacts_def upsert_artifact_def upsert_row_def loadArtifacts_def

lemma demo_publish:
  "pg_exec demo_pg_env (trip_db (trip_row Draft 1 6000 None None) []) (TripSave 7000 (pg_demo_trip Published 1)) =
    trip_db (trip_row Published 1 7000 (Some 7000) None) []"
  by (simp add: save_eval)

lemma demo_cancel:
  "pg_exec demo_pg_env (trip_db (trip_row Published 1 7000 (Some 7000) None) [ann_yes])
     (TripSave 10000 (pg_demo_trip Canceled 1)) =
    trip_db (trip_row Canceled 1 10000 (Some 7000) (Some 10000)) [ann_yes]"
  by (simp add: save_eval)

lemma demo_answer:
  "pg_exec demo_pg_env (trip_db (trip_row Published 1 7000 (Some 7000) None) []) (RsvpUpsert 8000 (pg_demo_rsvp 1 Yes)) =
    trip_db (trip_row Published 1 7000 (Some 7000) None) [ann_yes]"
  by (simp add: pg_exec_def pg_rsvp_upsert_def pg_data pg_rows upsert_rsvp_def enforce_rsvp_rules_def
      trip_pk_def member_pk_def upsert_row_def)

lemma demo_late:
  "pg_apply demo_pg_env (trip_db (trip_row Published 1 7000 (Some 7000) None) [ann_yes])
     (RsvpUpsert 9000 (pg_demo_rsvp 2 Yes)) = Inl (OtherError CheckViolationCode)"
  by (simp add: pg_rsvp_upsert_def pg_data pg_rows upsert_rsvp_def enforce_rsvp_rules_def
      trip_pk_def member_pk_def upsert_row_def raise_def server_error_def)

text \<open>The databases after each prefix of the run.\<close>

lemma pg_demo_states:
  "pg_demo 0 = pg_empty"
  "pg_demo 2 = members_db"
  "pg_demo 3 = trip_db (trip_row Draft 1 6000 None None) []"
  "pg_demo 4 = trip_db (trip_row Published 1 7000 (Some 7000) None) []"
  "pg_demo 5 = trip_db (trip_row Published 1 7000 (Some 7000) None) [ann_yes]"
  "pg_demo 6 = trip_db (trip_row Published 1 7000 (Some 7000) None) [ann_yes]"
  "pg_demo 7 = trip_db (trip_row Canceled 1 10000 (Some 7000) (Some 10000)) [ann_yes]"
proof -
  have late: "pg_exec demo_pg_env (trip_db (trip_row Published 1 7000 (Some 7000) None) [ann_yes])
     (RsvpUpsert 9000 (pg_demo_rsvp 2 Yes)) = trip_db (trip_row Published 1 7000 (Some 7000) None) [ann_yes]"
    by (subst pg_exec_def) (simp only: demo_late sum.case)
  note steps = demo_members demo_create demo_publish demo_answer late demo_cancel
  show "pg_demo 0 = pg_empty" by (simp add: pg_demo_def)
  show "pg_demo 2 = members_db" "pg_demo 3 = trip_db (trip_row Draft 1 6000 None None) []"
    "pg_demo 4 = trip_db (trip_row Published 1 7000 (Some 7000) None) []"
    "pg_demo 5 = trip_db (trip_row Published 1 7000 (Some 7000) None) [ann_yes]"
    "pg_demo 6 = trip_db (trip_row Published 1 7000 (Some 7000) None) [ann_yes]"
    "pg_demo 7 = trip_db (trip_row Canceled 1 10000 (Some 7000) (Some 10000)) [ann_yes]"
    by (simp_all add: pg_demo_def pg_demo_calls_def steps [unfolded One_nat_def])
qed

end
