(* ===== verification/PgRaceScenario.thy ===== *)
theory PgRaceScenario
  imports PgRsvpService PgScenario
begin

text \<open>
  The run of \<open>PgScenario\<close> under the theorems on attendance: its databases move no published trip
  back, and its two members ask for the last seat at the same time, each step of one after the same
  step of the other.
\<close>

section \<open>The databases of the run\<close>

lemma pg_demo_ok: "pg_ok demo_pg_env (pg_demo n)" and pg_demo_typed: "pg_typed (pg_demo n)"
  using pg_reachable_ok pg_reachable_typed pg_demo_reachable demo_pg_env_ok by blast+

lemma pg_demo_forward: "pg_forward demo_pg_env (pg_demo n)"
proof (induction n)
  case 0
  then show ?case by (simp add: pg_demo_def pg_forward.start)
next
  case (Suc n)
  show ?case
  proof (cases "n < length pg_demo_calls")
    case True
    then have "pg_demo (Suc n) = pg_exec demo_pg_env (pg_demo n) (pg_demo_calls ! n)"
      by (simp add: pg_demo_def pg_run_def take_Suc_conv_app_nth)
    moreover have "\<forall>c \<in> set pg_demo_calls. \<not> (\<exists>now t. c = TripSave now t \<and> t_status t = Draft)"
      by (simp add: pg_demo_calls_def pg_demo_trip_def zero_trip_def)
    ultimately show ?thesis
      using Suc only_draft_saves_unpublish [OF demo_pg_env_ok pg_demo_ok] True
      by (metis nth_mem pg_forward.step)
  next
    case False
    then have "pg_demo (Suc n) = pg_demo n" by (simp add: pg_demo_def)
    then show ?thesis using Suc by simp
  qed
qed

section \<open>The race for the last seat\<close>

definition demo_request :: "nat \<Rightarrow> rsvp_request" where
  "demo_request n =
     \<lparr>rq_caller = uid n, rq_trip = uid 16, rq_response = Yes, rq_now1 = 8000, rq_now2 = 8000\<rparr>"

definition demo_read :: trip where
  "demo_read = (pg_demo_trip Published 1)
     \<lparr>t_draft_visibility := OtherVisibility '''', t_attending_rigs := Some 0, t_updated_at := 7000\<rparr>"

lemma order_by_single: "order_by k [x] = [x]"
  by (simp add: order_by_def)

lemma demo_get: "pg_trip_get demo_pg_env (Some (pg_demo 4)) (uid 16) = Inr demo_read"
  by (simp add: pg_demo_states pg_trip_get_unfold demo_read_def pg_data pg_rows
    loadOrganizerExternalIDs_def loadArtifacts_def
    order_by_single trip_pk_def hex_uuid_def countYesByTripUUID_def meetingFromColumns_def midnight_def)

definition demo_unsaved :: trip where
  "demo_unsaved = demo_read\<lparr>t_attending_rigs := Some 1, t_updated_at := 8000\<rparr>"

definition published_db :: "gotime \<Rightarrow> pg_rsvp list \<Rightarrow> pg_db" where
  "published_db updated rsvps = trip_db (trip_row Published 1 updated (Some 7000) None) rsvps"

definition demo_refused :: pg_rsvp_pc where
  "demo_refused = Answered (Inl (OtherError CheckViolationCode))"

definition demo_seated :: pg_rsvp_pc where
  "demo_seated = Answered (Inr (my_rsvp_of (uid 16) (uid 1)
     \<lparr>rs_trip = uid 16, rs_member = uid 1, rs_status = Yes, rs_updated_at = 8000\<rparr>))"

text \<open>Both read the published trip, statement by statement, find no answer and no attendance, save the
  trip, and ask for the seat.\<close>

definition demo_row :: trip where
  "demo_row = demo_read\<lparr>t_organizers := [], t_artifacts := [], t_attending_rigs := None\<rparr>"

lemma demo_query_row: "query_trip_row demo_pg_env 16 (pg_demo 4) = Inr demo_row"
  by (simp add: pg_demo_states query_trip_row_def demo_row_def demo_read_def pg_data pg_rows
    hex_uuid_def meetingFromColumns_def midnight_def)

lemma demo_get_row:
  "n \<in> {1, 2} \<Longrightarrow> pg_rsvp_step demo_pg_env 8000 (demo_request n) (pg_demo 4) GetRow = (pg_demo 4, GetOrganizers 16 demo_row)"
  by (auto simp: demo_request_def demo_pg_env_simps parse_uid demo_query_row)

lemma demo_with_organizers:
  "with_organizers demo_pg_env 16 (pg_demo 4) demo_row = demo_row\<lparr>t_organizers := [uid 1]\<rparr>"
  by (simp add: with_organizers_def pg_demo_states pg_data pg_rows loadOrganizerExternalIDs_def
    order_by_single trip_pk_def hex_uuid_def)

lemma demo_with_artifacts:
  "with_artifacts demo_pg_env 16 (pg_demo 4) (demo_row\<lparr>t_organizers := [uid 1]\<rparr>) =
    demo_read\<lparr>t_attending_rigs := None\<rparr>"
  by (simp add: with_artifacts_def demo_row_def demo_read_def pg_demo_states pg_data pg_rows loadArtifacts_def
    order_by_single trip_pk_def hex_uuid_def)

lemma demo_get_organizers:
  "pg_rsvp_step demo_pg_env 8000 rq (pg_demo 4) (GetOrganizers 16 demo_row) =
    (pg_demo 4, GetArtifacts 16 (demo_row\<lparr>t_organizers := [uid 1]\<rparr>))"
  by (simp add: demo_with_organizers [unfolded One_nat_def])

lemma demo_get_artifacts:
  "pg_rsvp_step demo_pg_env 8000 rq (pg_demo 4) (GetArtifacts 16 (demo_row\<lparr>t_organizers := [uid 1]\<rparr>)) =
    (pg_demo 4, GetAttendance 16 (demo_read\<lparr>t_attending_rigs := None\<rparr>))"
  by (simp add: demo_with_artifacts [unfolded One_nat_def] Let_def) (simp add: demo_read_def pg_demo_trip_def)

lemma demo_get_attendance:
  "n \<in> {1, 2} \<Longrightarrow> pg_rsvp_step demo_pg_env 8000 (demo_request n) (pg_demo 4)
      (GetAttendance 16 (demo_read\<lparr>t_attending_rigs := None\<rparr>)) = (pg_demo 4, Reading demo_read 1)"
  by (auto simp: with_attendance_def demo_read_def pg_demo_states pg_data pg_rows countYesByTripUUID_def
    trip_pk_def pg_checked_def demo_request_def rsvp_checks_def)

lemmas demo_load = demo_get_row demo_get_organizers demo_get_artifacts demo_get_attendance

lemma pg_demo_lookup:
  "n \<in> {1, 2} \<Longrightarrow>
    pg_rsvp_step demo_pg_env 8000 (demo_request n) (pg_demo 4) (Reading t c) = (pg_demo 4, Counting t c None)"
  by (auto simp: demo_request_def pg_rsvp_get_def pg_demo_states pg_data pg_rows rsvp_join_def)

lemma demo_count:
  "n \<in> {1, 2} \<Longrightarrow>
    pg_rsvp_step demo_pg_env 8000 (demo_request n) (pg_demo 4) (Counting demo_read 1 None) =
    (pg_demo 4, Saving demo_unsaved)"
  by (auto simp: demo_request_def pg_rsvp_count_yes_by_trip_def pg_demo_states pg_data pg_rows rsvp_join_def
    new_attendance_def rsvp_delta_def demo_unsaved_def Let_def)

lemma demo_save: "u \<in> {7000, 8000} \<Longrightarrow>
  pg_rsvp_step demo_pg_env 8000 rq (published_db u []) (Saving demo_unsaved) = (published_db 8000 [], Upserting)"
  by (auto simp: demo_unsaved_def demo_read_def save_eval published_db_def)

lemma demo_seat:
  "pg_rsvp_step demo_pg_env 8000 (demo_request 1) (published_db 8000 []) Upserting =
    (published_db 8000 [ann_yes], demo_seated)"
  by (simp add: demo_request_def published_db_def demo_seated_def pg_rsvp_upsert_def pg_data pg_rows upsert_rsvp_def
      enforce_rsvp_rules_def trip_pk_def member_pk_def upsert_row_def)

lemma demo_refuse:
  "pg_rsvp_step demo_pg_env 8000 (demo_request 2) (published_db 8000 [ann_yes]) Upserting =
    (published_db 8000 [ann_yes], demo_refused)"
  by (simp add: demo_request_def published_db_def demo_refused_def pg_rsvp_upsert_def pg_data pg_rows upsert_rsvp_def
      enforce_rsvp_rules_def trip_pk_def member_pk_def upsert_row_def raise_def server_error_def)

definition pg_demo_requests :: "rsvp_request list" where
  "pg_demo_requests = [demo_request 1, demo_request 2]"

definition pg_demo_steps :: "(nat \<times> gotime) list" where
  "pg_demo_steps = map (\<lambda>i. (i, 8000)) [0, 1, 0, 1, 0, 1, 0, 1, 0, 1, 0, 1, 0, 1, 0, 1]"

lemma demo_race:
  "pg_schedule demo_pg_env pg_demo_requests pg_demo_steps (pg_demo 4, replicate (length pg_demo_requests) GetRow) =
   (published_db 8000 [ann_yes], [demo_seated, demo_refused])"
proof -
  have p: "pg_demo 4 = published_db 7000 []" by (simp add: pg_demo_states published_db_def)
  note steps = demo_load pg_demo_lookup demo_count demo_save demo_seat demo_refuse
  show ?thesis unfolding p
    by (simp add: pg_demo_requests_def pg_demo_steps_def steps [unfolded p One_nat_def] del: pg_rsvp_step.simps)
qed

lemma pg_demo_callers: "distinct (map (\<lambda>rq. pe_uuid_parse demo_pg_env (rq_caller rq)) pg_demo_requests)"
  by (simp add: pg_demo_requests_def demo_request_def demo_pg_env_simps parse_uid)

section \<open>A read in the middle of writes\<close>

definition bob_yes :: pg_rsvp where
  "bob_yes = \<lparr>pr_trip_id = 1, pr_member_id = 2, pr_response = Yes, pr_updated_at = 8000\<rparr>"

text \<open>
  The organizer raises the capacity from one to two and both members take a seat while \<open>GetByID\<close> is
  between its first and its last statement: it returns the old capacity with the new attendance.
\<close>

definition writes_between :: "pg_call list" where
  "writes_between = [TripSave 8000 (pg_demo_trip Published 2), RsvpUpsert 8000 (pg_demo_rsvp 1 Yes),
     RsvpUpsert 8000 (pg_demo_rsvp 2 Yes)]"

lemma demo_between:
  "pg_run demo_pg_env (pg_demo 4) writes_between =
     trip_db (trip_row Published 2 8000 (Some 7000) None) [ann_yes, bob_yes]"
proof -
  have a: "pg_exec demo_pg_env (pg_demo 4) (TripSave 8000 (pg_demo_trip Published 2)) =
      trip_db (trip_row Published 2 8000 (Some 7000) None) []"
    by (simp add: pg_demo_states save_eval)
  have b: "pg_exec demo_pg_env (trip_db (trip_row Published 2 8000 (Some 7000) None) rs) (RsvpUpsert 8000 (pg_demo_rsvp n Yes)) =
      trip_db (trip_row Published 2 8000 (Some 7000) None) (rs @ [rsvp_row demo_pg_env 8000 1 n Yes])"
    if "n = 1 \<and> rs = [] \<or> n = 2 \<and> rs = [ann_yes]" for n rs
    using that
    by (auto simp: pg_exec_def pg_rsvp_upsert_def pg_data pg_rows upsert_rsvp_def enforce_rsvp_rules_def
        trip_pk_def member_pk_def upsert_row_def)
  show ?thesis
    using b [of 1 "[]"] b [of 2 "[ann_yes]"]
    by (simp add: writes_between_def pg_run_simps a ann_yes_def bob_yes_def demo_pg_env_simps microseconds_def)
qed

lemma torn_read_overbooked:
  "\<exists>t. pg_trip_read demo_pg_env (pg_demo 4) (pg_demo 4) (pg_demo 4) (pg_run demo_pg_env (pg_demo 4) writes_between)
      (uid 16) = Inr t \<and> t_status t = Published \<and> t_capacity_rigs t = Some 1 \<and> t_attending_rigs t = Some 2"
  by (simp add: pg_trip_read_def demo_pg_env_simps parse_uid demo_query_row)
    (simp add: demo_between with_attendance_def with_artifacts_def with_organizers_def demo_row_def demo_read_def
      pg_demo_trip_def countYesByTripUUID_def trip_db_def trip_row_def trip_pk_def ann_yes_def bob_yes_def)

section \<open>A late save of a draft\<close>

text \<open>
  \<open>UpdateTrip\<close> saves the trip it has read. If the trip is published in between, the late save makes
  it a draft again, which no trigger refuses; then its capacity may go below its attendance, and it
  is overbooked when it is published again.
\<close>

lemma stale_save:
  "pg_exec demo_pg_env (trip_db (trip_row Published 2 7000 (Some 7000) None) [ann_yes, bob_yes])
     (TripSave 9000 (pg_demo_trip Draft 2)) =
   trip_db (trip_row Draft 2 9000 (Some 7000) None) [ann_yes, bob_yes]"
  by (simp add: save_eval bob_yes_def)

lemma cut_capacity:
  "pg_exec demo_pg_env (trip_db (trip_row Draft 2 9000 (Some 7000) None) [ann_yes, bob_yes])
     (TripSave 9000 (pg_demo_trip Draft 1)) =
   trip_db (trip_row Draft 1 9000 (Some 7000) None) [ann_yes, bob_yes]"
  by (simp add: save_eval bob_yes_def)

lemma publish_again:
  "pg_exec demo_pg_env (trip_db (trip_row Draft 1 9000 (Some 7000) None) [ann_yes, bob_yes])
     (TripSave 9000 (pg_demo_trip Published 1)) =
   trip_db (trip_row Published 1 9000 (Some 7000) None) [ann_yes, bob_yes]"
  by (simp add: save_eval bob_yes_def)

lemma late_draft_overbooks:
  "\<not> pg_not_overbooked (pg_run demo_pg_env (trip_db (trip_row Published 2 7000 (Some 7000) None) [ann_yes, bob_yes])
     [TripSave 9000 (pg_demo_trip Draft 2), TripSave 9000 (pg_demo_trip Draft 1), TripSave 9000 (pg_demo_trip Published 1)])"
  by (simp only: pg_run_simps stale_save cut_capacity publish_again)
     (simp add: pg_not_overbooked_def trip_db_def trip_row_def yes_count_def ann_yes_def bob_yes_def)

section \<open>An artifact listed twice\<close>

text \<open>The service accepts it (\<open>reorder_repeats\<close>) and keeps both copies; the table has one row for it.\<close>

lemma repeated_artifact_kept_once:
  "\<exists>db'. pg_trip_save demo_pg_env (Some (pg_demo 4)) 8000
     ((pg_demo_trip Published 1)\<lparr>t_artifacts := t_artifacts demo_read @ t_artifacts demo_read\<rparr>) = Inr db' \<and>
     loadArtifacts demo_pg_env db' 16 = t_artifacts demo_read"
  by (simp add: pg_demo_states save_eval demo_read_def order_by_single hex_uuid_def)

end
