(* ===== verification/PgReads.thy ===== *)
theory PgReads
  imports PgTripSave
begin

text \<open>
  What a successful read of the Postgres repositories says about the tables.
\<close>

text \<open>A trip that is read is the one stored under the ID.\<close>

lemma pg_trip_get_stored:
  assumes env: "pg_env_ok pe" and ok: "pg_ok pe db" and get: "pg_trip_get pe (Some db) i = Inr t"
  obtains r where "r \<in> set (db_trips db)" and "t = stored_trip pe db r"
    and "canonical_id pe i = pe_uuid_string pe (pt_external_id r)"
proof -
  have "trip_lookup (trips_abs pe db) (canonical_id pe i) = Some t"
    using get by (simp add: pg_trip_get_abs [OF env ok] trip_get_Inr)
  then have "(canonical_id pe i, t) \<in> set (tr_by_id (trips_abs pe db))"
    unfolding trip_lookup_def by (rule map_of_SomeD)
  then show ?thesis using that by (auto simp: trips_abs_def)
qed

text \<open>An ID that finds a member is a UUID in \<open>members\<close>.\<close>

lemma pg_member_known:
  assumes env: "pg_env_ok pe" and ok: "members_ok pe db"
  shows "(\<exists>m. pg_member_get_by_id pe (Some db) i = Inr m) \<longleftrightarrow>
    (\<exists>u. pe_uuid_parse pe i = Inr u \<and> member_pk db u \<noteq> None)"
proof (cases "pe_uuid_parse pe i")
  case (Inl e)
  then show ?thesis by (simp add: pg_member_get_by_id_def)
next
  case (Inr u)
  then show ?thesis
    using members_abs_lookup [OF env, of "''''" db u]
    by (auto simp: pg_member_get_by_id_abs [OF env ok, where issuer = "''''"] canonical_id_def
        member_get_by_id_def member_pk_def split: option.splits)
qed

text \<open>The trips' UUIDs are the IDs a trip is read under.\<close>

lemma pg_trip_known:
  assumes env: "pg_env_ok pe" and ok: "pg_ok pe db" and r: "r \<in> set (db_trips db)"
    and i: "pe_uuid_parse pe i = Inr (pt_external_id r)"
  shows "pg_trip_get pe (Some db) i = Inr (stored_trip pe db r)"
  using i find_unique [OF rsvps_okD(2) [OF pg_okD(2) [OF ok]] r refl]
  by (simp add: pg_trip_get_abs [OF env ok] canonical_id_def trips_abs_lookup [OF env])

text \<open>Whatever databases the four statements see, status and capacity are the first one's and the
  attendance is the last one's.\<close>

lemma pg_trip_read_parts:
  assumes "pg_trip_read pe db1 db2 db3 db4 i = Inr t"
  obtains u t1 where "pe_uuid_parse pe i = Inr u" and "pg_trip_get pe (Some db1) i = Inr t1"
    and "t_status t = t_status t1" and "t_capacity_rigs t = t_capacity_rigs t1"
    and "t_status t = Published \<Longrightarrow> t_attending_rigs t = Some (countYesByTripUUID db4 u)"
proof -
  obtain u t0 where u: "pe_uuid_parse pe i = Inr u" and t0: "query_trip_row pe u db1 = Inr t0"
    and t: "t = with_attendance u db4 (with_artifacts pe u db3 (with_organizers pe u db2 t0))"
    using assms by (auto simp: pg_trip_read_def and_then_Inr split: sum.splits)
  show ?thesis
  proof (rule that)
    show "pg_trip_get pe (Some db1) i =
        Inr (with_attendance u db1 (with_artifacts pe u db1 (with_organizers pe u db1 t0)))"
      by (simp add: pg_trip_get_def pg_trip_read_def u t0)
  qed (auto simp: u t with_attendance_def with_artifacts_def with_organizers_def split: if_splits)
qed

end
