(* ===== verification/PgProperties.thy ===== *)
theory PgProperties
  imports PgRaceScenario PgReads
begin

text \<open>
  The properties of the Postgres adapters, over every database the repository calls can reach:
  attendance under concurrency, the life cycle and the validity of what is read, and that each
  repository does what its in-memory counterpart does. Each is applied in the run of
  \<open>PgScenario\<close>.
\<close>

section \<open>Attendance\<close>

text \<open>C7: Any number of members may call SetMyRSVP at once over Postgres, their reading statements and
  their transactions interleaved in any order. In the database that results, no published trip has more members who
  were told YES, nor more YES answers in the table, than its capacity, and everyone who was told YES
  is in the table. The starting database is any one the repositories reach without a published trip
  being moved back to a draft.\<close>

theorem pg_seats_not_oversold:
  assumes env: "pg_env_ok pe" and fw: "pg_forward pe db"
    and dist: "distinct (map (\<lambda>rq. pe_uuid_parse pe (rq_caller rq)) rqs)"
    and run: "pg_schedule pe rqs steps (db, replicate (length rqs) GetRow) = (db', pcs)"
    and t: "t \<in> set (db_trips db')" "pt_status t = Published" "pt_capacity_rigs t = Some c"
  shows "int (card {i. i < length rqs \<and> pg_told_yes (pcs ! i) \<and>
      pe_uuid_parse pe (rq_trip (rqs ! i)) = Inr (pt_external_id t)}) \<le> c \<and>
    yes_count db' (pt_id t) \<le> c \<and> (\<forall>i < length rqs. pg_told_yes (pcs ! i) \<longrightarrow> rq_yes pe db' (rqs ! i))"
proof -
  have inv: "race_inv pe rqs (db', pcs)"
    using race_schedule [OF env dist race_start [OF fw]] run by metis
  then have "pg_forward pe db'" by (simp add: race_inv_def)
  then have "yes_count db' (pt_id t) \<le> c"
    using pg_forward_attendance [OF env] t by (auto simp: pg_not_overbooked_def)
  with inv show ?thesis using race_seats [OF env dist inv t] by (simp add: race_inv_def)
qed

theorem pg_seats_not_oversold_witness:
  "int (card {i. i < length pg_demo_requests \<and> pg_told_yes ([demo_seated, demo_refused] ! i) \<and>
      pe_uuid_parse demo_pg_env (rq_trip (pg_demo_requests ! i)) = Inr 16}) \<le> 1 \<and>
    yes_count (published_db 8000 [ann_yes]) 1 \<le> 1"
  using pg_seats_not_oversold [OF demo_pg_env_ok pg_demo_forward pg_demo_callers demo_race,
      of "trip_row Published 1 8000 (Some 7000) None" 1]
  by (simp add: published_db_def trip_db_def trip_row_def)

text \<open>C8: What \<open>GetByID\<close> of the trip repository says about attendance, whatever other calls come between its
  statements, as long as no published trip is moved back to a draft. The number of attending rigs of
  a published trip is the number of its YES answers at the last statement, and the trip is still
  there; if it is then published, the number is at most the capacity it then has, and with no call in
  between it is at most the capacity that was read. (With calls in between it may exceed that:
  \<open>torn_read_overbooked\<close>.)\<close>

theorem pg_never_overbooked:
  assumes env: "pg_env_ok pe" and reach: "pg_reachable pe db1"
    and last: "db4 = pg_run pe db1 cs" and fw: "pg_forward pe db4"
    and get: "pg_trip_read pe db1 db2 db3 db4 i = Inr t" and st: "t_status t = Published"
  shows "\<exists>n t'. t_attending_rigs t = Some n \<and> pg_trip_get pe (Some db4) i = Inr t' \<and>
    pg_rsvp_count_yes_by_trip pe (Some db4) (canonical_id pe i) = Inr n \<and>
    (t_status t' = Published \<longrightarrow> (\<forall>c. t_capacity_rigs t' = Some c \<longrightarrow> n \<le> c)) \<and>
    (cs = [] \<longrightarrow> (\<forall>c. t_capacity_rigs t = Some c \<longrightarrow> n \<le> c))"
proof -
  have ok1: "pg_ok pe db1" by (rule pg_reachable_ok [OF reach env])
  have ok: "pg_ok pe db4" by (rule pg_reachable_ok [OF pg_forward_reachable [OF fw] env])
  obtain u t1 where u: "pe_uuid_parse pe i = Inr u" and t1: "pg_trip_get pe (Some db1) i = Inr t1"
    and same: "t_status t = t_status t1" "t_capacity_rigs t = t_capacity_rigs t1"
    and n: "t_attending_rigs t = Some (countYesByTripUUID db4 u)"
    using pg_trip_read_parts [OF get] st by metis
  obtain r where r: "r \<in> set (db_trips db1)" "t1 = stored_trip pe db1 r"
    and i: "canonical_id pe i = pe_uuid_string pe (pt_external_id r)"
    using pg_trip_get_stored [OF env ok1 t1] .
  have ur: "u = pt_external_id r" using i u by (simp add: canonical_id_def uuid_string_eq_iff [OF env])
  obtain r' where r': "r' \<in> set (db_trips db4)" "pt_external_id r' = pt_external_id r"
    using pg_run_keeps_trips [OF env ok1 r(1), of cs] last by (auto simp: trip_kept_def)
  have get4: "pg_trip_get pe (Some db4) i = Inr (stored_trip pe db4 r')"
    by (rule pg_trip_known [OF env ok r'(1)]) (simp add: u ur r'(2))
  have cnt: "countYesByTripUUID db4 u = yes_count db4 (pt_id r')"
    using countYes_eq [OF ok r'(1)] by (simp add: ur r'(2))
  have can: "canonical_id pe (canonical_id pe i) = canonical_id pe i" by (simp add: i canonical_string [OF env])
  have "pg_rsvp_count_yes_by_trip pe (Some db4) (canonical_id pe i) = Inr (countYesByTripUUID db4 u)"
    using rsvps_abs_count [OF env pg_okD(2) [OF ok] r'(1)]
    by (simp add: pg_rsvp_count_abs [OF env pg_okD(2) [OF ok] can] cnt) (simp add: i r'(2))
  moreover have "pg_not_overbooked db4" using pg_forward_attendance [OF env fw] by simp
  then have fits: "t_status (stored_trip pe db4 r') = Published \<longrightarrow>
      (\<forall>c. t_capacity_rigs (stored_trip pe db4 r') = Some c \<longrightarrow> countYesByTripUUID db4 u \<le> c)"
    using r'(1) by (auto simp: cnt stored_trip_def pg_not_overbooked_def)
  moreover have "cs = [] \<longrightarrow> (\<forall>c. t_capacity_rigs t = Some c \<longrightarrow> countYesByTripUUID db4 u \<le> c)"
    using fits t1 get4 last st same by auto
  ultimately show ?thesis using n get4 by blast
qed

text \<open>Ann takes the seat after the row was read: the read says one, and the capacity is one.\<close>

theorem pg_never_overbooked_witness:
  "\<exists>n t'. t_attending_rigs (demo_read\<lparr>t_attending_rigs := Some 1\<rparr>) = Some n \<and>
    pg_trip_get demo_pg_env (Some (pg_demo 5)) (uid 16) = Inr t' \<and>
    pg_rsvp_count_yes_by_trip demo_pg_env (Some (pg_demo 5)) (canonical_id demo_pg_env (uid 16)) = Inr n"
proof -
  have run: "pg_demo 5 = pg_run demo_pg_env (pg_demo 4) [pg_demo_calls ! 4]"
    by (simp add: pg_demo_def pg_demo_calls_def pg_run_simps numeral_eq_Suc)
  have get: "pg_trip_read demo_pg_env (pg_demo 4) (pg_demo 4) (pg_demo 4) (pg_demo 5) (uid 16) =
      Inr (demo_read\<lparr>t_attending_rigs := Some 1\<rparr>)"
    by (simp add: pg_trip_read_def demo_pg_env_simps parse_uid demo_query_row demo_with_organizers
        demo_with_artifacts del: One_nat_def)
      (simp add: with_attendance_def pg_demo_states countYesByTripUUID_def pg_data pg_rows trip_pk_def
        demo_read_def pg_demo_trip_def)
  have "t_status (demo_read\<lparr>t_attending_rigs := Some 1\<rparr>) = Published" by (simp add: demo_read_def pg_demo_trip_def)
  from pg_never_overbooked [OF demo_pg_env_ok pg_demo_reachable run pg_demo_forward get this]
  show ?thesis by blast
qed

section \<open>Reads\<close>

text \<open>C15: What the trip repository reads from any database it can reach has the types of the domain:
  the status is one of the three, a visibility is private or public on a draft and empty otherwise, a
  capacity is at least 1 and fits 32 bits, each date is a whole day and the two are in order, a location has both
  coordinates or none, the artifacts have known types, and the creator and the organizers, of which
  there is at least one, each once, are members.\<close>

theorem pg_reads_typed:
  assumes env: "pg_env_ok pe" and reach: "pg_reachable pe db" and get: "pg_trip_get pe (Some db) i = Inr t"
  shows "t_status t \<in> {Draft, Published, Canceled} \<and>
    t_draft_visibility t \<in> (if t_status t = Draft then {Private, Public} else {OtherVisibility ''''}) \<and>
    (\<forall>c. t_capacity_rigs t = Some c \<longrightarrow> 1 \<le> c \<and> c < 2 ^ 31) \<and>
    (\<forall>d. t_start_date t = Some d \<or> t_end_date t = Some d \<longrightarrow> midnight d = d) \<and>
    (\<forall>s e. t_start_date t = Some s \<longrightarrow> t_end_date t = Some e \<longrightarrow> s \<le> e) \<and>
    (\<forall>l. t_meeting_location t = Some l \<longrightarrow> (loc_latitude l = None \<longleftrightarrow> loc_longitude l = None)) \<and>
    (\<forall>a \<in> set (t_artifacts t). art_type a \<in> {Gpx, Schedule, Document, OtherArtifact}) \<and>
    t_organizers t \<noteq> [] \<and> distinct (t_organizers t) \<and>
    (\<forall>o' \<in> insert (t_creator t) (set (t_organizers t)). \<exists>m. pg_member_get_by_id pe (Some db) o' = Inr m)"
proof -
  have ok: "pg_ok pe db" by (rule pg_reachable_ok [OF reach env])
  have ty: "pg_typed db" by (rule pg_reachable_typed [OF reach env])
  obtain r where r: "r \<in> set (db_trips db)" and t: "t = stored_trip pe db r"
    using pg_trip_get_stored [OF env ok get] by metis
  note ch = pg_okD(8) [OF ok r, unfolded trips_checks_def]
  have st: "t_status t \<in> {Draft, Published, Canceled}" using pg_okD(9) [OF ok r] by (simp add: t stored_trip_def)
  have dv: "t_draft_visibility t \<in> (if t_status t = Draft then {Private, Public} else {OtherVisibility ''''})"
    using ch pg_typedD(2) [OF ty r] by (auto simp: t stored_trip_def)
  have cap: "\<forall>c. t_capacity_rigs t = Some c \<longrightarrow> 1 \<le> c \<and> c < 2 ^ 31"
    using ch pg_typedD(3) [OF ty r] by (auto simp: t stored_trip_def)
  have days: "\<forall>d. t_start_date t = Some d \<or> t_end_date t = Some d \<longrightarrow> midnight d = d"
    by (auto simp: t stored_trip_def dateToTimePtr_map)
  have dates: "\<forall>s e. t_start_date t = Some s \<longrightarrow> t_end_date t = Some e \<longrightarrow> s \<le> e"
    using ch by (auto simp: t stored_trip_def dateToTimePtr_map midnight_mono split: option.splits)
  have loc: "\<forall>l. t_meeting_location t = Some l \<longrightarrow> (loc_latitude l = None \<longleftrightarrow> loc_longitude l = None)"
    using ch by (auto simp: t stored_trip_def meetingFromColumns_def split: option.splits if_splits)
  have art: "\<forall>a \<in> set (t_artifacts t). art_type a \<in> {Gpx, Schedule, Document, OtherArtifact}"
    using pg_typedD(4) [OF ty] by (auto simp: t stored_trip_def loadArtifacts_def order_by_def)
  have orgs: "t_organizers t \<noteq> []" "distinct (t_organizers t)"
    using pg_okD(10) [OF ok r] finite_organizers [of db "pt_id r"] pg_env_okD(1) [OF env]
    by (auto simp: t stored_trip_def distinct_map inj_on_def uuid_string_eq_iff [OF env])
  have "member_pk db (member_uuid db (pt_created_by r)) \<noteq> None"
  proof -
    obtain m where "m \<in> set (db_members db)" "pm_id m = pt_created_by r" using pg_okD(7) [OF ok r] by auto
    then show ?thesis
      using member_by_pk [OF pg_okD(2) [OF ok], of m] by (auto simp: member_uuid_def member_pk_def find_None_iff)
  qed
  moreover have "member_pk db u \<noteq> None" if "u \<in> organizer_uuids db (pt_id r)" for u
    using that by (auto simp: organizer_uuids_def)
  ultimately have "\<forall>o' \<in> insert (t_creator t) (set (t_organizers t)). \<exists>m. pg_member_get_by_id pe (Some db) o' = Inr m"
    using pg_member_known [OF env pg_okD(1) [OF ok]] finite_organizers [of db "pt_id r"]
    by (auto simp: t stored_trip_def pg_env_okD(1) [OF env])
  then show ?thesis using st dv cap days dates loc art orgs by blast
qed

theorem pg_reads_typed_witness:
  "t_status demo_read \<in> {Draft, Published, Canceled} \<and> t_organizers demo_read \<noteq> [] \<and>
   (\<exists>m. pg_member_get_by_id demo_pg_env (Some (pg_demo 4)) (t_creator demo_read) = Inr m)"
  using pg_reads_typed [OF demo_pg_env_ok pg_demo_reachable demo_get] by blast

text \<open>C13: Whatever calls follow, a trip stays in the database under its ID, with the creator and the
  creation time it has and the times at which it was published and canceled; and a canceled trip stays
  canceled.\<close>

theorem pg_life_cycle:
  assumes env: "pg_env_ok pe" and reach: "pg_reachable pe db" and r: "r \<in> set (db_trips db)"
  shows "\<exists>r' \<in> set (db_trips (pg_run pe db cs)). pt_external_id r' = pt_external_id r \<and>
    pt_created_by r' = pt_created_by r \<and> pt_created_at r' = pt_created_at r \<and>
    (pt_status r = Canceled \<longrightarrow> pt_status r' = Canceled) \<and>
    (pt_published_at r \<noteq> None \<longrightarrow> pt_published_at r' = pt_published_at r) \<and>
    (pt_canceled_at r \<noteq> None \<longrightarrow> pt_canceled_at r' = pt_canceled_at r)"
  using pg_run_keeps_trips [OF env pg_reachable_ok [OF reach env] r, of cs] by (auto simp: trip_kept_def)

theorem pg_life_cycle_witness:
  "\<exists>r' \<in> set (db_trips (pg_run demo_pg_env (pg_demo 4) (drop 4 pg_demo_calls))).
     pt_external_id r' = 16 \<and> pt_published_at r' = Some 7000"
proof -
  have "trip_row Published 1 7000 (Some 7000) None \<in> set (db_trips (pg_demo 4))"
    by (simp add: pg_demo_states trip_db_def)
  from pg_life_cycle [OF demo_pg_env_ok pg_demo_reachable this, of "drop 4 pg_demo_calls"]
  show ?thesis by (simp add: trip_row_def) blast
qed

end
