(* ===== verification/PgTripLists.thy ===== *)
theory PgTripLists
  imports PgTripRefine TripsSvc
begin

text \<open>
  The listings of the Postgres trip repository. They read part of the columns only, and order the
  rows twice, in SQL and in Go; what the trip service makes of them is what it makes of the
  in-memory listings, except that drafts come without their capacity.
\<close>

interpretation scanned_order: slice_order less_scanned_trip trip_key
  by unfold_locales (auto simp: less_scanned_trip_def trip_key_def less_prod_def' split: option.splits)

section \<open>Partial rows\<close>

definition listed_trip :: "trip \<Rightarrow> trip" where
  "listed_trip t = zero_trip\<lparr>t_id := t_id t, t_status := t_status t, t_name := t_name t,
     t_start_date := t_start_date t, t_end_date := t_end_date t, t_capacity_rigs := t_capacity_rigs t,
     t_attending_rigs := t_attending_rigs t, t_created_at := t_created_at t, t_updated_at := t_updated_at t\<rparr>"

definition listed_draft :: "trip \<Rightarrow> trip" where
  "listed_draft t = zero_trip\<lparr>t_id := t_id t, t_status := t_status t, t_name := t_name t,
     t_start_date := t_start_date t, t_end_date := t_end_date t,
     t_draft_visibility := t_draft_visibility t, t_created_at := t_created_at t, t_updated_at := t_updated_at t\<rparr>"

lemma listed_summary:
  "t_status t \<noteq> Draft \<Longrightarrow> toDomainSummary (listed_trip t) = toDomainSummary t"
  "t_status t = Draft \<Longrightarrow> toDomainSummary (listed_draft t) = (toDomainSummary t)\<lparr>ts_capacity_rigs := None\<rparr>"
  by (simp_all add: toDomainSummary_def listed_trip_def listed_draft_def zero_trip_def)

lemma listed_key [simp]: "trip_key (listed_trip t) = trip_key t" "trip_key (listed_draft t) = trip_key t"
  by (simp_all add: trip_key_def listed_trip_def listed_draft_def)

text \<open>Sorting partial rows, in whatever order they come, is sorting the trips.\<close>

lemma sort_listed:
  assumes "mset rows = mset rows'" and "\<And>t. trip_key (g t) = trip_key t" and "inj_on t_id (set rows')"
  shows "sortTrips (map g rows) = map g (sort_slice less_trip rows')"
proof -
  have inj: "inj_on trip_key (set (map g rows'))"
  proof (rule inj_onI)
    fix x y assume "x \<in> set (map g rows')" "y \<in> set (map g rows')" and eq: "trip_key x = trip_key y"
    then obtain a b where ab: "x = g a" "y = g b" "a \<in> set rows'" "b \<in> set rows'" by auto
    then have "trip_key a = trip_key b" using eq assms(2) by simp
    then have "t_id a = t_id b" by (simp add: trip_key_def)
    then show "x = y" using ab assms(3) by (auto dest: inj_onD)
  qed
  have m: "mset (map g rows) = mset (map g rows')" using assms(1) by (metis mset_map)
  have "sortTrips (map g rows) = sort_slice less_scanned_trip (map g rows')"
    unfolding sortTrips_def
    by (rule scanned_order.sort_slice_perm [OF m]) (use m inj mset_eq_setD in metis)
  also have "\<dots> = map g (sort_slice less_trip rows')"
    unfolding scanned_order.sort_slice_sort_key trip_order.sort_slice_sort_key
    by (rule sort_key_map [symmetric]) (simp add: assms(2))
  finally show ?thesis .
qed

lemma stored_ids_inj:
  assumes env: "pg_env_ok pe" and ok: "rsvps_ok db" and "distinct rows" and "set rows \<subseteq> set (db_trips db)"
  shows "inj_on t_id (set (map (stored_trip pe db) rows))"
  using assms(4) rsvps_okD(2) [OF ok]
  by (auto simp: inj_on_def stored_trip_def uuid_string_eq_iff [OF env] distinct_map)

lemma order_by_mset: "mset (order_by k rows) = mset rows"
  by (simp add: order_by_def)

section \<open>Published and canceled trips\<close>

lemma pg_list_published_abs:
  assumes env: "pg_env_ok pe" and ok: "pg_ok pe db"
  shows "pg_trip_list_published_and_canceled pe (Some db) =
    Inr (map listed_trip (trip_list_published_and_canceled (trips_abs pe db)))"
proof -
  let ?rows = "filter (\<lambda>r. pt_status r \<in> {Published, Canceled}) (db_trips db)"
  let ?sorted = "order_by (\<lambda>(r, attending). trip_row_order r)
    (filter (\<lambda>(r, attending). pt_status r \<in> {Published, Canceled}) (v_trip_summary db))"
  define sorted where "sorted = map fst ?sorted"
  have "filter (\<lambda>(r, attending). pt_status r \<in> {Published, Canceled}) (v_trip_summary db) =
      map (\<lambda>t. (t, yes_count db (pt_id t))) ?rows"
    by (simp add: v_trip_summary_def filter_map comp_def)
  then have srt: "?sorted = map (\<lambda>t. (t, yes_count db (pt_id t))) sorted" and m: "mset sorted = mset ?rows"
    using order_by_mset [of "\<lambda>(r, attending). trip_row_order r" "map (\<lambda>t. (t, yes_count db (pt_id t))) ?rows"]
    by (simp_all add: sorted_def order_by_def sort_key_map [symmetric, of _ trip_row_order] comp_def)
  have "distinct ?rows" using rsvps_okD(2) [OF pg_okD(2) [OF ok]] by (simp add: distinct_map)
  then have inj: "inj_on t_id (set (map (stored_trip pe db) ?rows))"
    by (intro stored_ids_inj [OF env pg_okD(2) [OF ok]]) auto
  have "pg_trip_list_published_and_canceled pe (Some db) =
      Inr (sortTrips (map listed_trip (map (stored_trip pe db) sorted)))"
    unfolding pg_trip_list_published_and_canceled_def with_pool_simps srt
    by (simp add: comp_def listed_trip_def stored_trip_def)
  moreover have "mset (map (stored_trip pe db) sorted) = mset (map (stored_trip pe db) ?rows)"
    using m by (metis mset_map)
  moreover have "filter (\<lambda>t. t_status t = Published \<or> t_status t = Canceled) (vals (tr_by_id (trips_abs pe db))) =
      map (stored_trip pe db) ?rows"
    by (simp add: trips_abs_def filter_map comp_def stored_trip_def)
  ultimately show ?thesis
    using sort_listed [of "map (stored_trip pe db) sorted" _ listed_trip, OF _ _ inj]
    by (simp add: trip_list_published_and_canceled_def del: map_map)
qed

section \<open>Drafts\<close>

lemma pg_list_drafts_abs:
  assumes env: "pg_env_ok pe" and ok: "pg_ok pe db" and can: "canonical_id pe caller = caller"
  shows "pg_trip_list_drafts_visible_to pe (Some db) caller =
    Inr (map listed_draft (trip_list_drafts_visible_to (trips_abs pe db) caller))"
proof (cases "pe_uuid_parse pe caller")
  case (Inl e)
  have no: "caller \<noteq> pe_uuid_string pe u" for u using Inl pg_env_okD(1) [OF env, of u] by force
  then have "\<not> isDraftVisibleTo (stored_trip pe db r) caller" for r
    by (auto simp: stored_trip_def split: draft_visibility.split)
  with Inl show ?thesis
    by (simp add: pg_trip_list_drafts_visible_to_def trip_list_drafts_visible_to_def trips_abs_def filter_map comp_def)
next
  case (Inr cu)
  then have caller: "caller = pe_uuid_string pe cu" using can by (simp add: canonical_id_def)
  let ?vis = "\<lambda>r. pt_status r = Draft \<and> isDraftVisibleTo (stored_trip pe db r) caller"
  let ?rows = "filter ?vis (db_trips db)"
  let ?sql = "\<lambda>tr m. pm_external_id m = cu \<and> pt_status tr = Draft \<and>
      (pt_draft_visibility tr = Some Private \<and> pt_created_by tr = pm_id m \<or>
       pt_draft_visibility tr = Some Public \<and>
         (\<exists>g \<in> set (db_organizers db). po_trip_id g = pt_id tr \<and> po_member_id g = pm_id m))"
  note okr = pg_okD(2) [OF ok]
  have fin: "finite (organizer_uuids db k)" for k
  proof (rule finite_subset)
    show "organizer_uuids db k \<subseteq> pm_external_id ` set (db_members db)"
      using member_pk_Some by (fastforce simp: organizer_uuids_def)
  qed simp
  have each: "concat (map (\<lambda>m. if ?sql tr m then [tr] else []) (db_members db)) = (if ?vis tr then [tr] else [])"
    if tr: "tr \<in> set (db_trips db)" for tr
  proof (cases "\<exists>m \<in> set (db_members db). pm_external_id m = cu")
    case True
    then obtain m where m: "m \<in> set (db_members db)" "pm_external_id m = cu" by blast
    have "concat (map (\<lambda>m. if ?sql tr m then [tr] else []) (db_members db)) =
        concat (map (\<lambda>x. if pm_external_id x = cu then (if ?sql tr x then [tr] else []) else []) (db_members db))"
      by (intro arg_cong [where f = concat] map_cong) simp_all
    also have "\<dots> = (if ?sql tr m then [tr] else [])"
      by (rule concat_map_if_unique [OF rsvps_okD(4) [OF okr] m])
    also have "?sql tr m \<longleftrightarrow> ?vis tr"
    proof -
      have pk: "member_pk db cu = Some (pm_id m)" by (rule member_pk_row' [OF okr m])
      have creator: "member_uuid db (pt_created_by tr) = cu \<longleftrightarrow> pt_created_by tr = pm_id m"
        using member_uuid_iff [OF okr pg_okD(7) [OF ok tr], of "pm_id m"] member_by_pk [OF okr m(1)] m
        by (auto simp: member_uuid_def)
      have org: "cu \<in> organizer_uuids db (pt_id tr) \<longleftrightarrow>
          (\<exists>g \<in> set (db_organizers db). po_trip_id g = pt_id tr \<and> po_member_id g = pm_id m)"
        by (simp add: organizer_uuids_def pk) (metis organizer_collapse pg_organizer.select_convs(1,2))
      show ?thesis
        using pg_okD(8) [OF ok tr] m(2)
        by (auto simp: stored_trip_def caller uuid_string_eq_iff [OF env] creator org [symmetric] fin
            trips_checks_def image_iff split: draft_visibility.splits)
    qed
    finally show ?thesis .
  next
    case False
    have "member_uuid db (pt_created_by tr) \<noteq> cu"
      using False pg_okD(7) [OF ok tr] member_by_pk [OF okr] by (auto simp: member_uuid_def)
    moreover have "cu \<notin> organizer_uuids db (pt_id tr)"
      using False member_pk_Some by (fastforce simp: organizer_uuids_def)
    ultimately have nv: "\<not> ?vis tr"
      by (auto simp: stored_trip_def caller uuid_string_eq_iff [OF env] fin image_iff split: draft_visibility.splits)
    have none: "concat (map (\<lambda>m. if ?sql tr m then [tr] else []) (db_members db)) = []" using False by simp
    show ?thesis unfolding none if_not_P [OF nv] by (rule refl)
  qed
  have "concat (map (\<lambda>tr. concat (map (\<lambda>m. if ?sql tr m then [tr] else []) (db_members db))) trs) = filter ?vis trs"
    if "set trs \<subseteq> set (db_trips db)" for trs
    using that each by (induction trs) simp_all
  then have sql: "[tr. tr \<leftarrow> db_trips db, m \<leftarrow> db_members db, ?sql tr m] = ?rows" by simp
  have dv: "the (pt_draft_visibility r) = derefVisibility (pt_draft_visibility r)" if "r \<in> set ?rows" for r
    using pg_okD(8) [OF ok, of r] that by (auto simp: trips_checks_def)
  define sorted where "sorted = order_by trip_row_order ?rows"
  have in_rows: "r \<in> set ?rows" if "r \<in> set sorted" for r using that by (simp add: sorted_def order_by_def)
  have row: "zero_trip\<lparr>t_id := pe_uuid_string pe (pt_external_id r), t_status := pt_status r,
      t_name := cloneStringPtr (pt_name r), t_start_date := dateToTimePtr (pt_start_date r),
      t_end_date := dateToTimePtr (pt_end_date r), t_draft_visibility := the (pt_draft_visibility r),
      t_created_at := pt_created_at r, t_updated_at := pt_updated_at r\<rparr> =
    listed_draft (stored_trip pe db r)" if "r \<in> set sorted" for r
    using dv [OF in_rows [OF that]] by (simp add: listed_draft_def stored_trip_def)
  have "pg_trip_list_drafts_visible_to pe (Some db) caller =
      Inr (sortTrips (map listed_draft (map (stored_trip pe db) sorted)))"
    unfolding pg_trip_list_drafts_visible_to_def with_pool_simps Inr sum.case sql sorted_def [symmetric]
    using row by (simp cong: map_cong)
  moreover have "mset (map (stored_trip pe db) sorted) = mset (map (stored_trip pe db) ?rows)"
    by (simp add: sorted_def order_by_mset)
  moreover have "distinct ?rows" using rsvps_okD(2) [OF okr] by (simp add: distinct_map)
  then have "inj_on t_id (set (map (stored_trip pe db) ?rows))"
    by (intro stored_ids_inj [OF env okr]) auto
  moreover have "filter (\<lambda>t. t_status t = Draft \<and> isDraftVisibleTo t caller) (vals (tr_by_id (trips_abs pe db))) =
      map (stored_trip pe db) ?rows"
    by (simp add: trips_abs_def filter_map comp_def) (simp add: stored_trip_def)
  ultimately show ?thesis
    using sort_listed [of "map (stored_trip pe db) sorted" "map (stored_trip pe db) ?rows" listed_draft]
    by (simp add: trip_list_drafts_visible_to_def del: map_map)
qed

end
