(* ===== verification/PgIdemStore.thy ===== *)
theory PgIdemStore
  imports PgTables
begin

text \<open>
  The Postgres idempotency store (internal/adapters/postgres/idempotency/store.go): the table
  \<open>idempotency_keys\<close> as the migration 000003 leaves it, one row per issuer and fingerprint. The
  store meets the contract \<open>idempotency_store\<close> under which the handlers' protocol is proved, so a
  response recorded in Postgres is replayed as one in memory is; and the rows of one issuer are
  the in-memory store's map.
\<close>

record pg_idem_row =
  pk_key :: gostring
  pk_subject_iss :: gostring
  pk_subject_sub :: SubjectID
  pk_method :: gostring
  pk_route :: gostring
  pk_body_hash :: gostring
  pk_status_code :: nat
  pk_content_type :: gostring
  pk_body :: gostring
  pk_created_at :: gotime

type_synonym pg_idem_table = "pg_idem_row list"

text \<open>The primary key.\<close>

definition idem_row_key :: "pg_idem_row \<Rightarrow> gostring \<times> fingerprint" where
  "idem_row_key r = (pk_subject_iss r, \<lparr>fp_key = pk_key r, fp_subject = pk_subject_sub r,
     fp_method = pk_method r, fp_route = pk_route r, fp_body_hash = pk_body_hash r\<rparr>)"

definition idem_row_record :: "pg_idem_row \<Rightarrow> idem_record" where
  "idem_row_record r = \<lparr>ir_status_code = pk_status_code r, ir_content_type = pk_content_type r,
     ir_body = pk_body r, ir_created_at = pk_created_at r\<rparr>"

definition pg_idem_get ::
    "gostring \<Rightarrow> pg_idem_table option \<Rightarrow> fingerprint \<Rightarrow> goerror + idem_record option" where
  "pg_idem_get issuer pool fp =
     with_pool pool (\<lambda>rows.
       case query_row (filter (\<lambda>r. idem_row_key r = (issuer, fp)) rows) of
         None \<Rightarrow> Inr None
       | Some r \<Rightarrow> Inr (Some (idem_row_record r)))"

text \<open>The column \<open>status_code\<close> is an \<open>integer\<close>. A body is not nil.\<close>

definition cast_status_code :: "nat \<Rightarrow> pg_error + nat" where
  "cast_status_code n = (if n < 2 ^ 31 then Inr n else raise NumericRangeCode '''')"

definition upsert_idem ::
    "pg_env \<Rightarrow> gostring \<Rightarrow> fingerprint \<Rightarrow> idem_record \<Rightarrow> gotime \<Rightarrow> pg_idem_table \<Rightarrow> pg_error + pg_idem_table" where
  "upsert_idem pe issuer fp rec created_at rows =
     and_then (cast_status_code (ir_status_code rec)) (\<lambda>status.
       Inr (upsert_row idem_row_key
         (\<lambda>excluded r. r\<lparr>pk_status_code := pk_status_code excluded, pk_content_type := pk_content_type excluded,
                         pk_body := pk_body excluded, pk_created_at := pk_created_at excluded\<rparr>)
         \<lparr>pk_key = fp_key fp, pk_subject_iss = issuer, pk_subject_sub = fp_subject fp,
          pk_method = fp_method fp, pk_route = fp_route fp, pk_body_hash = fp_body_hash fp,
          pk_status_code = status, pk_content_type = ir_content_type rec, pk_body = ir_body rec,
          pk_created_at = pe_timestamp pe created_at\<rparr> rows))"

definition pg_idem_put ::
    "pg_env \<Rightarrow> gostring \<Rightarrow> pg_idem_table option \<Rightarrow> gotime \<Rightarrow> fingerprint \<Rightarrow> idem_record \<Rightarrow>
     goerror + pg_idem_table" where
  "pg_idem_put pe issuer pool now fp rec =
     with_pool pool (\<lambda>rows.
       let created_at = (if ir_created_at rec = 0 then now else ir_created_at rec) in
       on_error (server_error pe) (upsert_idem pe issuer fp rec created_at rows))"

text \<open>What comes back of a record: everything but the time, which is filled in and rounded.\<close>

definition norm_idem :: "pg_env \<Rightarrow> gotime \<Rightarrow> idem_record \<Rightarrow> idem_record" where
  "norm_idem pe now rec = rec\<lparr>ir_created_at :=
     pe_timestamp pe (if ir_created_at rec = 0 then now else ir_created_at rec)\<rparr>"

section \<open>Reading what was written\<close>

lemma pg_idem_put_error:
  "isl (pg_idem_put pe issuer (Some rows) now fp rec) \<longleftrightarrow> \<not> ir_status_code rec < 2 ^ 31"
  by (auto simp: pg_idem_put_def upsert_idem_def cast_status_code_def raise_def Let_def)

lemma pg_idem_get_put:
  assumes "pg_idem_put pe issuer (Some rows) now fp rec = Inr rows'"
  shows "pg_idem_get issuer' (Some rows') fp' =
    (if issuer' = issuer \<and> fp' = fp then Inr (Some (norm_idem pe now rec))
     else pg_idem_get issuer' (Some rows) fp')"
proof -
  let ?merge = "\<lambda>excluded r. r\<lparr>pk_status_code := pk_status_code excluded,
    pk_content_type := pk_content_type excluded, pk_body := pk_body excluded,
    pk_created_at := pk_created_at excluded\<rparr>"
  define row where "row = \<lparr>pk_key = fp_key fp, pk_subject_iss = issuer, pk_subject_sub = fp_subject fp,
    pk_method = fp_method fp, pk_route = fp_route fp, pk_body_hash = fp_body_hash fp,
    pk_status_code = ir_status_code rec, pk_content_type = ir_content_type rec, pk_body = ir_body rec,
    pk_created_at = pe_timestamp pe (if ir_created_at rec = 0 then now else ir_created_at rec)\<rparr>"
  have row: "idem_row_key row = (issuer, fp)" "idem_row_record row = norm_idem pe now rec"
    by (simp_all add: row_def idem_row_key_def idem_row_record_def norm_idem_def)
  have rows': "rows' = upsert_row idem_row_key ?merge row rows"
    using assms
    by (auto simp: pg_idem_put_def upsert_idem_def cast_status_code_def raise_def Let_def on_error_Inr row_def
        split: if_splits)
  have "idem_row_record (?merge row x) = norm_idem pe now rec" for x
    unfolding row(2) [symmetric] by (simp add: idem_row_record_def)
  then show ?thesis
    using row find_upsert_row [of idem_row_key row ?merge "(issuer', fp')" rows]
    by (auto simp: pg_idem_get_def rows' query_row_filter idem_row_key_def split: option.splits)
qed

section \<open>The port\<close>

text \<open>The handlers drop the error of \<open>Put\<close> (\<open>_ = s.Idempotency.Put(...)\<close>).\<close>

definition pg_idem_put_or_ignore ::
    "pg_env \<Rightarrow> gostring \<Rightarrow> gotime \<Rightarrow> pg_idem_table \<Rightarrow> fingerprint \<Rightarrow> idem_record \<Rightarrow> pg_idem_table" where
  "pg_idem_put_or_ignore pe issuer now rows fp rec =
     (case pg_idem_put pe issuer (Some rows) now fp rec of Inl _ \<Rightarrow> rows | Inr rows' \<Rightarrow> rows')"

interpretation pg_istore: idempotency_store
  "\<lambda>rows. pg_idem_get issuer (Some rows)" "pg_idem_put_or_ignore pe issuer now" "norm_idem pe now"
proof
  fix rows fp fp' and rec :: idem_record
  show "\<exists>x. pg_idem_get issuer (Some rows) fp = Inr x"
    by (simp add: pg_idem_get_def split: option.split)
  show "pg_idem_get issuer (Some (pg_idem_put_or_ignore pe issuer now rows fp rec)) fp =
      Inr (Some (norm_idem pe now rec))" if small: "ir_status_code rec < 2 ^ 31"
  proof -
    obtain rows' where "pg_idem_put pe issuer (Some rows) now fp rec = Inr rows'"
      using small pg_idem_put_error [of pe issuer rows now fp rec]
      by (cases "pg_idem_put pe issuer (Some rows) now fp rec") auto
    then show ?thesis by (simp add: pg_idem_put_or_ignore_def pg_idem_get_put)
  qed
  show "pg_idem_get issuer (Some (pg_idem_put_or_ignore pe issuer now rows fp rec)) fp' =
      pg_idem_get issuer (Some rows) fp'" if "fp' \<noteq> fp"
    using that by (auto simp: pg_idem_put_or_ignore_def pg_idem_get_put split: sum.split)
qed (simp_all add: norm_idem_def)

section \<open>Refinement of the in-memory store\<close>

definition idem_abs :: "gostring \<Rightarrow> pg_idem_table \<Rightarrow> idem_store" where
  "idem_abs issuer rows =
     \<lparr>is_m = map (\<lambda>r. (snd (idem_row_key r), idem_row_record r)) (filter (\<lambda>r. pk_subject_iss r = issuer) rows)\<rparr>"

lemma pg_idem_get_abs: "pg_idem_get issuer (Some rows) fp = idem_get (idem_abs issuer rows) fp"
proof -
  have "map_of (map (\<lambda>r. (snd (idem_row_key r), idem_row_record r)) (filter (\<lambda>r. pk_subject_iss r = issuer) rows)) fp =
      map_option idem_row_record (find (\<lambda>r. idem_row_key r = (issuer, fp)) rows)"
    by (induction rows) (auto simp: idem_row_key_def)
  then show ?thesis
    by (simp add: pg_idem_get_def idem_get_def idem_abs_def query_row_filter split: option.split)
qed

lemma pg_idem_put_abs:
  assumes "pg_idem_put pe issuer (Some rows) now fp rec = Inr rows'"
  shows "idem_get (idem_abs issuer rows') = idem_get (idem_put (idem_abs issuer rows) fp (norm_idem pe now rec))"
    and "issuer' \<noteq> issuer \<Longrightarrow> idem_get (idem_abs issuer' rows') = idem_get (idem_abs issuer' rows)"
  using pg_idem_get_put [OF assms] pg_idem_get_abs
  by (auto simp: fun_eq_iff idem_put_def idem_get_def)

end
