(* ===== verification/PgRefinement.thy ===== *)
theory PgRefinement
  imports PgProperties PgTripLists PgIdemStore
begin

text \<open>
  The Postgres repositories against the in-memory ones. The tables are read as the states of the
  in-memory repositories (\<open>trips_abs\<close>, \<open>rsvps_abs\<close>, \<open>members_abs\<close>, \<open>idem_abs\<close>); every
  operation of a Postgres adapter is the in-memory operation on them, with the differences spelled
  out: IDs in canonical form, the database's clock, and what the columns can hold.
\<close>

section \<open>Trips\<close>

text \<open>C12: A save over Postgres is the save of the in-memory repository, of the trip in the form the
  columns hold (canonical IDs, sorted organizers, whole days, no visibility beyond a draft, the
  creator and the creation time the trip has, the database's time): that trip is read back, and every
  other trip reads as before. The artifacts must not be those of another trip, and none may be listed
  twice (the service accepts a repeated artifact, of which Postgres keeps one row:
  \<open>repeated_artifact_kept_once\<close>).\<close>

theorem pg_save_read_back:
  assumes env: "pg_env_ok pe" and reach: "pg_reachable pe db"
    and save: "pg_trip_save pe (Some db) now t = Inr db'"
    and u: "pe_uuid_parse pe (t_id t) = Inr u" and free: "artifacts_free pe db u (t_artifacts t)"
  shows "\<exists>old n new. pg_trip_get pe (Some db) (t_id t) = Inr old \<and>
    pg_rsvp_count_yes_by_trip pe (Some db) (canonical_id pe (t_id t)) = Inr n \<and>
    new = saved_trip pe now n old t \<and> trip_save (trips_abs pe db) new = Inr (trips_abs pe db') \<and>
    pg_trip_get pe (Some db') (t_id t) = Inr new \<and>
    (\<forall>i. canonical_id pe i \<noteq> canonical_id pe (t_id t) \<longrightarrow> pg_trip_get pe (Some db') i = pg_trip_get pe (Some db) i)"
proof -
  let ?i = "canonical_id pe (t_id t)"
  have ok: "pg_ok pe db" by (rule pg_reachable_ok [OF reach env])
  have ok': "pg_ok pe db'" by (rule pg_trip_save_pg_ok [OF env ok save])
  define n where "n = rsvp_count_yes_by_trip (rsvps_abs pe db) ?i"
  obtain old where old: "trip_get (trips_abs pe db) ?i = Inr old"
    and sv: "trip_save (trips_abs pe db) (saved_trip pe now n old t) = Inr (trips_abs pe db')"
    using pg_trip_save_sim [OF env ok save u free refl] unfolding n_def by blast
  have "canonical_id pe ?i = ?i" using u by (simp add: canonical_id_def pg_env_okD(1) [OF env])
  then have count: "pg_rsvp_count_yes_by_trip pe (Some db) ?i = Inr n"
    by (simp add: n_def pg_rsvp_count_abs [OF env pg_okD(2) [OF ok]])
  have "t_id (saved_trip pe now n old t) = ?i" by (simp add: saved_trip_def norm_trip_def)
  then have "trips_abs pe db' = trip_put (trips_abs pe db) ?i (saved_trip pe now n old t)"
    using sv by (simp add: trip_save_put split: if_splits)
  then have look: "trip_lookup (trips_abs pe db') i =
      (if i = ?i then Some (saved_trip pe now n old t) else trip_lookup (trips_abs pe db) i)" for i
    by (auto simp: trip_lookup_def trip_put_def update_conv')
  then show ?thesis
    using old sv count
    by (intro exI [of _ old] exI [of _ n] exI)
       (auto simp: pg_trip_get_abs [OF env ok] pg_trip_get_abs [OF env ok'] trip_get_cases)
qed

theorem pg_save_read_back_witness:
  "\<exists>old n. pg_trip_get demo_pg_env (Some (pg_demo 3)) (uid 16) = Inr old \<and>
    pg_trip_get demo_pg_env (Some (pg_demo 4)) (uid 16) =
      Inr (saved_trip demo_pg_env 7000 n old (pg_demo_trip Published 1))"
proof -
  have "pg_demo 4 = pg_exec demo_pg_env (pg_demo 3) (TripSave 7000 (pg_demo_trip Published 1))"
    by (simp only: pg_demo_states demo_publish)
  moreover have "pg_demo 3 \<noteq> pg_demo 4" by (simp add: pg_demo_states pg_rows)
  ultimately have s: "pg_trip_save demo_pg_env (Some (pg_demo 3)) 7000 (pg_demo_trip Published 1) = Inr (pg_demo 4)"
    by (simp add: pg_exec_def split: sum.splits)
  have i: "t_id (pg_demo_trip Published 1) = uid 16" by (simp add: pg_demo_trip_def)
  have u: "pe_uuid_parse demo_pg_env (t_id (pg_demo_trip Published 1)) = Inr 16"
    by (simp add: i demo_pg_env_simps parse_uid)
  have f: "artifacts_free demo_pg_env (pg_demo 3) 16 (t_artifacts (pg_demo_trip Published 1))"
    by (simp add: artifacts_free_def pg_demo_states trip_db_def trip_row_def trip_pk_def pg_demo_trip_def
        demo_pg_env_simps parse_uid)
  show ?thesis
    using pg_save_read_back [OF demo_pg_env_ok pg_demo_reachable s u f] unfolding i by blast
qed

text \<open>C17: The organizers of a published trip that is read and saved with other organizers: the save is
  accepted exactly when one of the organizers it has stays and every ID that is a UUID is a member's;
  organizers are removed before new ones are added, so all of them cannot be replaced at once.\<close>

theorem pg_organizers_exact:
  assumes env: "pg_env_ok pe" and reach: "pg_reachable pe db"
    and get: "pg_trip_get pe (Some db) i = Inr t" and st: "t_status t = Published"
  shows "(\<exists>db'. pg_trip_save pe (Some db) now (t\<lparr>t_organizers := os\<rparr>) = Inr db') \<longleftrightarrow>
    (\<exists>o' \<in> set os. canonical_id pe o' \<in> set (t_organizers t)) \<and>
    (\<forall>o' \<in> set os. isl (pe_uuid_parse pe o') \<or> (\<exists>m. pg_member_get_by_id pe (Some db) o' = Inr m))"
proof -
  have ok: "pg_ok pe db" by (rule pg_reachable_ok [OF reach env])
  have ty: "pg_typed db" by (rule pg_reachable_typed [OF reach env])
  obtain r where r: "r \<in> set (db_trips db)" and t: "t = stored_trip pe db r"
    using pg_trip_get_stored [OF env ok get] by metis
  let ?u = "pt_external_id r" and ?t = "t\<lparr>t_organizers := os\<rparr>"
  have id: "pe_uuid_parse pe (t_id ?t) = Inr ?u" by (simp add: t stored_trip_def pg_env_okD(1) [OF env])
  have "t = (stored_trip pe db r)\<lparr>t_attending_rigs := t_attending_rigs t, t_updated_at := t_updated_at t\<rparr>"
    by (simp add: t)
  then have again: "save_accepted pe db now ?u r t"
    using again_accepted [OF env ok ty r, where x = "t_attending_rigs t" and y = "t_updated_at t"] st
    by (simp add: t stored_trip_def)
  have same: "trip_values ?t = trip_values t" by (simp add: trip_values_def draftVisibilityForDB_def)
  have "(\<exists>db'. pg_trip_save pe (Some db) now ?t = Inr db') \<longleftrightarrow> \<not> isl (pg_trip_save pe (Some db) now ?t)"
    by (cases "pg_trip_save pe (Some db) now ?t") simp_all
  also have "\<dots> \<longleftrightarrow> organizer_uuids db (pt_id r) \<inter> parsed pe os \<noteq> {} \<and> (\<forall>v \<in> parsed pe os. member_pk db v \<noteq> None)"
    using pg_trip_save_accepted [OF env ok id r refl, of now] again
    by (simp add: save_accepted_def same cong: sum.case_cong)
  also have "organizer_uuids db (pt_id r) \<inter> parsed pe os \<noteq> {} \<longleftrightarrow>
      (\<exists>o' \<in> set os. canonical_id pe o' \<in> set (t_organizers t))"
  proof -
    have "canonical_id pe o' \<in> set (t_organizers t) \<longleftrightarrow>
        (\<exists>v. pe_uuid_parse pe o' = Inr v \<and> v \<in> organizer_uuids db (pt_id r))" for o'
      using finite_organizers [of db "pt_id r"]
      by (cases "pe_uuid_parse pe o'")
         (auto simp: t stored_trip_def canonical_id_def uuid_string_eq_iff [OF env] pg_env_okD(1) [OF env])
    then show ?thesis by (auto simp: parsed_def)
  qed
  also have "(\<forall>v \<in> parsed pe os. member_pk db v \<noteq> None) \<longleftrightarrow>
      (\<forall>o' \<in> set os. isl (pe_uuid_parse pe o') \<or> (\<exists>m. pg_member_get_by_id pe (Some db) o' = Inr m))"
  proof -
    have "isl (pe_uuid_parse pe o') \<or> (\<exists>m. pg_member_get_by_id pe (Some db) o' = Inr m) \<longleftrightarrow>
        (\<forall>v. pe_uuid_parse pe o' = Inr v \<longrightarrow> member_pk db v \<noteq> None)" for o'
      unfolding pg_member_known [OF env pg_okD(1) [OF ok]] by (cases "pe_uuid_parse pe o'") simp_all
    then show ?thesis by (auto simp: parsed_def)
  qed
  finally show ?thesis .
qed

text \<open>Ann organizes the trip: she stays and Bob joins her, but she cannot be replaced by him.\<close>

theorem pg_organizers_exact_witness:
  "(\<exists>db'. pg_trip_save demo_pg_env (Some (pg_demo 4)) 8000 (demo_read\<lparr>t_organizers := [uid 1, uid 2]\<rparr>) = Inr db') \<and>
   (\<nexists>db'. pg_trip_save demo_pg_env (Some (pg_demo 4)) 8000 (demo_read\<lparr>t_organizers := [uid 2]\<rparr>) = Inr db')"
proof -
  have st: "t_status demo_read = Published" by (simp add: demo_read_def pg_demo_trip_def)
  have orgs: "t_organizers demo_read = [uid 1]" by (simp add: demo_read_def pg_demo_trip_def)
  have "\<exists>m. pg_member_get_by_id demo_pg_env (Some (pg_demo 4)) (uid n) = Inr m" if "n \<in> {1, 2}" for n
    unfolding pg_member_known [OF demo_pg_env_ok pg_okD(1) [OF pg_demo_ok]]
    using that
    by (intro exI [of _ "word_of_nat n"])
       (auto simp: demo_pg_env_simps parse_uid pg_demo_states pg_rows member_pk_def)
  moreover have "canonical_id demo_pg_env (uid n) = uid n" if "n \<in> {1, 2}" for n
    using that by (auto simp: canonical_id_def demo_pg_env_simps parse_uid hex_uuid_def)
  moreover have "uid 1 \<noteq> uid 2" by (simp add: uid_def hex_of_inj)
  ultimately show ?thesis
    using orgs by (simp add: pg_organizers_exact [OF demo_pg_env_ok pg_demo_reachable demo_get st])
qed

text \<open>C24: The listings over Postgres show the service what the in-memory listings show it: the published
  and canceled trips in the same order with the same summaries, and for a member the same drafts,
  which lack their capacity only.\<close>

theorem pg_listings_agree:
  assumes env: "pg_env_ok pe" and reach: "pg_reachable pe db" and w: "w_trips w = trips_abs pe db"
    and can: "canonical_id pe caller = caller"
  shows "\<exists>ts ds. pg_trip_list_published_and_canceled pe (Some db) = Inr ts \<and>
    map toDomainSummary ts = ListVisibleTripsForMember w \<and>
    pg_trip_list_drafts_visible_to pe (Some db) caller = Inr ds \<and>
    map toDomainSummary ds = map (\<lambda>s. s\<lparr>ts_capacity_rigs := None\<rparr>) (ListMyDraftTrips w caller)"
proof -
  have ok: "pg_ok pe db" by (rule pg_reachable_ok [OF reach env])
  have "t_status t \<noteq> Draft" if "t \<in> set (trip_list_published_and_canceled (trips_abs pe db))" for t
    using that by (auto simp: trip_list_published_and_canceled_def)
  then have "map toDomainSummary (map listed_trip (trip_list_published_and_canceled (trips_abs pe db))) =
      ListVisibleTripsForMember w"
    by (simp add: ListVisibleTripsForMember_def w listed_summary)
  moreover have "t_status t = Draft" if "t \<in> set (trip_list_drafts_visible_to (trips_abs pe db) caller)" for t
    using that by (auto simp: trip_list_drafts_visible_to_def)
  then have "map toDomainSummary (map listed_draft (trip_list_drafts_visible_to (trips_abs pe db) caller)) =
      map (\<lambda>s. s\<lparr>ts_capacity_rigs := None\<rparr>) (ListMyDraftTrips w caller)"
    by (simp add: ListMyDraftTrips_def w listed_summary)
  ultimately show ?thesis
    using pg_list_published_abs [OF env ok] pg_list_drafts_abs [OF env ok can] by blast
qed

theorem pg_listings_agree_witness:
  "\<exists>ts ds. pg_trip_list_published_and_canceled demo_pg_env (Some (pg_demo 3)) = Inr ts \<and>
    map toDomainSummary ts = ListVisibleTripsForMember (new_world\<lparr>w_trips := trips_abs demo_pg_env (pg_demo 3)\<rparr>) \<and>
    pg_trip_list_drafts_visible_to demo_pg_env (Some (pg_demo 3)) (uid 1) = Inr ds \<and>
    map toDomainSummary ds = map (\<lambda>s. s\<lparr>ts_capacity_rigs := None\<rparr>)
      (ListMyDraftTrips (new_world\<lparr>w_trips := trips_abs demo_pg_env (pg_demo 3)\<rparr>) (uid 1))"
  by (rule pg_listings_agree [OF demo_pg_env_ok pg_demo_reachable])
     (simp_all add: canonical_id_def demo_pg_env_simps parse_uid hex_uuid_def)

section \<open>RSVPs\<close>

text \<open>What an accepted answer has met, and that it is enough.\<close>

lemma pg_rsvp_accepted_only:
  assumes env: "pg_env_ok pe" and ok: "pg_ok pe db" and ups: "pg_rsvp_upsert pe (Some db) now rec = Inr db'"
  shows "\<exists>t c n m. pg_trip_get pe (Some db) (rs_trip rec) = Inr t \<and> t_status t = Published \<and>
    t_capacity_rigs t = Some c \<and> t_attending_rigs t = Some n \<and>
    pg_member_get_by_id pe (Some db) (rs_member rec) = Inr m \<and> rs_status rec \<in> {Yes, No, Unset} \<and>
    (rs_status rec = Yes \<longrightarrow> n < c)"
proof -
  obtain r c and m :: pg_member where
    r: "r \<in> set (db_trips db)" "pe_uuid_parse pe (rs_trip rec) = Inr (pt_external_id r)"
    and m: "m \<in> set (db_members db)" "pe_uuid_parse pe (rs_member rec) = Inr (pm_external_id m)"
    and c: "pt_status r = Published" "pt_capacity_rigs r = Some c" "\<forall>s. rs_status rec \<noteq> OtherResponse s"
      "rs_status rec = Yes \<longrightarrow> yes_count db (pt_id r) < c"
    using ups by (rule pg_rsvp_upsertE [OF pg_okD(2) [OF ok]])
  have "\<exists>row. pg_member_get_by_id pe (Some db) (rs_member rec) = Inr row"
    unfolding pg_member_known [OF env pg_okD(1) [OF ok]] using m by (auto simp: member_pk_def find_None_iff)
  moreover have "rs_status rec \<in> {Yes, No, Unset}" using c(3) by (cases "rs_status rec") auto
  ultimately show ?thesis using pg_trip_known [OF env ok r] c by (auto simp: stored_trip_def)
qed

lemma pg_rsvp_accepted_if:
  assumes env: "pg_env_ok pe" and ok: "pg_ok pe db"
    and t: "pg_trip_get pe (Some db) (rs_trip rec) = Inr t" "t_status t = Published"
      "t_capacity_rigs t = Some c" "t_attending_rigs t = Some n"
    and m: "pg_member_get_by_id pe (Some db) (rs_member rec) = Inr m"
    and st: "rs_status rec \<in> {Yes, No, Unset}" "rs_status rec = Yes \<longrightarrow> n < c"
  shows "\<exists>db'. pg_rsvp_upsert pe (Some db) now rec = Inr db'"
proof -
  obtain r where r: "r \<in> set (db_trips db)" "t = stored_trip pe db r"
    and i: "canonical_id pe (rs_trip rec) = pe_uuid_string pe (pt_external_id r)"
    using pg_trip_get_stored [OF env ok t(1)] .
  have u: "pe_uuid_parse pe (rs_trip rec) = Inr (pt_external_id r)"
    using i t(1) by (cases "pe_uuid_parse pe (rs_trip rec)")
      (simp_all add: canonical_id_def pg_trip_get_unfold uuid_string_eq_iff [OF env])
  obtain v where v: "pe_uuid_parse pe (rs_member rec) = Inr v" "member_pk db v \<noteq> None"
    using pg_member_known [OF env pg_okD(1) [OF ok]] m by blast
  have "1 \<le> c" using pg_okD(8) [OF ok r(1)] t r(2) by (simp add: trips_checks_def stored_trip_def)
  then show ?thesis
    using upsert_accepted [OF env pg_okD(2) [OF ok] r(1) u v, of c now] t r(2) st
    by (auto simp: stored_trip_def split: if_splits)
qed

text \<open>The contract tests of the repositories (internal/adapters/contracttest) store a YES for a draft and
  expect it to be counted; the trigger refuses it.\<close>

lemma draft_answer_refused:
  assumes "pg_env_ok pe" and "pg_ok pe db" and "pg_trip_get pe (Some db) (rs_trip rec) = Inr t" and "t_status t = Draft"
  shows "\<nexists>db'. pg_rsvp_upsert pe (Some db) now rec = Inr db'"
  using pg_rsvp_accepted_only [OF assms(1,2), of now rec] assms(3,4) by auto

text \<open>C16: An answer is stored exactly when the trip can be read and is published with a capacity, the
  member exists, the answer is one of the three, and a YES finds a free seat (also a YES that is sent
  again); then it is the upsert of the in-memory repository, at the database's time. In particular an
  answer for a draft, which the in-memory repository and the shared contract test accept, is refused.\<close>

theorem pg_rsvp_exact:
  assumes env: "pg_env_ok pe" and reach: "pg_reachable pe db"
  shows "(\<forall>db'. pg_rsvp_upsert pe (Some db) now rec = Inr db' \<longrightarrow>
      rsvps_abs pe db' = rsvp_upsert (rsvps_abs pe db) (norm_rsvp pe now rec)) \<and>
    ((\<exists>db'. pg_rsvp_upsert pe (Some db) now rec = Inr db') \<longleftrightarrow>
      (\<exists>t c n m. pg_trip_get pe (Some db) (rs_trip rec) = Inr t \<and> t_status t = Published \<and>
         t_capacity_rigs t = Some c \<and> t_attending_rigs t = Some n \<and>
         pg_member_get_by_id pe (Some db) (rs_member rec) = Inr m \<and> rs_status rec \<in> {Yes, No, Unset} \<and>
         (rs_status rec = Yes \<longrightarrow> n < c)))"
proof (intro conjI allI impI)
  have ok: "pg_ok pe db" by (rule pg_reachable_ok [OF reach env])
  show "rsvps_abs pe db' = rsvp_upsert (rsvps_abs pe db) (norm_rsvp pe now rec)"
    if "pg_rsvp_upsert pe (Some db) now rec = Inr db'" for db'
    by (rule pg_rsvp_upsert_sim [OF env pg_okD(2) [OF ok] that])
  show "(\<exists>db'. pg_rsvp_upsert pe (Some db) now rec = Inr db') \<longleftrightarrow>
      (\<exists>t c n m. pg_trip_get pe (Some db) (rs_trip rec) = Inr t \<and> t_status t = Published \<and>
         t_capacity_rigs t = Some c \<and> t_attending_rigs t = Some n \<and>
         pg_member_get_by_id pe (Some db) (rs_member rec) = Inr m \<and> rs_status rec \<in> {Yes, No, Unset} \<and>
         (rs_status rec = Yes \<longrightarrow> n < c))"
    using pg_rsvp_accepted_only [OF env ok] pg_rsvp_accepted_if [OF env ok] by blast
qed

text \<open>Ann has the only seat: Bob's YES is refused, and her own if she sends it again; her NO is not.\<close>

theorem pg_rsvp_exact_witness:
  "(\<nexists>db'. pg_rsvp_upsert demo_pg_env (Some (pg_demo 5)) 9000 (pg_demo_rsvp 2 Yes) = Inr db') \<and>
   (\<nexists>db'. pg_rsvp_upsert demo_pg_env (Some (pg_demo 5)) 9000 (pg_demo_rsvp 1 Yes) = Inr db') \<and>
   (\<exists>db'. pg_rsvp_upsert demo_pg_env (Some (pg_demo 5)) 9000 (pg_demo_rsvp 1 No) = Inr db')"
proof -
  have "pg_trip_get demo_pg_env (Some (pg_demo 5)) (uid 16) = Inr (demo_read\<lparr>t_attending_rigs := Some 1\<rparr>)"
    by (simp add: pg_demo_states pg_trip_get_unfold demo_read_def pg_data pg_rows loadOrganizerExternalIDs_def
        loadArtifacts_def order_by_single trip_pk_def hex_uuid_def countYesByTripUUID_def meetingFromColumns_def
        midnight_def)
  moreover have "\<exists>m. pg_member_get_by_id demo_pg_env (Some (pg_demo 5)) (uid 1) = Inr m"
    unfolding pg_member_known [OF demo_pg_env_ok pg_okD(1) [OF pg_demo_ok]]
    by (intro exI [of _ 1]) (simp add: demo_pg_env_simps parse_uid pg_demo_states pg_rows member_pk_def)
  moreover have "t_status demo_read = Published" "t_capacity_rigs demo_read = Some 1"
    by (simp_all add: demo_read_def pg_demo_trip_def)
  moreover have "rs_trip (pg_demo_rsvp n r) = uid 16" "rs_member (pg_demo_rsvp n r) = uid n"
    "rs_status (pg_demo_rsvp n r) = r" for n r by (simp_all add: pg_demo_rsvp_def)
  ultimately show ?thesis
    using pg_rsvp_exact [OF demo_pg_env_ok pg_demo_reachable, THEN conjunct2] by simp
qed

text \<open>C14: SetMyRSVP over Postgres, run without others, is SetMyRSVP over the in-memory repositories
  read off the tables: the same answer, and the same trips and RSVPs afterwards. The caller is a
  member, the IDs are in canonical form, and the database's clock reads what the service's does.\<close>

theorem pg_alone_refines:
  assumes env: "pg_env_ok pe" and reach: "pg_reachable pe db"
    and can: "canonical_id pe (rq_trip rq) = rq_trip rq" "canonical_id pe (rq_caller rq) = rq_caller rq"
    and m: "pg_member_get_by_id pe (Some db) (rq_caller rq) = Inr m"
    and clock: "pe_timestamp pe n7 = rq_now1 rq" "pe_timestamp pe n8 = rq_now2 rq"
    and w: "w_trips w = trips_abs pe db" "w_rsvps w = rsvps_abs pe db"
    and res: "SetMyRSVP w (rq_caller rq) (rq_trip rq) (rq_response rq) (rq_now1 rq) (rq_now2 rq) = (ans, w')"
  shows "\<exists>db'. pg_alone pe [n1, n2, n3, n4, n5, n6, n7, n8] rq (db, GetRow) = (db', Answered ans) \<and>
    w_trips w' = trips_abs pe db' \<and> w_rsvps w' = rsvps_abs pe db'"
proof -
  have ok: "pg_ok pe db" by (rule pg_reachable_ok [OF reach env])
  obtain v where v: "pe_uuid_parse pe (rq_caller rq) = Inr v" "member_pk db v \<noteq> None"
    using pg_member_known [OF env pg_okD(1) [OF ok]] m by blast
  show ?thesis
    by (rule pg_alone_is_SetMyRSVP [OF env ok pg_reachable_typed [OF reach env] can v clock w res])
qed

theorem pg_alone_refines_witness:
  "\<exists>db' ans. pg_alone demo_pg_env (replicate 8 8000) (demo_request 1) (pg_demo 4, GetRow) =
     (db', Answered ans)"
proof -
  let ?w = "new_world\<lparr>w_trips := trips_abs demo_pg_env (pg_demo 4), w_rsvps := rsvps_abs demo_pg_env (pg_demo 4)\<rparr>"
  let ?rq = "demo_request 1"
  obtain ans w' where res: "SetMyRSVP ?w (rq_caller ?rq) (rq_trip ?rq) (rq_response ?rq)
      (rq_now1 ?rq) (rq_now2 ?rq) = (ans, w')" by fastforce
  have can: "canonical_id demo_pg_env (rq_trip ?rq) = rq_trip ?rq"
    "canonical_id demo_pg_env (rq_caller ?rq) = rq_caller ?rq"
    by (simp_all add: demo_request_def canonical_id_def demo_pg_env_simps parse_uid hex_uuid_def)
  obtain m where m: "pg_member_get_by_id demo_pg_env (Some (pg_demo 4)) (rq_caller ?rq) = Inr m"
    using pg_member_known [OF demo_pg_env_ok pg_okD(1) [OF pg_demo_ok [of 4]], of "rq_caller ?rq"]
    by (auto simp: demo_request_def demo_pg_env_simps parse_uid pg_demo_states pg_rows member_pk_def)
  have clock: "pe_timestamp demo_pg_env 8000 = rq_now1 ?rq" "pe_timestamp demo_pg_env 8000 = rq_now2 ?rq"
    by (simp_all add: demo_request_def demo_pg_env_simps microseconds_def)
  have w: "w_trips ?w = trips_abs demo_pg_env (pg_demo 4)" "w_rsvps ?w = rsvps_abs demo_pg_env (pg_demo 4)"
    by simp_all
  show ?thesis
    using pg_alone_refines [OF demo_pg_env_ok pg_demo_reachable can m clock w res, of 8000 8000 8000 8000 8000 8000]
    by (simp add: numeral_eq_Suc del: pg_alone.simps) blast
qed

section \<open>Members\<close>

text \<open>A creation that succeeds met none of the unique constraints.\<close>

lemma pg_member_create_fresh:
  assumes u: "pe_uuid_parse pe (mr_id m) = Inr u" and c: "pg_member_create pe issuer (Some db) now m = Inr db'"
    and x: "x \<in> set (db_members db)"
  shows "pm_external_id x \<noteq> u \<and> \<not> (pm_subject_iss x = issuer \<and> pm_subject_sub x = mr_subject m) \<and>
    pe_citext pe (pm_email x) \<noteq> pe_citext pe (mr_email m)"
  using c
proof (rule pg_member_createE)
  fix v db1
  assume "pe_uuid_parse pe (mr_id m) = Inr v" and "insert_member pe
      \<lparr>pm_id = 0, pm_external_id = v, pm_subject_iss = issuer, pm_subject_sub = mr_subject m,
       pm_display_name = mr_display_name m, pm_email = mr_email m, pm_group_alias_email = mr_group_alias_email m,
       pm_is_active = mr_is_active m, pm_created_at = pe_timestamp pe (mr_created_at m),
       pm_updated_at = pe_timestamp pe (mr_updated_at m)\<rparr> db = Inr db1"
  then show ?thesis using u x by (auto simp: insert_member_Inr members_violations_none)
qed

text \<open>C23: The member repository over Postgres: reading by ID and by subject is reading in memory; a
  creation or an update that succeeds is the in-memory one, of the member with canonical ID, times as
  the columns keep them and no empty vehicle profile. A creation of a member whose ID is a UUID
  succeeds exactly when no member has its ID, its issuer and subject, or its email in any case; an
  error names something that is taken: the ID and the subject are the port's errors, the email is
  the server's, and of several the database chooses.\<close>

theorem pg_members_refine:
  assumes env: "pg_env_ok pe" and reach: "pg_reachable pe db" and u: "pe_uuid_parse pe (mr_id m) = Inr u"
  shows "pg_member_get_by_id pe (Some db) i = member_get_by_id (members_abs pe issuer db) (canonical_id pe i) \<and>
    pg_member_get_by_subject pe issuer (Some db) s = member_get_by_subject (members_abs pe issuer db) s \<and>
    ((\<exists>db'. pg_member_create pe issuer (Some db) now m = Inr db') \<longleftrightarrow>
       (\<forall>x \<in> set (db_members db). pm_external_id x \<noteq> u \<and>
          \<not> (pm_subject_iss x = issuer \<and> pm_subject_sub x = mr_subject m) \<and>
          pe_citext pe (pm_email x) \<noteq> pe_citext pe (mr_email m))) \<and>
    (case pg_member_create pe issuer (Some db) now m of
       Inr db' \<Rightarrow> member_create (members_abs pe issuer db) (norm_member pe m) = Inr (members_abs pe issuer db')
     | Inl e \<Rightarrow> e = MemberAlreadyExists \<and> (\<exists>x \<in> set (db_members db). pm_external_id x = u) \<or>
         e = MemberSubjectAlreadyBound \<and>
           (\<exists>x \<in> set (db_members db). pm_subject_iss x = issuer \<and> pm_subject_sub x = mr_subject m) \<or>
         (\<exists>t. e = OtherError t) \<and>
           (\<exists>x \<in> set (db_members db). pe_citext pe (pm_email x) = pe_citext pe (mr_email m))) \<and>
    (\<forall>db'. pg_member_update pe (Some db) now m = Inr db' \<longrightarrow>
       (\<exists>old. pg_member_get_by_id pe (Some db) (mr_id m) = Inr old \<and> mr_subject old = mr_subject m \<and>
          member_update (members_abs pe issuer db)
            ((norm_member pe m)\<lparr>mr_created_at := mr_created_at old, mr_updated_at := pe_timestamp pe now\<rparr>) =
          Inr (members_abs pe issuer db')))"
proof -
  have ok: "members_ok pe db" by (rule pg_okD(1) [OF pg_reachable_ok [OF reach env]])
  have "(\<exists>db'. pg_member_create pe issuer (Some db) now m = Inr db') \<longleftrightarrow>
       (\<forall>x \<in> set (db_members db). pm_external_id x \<noteq> u \<and>
          \<not> (pm_subject_iss x = issuer \<and> pm_subject_sub x = mr_subject m) \<and>
          pe_citext pe (pm_email x) \<noteq> pe_citext pe (mr_email m))"
    using pg_member_create_fresh [OF u, of issuer db now] pg_member_create_error [OF env ok u, of issuer now]
    by (cases "pg_member_create pe issuer (Some db) now m") auto
  moreover have "case pg_member_create pe issuer (Some db) now m of
       Inr db' \<Rightarrow> member_create (members_abs pe issuer db) (norm_member pe m) = Inr (members_abs pe issuer db')
     | Inl e \<Rightarrow> e = MemberAlreadyExists \<and> (\<exists>x \<in> set (db_members db). pm_external_id x = u) \<or>
         e = MemberSubjectAlreadyBound \<and>
           (\<exists>x \<in> set (db_members db). pm_subject_iss x = issuer \<and> pm_subject_sub x = mr_subject m) \<or>
         (\<exists>t. e = OtherError t) \<and>
           (\<exists>x \<in> set (db_members db). pe_citext pe (pm_email x) = pe_citext pe (mr_email m))"
    using pg_member_create_error [OF env ok u, of issuer now] pg_member_create_sim(1) [OF env ok, of issuer now m]
    by (auto split: sum.split)
  moreover have "\<exists>old. pg_member_get_by_id pe (Some db) (mr_id m) = Inr old \<and> mr_subject old = mr_subject m \<and>
      member_update (members_abs pe issuer db)
        ((norm_member pe m)\<lparr>mr_created_at := mr_created_at old, mr_updated_at := pe_timestamp pe now\<rparr>) =
      Inr (members_abs pe issuer db')" if "pg_member_update pe (Some db) now m = Inr db'" for db'
    using pg_member_update_sim [OF env ok that] by metis
  ultimately show ?thesis
    using pg_member_get_by_id_abs [OF env ok] pg_member_get_by_subject_abs [OF env ok] by blast
qed

theorem pg_members_refine_witness:
  "\<exists>db'. pg_member_create demo_pg_env ''iss'' (Some (pg_demo 4)) 9000 (pg_demo_member 3 ''Eve'') = Inr db' \<and>
    member_create (members_abs demo_pg_env ''iss'' (pg_demo 4)) (norm_member demo_pg_env (pg_demo_member 3 ''Eve'')) =
      Inr (members_abs demo_pg_env ''iss'' db')"
proof -
  have "\<exists>db'. pg_member_create demo_pg_env ''iss'' (Some (pg_demo 4)) 9000 (pg_demo_member 3 ''Eve'') = Inr db'"
    by (simp add: pg_member_create_def pg_demo_states pg_data pg_rows insert_member_def members_violations_def)
  then obtain db' where
    c: "pg_member_create demo_pg_env ''iss'' (Some (pg_demo 4)) 9000 (pg_demo_member 3 ''Eve'') = Inr db'" by blast
  have "pe_uuid_parse demo_pg_env (mr_id (pg_demo_member 3 ''Eve'')) = Inr 3"
    by (simp add: pg_demo_member_def demo_pg_env_simps parse_uid)
  from pg_members_refine [OF demo_pg_env_ok pg_demo_reachable this, of 4 "''x''" "''iss''" "''s''" 9000]
  show ?thesis using c by simp
qed

section \<open>Idempotency\<close>

text \<open>C25: The handlers' protocol over the Postgres idempotency store: once a request has gone through
  and its answer is recorded, a retry with the same body replays the answer and one with another body
  is a conflict, at any later time; and what one issuer's keys record does not change another's.\<close>

theorem pg_retry_replays:
  assumes first: "idem_begin (\<lambda>rows. pg_idem_get issuer (Some rows)) (pg_idem_put_or_ignore pe issuer tm)
      decode want fp h now rows = (IdemProceed, rows1)"
    and json: "encode p = Some b" "decode b = Some p" and key: "fp_body_hash fp = ''''" "h \<noteq> ''''"
    and want: "want < 2 ^ 31"
    and finish: "rows2 = idem_finish (pg_idem_put_or_ignore pe issuer tm) encode want fp h now' p rows1"
  shows "idem_begin (\<lambda>rows. pg_idem_get issuer (Some rows)) (pg_idem_put_or_ignore pe issuer tm')
      decode want fp h now'' rows2 = (IdemReplay p, rows2) \<and>
    (\<forall>h'. h' \<noteq> h \<longrightarrow> idem_begin (\<lambda>rows. pg_idem_get issuer (Some rows)) (pg_idem_put_or_ignore pe issuer tm')
      decode want fp h' now'' rows2 = (IdemConflict, rows2)) \<and>
    (\<forall>issuer' fp'. issuer' \<noteq> issuer \<longrightarrow>
      pg_idem_get issuer' (Some rows2) fp' = pg_idem_get issuer' (Some rows) fp')"
proof (intro conjI allI impI)
  let ?get = "\<lambda>rows. pg_idem_get issuer (Some rows)"
  obtain meta where meta: "?get rows1 fp = Inr (Some meta)" "ir_body meta = h"
    using pg_istore.begin_pins [OF first _ key] by auto
  note st = pg_istore.finish_stores [OF json(1) key meta want finish]
  show "idem_begin ?get (pg_idem_put_or_ignore pe issuer tm') decode want fp h now'' rows2 = (IdemReplay p, rows2)"
    by (rule pg_istore.begin_replay [OF st(1) meta(2) st(2)]) (simp_all add: json(2) norm_idem_def)
  show "idem_begin ?get (pg_idem_put_or_ignore pe issuer tm') decode want fp h' now'' rows2 = (IdemConflict, rows2)"
    if "h' \<noteq> h" for h'
    by (rule pg_istore.begin_conflict [OF st(1)]) (use that meta(2) in simp)
  show "pg_idem_get issuer' (Some rows2) fp' = pg_idem_get issuer' (Some rows) fp'" if "issuer' \<noteq> issuer" for issuer' fp'
  proof -
    have put: "pg_idem_get issuer' (Some (pg_idem_put_or_ignore pe issuer tm rs f rec)) fp' = pg_idem_get issuer' (Some rs) fp'"
      for rs f rec using that by (simp add: pg_idem_put_or_ignore_def pg_idem_get_put split: sum.split)
    have "pg_idem_get issuer' (Some rows1) fp' = pg_idem_get issuer' (Some rows) fp'"
      using first put by (auto simp: idem_begin_def Let_def split: sum.splits option.splits if_splits)
    then show ?thesis by (simp add: finish idem_finish_def put split: option.split)
  qed
qed

text \<open>The first request of a key on the empty table, and its retry.\<close>

theorem pg_retry_replays_witness:
  "let fp = \<lparr>fp_key = ''k'', fp_subject = ''s'', fp_method = ''PUT'', fp_route = ''/r'', fp_body_hash = ''''\<rparr>;
       get = (\<lambda>rows. pg_idem_get ''iss'' (Some rows)); put = pg_idem_put_or_ignore demo_pg_env ''iss'';
       rows1 = snd (idem_begin get (put 1000) Some 200 fp ''h'' 1000 []);
       rows2 = idem_finish (put 1000) Some 200 fp ''h'' 1000 ''ok'' rows1
   in idem_begin get (put 2000) Some 200 fp ''h'' 2000 rows2 = (IdemReplay ''ok'', rows2)"
proof -
  let ?fp = "\<lparr>fp_key = ''k'', fp_subject = ''s'', fp_method = ''PUT'', fp_route = ''/r'', fp_body_hash = ''''\<rparr>"
  let ?get = "\<lambda>rows. pg_idem_get ''iss'' (Some rows)" and ?put = "pg_idem_put_or_ignore demo_pg_env ''iss''"
  let ?first = "idem_begin ?get (?put 1000) Some 200 ?fp ''h'' 1000 []"
  have "fst ?first = IdemProceed"
    by (simp add: idem_begin_def pg_idem_get_def Let_def pg_idem_put_or_ignore_def pg_idem_put_def upsert_idem_def
        cast_status_code_def upsert_row_def idem_row_key_def)
  then have "?first = (IdemProceed, snd ?first)" by (simp add: prod_eq_iff)
  from pg_retry_replays [OF this, of Some "''ok''" "''ok''" _ 1000 2000 2000]
  show ?thesis by (simp add: Let_def)
qed

end
