(* ===== verification/ApiMain.thy ===== *)
theory ApiMain
  imports JwtProperties AuthMiddleware PgMemberRepo PgScenario
begin

text \<open>
  The composition of the service in cmd/api/main.go: which authentication and which storage the
  environment selects, and under which issuer the repositories keep subjects. A result \<open>Inl\<close> is what
  \<open>log.Fatalf\<close> ends the process with. Opening the pool (internal/adapters/postgres/pool.go) is
  pgxpool's: its three calls are the fields of \<open>pool_lib\<close>. Listening, logging and shutdown are not
  modelled.
\<close>

section \<open>The connection pool\<close>

text \<open>The settings \<open>NewPool\<close> touches; the rest of pgxpool's configuration is in \<open>pc_rest\<close>.\<close>

record pool_config =
  pc_max_conn_lifetime :: duration
  pc_max_conn_idle_time :: duration
  pc_max_conns :: int
  pc_rest :: gostring

record pool_lib =
  pl_parse :: "gostring \<Rightarrow> gostring + pool_config"
  pl_connect :: "pool_config \<Rightarrow> gostring option"       \<comment> \<open>the text of the error, if any\<close>
  pl_ping :: "pool_config \<Rightarrow> gostring option"

definition NewPool :: "pool_lib \<Rightarrow> gostring \<Rightarrow> int \<Rightarrow> goerror + pool_config" where
  "NewPool pl dsn max_conns =
     (if dsn = '''' then Inl (OtherError ''postgres dsn is required'')
      else case pl_parse pl dsn of
          Inl e \<Rightarrow> Inl (OtherError (''parse postgres dsn: '' @ e))
        | Inr cfg \<Rightarrow>
            (let cfg = cfg\<lparr>pc_max_conn_lifetime := 30 * 60 * second, pc_max_conn_idle_time := 5 * 60 * second\<rparr>;
                 cfg = (if max_conns > 0 then cfg\<lparr>pc_max_conns := max_conns\<rparr> else cfg)
             in case pl_connect pl cfg of
                  Some e \<Rightarrow> Inl (OtherError (''connect postgres: '' @ e))
                | None \<Rightarrow>
                    (case pl_ping pl cfg of
                       Some e \<Rightarrow> Inl (OtherError (''ping postgres: '' @ e))
                     | None \<Rightarrow> Inr cfg)))"

section \<open>The set-up\<close>

text \<open>The environment maps an unset variable to the empty string, as \<open>os.Getenv\<close> does.\<close>

definition api_getenv :: "(gostring \<Rightarrow> gostring) \<Rightarrow> gostring \<Rightarrow> gostring \<Rightarrow> gostring" where
  "api_getenv env k dflt = (if env k \<noteq> '''' then env k else dflt)"

datatype auth_setup = DevAuth gostring | JwtAuth jwt_config

text \<open>A Postgres storage knows the issuer its member repository and idempotency store are given.\<close>

datatype storage_setup = PostgresStorage pool_config gostring | MemoryStorage

record api_setup =
  as_addr :: gostring
  as_auth :: auth_setup
  as_storage :: storage_setup

definition main_auth ::
    "(gostring \<Rightarrow> gostring + duration) \<Rightarrow> (gostring \<Rightarrow> gostring) \<Rightarrow> goerror + auth_setup \<times> gostring" where
  "main_auth parse env =
     (if api_getenv env ''AUTH_MODE'' ''jwt'' = ''dev''
      then Inr (DevAuth (api_getenv env ''DEV_SUBJECT'' ''dev|local''), api_getenv env ''DEV_ISSUER'' ''dev'')
      else case LoadJWTConfigFromEnv parse env of
             Inl e \<Rightarrow> Inl (OtherError (''invalid auth config: '' @ error_text e))
           | Inr cfg \<Rightarrow> Inr (JwtAuth cfg, cfg_issuer cfg))"

definition main_storage :: "pool_lib \<Rightarrow> (gostring \<Rightarrow> gostring) \<Rightarrow> gostring \<Rightarrow> goerror + storage_setup" where
  "main_storage pl env issuer =
     (if api_getenv env ''STORAGE_BACKEND'' ''memory'' = ''postgres''
      then case NewPool pl (env ''DATABASE_URL'') 0 of
             Inl e \<Rightarrow> Inl (OtherError (''invalid postgres config: '' @ error_text e))
           | Inr cfg \<Rightarrow> Inr (PostgresStorage cfg issuer)
      else Inr MemoryStorage)"

definition api_main ::
    "(gostring \<Rightarrow> gostring + duration) \<Rightarrow> pool_lib \<Rightarrow> (gostring \<Rightarrow> gostring) \<Rightarrow> goerror + api_setup" where
  "api_main parse pl env =
     and_then (main_auth parse env) (\<lambda>(auth, issuer).
     and_then (main_storage pl env issuer) (\<lambda>storage.
       Inr \<lparr>as_addr = '':'' @ api_getenv env ''PORT'' ''8080'', as_auth = auth, as_storage = storage\<rparr>))"

text \<open>The authentication middleware of the set-up, over the verifier's state.\<close>

definition setup_middleware ::
    "auth_setup \<Rightarrow> jwt_env \<Rightarrow> fetch \<Rightarrow> gotime \<Rightarrow> gotime \<Rightarrow> gotime \<Rightarrow> http_request \<Rightarrow> verifier \<Rightarrow> passage \<times> verifier" where
  "setup_middleware auth je f n1 n2 n3 r v =
     (case auth of DevAuth dflt \<Rightarrow> (NewDevAuthMiddleware dflt r, v)
      | JwtAuth cfg \<Rightarrow> NewAuthMiddleware je f n1 n2 n3 r v)"

section \<open>What a running service has\<close>

lemma NewPool_Inr:
  "NewPool pl dsn n = Inr cfg \<Longrightarrow> dsn \<noteq> '''' \<and> pl_connect pl cfg = None \<and> pl_ping pl cfg = None \<and>
    pc_max_conn_lifetime cfg = 30 * 60 * second \<and> pc_max_conn_idle_time cfg = 5 * 60 * second"
  by (auto simp: NewPool_def Let_def split: if_splits sum.splits option.splits)

lemma api_main_Inr:
  assumes "api_main parse pl env = Inr s"
  shows "as_auth s = DevAuth d \<Longrightarrow> env ''AUTH_MODE'' = ''dev'' \<and> d \<noteq> ''''"
    and "as_auth s = JwtAuth cfg \<Longrightarrow> env ''AUTH_MODE'' \<noteq> ''dev'' \<and> LoadJWTConfigFromEnv parse env = Inr cfg"
    and "as_storage s = PostgresStorage pool issuer \<Longrightarrow> env ''STORAGE_BACKEND'' = ''postgres'' \<and>
      NewPool pl (env ''DATABASE_URL'') 0 = Inr pool"
    and "as_auth s = JwtAuth cfg \<Longrightarrow> as_storage s = PostgresStorage pool issuer \<Longrightarrow> issuer = cfg_issuer cfg"
  using assms
  by (auto simp: api_main_def main_auth_def main_storage_def and_then_Inr api_getenv_def split: if_splits sum.splits)

section \<open>Whose row a request reads\<close>

lemma pg_member_get_by_subject_row:
  "pg_member_get_by_subject pe issuer (Some db) s = Inr row \<Longrightarrow>
   \<exists>m p. (m, p) \<in> set (members_left_join db) \<and> pm_subject_iss m = issuer \<and> pm_subject_sub m = s \<and> row = scanMember pe (m, p)"
proof -
  assume "pg_member_get_by_subject pe issuer (Some db) s = Inr row"
  then obtain x where x: "query_row (filter (\<lambda>(m, v). pm_subject_iss m = issuer \<and> pm_subject_sub m = s) (members_left_join db)) = Some x"
    and row: "row = scanMember pe x"
    by (simp add: pg_member_get_by_subject_def scan_row_def split: option.splits)
  obtain m p where "x = (m, p)" by fastforce
  then show ?thesis using query_row_Some [OF x] row by auto
qed

text \<open>C29: The identity of a deployment. When the process has come up with JWT authentication and Postgres
  storage, a request that its middleware lets through (other than for /healthz) carries a bearer token
  with a valid signature, whose issuer is the configured one and also the issuer the repositories keep
  subjects under; the subject the handlers see is the token's, and a member the repository finds for
  it is the row stored under exactly that token's issuer and subject.\<close>

theorem deployment_identity:
  assumes "api_main parse pl env = Inr s" and "as_auth s = JwtAuth cfg" and "as_storage s = PostgresStorage pool issuer"
    and "verifier_reachable je cfg v" and "hr_path r \<noteq> ''/healthz''"
    and "setup_middleware (as_auth s) je f n1 n2 n3 r v = (Next cx, v')"
  shows "\<exists>token h c input sig pub. hr_authorization r = ''Bearer '' @ token \<and>
    parseJWT je (trim_space token) = Some (h, c, input, sig) \<and>
    getKey v' (jh_kid h) = Some pub \<and> je_rsa je pub input sig \<and>
    jc_iss c = env ''JWT_ISSUER'' \<and> issuer = jc_iss c \<and> SubjectFromContext cx = Some (jc_sub c) \<and>
    (\<forall>row. pg_member_get_by_subject pe issuer (Some db) (jc_sub c) = Inr row \<longrightarrow>
       (\<exists>m p. (m, p) \<in> set (members_left_join db) \<and> pm_subject_iss m = jc_iss c \<and> pm_subject_sub m = jc_sub c \<and>
          row = scanMember pe (m, p)))"
proof -
  have loaded: "LoadJWTConfigFromEnv parse env = Inr cfg" and iss: "issuer = cfg_issuer cfg"
    using api_main_Inr(2) [OF assms(1,2)] api_main_Inr(4) [OF assms(1-3)] by blast+
  have mw: "NewAuthMiddleware je f n1 n2 n3 r v = (Next cx, v')"
    using assms(2,6) by (simp add: setup_middleware_def)
  from mw obtain token sub where token: "hr_authorization r = ''Bearer '' @ token"
    and ver: "Verify je f n1 n2 n3 (trim_space token) v = (Inr sub, v')"
    and cx: "cx = WithSubject (request_context r) sub"
  proof (cases rule: middleware_cases)
    case health
    show ?thesis using health(1) assms(5) by blast
  next
    case denied
    show ?thesis using denied(1) by (rule passage.distinct [symmetric, THEN notE])
  next
    case (verified rest sub)
    show ?thesis by (rule that [OF verified(1,2)]) (use verified(3) in simp)
  qed
  obtain h c input sig pub where parse: "parseJWT je (trim_space token) = Some (h, c, input, sig)"
    and m: "maybeRefresh je f n1 n2 (jh_kid h) v = (True, v')"
    and key: "getKey v' (jh_kid h) = Some pub" and rsa: "je_rsa je pub input sig"
    and claims: "validateClaims je (vf_cfg v') n3 c = None" and sub: "jc_sub c = sub" "sub \<noteq> ''''"
    using Verify_Inr [OF ver] by metis
  have "vf_cfg v' = cfg" using maybeRefresh_cfg [OF m] reachable_cache [OF assms(4)] by simp
  then have c: "jc_iss c = cfg_issuer cfg" using claims by (simp add: validateClaims_None aud_ok_def)
  have s: "SubjectFromContext cx = Some (jc_sub c)"
    using sub by (simp add: cx WithSubject_def request_context_def SubjectFromContext_def)
  have rows: "\<forall>row. pg_member_get_by_subject pe issuer (Some db) (jc_sub c) = Inr row \<longrightarrow>
      (\<exists>m p. (m, p) \<in> set (members_left_join db) \<and> pm_subject_iss m = jc_iss c \<and> pm_subject_sub m = jc_sub c \<and>
        row = scanMember pe (m, p))"
    using pg_member_get_by_subject_row iss c by metis
  have "jc_iss c = env ''JWT_ISSUER''" "issuer = jc_iss c" using loaded_config(1) [OF loaded] iss c by simp_all
  then show ?thesis using token parse key rsa s rows by blast
qed

text \<open>A deployment with both, and a member stored under the token's issuer and subject.\<close>

definition api_demo_environ :: "gostring \<Rightarrow> gostring" where
  "api_demo_environ k =
     (if k = ''JWT_ISSUER'' then ''iss'' else if k = ''JWT_AUDIENCE'' then ''aud''
      else if k = ''JWT_JWKS_URL'' then ''url'' else if k = ''STORAGE_BACKEND'' then ''postgres''
      else if k = ''DATABASE_URL'' then ''db'' else '''')"

definition api_demo_pool :: pool_config where
  "api_demo_pool = \<lparr>pc_max_conn_lifetime = 30 * 60 * second, pc_max_conn_idle_time = 5 * 60 * second,
     pc_max_conns = 4, pc_rest = ''db''\<rparr>"

definition api_demo_lib :: pool_lib where
  "api_demo_lib = \<lparr>pl_parse = (\<lambda>dsn. Inr (api_demo_pool\<lparr>pc_max_conn_lifetime := 0, pc_rest := dsn\<rparr>)),
     pl_connect = (\<lambda>_. None), pl_ping = (\<lambda>_. None)\<rparr>"

definition kim_db :: pg_db where
  "kim_db = pg_empty\<lparr>db_member_seq := 2, db_members := [ann_row\<lparr>pm_subject_sub := ''kim''\<rparr>]\<rparr>"

lemma api_demo_setup:
  "api_main (\<lambda>_. Inl ''never'') api_demo_lib api_demo_environ =
     Inr \<lparr>as_addr = '':8080'', as_auth = JwtAuth demo_jwt_config, as_storage = PostgresStorage api_demo_pool ''iss''\<rparr>"
  by code_simp

lemma kim_found: "\<exists>row. pg_member_get_by_subject demo_pg_env ''iss'' (Some kim_db) ''kim'' = Inr row"
  by (simp add: pg_member_get_by_subject_def kim_db_def pg_empty_def ann_row_def members_left_join_def
      join_profiles_def scan_row_def)

theorem deployment_identity_witness:
  "\<exists>c :: jwt_claims. jc_iss c = ''iss'' \<and> jc_sub c = ''kim'' \<and>
     (\<exists>m p. (m, p) \<in> set (members_left_join kim_db) \<and> pm_subject_iss m = jc_iss c \<and> pm_subject_sub m = jc_sub c)"
proof -
  have path: "hr_path AuthMiddleware.demo_request \<noteq> ''/healthz''" by (simp add: AuthMiddleware.demo_request_def)
  have mw: "setup_middleware (JwtAuth demo_jwt_config) demo_je (Fetched 200 (Some ''K'')) demo_time demo_time demo_time
      AuthMiddleware.demo_request (new_verifier demo_jwt_config) = (Next (demo_cx ''kim''), demo_verifier)"
    by (simp add: setup_middleware_def demo_middleware)
  from deployment_identity [OF api_demo_setup _ _ verifier_reachable.fresh path, of demo_jwt_config api_demo_pool "''iss''"
      demo_je "Fetched 200 (Some ''K'')" demo_time demo_time demo_time "demo_cx ''kim''" demo_verifier demo_pg_env kim_db]
  obtain c :: jwt_claims where c: "jc_iss c = ''iss''" "SubjectFromContext (demo_cx ''kim'') = Some (jc_sub c)"
    and rows: "\<forall>row. pg_member_get_by_subject demo_pg_env ''iss'' (Some kim_db) (jc_sub c) = Inr row \<longrightarrow>
      (\<exists>m p. (m, p) \<in> set (members_left_join kim_db) \<and> pm_subject_iss m = jc_iss c \<and> pm_subject_sub m = jc_sub c \<and>
         row = scanMember demo_pg_env (m, p))"
    by (auto simp: mw)
  have "SubjectFromContext (demo_cx ''kim'') = Some ''kim''" by code_simp
  then have kim: "jc_sub c = ''kim''" using c by simp
  then show ?thesis using c rows kim_found by fastforce
qed

end
