(* ===== verification/Divergences.thy ===== *)
theory Divergences
  imports MemberProperties TripProperties
begin

text \<open>
  Places where the code does something else than its comments or its own other paths say, shown on
  reachable states or for all inputs. The races and the clock overflow are in theories RsvpRace,
  JwtProperties and JwtRefresh.
\<close>

definition clear_capacity :: update_trip_input where
  "clear_capacity = \<lparr>ut_name = Unspecified, ut_description = Unspecified, ut_start_date = Unspecified,
     ut_end_date = Unspecified, ut_capacity_rigs = Null, ut_difficulty_text = Unspecified,
     ut_meeting_location = Unspecified, ut_comms_requirements_text = Unspecified,
     ut_recommended_requirements_text = Unspecified, ut_artifact_ids = Unspecified\<rparr>"

definition cleared_world :: world where
  "cleared_world = snd (UpdateTrip demo_env (demo_world 7) ''a'' ''t1'' clear_capacity 10)"

text \<open>An organizer can take the capacity away from a published trip, although capacity is documented as
  required there; the member who had answered YES can then no longer withdraw.\<close>

lemma published_capacity_cleared:
  "\<not> isl (fst (UpdateTrip demo_env (demo_world 7) ''a'' ''t1'' clear_capacity 10)) \<and>
   fst (SetMyRSVP cleared_world ''b'' ''t1'' No 11 12) =
     Inl (trips_conflict ''TRIP_MISSING_CAPACITY'' ''published trip must have capacity to accept rsvps'') \<and>
   rsvp_count_yes_by_trip (w_rsvps cleared_world) ''t1'' = 1"
proof (intro conjI)
  show "\<not> isl (fst (UpdateTrip demo_env (demo_world 7) ''a'' ''t1'' clear_capacity 10))" by code_simp
  show "fst (SetMyRSVP cleared_world ''b'' ''t1'' No 11 12) =
     Inl (trips_conflict ''TRIP_MISSING_CAPACITY'' ''published trip must have capacity to accept rsvps'')" by code_simp
  show "rsvp_count_yes_by_trip (w_rsvps cleared_world) ''t1'' = 1" by code_simp
qed

text \<open>The group alias of a new profile is stored as given, neither trimmed nor checked, while an update
  trims it and rejects what is not an address.\<close>

lemma create_keeps_any_alias:
  assumes "CreateMyMember env r sub inp now i = Inr (m, r')"
  shows "m_group_alias_email m = cm_group_alias_email inp"
  using assms
  by (cases "ensureEmailUnique env r (trim_space (cm_email inp)) []")
    (auto simp: CreateMyMember_def toDomain_def Let_def split: sum.splits if_splits option.splits)

lemma update_checks_alias:
  "isl (UpdateMyMemberProfile demo_env (w_members (demo_world 2)) ''sa''
     \<lparr>um_display_name = Unspecified, um_email = Unspecified, um_group_alias_email = Specified ''nobody'',
      um_vehicle_profile = Unspecified\<rparr> 9)"
  by code_simp

text \<open>Reordering accepts an artifact ID any number of times, and the trip then holds copies of it.\<close>

lemma reorder_repeats:
  "reorderArtifactsByID [a] [art_id a, art_id a] = Inr [a, a]"
  by (simp add: reorderArtifactsByID_def)

end
