(* ===== verification/Spec2Isabelle.thy ===== *)
theory Spec2Isabelle
  imports TripProperties TripResults RsvpRace MemberProperties OasProperties OasResponses JwtRefresh
    PgRefinement ApiMain Divergences
begin

text \<open>
  \<^bold>\<open>Verification library of the East Bay Overland rally planner backend\<close>

  The program is an HTTP API in Go with which members of a club plan trips. A request passes the
  authentication middleware, the generated router and parameter binder, a handler with its
  idempotency protocol, one of two application services, and a repository. This library models
  these layers one by one, composes them the way the code does, and states what each promises.

  \<^bold>\<open>Layers and theories\<close>

  \<^item> The language: \<open>Prelude\<close> (results of fallible functions, Go maps as association lists,
    \<open>sort.Slice\<close>, the shared locales), \<open>GoText\<close> (byte strings, UTF-8, \<open>strings\<close>, \<open>fmt\<close>), \<open>GoTime\<close>
    (instants, durations, the wrap-around and saturation of \<open>time.Time\<close>, calendar dates), \<open>Base64\<close>
    (\<open>RawURLEncoding\<close>, \<open>strings.Split\<close>, big-endian integers).
  \<^item> The data: \<open>Domain\<close> (internal/domain, the record types of internal/ports/out, the error types of
    the services).
  \<^item> The stores: \<open>MemberRepo\<close>, \<open>TripRepo\<close>, \<open>RsvpRepo\<close>, \<open>IdemStore\<close> (internal/adapters/memory), each a
    record of its Go maps with one function per method. A mutex makes a method atomic, so a method is
    a function of the state. The ports are locales (\<open>member_repository\<close>, \<open>keyed_store\<close>,
    \<open>idempotency_store\<close>), interpreted on these stores.
  \<^item> The Postgres stores: \<open>PgTables\<close> (UUIDs, server errors, the tables of src/migrations as records, what
    queries, updates and upserts do to lists of rows), \<open>PgMemberRepo\<close>, \<open>PgRsvpRepo\<close>, \<open>PgTripRepo\<close>,
    \<open>PgIdemStore\<close> (internal/adapters/postgres: every method with its statements, and the constraints
    and triggers that act on them). \<open>PgTripInv\<close> and \<open>PgState\<close> hold the invariant of the database,
    \<open>pg_ok\<close>, kept by every call (\<open>pg_exec\<close>), hence true of every database the calls reach
    (\<open>pg_reachable\<close>); \<open>PgSafety\<close> the life cycle and attendance, \<open>PgTyped\<close> the types of the columns,
    \<open>PgTripRefine\<close>, \<open>PgTripLists\<close>, \<open>PgTripSave\<close>, \<open>PgReads\<close> the tables read as the in-memory
    repositories, \<open>PgRsvpRace\<close> and \<open>PgRsvpService\<close> the method \<open>SetMyRSVP\<close> as the calls it makes;
    \<open>PgScenario\<close> and \<open>PgRaceScenario\<close> a concrete environment and run.
  \<^item> The member service: \<open>MembersSvc\<close> (internal/app/members/service.go).
  \<^item> The trip service: \<open>TripsCore\<close> (visibility, patches, publishing checklist, announcement),
    \<open>TripsSvc\<close> (the queries), \<open>TripsCmd\<close> (the eight methods that write), all of
    internal/app/trips/service.go over the \<open>world\<close>, the record of the three repositories.
  \<^item> The planner: \<open>Planner\<close> is the state machine whose steps are the writing methods of both services;
    \<open>reachable\<close> are its states from empty repositories. \<open>TripsInv\<close> holds its invariant and the
    preservation by every method, \<open>TripsMethods\<close> the contract all methods share (locales
    \<open>caller_method\<close> and \<open>trip_method\<close>, interpreted on every method), \<open>TripsRsvp\<close> the refinement of
    \<open>SetMyRSVP\<close> by the set of attendees, \<open>Failures\<close> the errors of each operation.
  \<^item> The HTTP adapter: \<open>Oas\<close> (transport types of oas/api.gen.go and the conversions of
    internal/adapters/httpapi/server.go), \<open>HttpServer\<close> (its eighteen handlers, written out),
    \<open>HttpPipeline\<close> (the handlers as one pipeline, and the proof that they are), \<open>HttpInv\<close> and \<open>HttpIdem\<close>
    (library: admission, the operation a request stands for, the life of an idempotency key).
  \<^item> Authentication: \<open>JwtVerifier\<close> (internal/platform/auth/jwtverifier and internal/platform/config),
    \<open>JwtInv\<close> (its library), \<open>JwtRefresh\<close> (the key refresh as interleaved goroutines), \<open>DevJwt\<close>
    (cmd/devjwt, the token issuer for development), \<open>AuthMiddleware\<close> (auth_middleware.go, errors.go,
    context.go) composed with the handlers.
  \<^item> The generated server: \<open>OasServer\<close> (routing table, parameter binding and body decoding of
    oas/api.gen.go, wired as in router.go) up to \<open>ServeHTTP\<close> from the raw request to the response;
    \<open>OasResponses\<close> (the response objects of each operation and their \<open>Visit...\<close> methods).
  \<^item> The process: \<open>ApiMain\<close> (cmd/api/main.go and postgres/pool.go: the authentication and storage the
    environment selects, and the issuer both share).

  \<^bold>\<open>What is shown\<close>

  \<^item> Trips (\<open>TripProperties\<close>, \<open>TripResults\<close>): the attendance counter is the number of YES answers and
    never exceeds the capacity; a trip moves only forward through its life cycle; who may change and
    who may see it, with hidden trips indistinguishable from missing ones; what publishing, updating,
    removing organizers and repeated calls do; listings agree with details; failures have no effect.
  \<^item> \<open>RsvpRace\<close>: the same method as a sequence of repository calls. Alone it is \<open>SetMyRSVP\<close>; two of
    them interleaved can overbook a trip, so the sequential invariant does not survive concurrency.
  \<^item> Postgres (\<open>PgProperties\<close>, \<open>PgRefinement\<close>): any number of \<open>SetMyRSVP\<close> calls at once seat no more than
    the capacity, their statements interleaved in any order; what is read has the types and
    references of the domain, and its attendance is that of the read's last statement; a trip keeps its identity and stays canceled; saving, organizers,
    listings, answers, members and idempotency keys behave as in memory, with the differences stated;
    \<open>SetMyRSVP\<close> alone gives the same answer over both stores.
  \<^item> Members (\<open>MemberProperties\<close>): uniqueness in the directory, joining, editing, listing, searching,
    and name normalisation over arbitrary byte strings.
  \<^item> Requests (\<open>HttpProperties\<close>): the server refines the planner; every answer is
    written by a response object the API documents for the operation;
    retrying under an idempotency key replays the answer; a key is bound to its first body and private
    to its subject.
  \<^item> Tokens (\<open>JwtProperties\<close>, \<open>JwtRefresh\<close>, \<open>AuthMiddleware\<close>): what an accepted token proves; the
    verifier accepts what the development issuer mints; the exact range of the clock checks; the rate
    of key fetches; at most one refresh in flight, no call that hangs; nobody reaches a handler's data
    without a verified subject.
  \<^item> Raw requests (\<open>OasProperties\<close>): every documented request is served by its handler, and end to end no
    request changes anything without a verified token and a success status; what every raw request
    is answered with, by where it is routed.
  \<^item> \<open>ApiMain\<close>: with JWT authentication and Postgres storage, the row a request reads as its member is
    the one stored under its own token's issuer and subject.
  \<^item> \<open>Divergences\<close>: where the code and its comments, or two paths of the code, disagree.

  \<^bold>\<open>Arguments and hypotheses\<close>

  Code outside the sources is an argument: the Unicode tables and \<open>net/mail\<close> (\<open>go_env\<close>), JSON and
  SHA-256 (\<open>json_env\<close>), JSON, RSA and \<open>time.ParseDuration\<close> for tokens (\<open>jwt_env\<close>, \<open>dev_env\<close>), chi, the
  parameter binders and body decoders (\<open>glue_env\<close>), the key server's answer (\<open>fetch\<close>), opening
  a pool (\<open>pool_lib\<close>), and what Postgres and the UUID package decide (\<open>pg_env\<close>: parsing and printing of
  UUIDs, the precision of a timestamp, lower case, collation, \<open>citext\<close>, error texts). \<open>pg_env_ok\<close> is what the proofs use of the last:
  a printed UUID parses to itself and printing keeps the order, rounding a time twice is rounding it
  once, and a reported constraint is a violated one. Clock readings
  and generated IDs are arguments of the operation that takes them and otherwise arbitrary. Where a
  property needs more of them it says so: digests exist and are not empty, the codec reads back the
  response it wrote (\<open>retry_replays\<close>), JSON reads back what the issuer wrote (\<open>json_agrees\<close>), the
  router follows its documented rules (\<open>routes_like_chi\<close>). Each has a concrete instance beside it.

  Recursion is structural or has a measure, and nothing uses fuel: \<open>SetMyRSVP\<close> takes five repository
  calls, eight statements and transactions over Postgres, and a run of \<open>n\<close> refreshing goroutines at most \<open>4 n\<close> steps, both proved. \<open>int64\<close> values wrap
  where the code converts or negates them (\<open>wrap64\<close>); trip capacities and counts are Go \<open>int\<close>s that the
  code only compares and changes by one per stored RSVP, and are integers here.

  \<^bold>\<open>Not modelled\<close>

  \<^item> In cmd/api/main.go listening, logging and shutdown; strict_unimplemented.go, whose
    methods are all overridden; the clocks, whose readings are arguments.
  \<^item> Inside Postgres: a statement outside a transaction is one step, and so is a transaction. Every method
    is one or the other, except \<open>GetByID\<close> of the trip repository: four statements in no transaction,
    each with a database of its own in \<open>pg_trip_read\<close> and a step of its own in \<open>pg_rsvp_step\<close>
    (\<open>pg_trip_get\<close> is the call with no write in between, as in the other theorems on reads). \<open>Save\<close>
    updates the trip's row first and the trigger on RSVPs locks it (\<open>FOR UPDATE\<close>), so writes to one
    trip follow each other; connections lost after start-up and \<open>expires_at\<close> are left out, as are the
    down migrations and the backfill of the creator column. \<open>List\<close> and the search order by the database's
    collation, an argument.
  \<^item> Concurrency of the handlers beyond \<open>SetMyRSVP\<close> and the key refresh: a request otherwise runs as one
    step. The text of a JSON response, HTTP framing and chi's own middlewares.
  \<^item> Tests, deployment files and scripts.
\<close>

end
